(* ===== verification/Prelude.thy ===== *)
theory Prelude
  imports Main "HOL-Library.Char_ord" "HOL-Library.List_Lexorder"
begin

text \<open>
  Shared vocabulary of the development: results that carry an exception, JavaScript values
  and the truthiness of optional strings, the JSON quoting of strings, and the generic facts
  on lists, options and results that the component theories use.

  A JavaScript string is a list of code units; the model's \<open>char\<close> holds the code units below
  256. A number is an integer (timestamps, counters) where the code never sees another value,
  and \<open>jsnum\<close> where the code tests \<open>Number.isFinite\<close>.
\<close>

named_theorems result_simps

section \<open>Results: an error or a value\<close>

text \<open>An exception thrown by the code is \<open>Inl\<close>; \<open>rbind\<close> is the sequence of two statements.\<close>

definition rbind :: "'e + 'a \<Rightarrow> ('a \<Rightarrow> 'e + 'b) \<Rightarrow> 'e + 'b" where
  "rbind m f = (case m of Inl e \<Rightarrow> Inl e | Inr x \<Rightarrow> f x)"

lemma rbind_Inl [simp]: "rbind (Inl e) f = Inl e"
  by (simp add: rbind_def)

lemma rbind_Inr [simp]: "rbind (Inr x) f = f x"
  by (simp add: rbind_def)

lemma rbind_eq_Inr [result_simps]:
  "rbind m f = Inr y \<longleftrightarrow> (\<exists>x. m = Inr x \<and> f x = Inr y)"
  by (cases m) auto

lemma rbind_eq_Inl [result_simps]:
  "rbind m f = Inl e \<longleftrightarrow> m = Inl e \<or> (\<exists>x. m = Inr x \<and> f x = Inl e)"
  by (cases m) auto

lemma rbind_InrE:
  assumes "rbind m f = Inr y"
  obtains x where "m = Inr x" "f x = Inr y"
  using assms by (auto simp: result_simps)

fun rmap :: "('a \<Rightarrow> 'e + 'b) \<Rightarrow> 'a list \<Rightarrow> 'e + 'b list" where
  "rmap f [] = Inr []"
| "rmap f (x # xs) = rbind (f x) (\<lambda>y. rbind (rmap f xs) (\<lambda>ys. Inr (y # ys)))"

lemma rmap_Inr: "\<forall>x \<in> set xs. f x = Inr (g x) \<Longrightarrow> rmap f xs = Inr (map g xs)"
  by (induction xs) auto

definition rmap_option :: "('a \<Rightarrow> 'e + 'b) \<Rightarrow> 'a option \<Rightarrow> 'e + 'b option" where
  "rmap_option f x = (case x of None \<Rightarrow> Inr None | Some y \<Rightarrow> rbind (f y) (\<lambda>z. Inr (Some z)))"

lemma rmap_option_simps [simp]:
  "rmap_option f None = Inr None"
  "rmap_option f (Some y) = rbind (f y) (\<lambda>z. Inr (Some z))"
  by (simp_all add: rmap_option_def)

section \<open>JavaScript values\<close>

datatype jsnum = Fin int | NonFinite

definition is_finite :: "jsnum \<Rightarrow> bool" where
  "is_finite n = (case n of Fin _ \<Rightarrow> True | NonFinite \<Rightarrow> False)"

text \<open>
  A value of type \<open>unknown\<close>. Objects keep their own enumerable properties in insertion
  order; \<open>JOpaque\<close> is any value that is neither a JSON value nor \<open>undefined\<close> (functions,
  symbols, bigints and objects of another prototype, such as \<open>Date\<close> or \<open>Map\<close>).
\<close>

datatype js =
    JUndef
  | JNull
  | JBool bool
  | JNum jsnum
  | JStr string
  | JArr "js list"
  | JObj "(string \<times> js) list"
  | JOpaque nat

type_synonym js_object = "(string \<times> js) list"

text \<open>Property access \<open>object[key]\<close>: a missing key reads as \<open>undefined\<close>.\<close>

definition js_get :: "js_object \<Rightarrow> string \<Rightarrow> js" where
  "js_get obj key = (case map_of obj key of None \<Rightarrow> JUndef | Some v \<Rightarrow> v)"

text \<open>The spread \<open>{...object, key: value}\<close>: an existing key keeps its place.\<close>

fun js_set :: "js_object \<Rightarrow> string \<Rightarrow> js \<Rightarrow> js_object" where
  "js_set [] k v = [(k, v)]"
| "js_set ((k', v') # obj) k v = (if k' = k then (k, v) # obj else (k', v') # js_set obj k v)"

lemma js_get_js_set: "js_get (js_set obj k v) k' = (if k' = k then v else js_get obj k')"
  by (induction obj) (auto simp: js_get_def)

definition is_js_string :: "js \<Rightarrow> bool" where
  "is_js_string v = (case v of JStr _ \<Rightarrow> True | _ \<Rightarrow> False)"

text \<open>
  The truthiness of an optional string: \<open>undefined\<close> and the empty string are both absent,
  as in \<open>value ? ... : ...\<close>. The operator \<open>??\<close> keeps the empty string and is a plain
  \<open>case\<close> in the model.
\<close>

definition truthy :: "string option \<Rightarrow> string option" where
  "truthy s = (case s of None \<Rightarrow> None | Some t \<Rightarrow> if t = [] then None else Some t)"

lemma truthy_None [simp]: "truthy None = None"
  by (simp add: truthy_def)

lemma truthy_Some [simp]: "truthy (Some t) = (if t = [] then None else Some t)"
  by (simp add: truthy_def)

lemma truthy_eq_Some [simp]: "truthy s = Some t \<longleftrightarrow> s = Some t \<and> t \<noteq> []"
  by (auto simp: truthy_def split: option.splits)

lemma truthy_eq_None: "truthy s = None \<longleftrightarrow> s = None \<or> s = Some []"
  by (auto simp: truthy_def split: option.splits)

definition non_empty :: "string \<Rightarrow> bool" where
  "non_empty s = (s \<noteq> [])"

section \<open>Strings\<close>

text \<open>\<open>String.prototype.trim\<close> removes these code units (below 256) at both ends.\<close>

definition js_space :: "char \<Rightarrow> bool" where
  "js_space c = (of_char c \<in> {9, 10, 11, 12, 13, 32, 160 :: nat})"

definition trim_with :: "(char \<Rightarrow> bool) \<Rightarrow> string \<Rightarrow> string" where
  "trim_with p s = rev (dropWhile p (rev (dropWhile p s)))"

definition js_trim :: "string \<Rightarrow> string" where
  "js_trim = trim_with js_space"

lemma trim_with_eq_Nil [simp]: "trim_with p s = [] \<longleftrightarrow> list_all p s"
proof -
  have "trim_with p s = [] \<longleftrightarrow> (\<forall>x \<in> set (dropWhile p s). p x)"
    by (simp add: trim_with_def dropWhile_eq_Nil_conv)
  also have "\<dots> \<longleftrightarrow> (\<forall>x \<in> set s. p x)"
    by (induction s) auto
  finally show ?thesis by (simp add: list_all_iff)
qed

text \<open>The JSON text of a string, as \<open>JSON.stringify\<close> writes it.\<close>

definition hex_digit :: "nat \<Rightarrow> char" where
  "hex_digit n = (if n < 10 then char_of (48 + n) else char_of (87 + n))"

definition json_escape :: "char \<Rightarrow> string" where
  "json_escape c =
     (let n = of_char c :: nat in
      if n = 34 then [CHR 0x5C, CHR 0x22]
      else if n = 92 then [CHR 0x5C, CHR 0x5C]
      else if n = 8 then [CHR 0x5C, CHR ''b'']
      else if n = 9 then [CHR 0x5C, CHR ''t'']
      else if n = 10 then [CHR 0x5C, CHR ''n'']
      else if n = 12 then [CHR 0x5C, CHR ''f'']
      else if n = 13 then [CHR 0x5C, CHR ''r'']
      else if n < 32 then [CHR 0x5C, CHR ''u'', CHR ''0'', CHR ''0'', hex_digit (n div 16), hex_digit (n mod 16)]
      else [c])"

text \<open>\<open>Array.prototype.join\<close>.\<close>

fun js_join :: "string \<Rightarrow> string list \<Rightarrow> string" where
  "js_join sep [] = []"
| "js_join sep [s] = s"
| "js_join sep (s # t # ss) = s @ sep @ js_join sep (t # ss)"

definition json_quote :: "string \<Rightarrow> string" where
  "json_quote s = CHR 0x22 # concat (map json_escape s) @ [CHR 0x22]"

section \<open>Lists\<close>

text \<open>
  A JavaScript \<open>Map\<close> of lists, filled by \<open>map.set(k, [...(map.get(k) ?? []), x])\<close>: keys stay
  in the order of their first insertion.
\<close>

fun assoc_append :: "'k \<Rightarrow> 'a \<Rightarrow> ('k \<times> 'a list) list \<Rightarrow> ('k \<times> 'a list) list" where
  "assoc_append k x [] = [(k, [x])]"
| "assoc_append k x ((k', xs) # al) =
     (if k' = k then (k', xs @ [x]) # al else (k', xs) # assoc_append k x al)"

lemma filter_swap: "filter p (filter q xs) = filter q (filter p xs)"
  by (induction xs) auto

lemma filter_id_iff: "filter p xs = xs \<longleftrightarrow> (\<forall>x \<in> set xs. p x)"
  by (induction xs) (auto, metis filter_id_conv list.set_intros(2) set_filter mem_Collect_eq)

lemma sorted_wrt_filter_map:
  "sorted_wrt (<) (map f xs) \<Longrightarrow> sorted_wrt (<) (map f (filter p xs))"
  for f :: "'a \<Rightarrow> 'b::linorder"
  by (induction xs) auto

lemma find_eq_filter: "find p xs = (case filter p xs of [] \<Rightarrow> None | x # _ \<Rightarrow> Some x)"
  by (induction xs) auto

lemma find_SomeD: "find p xs = Some x \<Longrightarrow> x \<in> set xs \<and> p x"
  by (auto simp: find_Some_iff)

lemma distinct_map_filterI: "distinct (map f xs) \<Longrightarrow> distinct (map f (filter p xs))"
  by (induction xs) auto

lemma distinct_map_unique:
  "distinct (map f xs) \<Longrightarrow> x \<in> set xs \<Longrightarrow> y \<in> set xs \<Longrightarrow> f x = f y \<Longrightarrow> x = y"
  by (simp add: distinct_map inj_on_def)

lemma distinct_map_others:
  assumes "distinct (map f (xs @ k # ys))" "j \<in> set xs \<or> j \<in> set ys"
  shows "f j \<noteq> f k"
proof -
  have "f k \<notin> f ` (set xs \<union> set ys)" using assms(1) by auto
  with assms(2) show ?thesis by (metis UnI1 UnI2 imageI)
qed

lemma find_split:
  assumes "find p xs = Some x"
  shows "\<exists>ys zs. xs = ys @ x # zs \<and> (\<forall>y \<in> set ys. \<not> p y)"
  using assms
proof (induction xs)
  case (Cons y ys)
  then show ?case
    by (cases "p y") (fastforce intro: exI [of _ "[]"], metis append_Cons find.simps(2) set_ConsD)
qed simp

lemma find_append_None: "\<forall>x \<in> set xs. \<not> p x \<Longrightarrow> find p (xs @ ys) = find p ys"
  by (induction xs) auto

end
