(* ===== verification/QueueTypes.thy ===== *)
theory QueueTypes
  imports Prelude
begin

text \<open>
  The data of the Session queue
  (\<open>packages/local-runtime-v2/src/service/session-system/queue\<close>): messages, items, the
  facts a committed operation publishes (\<open>repo/contract.ts\<close>), the validity of stored items
  (\<open>repo/codec.ts\<close>), admission checks (\<open>repo/policy.ts\<close>) and the routing identity of an
  item (\<open>routing.ts\<close>).

  A union of string literals is a datatype, an interface a record; its fields carry a prefix
  because record fields of one theory share a name space. The checks of the codec that the
  record types already guarantee (a field is a string, a boolean) are not repeated.
\<close>

section \<open>Messages and items\<close>

datatype queue_source =
    Api | Cron | Task | BackgroundTask | Team | ThreadGoal | Questionnaire | Communication
  | CodeReview | Greeting | ChannelWechat | ChannelFeishu | ChannelTelegram

fun source_name :: "queue_source \<Rightarrow> string" where
  "source_name Api = ''api''"
| "source_name Cron = ''cron''"
| "source_name Task = ''task''"
| "source_name BackgroundTask = ''background-task''"
| "source_name Team = ''team''"
| "source_name ThreadGoal = ''thread-goal''"
| "source_name Questionnaire = ''questionnaire''"
| "source_name Communication = ''communication''"
| "source_name CodeReview = ''code_review''"
| "source_name Greeting = ''greeting''"
| "source_name ChannelWechat = ''channel:wechat''"
| "source_name ChannelFeishu = ''channel:feishu''"
| "source_name ChannelTelegram = ''channel:telegram''"

lemma source_name_inject: "source_name a = source_name b \<Longrightarrow> a = b"
  by (cases a; cases b) simp_all

datatype item_status = Queued | Claimed

datatype attachment_type = FileAttachment | ImageAttachment

record queue_attachment =
  a_type :: attachment_type
  a_filePath :: string
  a_fileName :: string
  a_mimeType :: string
  a_dataUrl :: "string option"
  a_assetId :: "string option"
  a_error :: "string option"

record quoted_message =
  quoted_text :: string
  quoted_senderName :: "string option"

record queue_message =
  m_content :: string
  m_attachments :: "queue_attachment list"
  m_inputSafetyDecision :: "js option"
  m_displayAttachments :: "js_object list option"
  m_hideUserMessage :: "bool option"
  m_displayContent :: "string option"
  m_clientIntent :: "string option"
  m_queueItemId :: "string option"
  m_source :: "string option"
  m_origin :: "js option"
  m_quotedMessage :: "quoted_message option"
  m_channelContext :: "js_object option"

datatype parameter_context = DefaultParameter | SelectionParameter | LegacyParameter

record queue_model =
  o_parameterSnapshot :: "(parameter_context \<times> parameter_context) option"
  o_reasoning :: "bool option"
  o_context_limit :: "jsnum option"
  o_provider_id :: "string option"
  o_model_id :: "string option"
  o_variant :: "string option"
  o_thinking :: "string option option"

record routing_provenance =
  p_source :: queue_source
  p_routingFingerprint :: string
  p_sourceContext :: "js_object option"

record batch_member =
  bm_message :: queue_message
  bm_userMessageId :: string
  bm_sourceMessageId :: "string option"
  bm_messageKey :: string
  bm_unconsumedFromTurnIds :: "string list option"
  bm_unstartedFromTurnIds :: "string list option"
  bm_queueClaim :: "(string \<times> string) option"
  bm_createdAt :: jsnum
  bm_provenance :: routing_provenance
  bm_model :: "queue_model option"

record immediate_send_batch =
  b_id :: string
  b_members :: "batch_member list"

record delivery_attempt =
  at_claimId :: string
  at_turnId :: string

record queue_item =
  i_deliveryAttempts :: "delivery_attempt list option"
  i_immediateSendBatch :: "immediate_send_batch option"
  i_itemId :: string
  i_userMessageId :: "string option"
  i_requestedTurnId :: "string option"
  i_sessionId :: string
  i_agentName :: string
  i_source :: queue_source
  i_status :: item_status
  i_message :: queue_message
  i_channelContext :: "js_object option"
  i_model :: "queue_model option"
  i_createdAt :: int
  i_clientRequestId :: "string option"
  i_dedupeKey :: "string option"
  i_expiresAt :: "int option"
  i_claimId :: "string option"
  i_claimedAt :: "int option"
  i_claimOwnerId :: "string option"
  i_claimLeaseExpiresAt :: "int option"

section \<open>Inputs, results and facts of the repository\<close>

record session_ref =
  s_sessionId :: string
  s_agentName :: string

text \<open>\<open>e_front\<close> is \<open>queuePlacement === 'front'\<close>; any other value is ruled out by the type.\<close>

record enqueue_input =
  e_immediateSendBatch :: "immediate_send_batch option"
  e_createdAt :: "jsnum option"
  e_session :: session_ref
  e_itemId :: "string option"
  e_userMessageId :: "string option"
  e_requestedTurnId :: "string option"
  e_message :: queue_message
  e_source :: "queue_source option"
  e_front :: bool
  e_model :: "queue_model option"
  e_clientRequestId :: "string option"
  e_dedupeKey :: "string option"
  e_expiresAt :: "jsnum option"

datatype pause_cause = UserStop | TurnFinalFailure

record queue_pause =
  pause_cause :: pause_cause
  pause_triggerTurnId :: string
  pause_pausedAtMs :: int

record execution_snapshot =
  snap_pendingCount :: nat
  snap_pause :: "queue_pause option"

datatype admission_rejection = SessionNotFound | MaintenanceActive

datatype admission_reason =
    PolicyReason string | InvalidSession | UnsupportedRuntime | IngressConflict | DuplicateIngress

datatype removal_reason =
    Cancelled | Expired | Accepted | Injected | ComposerTransferred | AdmissionRejected

datatype queue_fact =
    Removed string string removal_reason "admission_reason option" int
  | Enqueued string string queue_source "string option" int
  | Requeued string string queue_source "string option" int "admission_reason option"
  | ExecutionStateChanged string bool

text \<open>The model argument of an update: absent, \<open>null\<close> (clear it) or a new override.\<close>

datatype model_update = KeepModel | ClearModel | SetModel queue_model

record update_input =
  u_sessionId :: string
  u_itemId :: string
  u_message :: "queue_message option"
  u_model :: model_update
  u_expiresAt :: "jsnum option"

record claim_input =
  ci_sessionId :: string
  ci_itemId :: "string option"
  ci_continuePaused :: bool
  ci_excludeItemIds :: "string list option"
  ci_allowedSources :: "queue_source list option"
  ci_nowMs :: "int option"

datatype claim_selection = SelFifo | SelExact | SelContinuedFifo

record dispatch_item =
  d_claimId :: string
  d_sessionId :: string
  d_source :: queue_source
  d_claimOwnerId :: string
  d_claimLeaseExpiresAt :: int
  d_selection :: claim_selection
  d_item :: queue_item
  d_message :: queue_message
  d_clientRequestId :: "string option"
  d_provenance :: routing_provenance

record acceptance_query =
  aq_sessionId :: string
  aq_claimId :: string
  aq_source :: queue_source
  aq_queueItemIds :: "string list"
  aq_turnId :: "string option"

datatype queue_error =
    QueueDataCorruptionError string string
  | QueueClaimNotFoundError string string
  | QueueClaimNotAcceptedError string string "string option"
  | QueueEnqueueAdmissionError string admission_rejection
  | UniqueConstraintError string string
  | QueueTypeError string
  | QueueLookupError string
  | QueueDeliveryConflictError string

type_synonym 'a qresult = "queue_error + 'a"

section \<open>Which stored items are well formed\<close>

text \<open>\<open>isUserMessageId\<close>: the regular expression \<open>^msg-user-v1-[A-Za-z0-9_-]+$\<close>.\<close>

definition base64url_char :: "char \<Rightarrow> bool" where
  "base64url_char c =
     (let n = of_char c :: nat in
      (65 \<le> n \<and> n \<le> 90) \<or> (97 \<le> n \<and> n \<le> 122) \<or> (48 \<le> n \<and> n \<le> 57) \<or> n = 95 \<or> n = 45)"

definition isUserMessageId :: "string \<Rightarrow> bool" where
  "isUserMessageId s =
     (take 12 s = ''msg-user-v1-'' \<and> drop 12 s \<noteq> [] \<and> list_all base64url_char (drop 12 s))"

definition lower_hex_char :: "char \<Rightarrow> bool" where
  "lower_hex_char c =
     (let n = of_char c :: nat in (97 \<le> n \<and> n \<le> 102) \<or> (48 \<le> n \<and> n \<le> 57))"

definition isInputSafetyDecision :: "js \<Rightarrow> bool" where
  "isInputSafetyDecision v =
     (case v of
        JObj decision \<Rightarrow>
          (case js_get decision ''inputDigest'' of
             JStr digest \<Rightarrow>
               take 7 digest = ''sha256:'' \<and> length (drop 7 digest) = 64 \<and>
               list_all lower_hex_char (drop 7 digest)
           | _ \<Rightarrow> False) \<and>
          (js_get decision ''outcome'' = JStr ''approved'' \<or>
           js_get decision ''outcome'' = JStr ''degraded'') \<and>
          list_all (\<lambda>(key, _). key = ''inputDigest'' \<or> key = ''outcome'') decision
      | _ \<Rightarrow> False)"

definition isChannelContext :: "js_object \<Rightarrow> bool" where
  "isChannelContext ctx =
     list_all (\<lambda>key. is_js_string (js_get ctx key))
       [''platform'', ''chatType'', ''chatId'', ''senderId'', ''clientName'']"

definition optional :: "('a \<Rightarrow> bool) \<Rightarrow> 'a option \<Rightarrow> bool" where
  "optional p x = (case x of None \<Rightarrow> True | Some y \<Rightarrow> p y)"

lemma optional_simps [simp]: "optional p None" "optional p (Some y) = p y"
  by (simp_all add: optional_def)

definition isQueueMessageInput :: "queue_message \<Rightarrow> bool" where
  "isQueueMessageInput m =
     (optional isInputSafetyDecision (m_inputSafetyDecision m) \<and>
      optional isChannelContext (m_channelContext m))"

definition isModelContext :: "jsnum option \<Rightarrow> bool" where
  "isModelContext v =
     (case v of None \<Rightarrow> True
      | Some (Fin n) \<Rightarrow> 0 < n \<and> n \<le> 2147483647
      | Some NonFinite \<Rightarrow> False)"

definition isModel :: "queue_model \<Rightarrow> bool" where
  "isModel m = isModelContext (o_context_limit m)"

definition validUnconsumedTurnIds :: "string list option \<Rightarrow> bool" where
  "validUnconsumedTurnIds ids =
     optional (\<lambda>xs. xs \<noteq> [] \<and> list_all non_empty xs \<and> distinct xs) ids"

definition validBatchProvenance :: "routing_provenance \<Rightarrow> bool" where
  "validBatchProvenance p = non_empty (p_routingFingerprint p)"

definition validImmediateSendMember :: "batch_member \<Rightarrow> bool" where
  "validImmediateSendMember bm =
     (isQueueMessageInput (bm_message bm) \<and>
      non_empty (bm_messageKey bm) \<and>
      optional (\<lambda>(itemId, claimId). non_empty itemId \<and> non_empty claimId) (bm_queueClaim bm) \<and>
      is_finite (bm_createdAt bm) \<and>
      validUnconsumedTurnIds (bm_unconsumedFromTurnIds bm) \<and>
      validUnconsumedTurnIds (bm_unstartedFromTurnIds bm) \<and>
      optional isModel (bm_model bm) \<and>
      validBatchProvenance (bm_provenance bm))"

definition isQueueImmediateSendBatch :: "immediate_send_batch \<Rightarrow> bool" where
  "isQueueImmediateSendBatch b =
     (non_empty (b_id b) \<and> b_members b \<noteq> [] \<and>
      list_all (\<lambda>bm. isUserMessageId (bm_userMessageId bm) \<and> validImmediateSendMember bm)
        (b_members b) \<and>
      distinct (map bm_userMessageId (b_members b)))"

definition validDeliveryAttempts :: "delivery_attempt list option \<Rightarrow> bool" where
  "validDeliveryAttempts attempts =
     optional
       (\<lambda>xs. xs \<noteq> [] \<and>
          list_all (\<lambda>a. non_empty (at_claimId a) \<and> non_empty (at_turnId a)) xs \<and>
          distinct (map at_claimId xs) \<and> distinct (map at_turnId xs))
       attempts"

definition claimFieldsAbsent :: "queue_item \<Rightarrow> bool" where
  "claimFieldsAbsent i =
     (i_claimId i = None \<and> i_claimedAt i = None \<and> i_claimOwnerId i = None \<and>
      i_claimLeaseExpiresAt i = None)"

definition hasIdentity :: "queue_item \<Rightarrow> bool" where
  "hasIdentity i =
     (non_empty (i_itemId i) \<and> non_empty (i_sessionId i) \<and> non_empty (i_agentName i) \<and>
      isQueueMessageInput (i_message i))"

definition hasOptionalMetadata :: "queue_item \<Rightarrow> bool" where
  "hasOptionalMetadata i =
     (optional isUserMessageId (i_userMessageId i) \<and>
      optional isChannelContext (i_channelContext i) \<and>
      optional isModel (i_model i) \<and>
      optional isQueueImmediateSendBatch (i_immediateSendBatch i) \<and>
      validDeliveryAttempts (i_deliveryAttempts i))"

definition isQueueItem :: "queue_item \<Rightarrow> bool" where
  "isQueueItem i =
     (hasIdentity i \<and> hasOptionalMetadata i \<and>
      (case i_status i of
         Queued \<Rightarrow> claimFieldsAbsent i
       | Claimed \<Rightarrow> optional non_empty (i_claimId i) \<and> i_claimId i \<noteq> None \<and> i_claimedAt i \<noteq> None))"

section \<open>Admission checks\<close>

definition emptyMessage :: "queue_message \<Rightarrow> bool" where
  "emptyMessage m = (m_content m = [] \<and> m_attachments m = [])"

definition validEnqueueMetadata :: "enqueue_input \<Rightarrow> bool" where
  "validEnqueueMetadata e =
     (optional isQueueImmediateSendBatch (e_immediateSendBatch e) \<and>
      optional is_finite (e_createdAt e) \<and> optional is_finite (e_expiresAt e))"

definition validEnqueue :: "enqueue_input \<Rightarrow> bool" where
  "validEnqueue e =
     (s_sessionId (e_session e) \<noteq> [] \<and> s_agentName (e_session e) \<noteq> [] \<and>
      isQueueMessageInput (e_message e) \<and> \<not> emptyMessage (e_message e) \<and>
      validEnqueueMetadata e)"

definition validUpdate :: "update_input \<Rightarrow> bool" where
  "validUpdate u =
     (u_sessionId u \<noteq> [] \<and> u_itemId u \<noteq> [] \<and>
      (u_message u \<noteq> None \<or> u_model u \<noteq> KeepModel \<or> u_expiresAt u \<noteq> None) \<and>
      optional (\<lambda>m. isQueueMessageInput m \<and> \<not> emptyMessage m) (u_message u) \<and>
      optional is_finite (u_expiresAt u))"

text \<open>
  \<open>makeQueued\<close> reads \<open>createdAt\<close> and \<open>expiresAt\<close> after \<open>validEnqueue\<close> has checked that
  they are finite; \<open>num_value\<close> reads such a number.
\<close>

definition num_value :: "jsnum \<Rightarrow> int" where
  "num_value n = (case n of Fin k \<Rightarrow> k | NonFinite \<Rightarrow> 0)"

lemma num_value_Fin [simp]: "num_value (Fin k) = k"
  by (simp add: num_value_def)

definition makeQueued :: "enqueue_input \<Rightarrow> string \<Rightarrow> int \<Rightarrow> queue_item" where
  "makeQueued e itemId nowMs =
     \<lparr> i_deliveryAttempts = None,
       i_immediateSendBatch = e_immediateSendBatch e,
       i_itemId = itemId,
       i_userMessageId = truthy (e_userMessageId e),
       i_requestedTurnId = truthy (e_requestedTurnId e),
       i_sessionId = s_sessionId (e_session e),
       i_agentName = s_agentName (e_session e),
       i_source = (case e_source e of None \<Rightarrow> Api | Some s \<Rightarrow> s),
       i_status = Queued,
       i_message = e_message e,
       i_channelContext = m_channelContext (e_message e),
       i_model = e_model e,
       i_createdAt = (case e_createdAt e of None \<Rightarrow> nowMs | Some n \<Rightarrow> num_value n),
       i_clientRequestId = truthy (e_clientRequestId e),
       i_dedupeKey = truthy (e_dedupeKey e),
       i_expiresAt = map_option num_value (e_expiresAt e),
       i_claimId = None, i_claimedAt = None, i_claimOwnerId = None,
       i_claimLeaseExpiresAt = None \<rparr>"

definition completePermutation :: "queue_item list \<Rightarrow> string list \<Rightarrow> bool" where
  "completePermutation items ids =
     (ids \<noteq> [] \<and> length items = length ids \<and> distinct ids \<and>
      list_all (\<lambda>i. list_ex (\<lambda>item. i_itemId item = i) items) ids)"

definition isFutureQueueExpiry :: "jsnum option \<Rightarrow> int \<Rightarrow> bool" where
  "isFutureQueueExpiry expiresAt nowMs =
     (case expiresAt of None \<Rightarrow> True | Some (Fin n) \<Rightarrow> n > nowMs | Some NonFinite \<Rightarrow> False)"

section \<open>Routing identity\<close>

definition normalizeRoutingValue :: "js \<Rightarrow> string option" where
  "normalizeRoutingValue v =
     (case v of JStr s \<Rightarrow> (let t = js_trim s in if t \<noteq> [] then Some t else None) | _ \<Rightarrow> None)"

definition readRoutingValue :: "js_object option \<Rightarrow> string list \<Rightarrow> string option" where
  "readRoutingValue context keys =
     (case context of
        None \<Rightarrow> None
      | Some ctx \<Rightarrow>
          foldl (\<lambda>value key.
                   case value of Some s \<Rightarrow> Some s | None \<Rightarrow> normalizeRoutingValue (js_get ctx key))
            None keys)"

definition queueExecutionSource :: "queue_item \<Rightarrow> queue_source" where
  "queueExecutionSource i =
     (if m_source (i_message i) = Some ''code_review'' then CodeReview else i_source i)"

definition routingContext :: "queue_item \<Rightarrow> js_object option" where
  "routingContext i =
     (let channelContext =
            (case m_channelContext (i_message i) of Some c \<Rightarrow> Some c | None \<Rightarrow> i_channelContext i);
          base = (case channelContext of Some c \<Rightarrow> c | None \<Rightarrow> [])
      in if m_clientIntent (i_message i) = Some ''cloud-handoff''
         then Some (js_set base ''cloudHandoff'' (JObj [(''trigger'', JStr ''slash'')]))
         else if queueExecutionSource i \<noteq> CodeReview then channelContext
         else Some (js_set base ''review''
                (JObj [(''trigger'', JStr ''slash''), (''scope'', JStr ''local_changes'')])))"

definition routingFields :: "queue_item \<Rightarrow> (string \<times> string option) list" where
  "routingFields i =
     (let context = routingContext i in
      [(''source'', normalizeRoutingValue (JStr (source_name (queueExecutionSource i)))),
       (''platform'', readRoutingValue context [''platform'']),
       (''client'', readRoutingValue context [''clientName'', ''client_name'', ''client'']),
       (''agent'', normalizeRoutingValue (JStr (i_agentName i))),
       (''agentBinding'',
          readRoutingValue context [''agentName'', ''agent_name'', ''agentId'', ''agent_id'']),
       (''binding'', readRoutingValue context [''bindingId'', ''binding_id'']),
       (''channel'', readRoutingValue context [''channel'']),
       (''channelId'', readRoutingValue context [''channel_id'', ''channelId'']),
       (''thread'', readRoutingValue context [''threadId'', ''thread_id'']),
       (''chat'', readRoutingValue context [''chatId'', ''chat_id'']),
       (''scope'', readRoutingValue context [''scope'', ''scopeId'', ''scope_id'']),
       (''chatType'', readRoutingValue context [''chatType'', ''chat_type'']),
       (''sender'', readRoutingValue context [''senderId'', ''sender_id''])])"

definition json_string_or_null :: "string option \<Rightarrow> string" where
  "json_string_or_null v = (case v of None \<Rightarrow> ''null'' | Some s \<Rightarrow> json_quote s)"

definition json_field_pair :: "string \<times> string option \<Rightarrow> string" where
  "json_field_pair p = ''['' @ json_quote (fst p) @ '','' @ json_string_or_null (snd p) @ '']''"

definition queueRoutingFingerprint :: "queue_item \<Rightarrow> string" where
  "queueRoutingFingerprint i =
     ''queue-routing/v1:'' @ ''['' @ js_join '','' (map json_field_pair (routingFields i)) @ '']''"

definition queueRoutingProvenance :: "queue_item \<Rightarrow> routing_provenance" where
  "queueRoutingProvenance i =
     \<lparr> p_source = queueExecutionSource i,
       p_routingFingerprint = queueRoutingFingerprint i,
       p_sourceContext = routingContext i \<rparr>"

end
