(* ===== verification/QueueStore.thy ===== *)
theory QueueStore
  imports QueueTypes
begin

text \<open>
  The durable tables of the Session queue (\<open>infra/db/schema/queue.ts\<close>) and the private row
  operations of \<open>DrizzleQueueRepository\<close> (\<open>queue/repo/drizzle.ts\<close>).

  A table is the list of its rows in the order of the autoincrement primary key, which is the
  order every query of the repository asks for (\<open>ORDER BY id\<close>). A query is written as the
  documented meaning of its SQL statement: \<open>WHERE\<close> is \<open>filter\<close>, an insert appends a row with
  the next key, the unique index on (session, item) makes a second insert fail, and
  \<open>ON CONFLICT DO UPDATE\<close> rewrites the row in place. The JSON column holds the item itself;
  decoding re-checks it as \<open>decodeQueueRow\<close> does and fails on a corrupt row.
\<close>

record queue_cols =
  c_sessionId :: string
  c_itemId :: string
  c_status :: item_status
  c_createdAtMs :: int
  c_dataJson :: queue_item
  c_source :: queue_source
  c_clientRequestId :: "string option"
  c_dedupeKey :: "string option"
  c_expiresAtMs :: "int option"
  c_claimId :: "string option"
  c_claimLeaseExpiresAtMs :: "int option"
  c_routingFingerprint :: string

record queue_row =
  row_id :: nat
  row_cols :: queue_cols

record queue_db =
  q_rows :: "queue_row list"
  q_next :: nat
  q_pauses :: "string \<rightharpoonup> queue_pause"
  q_migrations :: "string \<rightharpoonup> int"
  q_legacy :: "string \<rightharpoonup> string"

definition storage :: "queue_item \<Rightarrow> queue_cols" where
  "storage i =
     \<lparr> c_sessionId = i_sessionId i, c_itemId = i_itemId i, c_status = i_status i,
       c_createdAtMs = i_createdAt i, c_dataJson = i, c_source = i_source i,
       c_clientRequestId = i_clientRequestId i, c_dedupeKey = i_dedupeKey i,
       c_expiresAtMs = i_expiresAt i, c_claimId = i_claimId i,
       c_claimLeaseExpiresAtMs = i_claimLeaseExpiresAt i,
       c_routingFingerprint = queueRoutingFingerprint i \<rparr>"

definition decodeQueueRow :: "queue_row \<Rightarrow> queue_item qresult" where
  "decodeQueueRow r =
     (let c = row_cols r; item = c_dataJson c in
      if \<not> isQueueItem item \<or> i_sessionId item \<noteq> c_sessionId c \<or> i_itemId item \<noteq> c_itemId c \<or>
         i_status item \<noteq> c_status c \<or> i_createdAt item \<noteq> c_createdAtMs c
      then Inl (QueueDataCorruptionError (c_sessionId c) (c_itemId c))
      else Inr item)"

section \<open>Row predicates of the queries\<close>

definition in_session :: "string \<Rightarrow> queue_row \<Rightarrow> bool" where
  "in_session s r = (c_sessionId (row_cols r) = s)"

definition has_key :: "string \<Rightarrow> string \<Rightarrow> queue_row \<Rightarrow> bool" where
  "has_key s i r = (c_sessionId (row_cols r) = s \<and> c_itemId (row_cols r) = i)"

definition has_status :: "item_status \<Rightarrow> queue_row \<Rightarrow> bool" where
  "has_status st r = (c_status (row_cols r) = st)"

text \<open>\<open>expires_at_ms IS NOT NULL AND expires_at_ms <= now\<close>\<close>

definition expires_by :: "int \<Rightarrow> queue_row \<Rightarrow> bool" where
  "expires_by nowMs r =
     (case c_expiresAtMs (row_cols r) of None \<Rightarrow> False | Some t \<Rightarrow> t \<le> nowMs)"

definition delete_rows :: "(queue_row \<Rightarrow> bool) \<Rightarrow> queue_db \<Rightarrow> queue_db" where
  "delete_rows p db = db\<lparr>q_rows := filter (\<lambda>r. \<not> p r) (q_rows db)\<rparr>"

definition select_items :: "(queue_row \<Rightarrow> bool) \<Rightarrow> queue_db \<Rightarrow> queue_item list qresult" where
  "select_items p db = rmap decodeQueueRow (filter p (q_rows db))"

text \<open>\<open>INSERT\<close> into the item table, under the unique index on (session, item).\<close>

definition insert_row :: "queue_item \<Rightarrow> queue_db \<Rightarrow> queue_db qresult" where
  "insert_row i db =
     (if list_ex (has_key (i_sessionId i) (i_itemId i)) (q_rows db)
      then Inl (UniqueConstraintError (i_sessionId i) (i_itemId i))
      else Inr (db\<lparr>q_rows := q_rows db @ [\<lparr>row_id = q_next db, row_cols = storage i\<rparr>],
                   q_next := Suc (q_next db)\<rparr>))"

fun insert_rows :: "queue_item list \<Rightarrow> queue_db \<Rightarrow> queue_db qresult" where
  "insert_rows [] db = Inr db"
| "insert_rows (i # is) db = rbind (insert_row i db) (insert_rows is)"

section \<open>The private operations of the repository\<close>

definition find_item :: "string \<Rightarrow> string \<Rightarrow> queue_db \<Rightarrow> queue_item option qresult" where
  "find_item s i db = rmap_option decodeQueueRow (List.find (has_key s i) (q_rows db))"

definition write_item :: "queue_item \<Rightarrow> queue_db \<Rightarrow> queue_db" where
  "write_item i db =
     (if list_ex (has_key (i_sessionId i) (i_itemId i)) (q_rows db)
      then db\<lparr>q_rows := map (\<lambda>r. if has_key (i_sessionId i) (i_itemId i) r
                                then r\<lparr>row_cols := storage i\<rparr> else r) (q_rows db)\<rparr>
      else db\<lparr>q_rows := q_rows db @ [\<lparr>row_id = q_next db, row_cols = storage i\<rparr>],
              q_next := Suc (q_next db)\<rparr>)"

definition replaceItem :: "queue_item \<Rightarrow> queue_item \<Rightarrow> queue_db \<Rightarrow> queue_db qresult" where
  "replaceItem previous i db =
     (let old = has_key (i_sessionId previous) (i_itemId previous) in
      if list_ex old (q_rows db) \<and>
         list_ex (\<lambda>r. \<not> old r \<and> has_key (i_sessionId i) (i_itemId i) r) (q_rows db)
      then Inl (UniqueConstraintError (i_sessionId i) (i_itemId i))
      else Inr (db\<lparr>q_rows := map (\<lambda>r. if old r then r\<lparr>row_cols := storage i\<rparr> else r)
                             (q_rows db)\<rparr>))"

definition rowsByStatus :: "string \<Rightarrow> item_status \<Rightarrow> queue_db \<Rightarrow> queue_item list qresult" where
  "rowsByStatus s st db = select_items (\<lambda>r. in_session s r \<and> has_status st r) db"

definition allRows :: "string \<Rightarrow> queue_db \<Rightarrow> queue_item list qresult" where
  "allRows s db = select_items (in_session s) db"

definition claimRows :: "string \<Rightarrow> string \<Rightarrow> queue_db \<Rightarrow> queue_item list qresult" where
  "claimRows s claimId db =
     select_items
       (\<lambda>r. in_session s r \<and> has_status Claimed r \<and> c_claimId (row_cols r) = Some claimId) db"

definition replaceRows :: "string \<Rightarrow> queue_item list \<Rightarrow> queue_db \<Rightarrow> queue_db qresult" where
  "replaceRows s items db = insert_rows items (delete_rows (in_session s) db)"

definition moveQueuedToFront :: "queue_item \<Rightarrow> queue_db \<Rightarrow> queue_db qresult" where
  "moveQueuedToFront item db =
     rbind (rowsByStatus (i_sessionId item) Queued db)
       (\<lambda>queued.
          let reordered = item # filter (\<lambda>q. i_itemId q \<noteq> i_itemId item) queued in
          insert_rows reordered
            (delete_rows (\<lambda>r. in_session (i_sessionId item) r \<and> has_status Queued r) db))"

definition deleteItem :: "string \<Rightarrow> string \<Rightarrow> queue_db \<Rightarrow> queue_db" where
  "deleteItem s i db = delete_rows (has_key s i) db"

fun deleteItems :: "string \<Rightarrow> queue_item list \<Rightarrow> queue_db \<Rightarrow> queue_db" where
  "deleteItems s [] db = db"
| "deleteItems s (i # is) db = deleteItems s is (deleteItem s (i_itemId i) db)"

definition clearQueuedApi :: "string \<Rightarrow> queue_db \<Rightarrow> (queue_item list \<times> queue_db) qresult" where
  "clearQueuedApi s db =
     (let queuedApiRows =
            (\<lambda>r. in_session s r \<and> has_status Queued r \<and> c_source (row_cols r) = Api) in
      rbind (select_items queuedApiRows db)
        (\<lambda>selected. Inr (selected, delete_rows queuedApiRows db)))"

definition claim_item ::
  "string \<Rightarrow> queue_item \<Rightarrow> string \<Rightarrow> int \<Rightarrow> int \<Rightarrow> queue_db \<Rightarrow> queue_item \<times> queue_db" where
  "claim_item claimOwnerId item claimId claimedAt leaseExpiresAt db =
     (let claimed = item\<lparr>i_status := Claimed, i_claimId := Some claimId,
                         i_claimedAt := Some claimedAt, i_claimOwnerId := Some claimOwnerId,
                         i_claimLeaseExpiresAt := Some leaseExpiresAt\<rparr>
      in (claimed, write_item claimed db))"

definition onlyQueuedItem :: "queue_item option \<Rightarrow> queue_item option" where
  "onlyQueuedItem item =
     (case item of None \<Rightarrow> None | Some i \<Rightarrow> if i_status i = Queued then Some i else None)"

definition claimCandidate :: "claim_input \<Rightarrow> queue_db \<Rightarrow> queue_item option qresult" where
  "claimCandidate ci db =
     (case truthy (ci_itemId ci) of
        Some itemId \<Rightarrow>
          rbind (find_item (ci_sessionId ci) itemId db) (\<lambda>item. Inr (onlyQueuedItem item))
      | None \<Rightarrow>
          rbind (rowsByStatus (ci_sessionId ci) Queued db)
            (\<lambda>queued.
               case ci_excludeItemIds ci of
                 None \<Rightarrow> Inr (List.find (\<lambda>_. True) queued)
               | Some excluded \<Rightarrow>
                   if excluded = [] then Inr (List.find (\<lambda>_. True) queued)
                   else Inr (List.find (\<lambda>i. i_itemId i \<notin> set excluded) queued)))"

definition withoutClaim :: "queue_item \<Rightarrow> queue_item" where
  "withoutClaim i =
     i\<lparr>i_status := Queued, i_claimId := None, i_claimedAt := None, i_claimOwnerId := None,
       i_claimLeaseExpiresAt := None\<rparr>"

definition release_item :: "queue_item \<Rightarrow> queue_db \<Rightarrow> queue_item \<times> queue_db" where
  "release_item i db = (let released = withoutClaim i in (released, write_item released db))"

definition deleteExpired ::
  "string \<Rightarrow> int \<Rightarrow> queue_db \<Rightarrow> (queue_item list \<times> queue_db) qresult" where
  "deleteExpired s nowMs db =
     (let expiredRows = (\<lambda>r. in_session s r \<and> has_status Queued r \<and> expires_by nowMs r) in
      rbind (select_items expiredRows db)
        (\<lambda>expiredItems. Inr (expiredItems, delete_rows expiredRows db)))"

definition hasClaimed :: "string \<Rightarrow> queue_db \<Rightarrow> bool" where
  "hasClaimed s db = list_ex (\<lambda>r. in_session s r \<and> has_status Claimed r) (q_rows db)"

definition pendingCount :: "string \<Rightarrow> queue_db \<Rightarrow> nat" where
  "pendingCount s db = length (filter (\<lambda>r. in_session s r \<and>
     c_status (row_cols r) \<in> {Queued, Claimed}) (q_rows db))"

definition pause_of :: "string \<Rightarrow> queue_db \<Rightarrow> queue_pause option" where
  "pause_of s db = q_pauses db s"

definition delete_pause :: "string \<Rightarrow> queue_db \<Rightarrow> queue_db" where
  "delete_pause s db = db\<lparr>q_pauses := (q_pauses db)(s := None)\<rparr>"

definition executionSnapshot :: "string \<Rightarrow> queue_db \<Rightarrow> execution_snapshot" where
  "executionSnapshot s db = \<lparr>snap_pendingCount = pendingCount s db, snap_pause = pause_of s db\<rparr>"

definition reconcilePause :: "string \<Rightarrow> queue_db \<Rightarrow> queue_db" where
  "reconcilePause s db = (if pendingCount s db > 0 then db else delete_pause s db)"

definition enqueueResult :: "queue_item \<Rightarrow> queue_db \<Rightarrow> queue_item \<times> nat" where
  "enqueueResult item db =
     (if i_status item \<noteq> Queued then (item, 1)
      else case List.find (has_key (i_sessionId item) (i_itemId item)) (q_rows db) of
             None \<Rightarrow> (item, 1)
           | Some row \<Rightarrow>
               (item,
                length (filter (\<lambda>r. in_session (i_sessionId item) r \<and> has_status Queued r \<and>
                                   row_id r \<le> row_id row) (q_rows db))))"

definition attachRequestedTurnId ::
  "queue_item \<Rightarrow> string option \<Rightarrow> queue_db \<Rightarrow> queue_item \<times> queue_db" where
  "attachRequestedTurnId item requestedTurnId db =
     (case truthy requestedTurnId of
        None \<Rightarrow> (item, db)
      | Some turnId \<Rightarrow>
          if truthy (i_requestedTurnId item) \<noteq> None then (item, db)
          else let updated = item\<lparr>i_requestedTurnId := Some turnId\<rparr>
               in (updated, write_item updated db))"

definition findByClientRequest ::
  "string \<Rightarrow> string \<Rightarrow> queue_db \<Rightarrow> queue_item option qresult" where
  "findByClientRequest s clientRequestId db =
     rmap_option decodeQueueRow
       (List.find (\<lambda>r. in_session s r \<and> c_clientRequestId (row_cols r) = Some clientRequestId)
          (q_rows db))"

definition findByDedupeKey :: "string \<Rightarrow> string \<Rightarrow> queue_db \<Rightarrow> queue_item option qresult" where
  "findByDedupeKey s dedupeKey db =
     rmap_option decodeQueueRow
       (List.find (\<lambda>r. in_session s r \<and> has_status Queued r \<and>
                      c_dedupeKey (row_cols r) = Some dedupeKey) (q_rows db))"

definition ensureQueueRowsReady :: "string \<Rightarrow> int \<Rightarrow> queue_db \<Rightarrow> queue_db" where
  "ensureQueueRowsReady s nowMs db =
     (case q_migrations db s of
        Some _ \<Rightarrow> db
      | None \<Rightarrow> db\<lparr>q_migrations := (q_migrations db)(s \<mapsto> nowMs)\<rparr>)"

section \<open>Facts\<close>

definition executionStateFact :: "string \<Rightarrow> bool \<Rightarrow> queue_fact" where
  "executionStateFact s paused = ExecutionStateChanged s paused"

definition enqueueFact :: "queue_item \<Rightarrow> queue_fact" where
  "enqueueFact i =
     Enqueued (i_sessionId i) (i_itemId i) (i_source i) (truthy (i_clientRequestId i)) (i_createdAt i)"

definition requeueFact :: "queue_item \<Rightarrow> int \<Rightarrow> admission_reason option \<Rightarrow> queue_fact" where
  "requeueFact i requeuedAtMs reason =
     Requeued (i_sessionId i) (i_itemId i) (i_source i) (truthy (i_clientRequestId i))
       requeuedAtMs reason"

definition removalFact ::
  "removal_reason \<Rightarrow> admission_reason option \<Rightarrow> int \<Rightarrow> queue_item \<Rightarrow> queue_fact" where
  "removalFact reason details removedAtMs i =
     Removed (i_sessionId i) (i_itemId i) reason details removedAtMs"

abbreviation expiredFacts :: "queue_item list \<Rightarrow> int \<Rightarrow> queue_fact list" where
  "expiredFacts items nowMs \<equiv> map (removalFact Expired None nowMs) items"

definition withPauseRemovalFact ::
  "'a \<times> queue_fact list \<Rightarrow> string \<Rightarrow> bool \<Rightarrow> 'a \<times> queue_fact list" where
  "withPauseRemovalFact result s removed =
     (if \<not> removed \<or> list_ex (\<lambda>f. f = ExecutionStateChanged s False) (snd result)
      then result
      else (fst result, snd result @ [executionStateFact s False]))"

definition item_expired :: "queue_item \<Rightarrow> int \<Rightarrow> bool" where
  "item_expired i nowMs = (case i_expiresAt i of None \<Rightarrow> False | Some t \<Rightarrow> t \<le> nowMs)"

definition replaceItemMessage :: "queue_item \<Rightarrow> queue_message \<Rightarrow> queue_item" where
  "replaceItemMessage item message =
     (let replacement =
            (case m_clientIntent (i_message item) of
               None \<Rightarrow> message
             | Some intent \<Rightarrow> message\<lparr>m_clientIntent := Some intent\<rparr>)
      in item\<lparr>i_message := replacement, i_channelContext := m_channelContext replacement\<rparr>)"

definition modelUpdate :: "model_update \<Rightarrow> queue_item \<Rightarrow> queue_item" where
  "modelUpdate u item =
     (case u of
        ClearModel \<Rightarrow> item\<lparr>i_model := None\<rparr>
      | SetModel m \<Rightarrow> item\<lparr>i_model := Some m\<rparr>
      | KeepModel \<Rightarrow> item)"

definition claimSelection :: "claim_input \<Rightarrow> claim_selection" where
  "claimSelection ci =
     (if truthy (ci_itemId ci) \<noteq> None then SelExact
      else if ci_continuePaused ci then SelContinuedFifo else SelFifo)"

definition dispatchItem :: "queue_item \<Rightarrow> claim_selection \<Rightarrow> dispatch_item qresult" where
  "dispatchItem item selection =
     (case (truthy (i_claimId item), truthy (i_claimOwnerId item), i_claimLeaseExpiresAt item) of
        (Some claimId, Some ownerId, Some leaseExpiresAt) \<Rightarrow>
          Inr \<lparr> d_claimId = claimId, d_sessionId = i_sessionId item, d_source = i_source item,
                d_claimOwnerId = ownerId, d_claimLeaseExpiresAt = leaseExpiresAt,
                d_selection = selection, d_item = item, d_message = i_message item,
                d_clientRequestId = truthy (i_clientRequestId item),
                d_provenance = queueRoutingProvenance item \<rparr>
      | _ \<Rightarrow> Inl (QueueTypeError ''Queue claim is incomplete''))"

definition claimQuery ::
  "queue_item list \<Rightarrow> string \<Rightarrow> string option \<Rightarrow> acceptance_query qresult" where
  "claimQuery items claimId turnId =
     (case items of
        [] \<Rightarrow> Inl (QueueClaimNotFoundError [] claimId)
      | first # _ \<Rightarrow>
          Inr \<lparr> aq_sessionId = i_sessionId first, aq_claimId = claimId,
                aq_source = queueExecutionSource first,
                aq_queueItemIds = map i_itemId items, aq_turnId = truthy turnId \<rparr>)"

end
