(* ===== verification/QueueRepo.thy ===== *)
theory QueueRepo
  imports QueueStore
begin

text \<open>
  The operations of \<open>DrizzleQueueRepository\<close> (\<open>queue/repo/drizzle.ts\<close>). Each runs in one
  immediate SQLite transaction: an error rolls the tables back, so an operation is a function
  from the tables to an error or to its value, the facts it publishes and the new tables.

  The clock is read once per operation (\<open>nowMs\<close>) and a fresh identifier (\<open>randomUUID\<close>) is an
  argument. The acceptance lookup is the Turn side of the same transaction: its state is a
  parameter \<open>'t\<close>, its two operations the record \<open>acceptance_lookup\<close>.
\<close>

record queue_env =
  env_claimOwnerId :: string
  env_claimLeaseMs :: int
  env_isClaimOwnerAlive :: "string \<Rightarrow> bool"
  env_enqueueAdmission :: "(string \<Rightarrow> int \<Rightarrow> admission_rejection option) option"

record queue_options =
  opt_claimOwnerId :: "string option"
  opt_claimLeaseMs :: "jsnum option"
  opt_isClaimOwnerAlive :: "(string \<Rightarrow> bool) option"
  opt_enqueueAdmission :: "(string \<Rightarrow> int \<Rightarrow> admission_rejection option) option"

definition DEFAULT_CLAIM_LEASE_MS :: int where
  "DEFAULT_CLAIM_LEASE_MS = 30000"

definition positiveInteger :: "jsnum option \<Rightarrow> int \<Rightarrow> int" where
  "positiveInteger value fallback =
     (case value of Some (Fin n) \<Rightarrow> if n > 0 then n else fallback | _ \<Rightarrow> fallback)"

definition make_queue_env :: "queue_options \<Rightarrow> string \<Rightarrow> queue_env" where
  "make_queue_env opts uuid =
     \<lparr> env_claimOwnerId =
         (case truthy (map_option js_trim (opt_claimOwnerId opts)) of
            Some owner \<Rightarrow> owner | None \<Rightarrow> ''queue-claim:'' @ uuid),
       env_claimLeaseMs = positiveInteger (opt_claimLeaseMs opts) DEFAULT_CLAIM_LEASE_MS,
       env_isClaimOwnerAlive =
         (case opt_isClaimOwnerAlive opts of Some f \<Rightarrow> f | None \<Rightarrow> (\<lambda>_. True)),
       env_enqueueAdmission = opt_enqueueAdmission opts \<rparr>"

type_synonym 'a committed = "('a \<times> queue_fact list \<times> queue_db) qresult"
type_synonym 'a queue_op = "queue_db \<Rightarrow> 'a committed"

section \<open>Transactions\<close>

definition transaction :: "string \<Rightarrow> int \<Rightarrow> 'a queue_op \<Rightarrow> 'a queue_op" where
  "transaction s nowMs operation db =
     (let db1 = ensureQueueRowsReady s nowMs db;
          wasPaused = (pause_of s db1 \<noteq> None)
      in rbind (operation db1)
           (\<lambda>(value, facts, db2).
              let db3 = reconcilePause s db2;
                  result = withPauseRemovalFact (value, facts) s
                             (wasPaused \<and> pause_of s db3 = None)
              in Inr (fst result, snd result, db3)))"

definition assertMutationAdmitted :: "queue_env \<Rightarrow> string \<Rightarrow> int \<Rightarrow> admission_rejection option" where
  "assertMutationAdmitted env s nowMs =
     (case env_enqueueAdmission env of None \<Rightarrow> None | Some admission \<Rightarrow> admission s nowMs)"

definition mutationTransaction :: "queue_env \<Rightarrow> string \<Rightarrow> int \<Rightarrow> 'a queue_op \<Rightarrow> 'a queue_op" where
  "mutationTransaction env s nowMs operation db =
     (case assertMutationAdmitted env s nowMs of
        Some rejection \<Rightarrow> Inl (QueueEnqueueAdmissionError s rejection)
      | None \<Rightarrow> transaction s nowMs operation db)"

text \<open>Every operation first deletes the expired queued rows and collects their removal facts.\<close>

definition after_expiry ::
  "string \<Rightarrow> int \<Rightarrow> (queue_fact list \<Rightarrow> 'a queue_op) \<Rightarrow> 'a queue_op" where
  "after_expiry s nowMs k db =
     rbind (deleteExpired s nowMs db)
       (\<lambda>(expiredItems, db'). k (expiredFacts expiredItems nowMs) db')"

section \<open>Reading\<close>

definition listPendingSessionIds :: "queue_db \<Rightarrow> string list" where
  "listPendingSessionIds db =
     sort (remdups (map (c_sessionId \<circ> row_cols)
       (filter (\<lambda>r. c_status (row_cols r) \<in> {Queued, Claimed}) (q_rows db))))"

definition snapshot_queue :: "string \<Rightarrow> int \<Rightarrow> execution_snapshot queue_op" where
  "snapshot_queue s nowMs =
     transaction s nowMs (after_expiry s nowMs
       (\<lambda>facts db.
          let db' = reconcilePause s db in Inr (executionSnapshot s db', facts, db')))"

definition list_queue :: "string \<Rightarrow> int \<Rightarrow> queue_item list queue_op" where
  "list_queue s nowMs =
     transaction s nowMs (after_expiry s nowMs
       (\<lambda>facts db. rbind (rowsByStatus s Queued db) (\<lambda>items. Inr (items, facts, db))))"

definition findByClientRequestId ::
  "string \<Rightarrow> string \<Rightarrow> int \<Rightarrow> queue_item option queue_op" where
  "findByClientRequestId s clientRequestId nowMs =
     transaction s nowMs (after_expiry s nowMs
       (\<lambda>facts db. rbind (findByClientRequest s clientRequestId db)
          (\<lambda>item. Inr (item, facts, db))))"

definition get_item :: "string \<Rightarrow> string \<Rightarrow> int \<Rightarrow> queue_item option queue_op" where
  "get_item s itemId nowMs =
     transaction s nowMs (after_expiry s nowMs
       (\<lambda>facts db. rbind (find_item s itemId db) (\<lambda>item. Inr (item, facts, db))))"

section \<open>Pausing and continuing\<close>

record pause_input =
  pi_sessionId :: string
  pi_cause :: pause_cause
  pi_triggerTurnId :: string

definition pauseIfPending :: "pause_input \<Rightarrow> int \<Rightarrow> execution_snapshot queue_op" where
  "pauseIfPending input nowMs =
     (let s = pi_sessionId input in
      transaction s nowMs (after_expiry s nowMs
        (\<lambda>facts db.
           let db1 = reconcilePause s db;
               inserted = (pendingCount s db1 > 0 \<and> pause_of s db1 = None);
               db2 = (if inserted
                      then db1\<lparr>q_pauses := (q_pauses db1)(s \<mapsto>
                             \<lparr>pause_cause = pi_cause input,
                              pause_triggerTurnId = pi_triggerTurnId input,
                              pause_pausedAtMs = nowMs\<rparr>)\<rparr>
                      else db1)
           in Inr (executionSnapshot s db2,
                   facts @ (if inserted then [executionStateFact s True] else []), db2))))"

definition continueQueue ::
  "string \<Rightarrow> queue_pause option \<Rightarrow> int \<Rightarrow> execution_snapshot queue_op" where
  "continueQueue s expectedPause nowMs =
     transaction s nowMs (after_expiry s nowMs
       (\<lambda>facts db.
          let db1 = reconcilePause s db;
              deleted = (case pause_of s db1 of
                           None \<Rightarrow> False
                         | Some p \<Rightarrow>
                             (case expectedPause of None \<Rightarrow> True | Some q \<Rightarrow> p = q));
              db2 = (if deleted then delete_pause s db1 else db1)
          in Inr (executionSnapshot s db2,
                  facts @ (if deleted then [executionStateFact s False] else []), db2)))"

section \<open>Enqueue\<close>

fun settleBatchMemberClaims ::
  "string \<Rightarrow> int \<Rightarrow> batch_member list \<Rightarrow> queue_db \<Rightarrow> (queue_fact list \<times> queue_db) qresult" where
  "settleBatchMemberClaims s nowMs [] db = Inr ([], db)"
| "settleBatchMemberClaims s nowMs (bm # bms) db =
     (let itemId = (case bm_queueClaim bm of
                      Some (i, _) \<Rightarrow> Some i | None \<Rightarrow> bm_sourceMessageId bm)
      in case truthy itemId of
           None \<Rightarrow> settleBatchMemberClaims s nowMs bms db
         | Some i \<Rightarrow>
             rbind (find_item s i db)
               (\<lambda>existing.
                  case existing of
                    None \<Rightarrow> settleBatchMemberClaims s nowMs bms db
                  | Some item \<Rightarrow>
                      if (case bm_queueClaim bm of
                            Some (_, claimId) \<Rightarrow> i_claimId item \<noteq> Some claimId | None \<Rightarrow> False)
                      then settleBatchMemberClaims s nowMs bms db
                      else if i_status item \<noteq> Claimed
                      then settleBatchMemberClaims s nowMs bms db
                      else if truthy (i_userMessageId item) \<noteq> None \<and>
                              i_userMessageId item \<noteq> Some (bm_userMessageId bm)
                      then Inl (QueueTypeError ''Immediate-send member claim identity changed'')
                      else rbind (settleBatchMemberClaims s nowMs bms
                                    (deleteItem (i_sessionId item) (i_itemId item) db))
                             (\<lambda>(facts, db'). Inr (removalFact Injected None nowMs item # facts, db'))))"

definition restorableIdentity ::
  "enqueue_input \<Rightarrow> queue_db \<Rightarrow> ((string \<times> queue_item option) option \<times> queue_db) qresult" where
  "restorableIdentity e db =
     (case truthy (e_itemId e) of
        None \<Rightarrow> Inr (None, db)
      | Some itemId \<Rightarrow>
          rbind (find_item (s_sessionId (e_session e)) itemId db)
            (\<lambda>existing.
               case existing of
                 None \<Rightarrow> Inr (Some (itemId, None), db)
               | Some item \<Rightarrow>
                   if i_status item \<noteq> Claimed then Inr (None, db)
                   else Inr (Some (itemId, Some item),
                             deleteItem (s_sessionId (e_session e)) (i_itemId item) db)))"

definition insertEnqueue ::
  "enqueue_input \<Rightarrow> string \<Rightarrow> int \<Rightarrow> queue_fact list \<Rightarrow> (queue_item \<times> nat) queue_op" where
  "insertEnqueue e freshId nowMs facts db =
     (let s = s_sessionId (e_session e);
          members = (case e_immediateSendBatch e of None \<Rightarrow> [] | Some b \<Rightarrow> b_members b)
      in rbind (settleBatchMemberClaims s nowMs members db)
           (\<lambda>(batchClaims, db1).
              rbind (restorableIdentity e db1)
                (\<lambda>(restored, db2).
                   let item = makeQueued e
                         (case restored of Some (itemId, _) \<Rightarrow> itemId | None \<Rightarrow> freshId) nowMs
                   in rbind (case truthy (e_dedupeKey e) of
                               Some key \<Rightarrow> findByDedupeKey s key db2 | None \<Rightarrow> Inr None)
                        (\<lambda>replaced.
                           rbind (case replaced of
                                    Some previous \<Rightarrow> replaceItem previous item db2
                                  | None \<Rightarrow> Inr (write_item item db2))
                             (\<lambda>db3.
                                rbind (if e_front e then moveQueuedToFront item db3 else Inr db3)
                                  (\<lambda>db4.
                                     Inr (enqueueResult item db4,
                                       facts @ batchClaims @
                                       (case restored of
                                          Some (_, Some displaced) \<Rightarrow>
                                            [removalFact Cancelled None nowMs displaced]
                                        | _ \<Rightarrow> []) @
                                       (case replaced of
                                          Some previous \<Rightarrow> [removalFact Cancelled None nowMs previous]
                                        | None \<Rightarrow> []) @
                                       [enqueueFact item], db4)))))))"

definition replayEnqueue ::
  "enqueue_input \<Rightarrow> queue_item \<Rightarrow> queue_fact list \<Rightarrow> (queue_item \<times> nat) queue_op" where
  "replayEnqueue e found facts db =
     (let (existing, db1) = attachRequestedTurnId found (e_requestedTurnId e) db
      in rbind (if e_front e then moveQueuedToFront existing db1 else Inr db1)
           (\<lambda>db2. Inr (enqueueResult existing db2, facts, db2)))"

definition enqueueInTransaction ::
  "enqueue_input \<Rightarrow> string \<Rightarrow> int \<Rightarrow> (queue_item \<times> nat) option queue_op" where
  "enqueueInTransaction e freshId nowMs =
     (let s = s_sessionId (e_session e) in
      after_expiry s nowMs
        (\<lambda>facts db.
           if (case e_expiresAt e of Some n \<Rightarrow> num_value n \<le> nowMs | None \<Rightarrow> False)
           then Inr (None, facts, db)
           else if e_front e \<and> truthy (e_itemId e) = None \<and> hasClaimed s db
           then Inr (None, facts, db)
           else rbind (case truthy (e_clientRequestId e) of
                         Some c \<Rightarrow> findByClientRequest s c db | None \<Rightarrow> Inr None)
                  (\<lambda>found.
                     rbind (case found of
                              Some item \<Rightarrow> replayEnqueue e item facts db
                            | None \<Rightarrow> insertEnqueue e freshId nowMs facts db)
                       (\<lambda>(result, facts', db'). Inr (Some result, facts', db')))))"

definition enqueue ::
  "queue_env \<Rightarrow> enqueue_input \<Rightarrow> string \<Rightarrow> int \<Rightarrow> (queue_item \<times> nat) option queue_op" where
  "enqueue env e freshId nowMs db =
     (if \<not> validEnqueue e then Inr (None, [], db)
      else mutationTransaction env (s_sessionId (e_session e)) nowMs
             (enqueueInTransaction e freshId nowMs) db)"

section \<open>Editing queued items\<close>

datatype 'a edit_result = Edited 'a | Invalid | NotEditable | Missing

definition updateQueued ::
  "queue_env \<Rightarrow> update_input \<Rightarrow> int \<Rightarrow> queue_item edit_result queue_op" where
  "updateQueued env u nowMs db =
     (if \<not> validUpdate u then Inr (Invalid, [], db)
      else mutationTransaction env (u_sessionId u) nowMs (after_expiry (u_sessionId u) nowMs
        (\<lambda>facts db.
           if (case u_expiresAt u of Some n \<Rightarrow> num_value n \<le> nowMs | None \<Rightarrow> False)
           then Inr (Invalid, facts, db)
           else rbind (find_item (u_sessionId u) (u_itemId u) db)
             (\<lambda>found.
                case found of
                  None \<Rightarrow> Inr (Missing, facts, db)
                | Some item \<Rightarrow>
                    if i_status item \<noteq> Queued then Inr (NotEditable, facts, db)
                    else if i_source item \<noteq> Api then Inr (NotEditable, facts, db)
                    else let messageUpdated =
                               (case u_message u of
                                  Some m \<Rightarrow> replaceItemMessage item m | None \<Rightarrow> item);
                             withModel = modelUpdate (u_model u) messageUpdated;
                             updated =
                               (case u_expiresAt u of
                                  Some n \<Rightarrow> withModel\<lparr>i_expiresAt := Some (num_value n)\<rparr>
                                | None \<Rightarrow> withModel)
                         in Inr (Edited updated, facts, write_item updated db)))) db)"

definition cancel_item ::
  "queue_env \<Rightarrow> string \<Rightarrow> string \<Rightarrow> int \<Rightarrow> queue_item edit_result queue_op" where
  "cancel_item env s itemId nowMs =
     mutationTransaction env s nowMs (after_expiry s nowMs
       (\<lambda>facts db.
          rbind (find_item s itemId db)
            (\<lambda>found.
               case found of
                 None \<Rightarrow> Inr (Missing, facts, db)
               | Some item \<Rightarrow>
                   if i_status item \<noteq> Queued then Inr (NotEditable, facts, db)
                   else Inr (Edited item, facts @ [removalFact Cancelled None nowMs item],
                             deleteItem s itemId db))))"

definition clearUserManageable :: "queue_env \<Rightarrow> string \<Rightarrow> int \<Rightarrow> queue_item list queue_op" where
  "clearUserManageable env s nowMs =
     mutationTransaction env s nowMs (after_expiry s nowMs
       (\<lambda>facts db.
          rbind (clearQueuedApi s db)
            (\<lambda>(clearedItems, db1).
               let clearedPause = (pendingCount s db1 = 0 \<and> pause_of s db1 \<noteq> None);
                   db2 = (if pendingCount s db1 = 0 then delete_pause s db1 else db1)
               in Inr (clearedItems,
                       facts @ map (removalFact Cancelled None nowMs) clearedItems @
                       (if clearedPause then [executionStateFact s False] else []), db2))))"

definition promoteQueuedSource ::
  "queue_env \<Rightarrow> string \<Rightarrow> string \<Rightarrow> queue_source \<Rightarrow> int \<Rightarrow> queue_item edit_result queue_op" where
  "promoteQueuedSource env s itemId source nowMs =
     mutationTransaction env s nowMs (after_expiry s nowMs
       (\<lambda>facts db.
          rbind (find_item s itemId db)
            (\<lambda>found.
               case found of
                 None \<Rightarrow> Inr (Missing, facts, db)
               | Some item \<Rightarrow>
                   if i_status item \<noteq> Queued then Inr (NotEditable, facts, db)
                   else let updated = item\<lparr>i_source := source\<rparr>
                        in Inr (Edited updated, facts, write_item updated db))))"

text \<open>\<open>ids.flatMap(id => byId.get(id))\<close>: the items in the order of the given identities.\<close>

definition reorder_items :: "queue_item list \<Rightarrow> string list \<Rightarrow> queue_item list" where
  "reorder_items items ids =
     concat (map (\<lambda>i. case map_of (rev (map (\<lambda>item. (i_itemId item, item)) items)) i of
                        Some item \<Rightarrow> [item] | None \<Rightarrow> []) ids)"

definition reorder ::
  "queue_env \<Rightarrow> string \<Rightarrow> string list \<Rightarrow> int \<Rightarrow> queue_item list edit_result queue_op" where
  "reorder env s itemIds nowMs =
     mutationTransaction env s nowMs (after_expiry s nowMs
       (\<lambda>facts db.
          if hasClaimed s db then Inr (Invalid, facts, db)
          else rbind (rowsByStatus s Queued db)
            (\<lambda>items.
               if \<not> completePermutation items itemIds then Inr (Invalid, facts, db)
               else let reordered = reorder_items items itemIds
                    in rbind (replaceRows s reordered db)
                         (\<lambda>db'. Inr (Edited reordered, facts, db')))))"


section \<open>Claiming\<close>

definition claimNext ::
  "queue_env \<Rightarrow> claim_input \<Rightarrow> string \<Rightarrow> int \<Rightarrow> dispatch_item option queue_op" where
  "claimNext env ci freshClaimId clockMs =
     (let s = ci_sessionId ci; nowMs = (case ci_nowMs ci of Some t \<Rightarrow> t | None \<Rightarrow> clockMs) in
      transaction s clockMs (after_expiry s nowMs
        (\<lambda>facts db.
           if truthy (ci_itemId ci) = None \<and> \<not> ci_continuePaused ci \<and> pause_of s db \<noteq> None
           then Inr (None, facts, db)
           else if hasClaimed s db then Inr (None, facts, db)
           else rbind (claimCandidate ci db)
             (\<lambda>candidate.
                case candidate of
                  None \<Rightarrow> Inr (None, facts, db)
                | Some selected \<Rightarrow>
                    if (case ci_allowedSources ci of
                          Some allowed \<Rightarrow> i_source selected \<notin> set allowed | None \<Rightarrow> False)
                    then Inr (None, facts, db)
                    else let (claimed, db') =
                               claim_item (env_claimOwnerId env) selected freshClaimId nowMs
                                 (nowMs + env_claimLeaseMs env) db
                         in rbind (dispatchItem claimed (claimSelection ci))
                              (\<lambda>d. Inr (Some d, facts, db'))))))"

definition attempts_of :: "queue_item \<Rightarrow> delivery_attempt list" where
  "attempts_of i = (case i_deliveryAttempts i of None \<Rightarrow> [] | Some xs \<Rightarrow> xs)"

fun prepare_items :: "string \<Rightarrow> string \<Rightarrow> queue_item list \<Rightarrow> queue_db \<Rightarrow> queue_db qresult" where
  "prepare_items claimId turnId [] db = Inr db"
| "prepare_items claimId turnId (i # is) db =
     (case List.find (\<lambda>a. at_claimId a = claimId) (attempts_of i) of
        Some existing \<Rightarrow>
          if at_turnId existing \<noteq> turnId
          then Inl (QueueDeliveryConflictError
                      ''Queue delivery claim already belongs to another Turn'')
          else prepare_items claimId turnId is db
      | None \<Rightarrow>
          prepare_items claimId turnId is
            (write_item (i\<lparr>i_deliveryAttempts :=
               Some (attempts_of i @ [\<lparr>at_claimId = claimId, at_turnId = turnId\<rparr>])\<rparr>) db))"

definition prepareDelivery :: "string \<Rightarrow> string \<Rightarrow> string \<Rightarrow> int \<Rightarrow> unit queue_op" where
  "prepareDelivery s claimId turnId nowMs db =
     (if turnId = []
      then Inl (QueueTypeError ''Queue delivery requires a Turn identity'')
      else transaction s nowMs
        (\<lambda>db. rbind (claimRows s claimId db)
           (\<lambda>items.
              if items = [] then Inl (QueueClaimNotFoundError s claimId)
              else rbind (prepare_items claimId turnId items db) (\<lambda>db'. Inr ((), [], db')))) db)"

section \<open>Settling a claim\<close>

text \<open>
  The acceptance lookup runs on the Turn tables of the same transaction, the state \<open>'t\<close>:
  \<open>isAcceptedInTransaction\<close> reads them, \<open>markAcknowledgedInTransaction\<close> may throw.
\<close>

record 't acceptance_lookup =
  isAccepted :: "'t \<Rightarrow> acceptance_query \<Rightarrow> bool"
  markAcknowledged :: "'t \<Rightarrow> acceptance_query \<Rightarrow> 't qresult"

definition settle_claimed ::
  "string \<Rightarrow> string \<Rightarrow> int \<Rightarrow> removal_reason \<Rightarrow> admission_reason option \<Rightarrow> queue_item list queue_op"
where
  "settle_claimed s claimId nowMs reason details =
     transaction s nowMs (after_expiry s nowMs
       (\<lambda>facts db.
          rbind (claimRows s claimId db)
            (\<lambda>claimed.
               if claimed = [] then Inl (QueueClaimNotFoundError s claimId)
               else Inr (claimed, facts @ map (removalFact reason details nowMs) claimed,
                         deleteItems s claimed db))))"

definition acknowledgeClaim ::
  "string \<Rightarrow> string \<Rightarrow> string option \<Rightarrow> 't acceptance_lookup option \<Rightarrow> int \<Rightarrow> 't \<Rightarrow>
   queue_db \<Rightarrow> (queue_item list \<times> 't) committed" where
  "acknowledgeClaim s claimId turnId acceptanceLookup nowMs t db =
     (if claimId = [] then Inl (QueueClaimNotFoundError s claimId)
      else transaction s nowMs (after_expiry s nowMs
        (\<lambda>facts db.
           rbind (claimRows s claimId db)
             (\<lambda>claimed.
                if claimed = [] then Inl (QueueClaimNotFoundError s claimId)
                else rbind (claimQuery claimed claimId turnId)
                  (\<lambda>query.
                     case acceptanceLookup of
                       None \<Rightarrow> Inl (QueueClaimNotAcceptedError s claimId turnId)
                     | Some lookup \<Rightarrow>
                         if \<not> isAccepted lookup t query
                         then Inl (QueueClaimNotAcceptedError s claimId turnId)
                         else rbind (markAcknowledged lookup t query)
                           (\<lambda>t'. Inr ((claimed, t'),
                              facts @ map (removalFact Accepted None nowMs) claimed,
                              deleteItems s claimed db)))))) db)"

text \<open>The body of the two \<open>flatMap\<close>s that release claimed rows or drop the expired ones.\<close>

fun release_rows ::
  "string \<Rightarrow> int \<Rightarrow> admission_reason option \<Rightarrow> queue_item list \<Rightarrow> queue_db \<Rightarrow>
   queue_item list \<times> queue_fact list \<times> queue_db" where
  "release_rows s nowMs reason [] db = ([], [], db)"
| "release_rows s nowMs reason (i # is) db =
     (if item_expired i nowMs
      then let (released, facts, db') =
                 release_rows s nowMs reason is (deleteItem s (i_itemId i) db)
           in (released, removalFact Expired None nowMs i # facts, db')
      else let (releasedItem, db1) = release_item i db;
               (released, facts, db') = release_rows s nowMs reason is db1
           in (releasedItem # released, requeueFact releasedItem nowMs reason # facts, db'))"

definition releaseClaim ::
  "string \<Rightarrow> string \<Rightarrow> admission_reason option \<Rightarrow> int \<Rightarrow> queue_item list queue_op" where
  "releaseClaim s claimId reason nowMs db =
     (if claimId = [] then Inr ([], [], db)
      else transaction s nowMs (after_expiry s nowMs
        (\<lambda>facts db.
           rbind (claimRows s claimId db)
             (\<lambda>claimed.
                let (released, settled, db') = release_rows s nowMs reason claimed db
                in Inr (released, facts @ settled, db')))) db)"

definition rejectClaim ::
  "string \<Rightarrow> string \<Rightarrow> admission_reason \<Rightarrow> int \<Rightarrow> queue_item list queue_op" where
  "rejectClaim s claimId reason nowMs db =
     (if claimId = [] then Inl (QueueClaimNotFoundError s claimId)
      else settle_claimed s claimId nowMs AdmissionRejected (Some reason) db)"

definition removeClaimed ::
  "string \<Rightarrow> string \<Rightarrow> removal_reason \<Rightarrow> int \<Rightarrow> queue_item list queue_op" where
  "removeClaimed s claimId reason nowMs db =
     (if claimId = [] then Inl (QueueClaimNotFoundError s claimId)
      else settle_claimed s claimId nowMs reason None db)"

definition cancelClaim :: "string \<Rightarrow> string \<Rightarrow> int \<Rightarrow> queue_item list queue_op" where
  "cancelClaim s claimId = removeClaimed s claimId Cancelled"

datatype consume_reason = ConsumeAccepted | ConsumeInjected

definition consumeClaim :: "string \<Rightarrow> string \<Rightarrow> consume_reason \<Rightarrow> int \<Rightarrow> queue_item list queue_op" where
  "consumeClaim s claimId reason =
     removeClaimed s claimId
       (case reason of ConsumeAccepted \<Rightarrow> Accepted | ConsumeInjected \<Rightarrow> Injected)"

section \<open>Recovering claims\<close>

record recovery_scope =
  claimedAtOrBeforeMs :: "int option"

definition activeClaim :: "queue_env \<Rightarrow> int \<Rightarrow> recovery_scope option \<Rightarrow> queue_item \<Rightarrow> bool" where
  "activeClaim env nowMs scope item =
     (case i_claimedAt item of
        None \<Rightarrow> False
      | Some claimedAt \<Rightarrow>
          if (case scope of
                Some sc \<Rightarrow> (case claimedAtOrBeforeMs sc of
                              Some bound \<Rightarrow> claimedAt \<le> bound | None \<Rightarrow> False)
              | None \<Rightarrow> False)
          then False
          else case truthy (i_claimOwnerId item) of
                 None \<Rightarrow> False
               | Some owner \<Rightarrow>
                   (case i_claimLeaseExpiresAt item of
                      Some lease \<Rightarrow> lease | None \<Rightarrow> claimedAt + env_claimLeaseMs env) > nowMs \<and>
                   env_isClaimOwnerAlive env owner)"

definition group_claims :: "queue_item list \<Rightarrow> (string \<times> queue_item list) list" where
  "group_claims items =
     foldl (\<lambda>grouped item.
              case truthy (i_claimId item) of
                Some claimId \<Rightarrow>
                  if i_status item = Claimed then assoc_append claimId item grouped else grouped
              | None \<Rightarrow> grouped) [] items"

definition groupRecoverable ::
  "queue_env \<Rightarrow> int \<Rightarrow> recovery_scope option \<Rightarrow> queue_item list \<Rightarrow>
   (string \<times> queue_item list) list" where
  "groupRecoverable env nowMs scope items =
     filter (\<lambda>(_, claimed). \<not> list_ex (activeClaim env nowMs scope) claimed) (group_claims items)"

definition pendingDelivery :: "string \<Rightarrow> queue_item list \<Rightarrow> bool" where
  "pendingDelivery claimId items =
     list_ex (\<lambda>i. attempts_of i \<noteq> [] \<and> at_claimId (last (attempts_of i)) = claimId) items"

text \<open>The value of the loop over the recoverable claims: acknowledged, released and the facts.\<close>

fun recover_groups ::
  "string \<Rightarrow> int \<Rightarrow> 't acceptance_lookup \<Rightarrow> (string \<times> queue_item list) list \<Rightarrow> 't \<Rightarrow> queue_db \<Rightarrow>
   ((queue_item list \<times> queue_item list \<times> 't) \<times> queue_fact list \<times> queue_db) qresult" where
  "recover_groups s nowMs lookup [] t db = Inr (([], [], t), [], db)"
| "recover_groups s nowMs lookup ((claimId, items) # groups) t db =
     rbind (claimQuery items claimId None)
       (\<lambda>query.
          if \<not> pendingDelivery claimId items \<and> isAccepted lookup t query
          then rbind (markAcknowledged lookup t query)
                 (\<lambda>t1. rbind (recover_groups s nowMs lookup groups t1 (deleteItems s items db))
                    (\<lambda>((acknowledged, released, t2), facts, db').
                       Inr ((items @ acknowledged, released, t2),
                            map (removalFact Accepted None nowMs) items @ facts, db')))
          else let (releasedItems, settled, db1) = release_rows s nowMs None items db
               in rbind (recover_groups s nowMs lookup groups t db1)
                    (\<lambda>((acknowledged, released, t2), facts, db').
                       Inr ((acknowledged, releasedItems @ released, t2), settled @ facts, db')))"

definition recoverClaims ::
  "queue_env \<Rightarrow> string \<Rightarrow> 't acceptance_lookup \<Rightarrow> recovery_scope option \<Rightarrow> int \<Rightarrow> 't \<Rightarrow>
   queue_db \<Rightarrow> (queue_item list \<times> queue_item list \<times> 't) committed" where
  "recoverClaims env s lookup scope nowMs t =
     transaction s nowMs (after_expiry s nowMs
       (\<lambda>facts db.
          rbind (rowsByStatus s Claimed db)
            (\<lambda>claimedItems.
               rbind (recover_groups s nowMs lookup
                        (groupRecoverable env nowMs scope claimedItems) t db)
                 (\<lambda>(value, settled, db'). Inr (value, facts @ settled, db')))))"

section \<open>Draining, replacing and deleting\<close>

text \<open>
  \<open>trim(json_extract(...)) <> ''\<close> of SQLite strips only spaces; the attachments array must be
  empty.
\<close>

definition composerInjectable :: "string \<Rightarrow> queue_row \<Rightarrow> bool" where
  "composerInjectable s r =
     (in_session s r \<and> has_status Queued r \<and> c_source (row_cols r) = Api \<and>
      trim_with (\<lambda>c. c = CHR 0x20) (m_content (i_message (c_dataJson (row_cols r)))) \<noteq> [] \<and>
      m_attachments (i_message (c_dataJson (row_cols r))) = [])"

definition drainComposerInjectable :: "string \<Rightarrow> int \<Rightarrow> queue_item list queue_op" where
  "drainComposerInjectable s nowMs =
     transaction s nowMs (after_expiry s nowMs
       (\<lambda>facts db.
          rbind (select_items (composerInjectable s) db)
            (\<lambda>selected.
               Inr (selected, facts @ map (removalFact ComposerTransferred None nowMs) selected,
                    deleteItems s selected db))))"

definition replaceSession :: "string \<Rightarrow> queue_item list \<Rightarrow> int \<Rightarrow> unit queue_op" where
  "replaceSession s items nowMs db =
     (if list_ex (\<lambda>i. i_sessionId i \<noteq> s \<or> \<not> isQueueItem i) items
      then Inl (QueueTypeError ''Queue replacement contains an invalid item'')
      else rbind (replaceRows s items db)
        (\<lambda>db1. Inr ((), [], reconcilePause s
           (db1\<lparr>q_migrations := (q_migrations db1)(s \<mapsto> nowMs),
                q_legacy := (q_legacy db1)(s := None)\<rparr>))))"

definition deleteSession :: "string \<Rightarrow> int \<Rightarrow> unit queue_op" where
  "deleteSession s nowMs =
     transaction s nowMs (after_expiry s nowMs
       (\<lambda>facts db.
          rbind (allRows s db)
            (\<lambda>remaining.
               let db1 = delete_rows (in_session s) db
               in Inr ((), facts @ map (removalFact Cancelled None nowMs) remaining,
                       db1\<lparr>q_migrations := (q_migrations db1)(s := None),
                           q_legacy := (q_legacy db1)(s := None)\<rparr>))))"

end
