(* ===== verification/QueueAbs.thy ===== *)
theory QueueAbs
  imports QueueRepo "HOL-Library.Multiset"
begin

text \<open>
  The abstract view of the queue tables and the library the queue properties rest on. A
  well-formed table is the list of its items (\<open>items\<close>): every column is a function of the item in
  the JSON column, keys are distinct and ids ascend. The lemmas of \<open>queue_abs\<close> rewrite every query
  of the repository to the abstract list, so later proofs never look at rows again.

  \<open>step_ok\<close> is the contract of a state change of one session: it keeps the tables well formed,
  leaves other sessions alone, never creates a second claim and publishes exactly the facts that
  account for the rows that came and went. It composes, and every primitive meets it.
\<close>

named_theorems queue_abs

definition row_item :: "queue_row \<Rightarrow> queue_item" where
  "row_item r = c_dataJson (row_cols r)"

definition items :: "queue_db \<Rightarrow> queue_item list" where
  "items db = map row_item (q_rows db)"

definition item_key :: "queue_item \<Rightarrow> string \<times> string" where
  "item_key i = (i_sessionId i, i_itemId i)"

definition cols_ok :: "queue_row \<Rightarrow> bool" where
  "cols_ok r \<longleftrightarrow> row_cols r = storage (row_item r)"

definition store_ok :: "queue_db \<Rightarrow> bool" where
  "store_ok db \<longleftrightarrow>
     list_all cols_ok (q_rows db) \<and> sorted_wrt (<) (map row_id (q_rows db)) \<and>
     list_all (\<lambda>r. row_id r < q_next db) (q_rows db)"

definition items_ok :: "queue_item list \<Rightarrow> bool" where
  "items_ok xs \<longleftrightarrow> list_all isQueueItem xs \<and> distinct (map item_key xs)"

definition wf_queue :: "queue_db \<Rightarrow> bool" where
  "wf_queue db \<longleftrightarrow> store_ok db \<and> items_ok (items db)"

lemma wf_queueI: "store_ok db \<Longrightarrow> items_ok (items db) \<Longrightarrow> wf_queue db"
  by (simp add: wf_queue_def)

lemma wf_store [dest]: "wf_queue db \<Longrightarrow> store_ok db"
  and wf_items: "wf_queue db \<Longrightarrow> items_ok (items db)"
  by (simp_all add: wf_queue_def)

section \<open>Row predicates and item predicates\<close>

lemma row_item_storage [simp]: "row_item (r\<lparr>row_cols := storage i\<rparr>) = i"
  "row_item \<lparr>row_id = n, row_cols = storage i\<rparr> = i"
  by (simp_all add: row_item_def storage_def)

lemma cols_ok_storage [simp]: "cols_ok (r\<lparr>row_cols := storage i\<rparr>)"
  "cols_ok \<lparr>row_id = n, row_cols = storage i\<rparr>"
  by (simp_all add: cols_ok_def)

lemma cols_okD:
  assumes "cols_ok r"
  shows in_session_item: "in_session s r \<longleftrightarrow> i_sessionId (row_item r) = s"
    and has_key_item: "has_key s k r \<longleftrightarrow> item_key (row_item r) = (s, k)"
    and has_status_item: "has_status st r \<longleftrightarrow> i_status (row_item r) = st"
    and expires_by_item: "expires_by n r \<longleftrightarrow> item_expired (row_item r) n"
    and c_status_item: "c_status (row_cols r) = i_status (row_item r)"
    and c_source_item: "c_source (row_cols r) = i_source (row_item r)"
    and c_claimId_item: "c_claimId (row_cols r) = i_claimId (row_item r)"
    and c_client_item: "c_clientRequestId (row_cols r) = i_clientRequestId (row_item r)"
    and c_dedupe_item: "c_dedupeKey (row_cols r) = i_dedupeKey (row_item r)"
    and c_session_item: "c_sessionId (row_cols r) = i_sessionId (row_item r)"
    and c_itemId_item: "c_itemId (row_cols r) = i_itemId (row_item r)"
    and c_createdAt_item: "c_createdAtMs (row_cols r) = i_createdAt (row_item r)"
    and c_dataJson_item: "c_dataJson (row_cols r) = row_item r"
proof -
  from assms obtain i where i: "i = row_item r" and c: "row_cols r = storage i"
    by (simp add: cols_ok_def)
  show "in_session s r \<longleftrightarrow> i_sessionId (row_item r) = s"
    "has_key s k r \<longleftrightarrow> item_key (row_item r) = (s, k)"
    "has_status st r \<longleftrightarrow> i_status (row_item r) = st"
    "expires_by n r \<longleftrightarrow> item_expired (row_item r) n"
    "c_status (row_cols r) = i_status (row_item r)"
    "c_source (row_cols r) = i_source (row_item r)"
    "c_claimId (row_cols r) = i_claimId (row_item r)"
    "c_clientRequestId (row_cols r) = i_clientRequestId (row_item r)"
    "c_dedupeKey (row_cols r) = i_dedupeKey (row_item r)"
    "c_sessionId (row_cols r) = i_sessionId (row_item r)"
    "c_itemId (row_cols r) = i_itemId (row_item r)"
    "c_createdAtMs (row_cols r) = i_createdAt (row_item r)"
    "c_dataJson (row_cols r) = row_item r"
    unfolding i [symmetric]
    by (simp_all add: c storage_def in_session_def has_key_def has_status_def expires_by_def
          item_expired_def item_key_def split: option.splits)
qed

lemmas row_preds = in_session_item has_key_item has_status_item expires_by_item c_status_item
  c_source_item c_claimId_item c_client_item c_dedupe_item c_session_item
  c_itemId_item c_createdAt_item c_dataJson_item

lemma store_ok_cols: "store_ok db \<Longrightarrow> r \<in> set (q_rows db) \<Longrightarrow> cols_ok r"
  by (simp add: store_ok_def list_all_iff)

definition reads_as :: "(queue_row \<Rightarrow> bool) \<Rightarrow> (queue_item \<Rightarrow> bool) \<Rightarrow> bool" where
  "reads_as p P \<longleftrightarrow> (\<forall>r. cols_ok r \<longrightarrow> p r = P (row_item r))"

lemma reads_asI: "(\<And>r. cols_ok r \<Longrightarrow> p r = P (row_item r)) \<Longrightarrow> reads_as p P"
  by (simp add: reads_as_def)

lemma filter_rows_items:
  assumes "store_ok db" "reads_as p P"
  shows "map row_item (filter p (q_rows db)) = filter P (items db)"
proof -
  have "filter p (q_rows db) = filter (P \<circ> row_item) (q_rows db)"
    using assms by (auto intro!: filter_cong dest: store_ok_cols simp: reads_as_def)
  then show ?thesis by (simp add: items_def filter_map)
qed

lemma find_rows_items:
  assumes "store_ok db" "reads_as p P"
  shows "map_option row_item (List.find p (q_rows db)) = List.find P (items db)"
  using filter_rows_items [OF assms]
  by (auto simp: find_eq_filter split: list.splits)

lemma list_ex_rows_items:
  assumes "store_ok db" "reads_as p P"
  shows "list_ex p (q_rows db) \<longleftrightarrow> list_ex P (items db)"
  using assms by (auto simp: list_ex_iff items_def reads_as_def dest: store_ok_cols)

section \<open>Decoding\<close>

lemma decodeQueueRow_ok:
  "cols_ok r \<Longrightarrow> isQueueItem (row_item r) \<Longrightarrow> decodeQueueRow r = Inr (row_item r)"
  by (simp add: decodeQueueRow_def Let_def row_preds)

lemma rmap_decode_ok:
  "list_all cols_ok rs \<Longrightarrow> list_all isQueueItem (map row_item rs) \<Longrightarrow>
   rmap decodeQueueRow rs = Inr (map row_item rs)"
  by (induction rs) (auto simp: decodeQueueRow_ok)

lemma select_items_abs:
  assumes "wf_queue db" "reads_as p P"
  shows "select_items p db = Inr (filter P (items db))"
proof -
  have "list_all cols_ok (filter p (q_rows db))"
    using assms by (auto simp: list_all_iff wf_queue_def store_ok_def)
  moreover have "list_all isQueueItem (map row_item (filter p (q_rows db)))"
    using assms by (auto simp: list_all_iff wf_queue_def items_ok_def items_def)
  ultimately show ?thesis
    using assms filter_rows_items [OF wf_store [OF assms(1)] assms(2)]
    by (simp add: select_items_def rmap_decode_ok)
qed

lemma find_decode_abs:
  assumes "wf_queue db" "reads_as p P"
  shows "rmap_option decodeQueueRow (List.find p (q_rows db)) = Inr (List.find P (items db))"
proof (cases "List.find p (q_rows db)")
  case None
  then show ?thesis using find_rows_items [OF wf_store [OF assms(1)] assms(2)] by simp
next
  case (Some r)
  then have "r \<in> set (q_rows db)" by (simp add: find_SomeD)
  then have "cols_ok r" "isQueueItem (row_item r)"
    using assms(1) by (auto simp: wf_queue_def store_ok_def items_ok_def items_def list_all_iff)
  moreover have "List.find P (items db) = Some (row_item r)"
    using find_rows_items [OF wf_store [OF assms(1)] assms(2)] Some by simp
  ultimately show ?thesis using Some by (simp add: decodeQueueRow_ok)
qed

section \<open>The queries on the abstract list\<close>

lemma find_item_abs [queue_abs]:
  "wf_queue db \<Longrightarrow> find_item s k db = Inr (List.find (\<lambda>i. item_key i = (s, k)) (items db))"
  unfolding find_item_def by (rule find_decode_abs) (auto intro!: reads_asI simp: row_preds)

lemma rowsByStatus_abs [queue_abs]:
  "wf_queue db \<Longrightarrow>
   rowsByStatus s st db = Inr (filter (\<lambda>i. i_sessionId i = s \<and> i_status i = st) (items db))"
  unfolding rowsByStatus_def by (rule select_items_abs) (auto intro!: reads_asI simp: row_preds)

lemma allRows_abs [queue_abs]:
  "wf_queue db \<Longrightarrow> allRows s db = Inr (filter (\<lambda>i. i_sessionId i = s) (items db))"
  unfolding allRows_def by (rule select_items_abs) (auto intro!: reads_asI simp: row_preds)

lemma claimRows_abs [queue_abs]:
  "wf_queue db \<Longrightarrow>
   claimRows s c db = Inr (filter (\<lambda>i. i_sessionId i = s \<and> i_status i = Claimed \<and>
                                      i_claimId i = Some c) (items db))"
  unfolding claimRows_def by (rule select_items_abs) (auto intro!: reads_asI simp: row_preds)

lemma findByClientRequest_abs [queue_abs]:
  "wf_queue db \<Longrightarrow>
   findByClientRequest s c db =
     Inr (List.find (\<lambda>i. i_sessionId i = s \<and> i_clientRequestId i = Some c) (items db))"
  unfolding findByClientRequest_def
  by (rule find_decode_abs) (auto intro!: reads_asI simp: row_preds)

lemma findByDedupeKey_abs [queue_abs]:
  "wf_queue db \<Longrightarrow>
   findByDedupeKey s c db =
     Inr (List.find (\<lambda>i. i_sessionId i = s \<and> i_status i = Queued \<and> i_dedupeKey i = Some c)
            (items db))"
  unfolding findByDedupeKey_def
  by (rule find_decode_abs) (auto intro!: reads_asI simp: row_preds)

lemma hasClaimed_abs [queue_abs]:
  "wf_queue db \<Longrightarrow>
   hasClaimed s db \<longleftrightarrow> list_ex (\<lambda>i. i_sessionId i = s \<and> i_status i = Claimed) (items db)"
  unfolding hasClaimed_def
  by (rule list_ex_rows_items) (auto intro!: reads_asI simp: row_preds)

lemma status_range: "st \<in> {Queued, Claimed}"
  by (cases st) simp_all

lemma pendingCount_abs [queue_abs]:
  assumes "wf_queue db"
  shows "pendingCount s db = length (filter (\<lambda>i. i_sessionId i = s) (items db))"
proof -
  have "reads_as (\<lambda>r. in_session s r \<and> c_status (row_cols r) \<in> {Queued, Claimed})
          (\<lambda>i. i_sessionId i = s)"
    by (rule reads_asI) (simp only: row_preds status_range simp_thms)
  from arg_cong [OF filter_rows_items [OF wf_store [OF assms] this], of length]
  show ?thesis by (simp only: pendingCount_def length_map)
qed

definition drainable :: "string \<Rightarrow> queue_item \<Rightarrow> bool" where
  "drainable s i \<longleftrightarrow>
     i_sessionId i = s \<and> i_status i = Queued \<and> i_source i = Api \<and>
     trim_with (\<lambda>c. c = CHR 0x20) (m_content (i_message i)) \<noteq> [] \<and>
     m_attachments (i_message i) = []"

lemma select_composer_abs [queue_abs]:
  "wf_queue db \<Longrightarrow>
   select_items (composerInjectable s) db = Inr (filter (drainable s) (items db))"
  by (rule select_items_abs)
    (assumption, rule reads_asI, simp only: row_preds composerInjectable_def drainable_def)

section \<open>The writes on the abstract list\<close>

definition add_row :: "queue_item \<Rightarrow> queue_db \<Rightarrow> queue_db" where
  "add_row i db = db\<lparr>q_rows := q_rows db @ [\<lparr>row_id = q_next db, row_cols = storage i\<rparr>],
                     q_next := Suc (q_next db)\<rparr>"

definition set_rows :: "queue_item \<Rightarrow> queue_item \<Rightarrow> queue_db \<Rightarrow> queue_db" where
  "set_rows old i db = db\<lparr>q_rows := map (\<lambda>r. if has_key (i_sessionId old) (i_itemId old) r
                                        then r\<lparr>row_cols := storage i\<rparr> else r) (q_rows db)\<rparr>"

lemma delete_rows_meta [simp]:
  "q_pauses (delete_rows p db) = q_pauses db" "q_migrations (delete_rows p db) = q_migrations db"
  "q_legacy (delete_rows p db) = q_legacy db"
  by (simp_all add: delete_rows_def)

lemma add_row_meta [simp]:
  "q_pauses (add_row i db) = q_pauses db" "q_migrations (add_row i db) = q_migrations db"
  "q_legacy (add_row i db) = q_legacy db"
  by (simp_all add: add_row_def)

lemma set_rows_meta [simp]:
  "q_pauses (set_rows j i db) = q_pauses db" "q_migrations (set_rows j i db) = q_migrations db"
  "q_legacy (set_rows j i db) = q_legacy db"
  by (simp_all add: set_rows_def)

lemma key_exists:
  "store_ok db \<Longrightarrow> list_ex (has_key (i_sessionId i) (i_itemId i)) (q_rows db) \<longleftrightarrow>
     item_key i \<in> item_key ` set (items db)"
  by (subst list_ex_rows_items [where P = "\<lambda>j. item_key j = item_key i"])
    (auto simp: list_ex_iff item_key_def row_preds image_iff intro!: reads_asI, metis)

lemma delete_rows_items:
  "store_ok db \<Longrightarrow> reads_as p P \<Longrightarrow> items (delete_rows p db) = filter (\<lambda>i. \<not> P i) (items db)"
  using filter_rows_items [of db "\<lambda>r. \<not> p r" "\<lambda>i. \<not> P i"]
  by (simp add: delete_rows_def items_def reads_as_def)

lemma delete_rows_store: "store_ok db \<Longrightarrow> store_ok (delete_rows p db)"
  by (auto simp: store_ok_def delete_rows_def list_all_iff intro: sorted_wrt_filter_map)

lemma add_row_items [simp]: "items (add_row i db) = items db @ [i]"
  by (simp add: add_row_def items_def)

lemma add_row_store: "store_ok db \<Longrightarrow> store_ok (add_row i db)"
  by (auto simp: store_ok_def add_row_def list_all_iff sorted_wrt_append less_Suc_eq)

lemma set_rows_items:
  "store_ok db \<Longrightarrow>
   items (set_rows j i db) = map (\<lambda>k. if item_key k = item_key j then i else k) (items db)"
  by (auto simp: items_def set_rows_def row_preds item_key_def dest: store_ok_cols)

lemma set_rows_store: "store_ok db \<Longrightarrow> store_ok (set_rows j i db)"
proof -
  have "row_id \<circ> (\<lambda>r. if has_key a b r then r\<lparr>row_cols := storage i\<rparr> else r) = row_id" for a b
    by (rule ext) simp
  then show "store_ok db \<Longrightarrow> store_ok (set_rows j i db)"
    by (auto simp: store_ok_def set_rows_def list_all_iff)
qed

lemma insert_row_abs:
  "store_ok db \<Longrightarrow>
   insert_row i db =
     (if item_key i \<in> item_key ` set (items db)
      then Inl (UniqueConstraintError (i_sessionId i) (i_itemId i)) else Inr (add_row i db))"
  by (simp add: insert_row_def key_exists add_row_def)

lemma write_item_abs:
  "store_ok db \<Longrightarrow>
   write_item i db =
     (if item_key i \<in> item_key ` set (items db) then set_rows i i db else add_row i db)"
  by (simp add: write_item_def key_exists add_row_def set_rows_def)

fun add_rows :: "queue_item list \<Rightarrow> queue_db \<Rightarrow> queue_db" where
  "add_rows [] db = db"
| "add_rows (i # is) db = add_rows is (add_row i db)"

lemma add_rows_meta [simp]:
  "q_pauses (add_rows is db) = q_pauses db" "q_migrations (add_rows is db) = q_migrations db"
  "q_legacy (add_rows is db) = q_legacy db"
  by (induction "is" db rule: add_rows.induct) simp_all

lemma add_rows_items [simp]: "items (add_rows is db) = items db @ is"
  by (induction "is" db rule: add_rows.induct) simp_all

lemma add_rows_store: "store_ok db \<Longrightarrow> store_ok (add_rows is db)"
  by (induction "is" db rule: add_rows.induct) (simp_all add: add_row_store)

lemma insert_rows_abs:
  "store_ok db \<Longrightarrow> distinct (map item_key is) \<Longrightarrow>
   item_key ` set is \<inter> item_key ` set (items db) = {} \<Longrightarrow>
   insert_rows is db = Inr (add_rows is db)"
  by (induction "is" db rule: add_rows.induct) (auto simp: insert_row_abs add_row_store)

lemma deleteItem_items:
  "store_ok db \<Longrightarrow> items (deleteItem s k db) = filter (\<lambda>i. item_key i \<noteq> (s, k)) (items db)"
  unfolding deleteItem_def
  by (rule delete_rows_items) (auto intro!: reads_asI simp: row_preds)

section \<open>The contract of a state change\<close>

text \<open>The keys a list of facts removes and adds.\<close>

fun removed_key :: "queue_fact \<Rightarrow> (string \<times> string) list" where
  "removed_key (Removed s i _ _ _) = [(s, i)]"
| "removed_key _ = []"

fun enqueued_key :: "queue_fact \<Rightarrow> (string \<times> string) list" where
  "enqueued_key (Enqueued s i _ _ _) = [(s, i)]"
| "enqueued_key _ = []"

definition removed_keys :: "queue_fact list \<Rightarrow> (string \<times> string) multiset" where
  "removed_keys facts = mset (concat (map removed_key facts))"

definition enqueued_keys :: "queue_fact list \<Rightarrow> (string \<times> string) multiset" where
  "enqueued_keys facts = mset (concat (map enqueued_key facts))"

definition key_mset :: "queue_db \<Rightarrow> (string \<times> string) multiset" where
  "key_mset db = mset (map item_key (items db))"

definition claims :: "string \<Rightarrow> queue_item list \<Rightarrow> nat" where
  "claims s xs = length (filter (\<lambda>i. i_sessionId i = s \<and> i_status i = Claimed) xs)"

definition outside :: "string \<Rightarrow> queue_item list \<Rightarrow> queue_item list" where
  "outside s xs = filter (\<lambda>i. i_sessionId i \<noteq> s) xs"

definition step_ok :: "string \<Rightarrow> queue_db \<Rightarrow> queue_fact list \<Rightarrow> queue_db \<Rightarrow> bool" where
  "step_ok s db facts db' \<longleftrightarrow>
     wf_queue db' \<and> outside s (items db') = outside s (items db) \<and>
     (\<forall>s'. s' \<noteq> s \<longrightarrow> q_pauses db' s' = q_pauses db s' \<and> q_migrations db' s' = q_migrations db s') \<and>
     claims s (items db') \<le> max 1 (claims s (items db)) \<and>
     key_mset db' + removed_keys facts = key_mset db + enqueued_keys facts"

lemma keys_simps [simp]:
  "removed_keys [] = {#}" "enqueued_keys [] = {#}"
  "removed_keys (f # fs) = mset (removed_key f) + removed_keys fs"
  "enqueued_keys (f # fs) = mset (enqueued_key f) + enqueued_keys fs"
  "removed_keys (fs @ gs) = removed_keys fs + removed_keys gs"
  "enqueued_keys (fs @ gs) = enqueued_keys fs + enqueued_keys gs"
  by (simp_all add: removed_keys_def enqueued_keys_def)

lemma removal_keys [simp]:
  "removed_key (removalFact r d n i) = [item_key i]" "enqueued_key (removalFact r d n i) = []"
  "removed_key (enqueueFact i) = []" "enqueued_key (enqueueFact i) = [item_key i]"
  "removed_key (requeueFact i n q) = []" "enqueued_key (requeueFact i n q) = []"
  "removed_key (executionStateFact s b) = []" "enqueued_key (executionStateFact s b) = []"
  by (simp_all add: removalFact_def enqueueFact_def requeueFact_def executionStateFact_def
        item_key_def)

lemma removal_facts_keys [simp]:
  "removed_keys (map (removalFact r d n) xs) = mset (map item_key xs)"
  "enqueued_keys (map (removalFact r d n) xs) = {#}"
  by (induction xs) simp_all

lemma step_ok_refl: "wf_queue db \<Longrightarrow> step_ok s db [] db"
  by (simp add: step_ok_def)

lemma step_ok_wf: "step_ok s db facts db' \<Longrightarrow> wf_queue db'"
  by (simp add: step_ok_def)

lemma step_ok_trans:
  assumes "step_ok s a f b" "step_ok s b g c"
  shows "step_ok s a (f @ g) c"
proof -
  have "key_mset c + removed_keys (f @ g) = (key_mset b + enqueued_keys g) + removed_keys f"
    using assms(2) by (simp add: step_ok_def ac_simps)
  also have "\<dots> = key_mset a + enqueued_keys (f @ g)"
    using assms(1) by (simp add: step_ok_def ac_simps)
  finally show ?thesis using assms by (auto simp: step_ok_def)
qed

lemma step_ok_facts:
  "step_ok s a f b \<Longrightarrow> removed_keys g = removed_keys f \<Longrightarrow> enqueued_keys g = enqueued_keys f \<Longrightarrow>
   step_ok s a g b"
  by (simp add: step_ok_def)

end
