(* ===== verification/QueueContract.thy ===== *)
theory QueueContract
  imports QueueAbs
begin

text \<open>
  Every write of the repository meets the contract \<open>step_ok\<close>, and so do the operations composed
  from them: the lemmas \<open>op_ok_*\<close> go through the repository in the order of the code. An operation
  meets \<open>op_ok s\<close> when, on well-formed tables, it never reports a corrupt row and its committed
  result meets the contract of session \<open>s\<close>.
\<close>

section \<open>The primitive writes\<close>

lemma items_ok_filter: "items_ok xs \<Longrightarrow> items_ok (filter P xs)"
  by (auto simp: items_ok_def list_all_iff intro: distinct_map_filterI)

lemma mset_filter_split:
  "mset (map f (filter (\<lambda>i. \<not> P i) xs)) + mset (map f (filter P xs)) = mset (map f xs)"
  by (induction xs) auto

lemma claims_filter_le: "claims s (filter P xs) \<le> claims s xs"
  unfolding claims_def by (induction xs) auto

lemma claims_append [simp]: "claims s (xs @ ys) = claims s xs + claims s ys"
  by (simp add: claims_def)

lemma claims_Nil [simp]: "claims s [] = 0"
  by (simp add: claims_def)

lemma claims_Cons [simp]:
  "claims s (i # xs) = (if i_sessionId i = s \<and> i_status i = Claimed then 1 else 0) + claims s xs"
  by (simp add: claims_def)

lemma outside_simps [simp]:
  "outside s [] = []" "outside s (xs @ ys) = outside s xs @ outside s ys"
  "outside s (i # xs) = (if i_sessionId i = s then outside s xs else i # outside s xs)"
  by (simp_all add: outside_def)

lemma outside_filter:
  "(\<And>i. i \<in> set xs \<Longrightarrow> P i \<Longrightarrow> i_sessionId i = s) \<Longrightarrow>
   outside s (filter (\<lambda>i. \<not> P i) xs) = outside s xs"
  by (induction xs) auto

lemma step_delete:
  assumes "wf_queue db" "reads_as p P" "\<And>i. i \<in> set (items db) \<Longrightarrow> P i \<Longrightarrow> i_sessionId i = s"
    and "removed_keys facts = mset (map item_key (filter P (items db)))" "enqueued_keys facts = {#}"
  shows "step_ok s db facts (delete_rows p db)"
proof -
  have i: "items (delete_rows p db) = filter (\<lambda>i. \<not> P i) (items db)"
    using assms(1,2) by (intro delete_rows_items) auto
  have "wf_queue (delete_rows p db)"
    using assms(1) i by (auto simp: wf_queue_def items_ok_filter delete_rows_store)
  moreover have "claims s (items (delete_rows p db)) \<le> max 1 (claims s (items db))"
    using claims_filter_le [of s _ "items db"] unfolding i by (simp add: le_max_iff_disj)
  ultimately show ?thesis
    using assms(3-5) mset_filter_split [of item_key P "items db"]
    by (simp add: step_ok_def i outside_filter key_mset_def)
qed

lemma update_split:
  assumes "distinct (map item_key zs)" "k \<in> set zs"
  obtains xs ys where "zs = xs @ k # ys"
    "map (\<lambda>j. if item_key j = item_key k then i else j) zs = xs @ i # ys"
proof -
  from assms(2) obtain xs ys where zs: "zs = xs @ k # ys" by (meson split_list)
  with assms(1) have "\<forall>j \<in> set xs \<union> set ys. item_key j \<noteq> item_key k"
    using distinct_map_others [of item_key xs k ys] by blast
  then have "map (\<lambda>j. if item_key j = item_key k then i else j) zs = xs @ i # ys"
    by (auto simp: zs intro!: map_idI)
  with zs show thesis by (rule that)
qed

lemma step_set:
  assumes wf: "wf_queue db" and k: "k \<in> set (items db)" and key: "item_key k = item_key j"
    and i: "isQueueItem i" "i_sessionId i = s" "i_sessionId k = s"
    and new: "item_key i = item_key k \<or> item_key i \<notin> item_key ` set (items db)"
    and claim: "i_status i = Claimed \<Longrightarrow> i_status k = Claimed \<or> claims s (items db) = 0"
    and facts: "enqueued_keys facts + {# item_key k #} = removed_keys facts + {# item_key i #}"
  shows "step_ok s db facts (set_rows j i db)"
proof -
  from wf have ok: "items_ok (items db)" by (simp add: wf_queue_def)
  then obtain xs ys where zs: "items db = xs @ k # ys"
    and upd: "map (\<lambda>m. if item_key m = item_key k then i else m) (items db) = xs @ i # ys"
    using update_split [OF _ k, of i thesis] by (auto simp: items_ok_def)
  have it: "items (set_rows j i db) = xs @ i # ys"
    using upd wf by (simp add: set_rows_items wf_store key [symmetric])
  have "items_ok (xs @ i # ys)"
    using ok i(1) new by (auto simp: items_ok_def zs image_iff)
  moreover have "claims s (xs @ i # ys) \<le> max 1 (claims s (xs @ k # ys))"
    using claim i by (cases "i_status i = Claimed") (auto simp: zs)
  moreover have "key_mset (set_rows j i db) + removed_keys facts = key_mset db + enqueued_keys facts"
    using facts by (simp add: key_mset_def it zs)
  ultimately show ?thesis
    using wf i by (simp add: step_ok_def it zs wf_queue_def set_rows_store)
qed

lemma step_add:
  assumes "wf_queue db" "isQueueItem i" "i_sessionId i = s" "item_key i \<notin> item_key ` set (items db)"
    and "i_status i = Queued"
    and "enqueued_keys facts = {# item_key i #}" "removed_keys facts = {#}"
  shows "step_ok s db facts (add_row i db)"
  using assms by (simp add: step_ok_def wf_queue_def items_ok_def add_row_store key_mset_def)

lemma find_key:
  "items_ok xs \<Longrightarrow> i \<in> set xs \<Longrightarrow> List.find (\<lambda>j. item_key j = item_key i) xs = Some i"
  by (induction xs) (auto simp: items_ok_def)

lemma find_key_Some:
  "List.find (\<lambda>j. item_key j = (s, k)) xs = Some i \<Longrightarrow>
   i \<in> set xs \<and> i_sessionId i = s \<and> i_itemId i = k"
  by (auto dest!: find_SomeD simp: item_key_def)

lemma item_of_wf: "wf_queue db \<Longrightarrow> i \<in> set (items db) \<Longrightarrow> isQueueItem i"
  by (simp add: wf_queue_def items_ok_def list_all_iff)

lemma key_of_wf:
  "wf_queue db \<Longrightarrow> i \<in> set (items db) \<Longrightarrow> j \<in> set (items db) \<Longrightarrow> item_key i = item_key j \<Longrightarrow> i = j"
  by (auto simp: wf_queue_def items_ok_def dest: distinct_map_unique)

lemma step_write_present:
  assumes "wf_queue db" "k \<in> set (items db)" "item_key i = item_key k" "isQueueItem i"
    and "i_status i = Claimed \<Longrightarrow> i_status k = Claimed \<or> claims (i_sessionId k) (items db) = 0"
  shows "step_ok (i_sessionId k) db [] (write_item i db)"
proof -
  have "item_key i \<in> item_key ` set (items db)" using assms(2,3) by auto
  then have "write_item i db = set_rows i i db" using assms(1) by (simp add: write_item_abs wf_store)
  moreover have "step_ok (i_sessionId k) db [] (set_rows i i db)"
  proof (rule step_set [where k = k])
    show "i_sessionId i = i_sessionId k" using assms(3) by (simp add: item_key_def)
  qed (use assms in simp_all)
  ultimately show ?thesis by simp
qed

lemma step_write_new:
  assumes "wf_queue db" "isQueueItem i" "item_key i \<notin> item_key ` set (items db)" "i_status i = Queued"
    and "enqueued_keys facts = {# item_key i #}" "removed_keys facts = {#}"
  shows "step_ok (i_sessionId i) db facts (write_item i db)"
  using assms by (simp add: write_item_abs wf_store step_add)

lemma filter_key:
  assumes "items_ok xs" "i \<in> set xs"
  shows "filter (\<lambda>j. item_key j = item_key i) xs = [i]"
proof -
  obtain ys zs where "xs = ys @ i # zs" using assms(2) by (meson split_list)
  moreover from this assms(1) have "\<forall>j \<in> set ys \<union> set zs. item_key j \<noteq> item_key i"
    using distinct_map_others [of item_key ys i zs] unfolding items_ok_def by blast
  ultimately show ?thesis by simp
qed

lemma step_deleteItem:
  assumes "wf_queue db" "i \<in> set (items db)"
    and "removed_keys facts = {# item_key i #}" "enqueued_keys facts = {#}"
  shows "step_ok (i_sessionId i) db facts (deleteItem (i_sessionId i) (i_itemId i) db)"
  unfolding deleteItem_def
proof (rule step_delete [where P = "\<lambda>j. item_key j = item_key i"])
  show "reads_as (has_key (i_sessionId i) (i_itemId i)) (\<lambda>j. item_key j = item_key i)"
    by (auto intro!: reads_asI simp: row_preds item_key_def)
  show "removed_keys facts = mset (map item_key (filter (\<lambda>j. item_key j = item_key i) (items db)))"
    using assms by (simp add: filter_key wf_queue_def)
qed (use assms in \<open>auto simp: item_key_def\<close>)

lemma deleteItem_items_of:
  "wf_queue db \<Longrightarrow> items (deleteItem s k db) = filter (\<lambda>i. item_key i \<noteq> (s, k)) (items db)"
  by (rule deleteItem_items) auto

section \<open>Operations that meet the contract\<close>

definition reports_corruption :: "queue_error \<Rightarrow> bool" where
  "reports_corruption e \<longleftrightarrow> (\<exists>s i. e = QueueDataCorruptionError s i)"

definition run_ok :: "string \<Rightarrow> queue_db \<Rightarrow> 'a committed \<Rightarrow> bool" where
  "run_ok s db r \<longleftrightarrow>
     (case r of Inl e \<Rightarrow> \<not> reports_corruption e | Inr (v, facts, db') \<Rightarrow> step_ok s db facts db')"

definition pause_pending :: "string \<Rightarrow> queue_db \<Rightarrow> bool" where
  "pause_pending s db \<longleftrightarrow> (pause_of s db \<noteq> None \<longrightarrow> (\<exists>i \<in> set (items db). i_sessionId i = s))"

lemma run_ok_Inl [simp]: "run_ok s db (Inl e) \<longleftrightarrow> \<not> reports_corruption e"
  by (simp add: run_ok_def)

lemma run_ok_Inr [simp]: "run_ok s db (Inr (v, facts, db')) \<longleftrightarrow> step_ok s db facts db'"
  by (simp add: run_ok_def)

lemma not_corruption [simp]:
  "\<not> reports_corruption (QueueClaimNotFoundError s c)"
  "\<not> reports_corruption (QueueClaimNotAcceptedError s c t)"
  "\<not> reports_corruption (QueueEnqueueAdmissionError s a)"
  "\<not> reports_corruption (UniqueConstraintError s i)"
  "\<not> reports_corruption (QueueTypeError m)"
  "\<not> reports_corruption (QueueLookupError m)"
  "\<not> reports_corruption (QueueDeliveryConflictError m)"
  "reports_corruption (QueueDataCorruptionError s i)"
  by (simp_all add: reports_corruption_def)

text \<open>A change of the pause row, or of the migration markers of the own session, changes no item.\<close>

definition same_items :: "queue_db \<Rightarrow> queue_db \<Rightarrow> bool" where
  "same_items db db' \<longleftrightarrow> q_rows db' = q_rows db \<and> q_next db' = q_next db"

lemma same_itemsD:
  assumes "same_items db db'"
  shows "items db' = items db" "store_ok db' = store_ok db" "wf_queue db' = wf_queue db"
  using assms by (simp_all add: same_items_def items_def store_ok_def wf_queue_def)

lemma step_same_items:
  assumes "wf_queue db" "same_items db db'"
    and "\<And>s'. s' \<noteq> s \<Longrightarrow> q_pauses db' s' = q_pauses db s' \<and> q_migrations db' s' = q_migrations db s'"
    and "removed_keys facts = {#}" "enqueued_keys facts = {#}"
  shows "step_ok s db facts db'"
  using assms by (simp add: step_ok_def same_itemsD key_mset_def)

lemma reconcilePause_same: "same_items db (reconcilePause s db)"
  by (simp add: same_items_def reconcilePause_def delete_pause_def)

lemma ensure_same: "same_items db (ensureQueueRowsReady s n db)"
  by (simp add: same_items_def ensureQueueRowsReady_def split: option.splits)

lemma step_reconcile: "wf_queue db \<Longrightarrow> step_ok s db [] (reconcilePause s db)"
  by (rule step_same_items [OF _ reconcilePause_same])
    (simp_all add: reconcilePause_def delete_pause_def)

lemma step_ensure: "wf_queue db \<Longrightarrow> step_ok s db [] (ensureQueueRowsReady s n db)"
  by (rule step_same_items [OF _ ensure_same])
    (simp_all add: ensureQueueRowsReady_def split: option.splits)

lemma withPause_keys [simp]:
  "removed_keys (snd (withPauseRemovalFact (v, facts) s b)) = removed_keys facts"
  "enqueued_keys (snd (withPauseRemovalFact (v, facts) s b)) = enqueued_keys facts"
  "fst (withPauseRemovalFact (v, facts) s b) = v"
  by (simp_all add: withPauseRemovalFact_def executionStateFact_def)

lemma pendingCount_pos:
  "wf_queue db \<Longrightarrow> 0 < pendingCount s db \<longleftrightarrow> (\<exists>i \<in> set (items db). i_sessionId i = s)"
  by (auto simp: pendingCount_abs filter_empty_conv)

lemma reconcile_pending: "wf_queue db \<Longrightarrow> pause_pending s (reconcilePause s db)"
  using pendingCount_pos [of db s] same_itemsD(1) [OF reconcilePause_same, of s db]
  by (auto simp: pause_pending_def reconcilePause_def pause_of_def delete_pause_def
      split: if_splits)

lemma run_ok_transaction:
  assumes wf: "wf_queue db"
    and body: "\<And>db1. wf_queue db1 \<Longrightarrow> items db1 = items db \<Longrightarrow> run_ok s db1 (operation db1)"
  shows "run_ok s db (transaction s n operation db)"
    and "transaction s n operation db = Inr (v, facts, db') \<Longrightarrow> pause_pending s db'"
proof -
  let ?db1 = "ensureQueueRowsReady s n db"
  have wf1: "wf_queue ?db1" and it: "items ?db1 = items db"
    using wf same_itemsD [OF ensure_same] by blast+
  have b: "run_ok s ?db1 (operation ?db1)" by (rule body [OF wf1 it])
  show "run_ok s db (transaction s n operation db)"
  proof (cases "operation ?db1")
    case (Inl e)
    then show ?thesis using b by (simp add: transaction_def)
  next
    case (Inr r)
    obtain v fs db2 where r: "r = (v, fs, db2)" by (metis prod_cases3)
    have "step_ok s ?db1 fs db2" using b Inr r by simp
    then have "step_ok s db (([] @ fs) @ []) (reconcilePause s db2)"
      using step_ensure [OF wf] step_reconcile step_ok_wf step_ok_trans by metis
    then show ?thesis
      by (simp add: transaction_def Inr r Let_def) (erule step_ok_facts, simp_all)
  qed
  show "pause_pending s db'" if "transaction s n operation db = Inr (v, facts, db')"
  proof -
    from that obtain v2 fs db2 where o: "operation ?db1 = Inr (v2, fs, db2)"
      and d: "db' = reconcilePause s db2"
      by (auto simp: transaction_def Let_def result_simps)
    then have "wf_queue db2" using b by (simp add: step_ok_wf)
    then show ?thesis unfolding d by (rule reconcile_pending)
  qed
qed

text \<open>What \<open>deleteExpired\<close> selects and deletes.\<close>

definition overdue :: "string \<Rightarrow> int \<Rightarrow> queue_item \<Rightarrow> bool" where
  "overdue s n i \<longleftrightarrow> i_sessionId i = s \<and> i_status i = Queued \<and> item_expired i n"

lemma deleteExpired_abs [queue_abs]:
  assumes "wf_queue db"
  shows "deleteExpired s n db =
     Inr (filter (overdue s n) (items db),
          delete_rows (\<lambda>r. in_session s r \<and> has_status Queued r \<and> expires_by n r) db)"
proof -
  have "reads_as (\<lambda>r. in_session s r \<and> has_status Queued r \<and> expires_by n r) (overdue s n)"
    by (auto intro!: reads_asI simp: row_preds overdue_def)
  from select_items_abs [OF assms this] show ?thesis
    by (simp add: deleteExpired_def Let_def)
qed

lemma run_ok_after_expiry:
  assumes wf: "wf_queue db"
    and body: "\<And>facts db1. wf_queue db1 \<Longrightarrow> step_ok s db facts db1 \<Longrightarrow>
      items db1 = filter (\<lambda>i. \<not> overdue s n i) (items db) \<Longrightarrow> run_ok s db (k facts db1)"
  shows "run_ok s db (after_expiry s n k db)"
proof -
  let ?p = "\<lambda>r. in_session s r \<and> has_status Queued r \<and> expires_by n r"
  let ?db1 = "delete_rows ?p db"
  let ?facts = "expiredFacts (filter (overdue s n) (items db)) n"
  have p: "reads_as ?p (overdue s n)"
    by (auto intro!: reads_asI simp: row_preds overdue_def)
  have st: "step_ok s db ?facts ?db1"
    by (rule step_delete [OF wf p]) (auto simp: overdue_def)
  moreover have "items ?db1 = filter (\<lambda>i. \<not> overdue s n i) (items db)"
    using wf p by (intro delete_rows_items) auto
  ultimately have "run_ok s db (k ?facts ?db1)"
    by (intro body) (simp_all add: step_ok_wf)
  then show ?thesis by (simp add: after_expiry_def deleteExpired_abs [OF wf])
qed

lemma run_ok_step: "step_ok s db facts db1 \<Longrightarrow> step_ok s db1 g db2 \<Longrightarrow> run_ok s db (Inr (v, facts @ g, db2))"
  by (auto intro: step_ok_trans)

end
