(* ===== verification/QueueOps.thy ===== *)
theory QueueOps
  imports QueueContract
begin

text \<open>
  Each operation of the repository meets the contract \<open>run_ok\<close> on well-formed tables. The lemmas
  follow the order of \<open>repo/drizzle.ts\<close>; the hypotheses of \<open>enqueue\<close>, \<open>updateQueued\<close>,
  \<open>prepareDelivery\<close> and \<open>replaceSession\<close> are what these operations do not check themselves.
\<close>

lemma run_ok_mutation:
  assumes "wf_queue db"
    and "\<And>db1. wf_queue db1 \<Longrightarrow> items db1 = items db \<Longrightarrow> run_ok s db1 (operation db1)"
  shows "run_ok s db (mutationTransaction env s n operation db)"
    and "mutationTransaction env s n operation db = Inr (v, facts, db') \<Longrightarrow> pause_pending s db'"
  using run_ok_transaction [OF assms, of n] by (auto simp: mutationTransaction_def split: option.splits)

lemmas run_ok_op = run_ok_transaction(1) run_ok_mutation(1)

text \<open>A change that only touches the pause of the session.\<close>

lemma step_pause:
  assumes "wf_queue db"
  shows "step_ok s db [] (delete_pause s db)"
    and "step_ok s db [] (db\<lparr>q_pauses := (q_pauses db)(s \<mapsto> p)\<rparr>)"
  by (rule step_same_items [OF assms]; simp add: same_items_def delete_pause_def)+

lemma step_ok_more:
  assumes "step_ok s db facts db1" "step_ok s db1 [] db2"
  shows "step_ok s db facts db2"
  using step_ok_trans [OF assms] by simp

lemma snapshot_queue_ok: "wf_queue db \<Longrightarrow> run_ok s db (snapshot_queue s n db)"
  unfolding snapshot_queue_def
  by (intro run_ok_op run_ok_after_expiry)
    (simp_all add: Let_def step_ok_more [OF _ step_reconcile])

lemma list_queue_ok: "wf_queue db \<Longrightarrow> run_ok s db (list_queue s n db)"
  unfolding list_queue_def by (intro run_ok_op run_ok_after_expiry) (simp_all add: queue_abs)

lemma findByClientRequestId_ok: "wf_queue db \<Longrightarrow> run_ok s db (findByClientRequestId s c n db)"
  unfolding findByClientRequestId_def
  by (intro run_ok_op run_ok_after_expiry) (simp_all add: queue_abs)

lemma get_item_ok: "wf_queue db \<Longrightarrow> run_ok s db (get_item s c n db)"
  unfolding get_item_def by (intro run_ok_op run_ok_after_expiry) (simp_all add: queue_abs)

lemma step_state_fact:
  "step_ok s db facts db1 \<Longrightarrow> step_ok s db (facts @ [executionStateFact s' b]) db1"
  by (erule step_ok_facts) simp_all

lemma pauseIfPending_ok: "wf_queue db \<Longrightarrow> run_ok (pi_sessionId input) db (pauseIfPending input n db)"
  unfolding pauseIfPending_def Let_def
proof (intro run_ok_op run_ok_after_expiry, goal_cases)
  case (3 db1 facts db2)
  have r: "step_ok (pi_sessionId input) db1 facts (reconcilePause (pi_sessionId input) db2)"
    by (rule step_ok_more [OF 3(5) step_reconcile [OF 3(4)]])
  show ?case
    using r step_ok_more [OF r step_pause(2) [OF step_ok_wf [OF r]]]
    by (auto simp: step_state_fact)
qed simp_all

lemma continueQueue_ok: "wf_queue db \<Longrightarrow> run_ok s db (continueQueue s e n db)"
  unfolding continueQueue_def Let_def
proof (intro run_ok_op run_ok_after_expiry, goal_cases)
  case (3 db1 facts db2)
  have r: "step_ok s db1 facts (reconcilePause s db2)"
    by (rule step_ok_more [OF 3(5) step_reconcile [OF 3(4)]])
  show ?case
    using r step_ok_more [OF r step_pause(1) [OF step_ok_wf [OF r]]]
    by (auto simp: step_state_fact)
qed simp_all

lemma cancel_item_ok: "wf_queue db \<Longrightarrow> run_ok s db (cancel_item env s k n db)"
  unfolding cancel_item_def
proof (intro run_ok_op run_ok_after_expiry, goal_cases)
  case (3 db1 facts db2)
  show ?case
  proof (cases "List.find (\<lambda>i. item_key i = (s, k)) (items db2)")
    case None
    then show ?thesis using 3 by (simp add: queue_abs)
  next
    case (Some i)
    then have i: "i \<in> set (items db2)" "i_sessionId i = s" "i_itemId i = k"
      by (auto dest: find_key_Some)
    have "step_ok s db2 [removalFact Cancelled None n i] (deleteItem s k db2)"
      using step_deleteItem [OF 3(4) i(1)] i(2,3) by simp
    with Some 3 show ?thesis by (simp add: queue_abs run_ok_step [simplified])
  qed
qed simp_all

lemma deleteItems_step:
  "wf_queue db \<Longrightarrow> set xs \<subseteq> set (items db) \<Longrightarrow> distinct (map item_key xs) \<Longrightarrow>
   (\<forall>i \<in> set xs. i_sessionId i = s) \<Longrightarrow>
   step_ok s db (map (removalFact r d n) xs) (deleteItems s xs db)"
proof (induction s xs db rule: deleteItems.induct)
  case (1 s db)
  then show ?case by (simp add: step_ok_refl)
next
  case (2 s i xs db)
  have d: "step_ok s db [removalFact r d n i] (deleteItem s (i_itemId i) db)"
    using step_deleteItem [of db i "[removalFact r d n i]"] 2 by simp
  have "set xs \<subseteq> set (items (deleteItem s (i_itemId i) db))"
    using 2 by (auto simp: deleteItem_items_of) (metis 2(5) image_eqI item_key_def list.set_intros(1))
  then have "step_ok s (deleteItem s (i_itemId i) db) (map (removalFact r d n) xs)
      (deleteItems s xs (deleteItem s (i_itemId i) db))"
    using 2 step_ok_wf [OF d] by simp
  from step_ok_trans [OF d this] show ?case by simp
qed

lemma items_ok_keys_filter: "items_ok xs \<Longrightarrow> distinct (map item_key (filter P xs))"
  by (simp add: items_ok_def distinct_map_filterI)

text \<open>Deleting the items a query of the session selected, with one removal fact for each.\<close>

lemma deleteItems_filter:
  assumes "wf_queue db" "\<And>i. P i \<Longrightarrow> i_sessionId i = s"
  shows "step_ok s db (map (removalFact r d n) (filter P (items db)))
           (deleteItems s (filter P (items db)) db)"
  using assms by (intro deleteItems_step) (auto simp: wf_queue_def items_ok_keys_filter)

lemma drain_ok: "wf_queue db \<Longrightarrow> run_ok s db (drainComposerInjectable s n db)"
  unfolding drainComposerInjectable_def
proof (intro run_ok_op run_ok_after_expiry, goal_cases)
  case (3 db1 facts db2)
  show ?case
    using run_ok_step [OF 3(5) deleteItems_filter [OF 3(4), of "drainable s"]]
    by (simp add: queue_abs 3(4) drainable_def)
qed simp_all

lemma settle_claimed_ok: "wf_queue db \<Longrightarrow> run_ok s db (settle_claimed s c n r d db)"
  unfolding settle_claimed_def
proof (intro run_ok_op run_ok_after_expiry, goal_cases)
  case (3 db1 facts db2)
  let ?P = "\<lambda>i. i_sessionId i = s \<and> i_status i = Claimed \<and> i_claimId i = Some c"
  show ?case
    using run_ok_step [OF 3(5) deleteItems_filter [OF 3(4), of ?P s r d n]]
    by (simp add: queue_abs 3(4))
qed simp_all

lemma rejectClaim_ok: "wf_queue db \<Longrightarrow> run_ok s db (rejectClaim s c r n db)"
  and removeClaimed_ok: "wf_queue db \<Longrightarrow> run_ok s db (removeClaimed s c q n db)"
  by (simp_all add: rejectClaim_def removeClaimed_def settle_claimed_ok)

lemma deleteSession_ok: "wf_queue db \<Longrightarrow> run_ok s db (deleteSession s n db)"
  unfolding deleteSession_def
proof (intro run_ok_op run_ok_after_expiry, goal_cases)
  case (3 db1 facts db2)
  let ?xs = "filter (\<lambda>i. i_sessionId i = s) (items db2)"
  let ?d = "delete_rows (in_session s) db2"
  let ?e = "?d\<lparr>q_migrations := (q_migrations ?d)(s := None), q_legacy := (q_legacy ?d)(s := None)\<rparr>"
  have "step_ok s db2 (map (removalFact Cancelled None n) ?xs) ?d"
    by (rule step_delete [OF 3(4), where P = "\<lambda>i. i_sessionId i = s"])
      (auto intro!: reads_asI simp: row_preds)
  moreover from this have "step_ok s ?d [] ?e"
    by (intro step_same_items) (auto simp: same_items_def step_ok_wf)
  ultimately have "step_ok s db2 (map (removalFact Cancelled None n) ?xs) ?e"
    by (rule step_ok_more)
  from run_ok_step [OF 3(5) this] show ?case by (simp add: queue_abs 3(4) Let_def)
qed simp_all

section \<open>Releasing and recovering claims\<close>

lemma withoutClaim_valid: "isQueueItem i \<Longrightarrow> isQueueItem (withoutClaim i)"
  by (simp add: isQueueItem_def withoutClaim_def hasIdentity_def hasOptionalMetadata_def
      claimFieldsAbsent_def)

lemma withoutClaim_simps [simp]:
  "item_key (withoutClaim i) = item_key i" "i_sessionId (withoutClaim i) = i_sessionId i"
  "i_itemId (withoutClaim i) = i_itemId i" "i_status (withoutClaim i) = Queued"
  by (simp_all add: withoutClaim_def item_key_def)

lemma write_item_other:
  "wf_queue db \<Longrightarrow> x \<in> set (items db) \<Longrightarrow> item_key x \<noteq> item_key i \<Longrightarrow>
   x \<in> set (items (write_item i db))"
  by (auto simp: write_item_abs wf_store set_rows_items image_iff intro!: bexI [of _ x])

lemma deleteItem_other:
  "wf_queue db \<Longrightarrow> x \<in> set (items db) \<Longrightarrow> item_key x \<noteq> (s, k) \<Longrightarrow>
   x \<in> set (items (deleteItem s k db))"
  by (simp add: deleteItem_items_of)

text \<open>The rows a loop still has to visit: stored, in the session, with keys of their own.\<close>

definition pending_rows :: "string \<Rightarrow> queue_item list \<Rightarrow> queue_db \<Rightarrow> bool" where
  "pending_rows s xs db \<longleftrightarrow>
     set xs \<subseteq> set (items db) \<and> distinct (map item_key xs) \<and> (\<forall>i \<in> set xs. i_sessionId i = s)"

lemma pending_rows_filter:
  "wf_queue db \<Longrightarrow> (\<And>i. P i \<Longrightarrow> i_sessionId i = s) \<Longrightarrow> pending_rows s (filter P (items db)) db"
  by (auto simp: pending_rows_def wf_queue_def items_ok_keys_filter)

lemma pending_rows_Cons:
  "pending_rows s (i # xs) db \<Longrightarrow>
   i \<in> set (items db) \<and> i_sessionId i = s \<and> (\<forall>x \<in> set xs. item_key x \<noteq> item_key i)"
  by (auto simp: pending_rows_def) (metis image_eqI)

lemma pending_rows_tail:
  assumes "pending_rows s (i # xs) db"
    and "\<And>x. x \<in> set (items db) \<Longrightarrow> item_key x \<noteq> item_key i \<Longrightarrow> x \<in> set (items db')"
  shows "pending_rows s xs db'"
  using assms pending_rows_Cons [OF assms(1)] by (auto simp: pending_rows_def)

lemma release_item_step:
  assumes "wf_queue db" "i \<in> set (items db)"
  shows "step_ok (i_sessionId i) db [] (write_item (withoutClaim i) db)"
  by (rule step_write_present [OF assms])
    (simp_all add: withoutClaim_valid item_of_wf [OF assms])

lemma release_rows_step:
  "wf_queue db \<Longrightarrow> pending_rows s xs db \<Longrightarrow>
   step_ok s db (fst (snd (release_rows s n r xs db))) (snd (snd (release_rows s n r xs db)))"
proof (induction s n r xs db rule: release_rows.induct)
  case (1 s n r db)
  then show ?case by (simp add: step_ok_refl)
next
  case (2 s n r i xs db)
  note i = pending_rows_Cons [OF 2(4)]
  show ?case
  proof (cases "item_expired i n")
    case True
    have d: "step_ok s db [removalFact Expired None n i] (deleteItem s (i_itemId i) db)"
      using step_deleteItem [OF 2(3), of i] i by simp
    have "pending_rows s xs (deleteItem s (i_itemId i) db)"
      using 2(3) i by (intro pending_rows_tail [OF 2(4)]) (auto intro: deleteItem_other simp: item_key_def)
    from step_ok_trans [OF d 2(1) [OF True step_ok_wf [OF d] this]]
    show ?thesis using True by (simp add: split_beta)
  next
    case False
    have d: "step_ok s db [requeueFact (withoutClaim i) n r] (write_item (withoutClaim i) db)"
      using step_ok_facts [OF release_item_step [OF 2(3), of i]] i by simp
    have "pending_rows s xs (write_item (withoutClaim i) db)"
      using 2(3) by (intro pending_rows_tail [OF 2(4)]) (auto intro: write_item_other)
    then have "step_ok s (write_item (withoutClaim i) db)
        (fst (snd (release_rows s n r xs (write_item (withoutClaim i) db))))
        (snd (snd (release_rows s n r xs (write_item (withoutClaim i) db))))"
      using 2(2) False step_ok_wf [OF d] by (simp add: release_item_def Let_def)
    from step_ok_trans [OF d this] show ?thesis using False by (simp add: release_item_def Let_def split_beta)
  qed
qed

lemma deleteItems_other:
  "wf_queue db \<Longrightarrow> pending_rows s ys db \<Longrightarrow> x \<in> set (items db) \<Longrightarrow>
   item_key x \<notin> item_key ` set ys \<Longrightarrow> x \<in> set (items (deleteItems s ys db))"
proof (induction s ys db rule: deleteItems.induct)
  case (2 s i ys db)
  note i = pending_rows_Cons [OF 2(3)]
  have "step_ok s db [removalFact Expired None 0 i] (deleteItem s (i_itemId i) db)"
    using step_deleteItem [OF 2(2), of i] i by simp
  then have wf: "wf_queue (deleteItem s (i_itemId i) db)" by (rule step_ok_wf)
  have "pending_rows s ys (deleteItem s (i_itemId i) db)"
    using 2(2) i by (intro pending_rows_tail [OF 2(3)]) (auto intro: deleteItem_other simp: item_key_def)
  moreover have "x \<in> set (items (deleteItem s (i_itemId i) db))"
    using 2 i by (intro deleteItem_other) (auto simp: item_key_def)
  ultimately show ?case using 2(1) [OF wf] 2(5) by simp
qed simp

lemma release_rows_other:
  "wf_queue db \<Longrightarrow> pending_rows s ys db \<Longrightarrow> x \<in> set (items db) \<Longrightarrow>
   item_key x \<notin> item_key ` set ys \<Longrightarrow> x \<in> set (items (snd (snd (release_rows s n r ys db))))"
proof (induction s n r ys db rule: release_rows.induct)
  case (2 s n r i ys db)
  note i = pending_rows_Cons [OF 2(4)]
  show ?case
  proof (cases "item_expired i n")
    case True
    have "step_ok s db [removalFact Expired None 0 i] (deleteItem s (i_itemId i) db)"
      using step_deleteItem [OF 2(3), of i] i by simp
    moreover have "pending_rows s ys (deleteItem s (i_itemId i) db)"
      using 2(3) i by (intro pending_rows_tail [OF 2(4)]) (auto intro: deleteItem_other simp: item_key_def)
    moreover have "x \<in> set (items (deleteItem s (i_itemId i) db))"
      using 2 i by (intro deleteItem_other) (auto simp: item_key_def)
    ultimately show ?thesis using True 2 by (simp add: step_ok_wf split_beta)
  next
    case False
    have "step_ok s db [] (write_item (withoutClaim i) db)"
      using release_item_step [OF 2(3), of i] i by simp
    moreover have "pending_rows s ys (write_item (withoutClaim i) db)"
      using 2(3) by (intro pending_rows_tail [OF 2(4)]) (auto intro: write_item_other)
    moreover have "x \<in> set (items (write_item (withoutClaim i) db))"
      using 2 by (intro write_item_other) auto
    ultimately show ?thesis
      using False 2 by (simp add: release_item_def Let_def step_ok_wf split_beta)
  qed
qed simp

lemma releaseClaim_ok:
  assumes "wf_queue db"
  shows "run_ok s db (releaseClaim s c r n db)"
proof (cases "c = []")
  case True
  then show ?thesis using assms by (simp add: releaseClaim_def step_ok_refl)
next
  case False
  have "run_ok s db (transaction s n (after_expiry s n
        (\<lambda>facts db. rbind (claimRows s c db)
           (\<lambda>claimed. let (released, settled, db') = release_rows s n r claimed db
              in Inr (released, facts @ settled, db')))) db)"
  proof (intro run_ok_op run_ok_after_expiry, goal_cases)
    case (3 db1 facts db2)
    let ?xs = "filter (\<lambda>i. i_sessionId i = s \<and> i_status i = Claimed \<and> i_claimId i = Some c) (items db2)"
    have "pending_rows s ?xs db2" by (rule pending_rows_filter [OF 3(3)]) simp
    from run_ok_step [OF 3(4) release_rows_step [OF 3(3) this]]
    show ?case by (simp add: queue_abs 3(3) split_beta)
  qed (use assms in simp_all)
  then show ?thesis using False by (simp add: releaseClaim_def)
qed

text \<open>What the recovery groups hold: rows of the session with keys of their own.\<close>

lemma pending_rows_append:
  assumes "pending_rows s (xs @ ys) db"
  shows "pending_rows s xs db" "pending_rows s ys db"
    and "x \<in> set ys \<Longrightarrow> item_key x \<notin> item_key ` set xs"
  using assms by (auto simp: pending_rows_def)

lemma pending_rows_rest:
  assumes "pending_rows s (xs @ ys) db"
    and "\<And>x. x \<in> set (items db) \<Longrightarrow> item_key x \<notin> item_key ` set xs \<Longrightarrow> x \<in> set (items db')"
  shows "pending_rows s ys db'"
proof -
  have "set ys \<subseteq> set (items db')"
  proof
    fix x assume x: "x \<in> set ys"
    then have "x \<in> set (items db)" using assms(1) by (auto simp: pending_rows_def)
    then show "x \<in> set (items db')" using assms(2) pending_rows_append(3) [OF assms(1) x] by blast
  qed
  then show ?thesis using pending_rows_append(2) [OF assms(1)] by (simp add: pending_rows_def)
qed

lemma claimQuery_error: "claimQuery xs c t = Inl e \<Longrightarrow> \<not> reports_corruption e"
  by (auto simp: claimQuery_def split: list.splits)

definition lookup_sound :: "'t acceptance_lookup \<Rightarrow> bool" where
  "lookup_sound lookup \<longleftrightarrow>
     (\<forall>t q e. markAcknowledged lookup t q = Inl e \<longrightarrow> \<not> reports_corruption e)"

lemma run_ok_prepend:
  assumes "step_ok s db f db1" "run_ok s db1 r"
  shows "run_ok s db (rbind r (\<lambda>(v, g, db2). Inr (h v, f @ g, db2)))"
  using assms by (cases r) (auto intro: step_ok_trans)

lemma recover_groups_ok:
  "lookup_sound lookup \<Longrightarrow> wf_queue db \<Longrightarrow> pending_rows s (concat (map snd groups)) db \<Longrightarrow>
   run_ok s db (recover_groups s n lookup groups t db)"
proof (induction s n lookup groups t db rule: recover_groups.induct)
  case (1 s n lookup t db)
  then show ?case by (simp add: step_ok_refl)
next
  case (2 s n lookup c xs groups t db)
  let ?rest = "concat (map snd groups)"
  from 2(5) have p: "pending_rows s (xs @ ?rest) db" by simp
  note rows = pending_rows_append(1,2) [OF p]
  show ?case
  proof (cases "claimQuery xs c None")
    case (Inl e)
    then show ?thesis using claimQuery_error by simp
  next
    case (Inr q)
    show ?thesis
    proof (cases "\<not> pendingDelivery c xs \<and> isAccepted lookup t q")
      case True
      show ?thesis
      proof (cases "markAcknowledged lookup t q")
        case (Inl e)
        then show ?thesis using 2(3) True \<open>claimQuery xs c None = Inr q\<close>
          by (auto simp: lookup_sound_def)
      next
        case (Inr t1)
        let ?db1 = "deleteItems s xs db"
        have st: "step_ok s db (map (removalFact Accepted None n) xs) ?db1"
          using rows(1) 2(4) by (intro deleteItems_step) (auto simp: pending_rows_def)
        have "pending_rows s ?rest ?db1"
          by (rule pending_rows_rest [OF p]) (rule deleteItems_other [OF 2(4) rows(1)])
        then have "run_ok s ?db1 (recover_groups s n lookup groups t1 ?db1)"
          using 2(1) [OF True 2(3) step_ok_wf [OF st]] by simp
        from run_ok_prepend [OF st this, of "\<lambda>(a, r, t2). (xs @ a, r, t2)"]
        show ?thesis using True Inr \<open>claimQuery xs c None = Inr q\<close>
          by (simp add: case_prod_unfold)
      qed
    next
      case False
      obtain rel set1 db1 where rr: "release_rows s n None xs db = (rel, set1, db1)"
        by (metis prod_cases3)
      have st: "step_ok s db set1 db1" using release_rows_step [OF 2(4) rows(1), of n None] rr by simp
      have "pending_rows s ?rest db1"
        using release_rows_other [OF 2(4) rows(1), of _ n None] rr
        by (intro pending_rows_rest [OF p]) simp_all
      then have "run_ok s db1 (recover_groups s n lookup groups t db1)"
        using 2(2) [OF False] rr 2(3) step_ok_wf [OF st] by simp
      from run_ok_prepend [OF st this, of "\<lambda>(a, r, t2). (a, rel @ r, t2)"]
      show ?thesis using False rr Inr by (auto simp: case_prod_unfold)
    qed
  qed
qed

lemma assoc_append_mset:
  "mset (concat (map snd (assoc_append k x al))) = add_mset x (mset (concat (map snd al)))"
  by (induction k x al rule: assoc_append.induct) simp_all

lemma group_claims_mset:
  "mset (concat (map snd (group_claims xs))) \<subseteq># mset xs"
proof (induction xs rule: rev_induct)
  case Nil
  then show ?case by (simp add: group_claims_def)
next
  case (snoc x xs)
  then show ?case
    by (auto simp: group_claims_def assoc_append_mset subset_mset.add_increasing2
        split: option.splits intro: subset_mset.order_trans)
qed

lemma mset_filter_groups:
  "mset (concat (map snd (filter P groups))) \<subseteq># mset (concat (map snd groups))"
  by (induction groups) (auto intro: subset_mset.add_mono subset_mset.add_increasing)

lemma pending_rows_subset:
  assumes "mset ys \<subseteq># mset xs" "pending_rows s xs db"
  shows "pending_rows s ys db"
proof -
  have "set ys \<subseteq> set xs" using assms(1) by (metis set_mset_mono set_mset_mset)
  moreover have "distinct (map item_key ys)"
  proof -
    obtain zs where "mset xs = mset (ys @ zs)"
      using assms(1) ex_mset by (metis mset_append subset_mset.le_iff_add)
    then have "mset (map item_key xs) = mset (map item_key (ys @ zs))" by simp
    from mset_eq_imp_distinct_iff [OF this] have "distinct (map item_key (ys @ zs))"
      using assms(2) by (simp add: pending_rows_def)
    then show ?thesis by simp
  qed
  ultimately show ?thesis using assms(2) by (auto simp: pending_rows_def)
qed

lemma recoverClaims_ok:
  assumes "wf_queue db" "lookup_sound lookup"
  shows "run_ok s db (recoverClaims env s lookup scope n t db)"
  unfolding recoverClaims_def
proof (intro run_ok_op run_ok_after_expiry, goal_cases)
  case (3 db1 facts db2)
  let ?xs = "filter (\<lambda>i. i_sessionId i = s \<and> i_status i = Claimed) (items db2)"
  have "pending_rows s ?xs db2" by (rule pending_rows_filter [OF 3(3)]) simp
  then have "pending_rows s (concat (map snd (groupRecoverable env n scope ?xs))) db2"
    unfolding groupRecoverable_def
    by (intro pending_rows_subset [OF subset_mset.order_trans
      [OF mset_filter_groups group_claims_mset]])
  from run_ok_prepend [OF 3(4) recover_groups_ok [OF assms(2) 3(3) this], where h = "\<lambda>v. v"]
  show ?case by (simp add: queue_abs 3(3))
qed (use assms in simp_all)

section \<open>Claiming\<close>

lemma claimCandidate_abs:
  assumes "wf_queue db"
  shows "claimCandidate ci db =
    Inr (case truthy (ci_itemId ci) of
           Some k \<Rightarrow> onlyQueuedItem (List.find (\<lambda>i. item_key i = (ci_sessionId ci, k)) (items db))
         | None \<Rightarrow>
             List.find (\<lambda>i. i_sessionId i = ci_sessionId ci \<and> i_status i = Queued \<and>
                          i_itemId i \<notin> set (case ci_excludeItemIds ci of None \<Rightarrow> [] | Some xs \<Rightarrow> xs))
               (items db))"
  using assms
  by (cases "truthy (ci_itemId ci)"; cases "ci_excludeItemIds ci")
    (auto simp: claimCandidate_def queue_abs find_eq_filter conj_assoc)

lemma claimCandidate_selected:
  assumes "wf_queue db" "claimCandidate ci db = Inr (Some i)"
  shows "i \<in> set (items db) \<and> i_sessionId i = ci_sessionId ci \<and> i_status i = Queued"
  using assms
  by (auto simp: claimCandidate_abs onlyQueuedItem_def split: option.splits if_splits
      dest!: find_SomeD simp: item_key_def)

lemma claimed_valid:
  "isQueueItem i \<Longrightarrow> c \<noteq> [] \<Longrightarrow>
   isQueueItem (i\<lparr>i_status := Claimed, i_claimId := Some c, i_claimedAt := Some n,
     i_claimOwnerId := w, i_claimLeaseExpiresAt := l\<rparr>)"
  by (simp add: isQueueItem_def hasIdentity_def hasOptionalMetadata_def non_empty_def)

lemma dispatchItem_error: "dispatchItem i sel = Inl e \<Longrightarrow> \<not> reports_corruption e"
  by (auto simp: dispatchItem_def split: option.splits prod.splits)

lemma no_claim:
  "wf_queue db \<Longrightarrow> \<not> hasClaimed s db \<Longrightarrow> claims s (items db) = 0"
  by (auto simp: hasClaimed_abs claims_def list_ex_iff filter_empty_conv)

lemma claim_item_step:
  assumes "wf_queue db" "i \<in> set (items db)" "\<not> hasClaimed (i_sessionId i) db" "c \<noteq> []"
  shows "step_ok (i_sessionId i) db [] (snd (claim_item w i c n l db))"
  unfolding claim_item_def Let_def snd_conv
  by (rule step_write_present [OF assms(1,2)])
    (simp_all add: item_key_def claimed_valid item_of_wf [OF assms(1,2)] assms(4)
      no_claim [OF assms(1,3)])

lemma claimNext_ok:
  assumes "wf_queue db" "c \<noteq> []"
  shows "run_ok (ci_sessionId ci) db (claimNext env ci c n db)"
  unfolding claimNext_def Let_def
proof (intro run_ok_op run_ok_after_expiry, goal_cases)
  case (3 db1 facts db2)
  let ?s = "ci_sessionId ci"
  show ?case
  proof (cases "claimCandidate ci db2")
    case (Inl e)
    then show ?thesis by (simp add: claimCandidate_abs 3(3))
  next
    case (Inr x)
    show ?thesis
    proof (cases x)
      case None
      then show ?thesis using Inr 3(4) by simp
    next
      case (Some i)
      note sel = claimCandidate_selected [OF 3(3) Inr [unfolded Some]]
      have st: "step_ok ?s db1 facts (snd (claim_item w i c m l db2))"
        if "\<not> hasClaimed ?s db2" for w m l
        using claim_item_step [OF 3(3), of i c w m l] that sel assms(2)
        by (intro step_ok_more [OF 3(4)]) simp
      show ?thesis
        using Inr Some 3(4) st
        by (auto simp: split_beta rbind_def dispatchItem_error split: sum.splits option.splits)
    qed
  qed
qed (use assms in simp_all)

definition new_delivery :: "string \<Rightarrow> string \<Rightarrow> string \<Rightarrow> queue_item list \<Rightarrow> bool" where
  "new_delivery s claimId turnId xs \<longleftrightarrow>
     (\<forall>i \<in> set xs. i_sessionId i = s \<and> i_claimId i = Some claimId \<longrightarrow>
        (\<forall>a \<in> set (attempts_of i). at_turnId a = turnId \<longrightarrow> at_claimId a = claimId))"

lemma add_attempt_valid:
  assumes "isQueueItem i" "i_status i = Claimed" "i_claimId i = Some c" "t \<noteq> []"
    and "List.find (\<lambda>a. at_claimId a = c) (attempts_of i) = None"
    and "\<forall>a \<in> set (attempts_of i). at_turnId a = t \<longrightarrow> at_claimId a = c"
  shows "isQueueItem (i\<lparr>i_deliveryAttempts :=
           Some (attempts_of i @ [\<lparr>at_claimId = c, at_turnId = t\<rparr>])\<rparr>)"
  using assms
  by (auto simp: isQueueItem_def hasIdentity_def hasOptionalMetadata_def validDeliveryAttempts_def
      attempts_of_def non_empty_def find_None_iff split: option.splits)

lemma prepare_items_ok:
  "wf_queue db \<Longrightarrow> pending_rows s xs db \<Longrightarrow> t \<noteq> [] \<Longrightarrow>
   (\<forall>i \<in> set xs. i_status i = Claimed \<and> i_claimId i = Some c) \<Longrightarrow> new_delivery s c t xs \<Longrightarrow>
   run_ok s db (rbind (prepare_items c t xs db) (\<lambda>db'. Inr ((), [], db')))"
proof (induction c t xs db rule: prepare_items.induct)
  case (1 c t db)
  then show ?case by (simp add: step_ok_refl)
next
  case (2 c t i xs db)
  note i = pending_rows_Cons [OF 2(4)]
  show ?case
  proof (cases "List.find (\<lambda>a. at_claimId a = c) (attempts_of i)")
    case (Some a)
    have "pending_rows s xs db" by (rule pending_rows_tail [OF 2(4)])
    moreover have "new_delivery s c t xs" using 2(7) by (simp add: new_delivery_def)
    ultimately show ?thesis using 2(2) [OF Some] 2 Some by simp
  next
    case None
    let ?j = "i\<lparr>i_deliveryAttempts := Some (attempts_of i @ [\<lparr>at_claimId = c, at_turnId = t\<rparr>])\<rparr>"
    have c: "i_status i = Claimed" "i_claimId i = Some c"
      and n: "\<forall>a \<in> set (attempts_of i). at_turnId a = t \<longrightarrow> at_claimId a = c"
      using 2(6,7) i by (auto simp: new_delivery_def)
    have "isQueueItem i" using i 2(3) by (auto intro: item_of_wf)
    from add_attempt_valid [OF this c 2(5) None n] have v: "isQueueItem ?j" .
    have st: "step_ok s db [] (write_item ?j db)"
      using step_write_present [OF 2(3), of i ?j] i v c by (simp add: item_key_def)
    have "pending_rows s xs (write_item ?j db)"
      using 2(3) by (intro pending_rows_tail [OF 2(4)]) (auto intro!: write_item_other simp: item_key_def)
    moreover have "new_delivery s c t xs" using 2(7) by (simp add: new_delivery_def)
    ultimately have "run_ok s (write_item ?j db)
        (rbind (prepare_items c t xs (write_item ?j db)) (\<lambda>db'. Inr ((), [], db')))"
      using 2(1) [OF None step_ok_wf [OF st]] 2(5,6) by simp
    from run_ok_prepend [OF st this, where h = "\<lambda>v. v"] show ?thesis
      by (cases "prepare_items c t xs (write_item ?j db)") (simp_all add: None)
  qed
qed

lemma prepareDelivery_ok:
  assumes "wf_queue db" "new_delivery s c t (items db)"
  shows "run_ok s db (prepareDelivery s c t n db)"
proof (cases "t = []")
  case True
  then show ?thesis by (simp add: prepareDelivery_def)
next
  case False
  have "run_ok s db (transaction s n
        (\<lambda>db. rbind (claimRows s c db)
           (\<lambda>xs. if xs = [] then Inl (QueueClaimNotFoundError s c)
                 else rbind (prepare_items c t xs db) (\<lambda>db'. Inr ((), [], db')))) db)"
  proof (rule run_ok_transaction(1) [OF assms(1)])
    fix db1
    assume wf: "wf_queue db1" and it: "items db1 = items db"
    let ?xs = "filter (\<lambda>i. i_sessionId i = s \<and> i_status i = Claimed \<and> i_claimId i = Some c) (items db1)"
    have p: "pending_rows s ?xs db1" by (rule pending_rows_filter [OF wf]) simp
    have n: "new_delivery s c t ?xs" using assms(2) it unfolding new_delivery_def by simp blast
    have "run_ok s db1 (rbind (prepare_items c t ?xs db1) (\<lambda>db'. Inr ((), [], db')))"
      by (rule prepare_items_ok [OF wf p False _ n]) simp
    then show "run_ok s db1 (rbind (claimRows s c db1)
           (\<lambda>xs. if xs = [] then Inl (QueueClaimNotFoundError s c)
                 else rbind (prepare_items c t xs db1) (\<lambda>db'. Inr ((), [], db'))))"
      by (simp only: claimRows_abs [OF wf] rbind_Inr run_ok_Inl not_corruption split: if_split) simp
  qed
  then show ?thesis using False by (simp add: prepareDelivery_def)
qed

section \<open>Edits of one queued item\<close>

lemmas item_checks =
  isQueueItem_def hasIdentity_def hasOptionalMetadata_def claimFieldsAbsent_def

lemma write_queued_step:
  assumes "wf_queue db" "k \<in> set (items db)" "item_key i = item_key k" "isQueueItem i"
    "i_status i = Queued"
  shows "step_ok (i_sessionId k) db [] (write_item i db)"
  using assms by (intro step_write_present) simp_all

lemma promoteQueuedSource_ok:
  "wf_queue db \<Longrightarrow> run_ok s db (promoteQueuedSource env s k src n db)"
  unfolding promoteQueuedSource_def
proof (intro run_ok_op run_ok_after_expiry, goal_cases)
  case (3 db1 facts db2)
  show ?case
  proof (cases "List.find (\<lambda>i. item_key i = (s, k)) (items db2)")
    case None
    then show ?thesis using 3 by (simp add: queue_abs)
  next
    case (Some i)
    then have i: "i \<in> set (items db2)" "i_sessionId i = s" by (auto dest: find_key_Some)
    have "isQueueItem i" by (rule item_of_wf [OF 3(4) i(1)])
    then have v: "isQueueItem (i\<lparr>i_source := src\<rparr>)"
      by (cases "i_status i") (simp_all add: item_checks)
    have "step_ok s db2 [] (write_item (i\<lparr>i_source := src\<rparr>) db2)" if "i_status i = Queued"
      using write_queued_step [OF 3(4) i(1) _ v] that i(2) by (simp add: item_key_def)
    then show ?thesis using Some 3 step_ok_more [OF 3(5)] by (simp add: queue_abs Let_def)
  qed
qed simp_all

definition update_wellformed :: "update_input \<Rightarrow> bool" where
  "update_wellformed u \<longleftrightarrow> (case u_model u of SetModel m \<Rightarrow> isModel m | _ \<Rightarrow> True)"

lemma replaceItemMessage_valid:
  "isQueueItem i \<Longrightarrow> isQueueMessageInput m \<Longrightarrow> isQueueItem (replaceItemMessage i m)"
  by (cases "i_status i"; cases "m_clientIntent (i_message i)")
    (simp_all add: item_checks replaceItemMessage_def isQueueMessageInput_def)

lemma modelUpdate_valid:
  "isQueueItem i \<Longrightarrow> (\<And>m. u = SetModel m \<Longrightarrow> isModel m) \<Longrightarrow> isQueueItem (modelUpdate u i)"
  by (cases "i_status i"; cases u) (simp_all add: modelUpdate_def item_checks)

lemma expiry_valid: "isQueueItem i \<Longrightarrow> isQueueItem (i\<lparr>i_expiresAt := e\<rparr>)"
  by (cases "i_status i") (simp_all add: item_checks)

text \<open>The item \<open>updateQueued\<close> writes.\<close>

definition updated_item :: "update_input \<Rightarrow> queue_item \<Rightarrow> queue_item" where
  "updated_item u item =
     (let messageUpdated = (case u_message u of Some m \<Rightarrow> replaceItemMessage item m | None \<Rightarrow> item);
          withModel = modelUpdate (u_model u) messageUpdated
      in case u_expiresAt u of
           Some n \<Rightarrow> withModel\<lparr>i_expiresAt := Some (num_value n)\<rparr> | None \<Rightarrow> withModel)"

lemma updated_item_valid:
  assumes "isQueueItem i" "validUpdate u" "update_wellformed u"
  shows "isQueueItem (updated_item u i)"
proof -
  have "isQueueItem (case u_message u of Some m \<Rightarrow> replaceItemMessage i m | None \<Rightarrow> i)"
    using assms by (auto simp: validUpdate_def replaceItemMessage_valid split: option.splits)
  then have "isQueueItem (modelUpdate (u_model u)
      (case u_message u of Some m \<Rightarrow> replaceItemMessage i m | None \<Rightarrow> i))"
    using assms(3) by (intro modelUpdate_valid) (simp_all add: update_wellformed_def)
  then show ?thesis by (simp add: updated_item_def Let_def expiry_valid split: option.splits)
qed

lemma updated_item_same [simp]:
  "i_sessionId (updated_item u i) = i_sessionId i" "i_itemId (updated_item u i) = i_itemId i"
  "i_status (updated_item u i) = i_status i" "item_key (updated_item u i) = item_key i"
  "i_source (updated_item u i) = i_source i"
  by (cases "u_model u"; simp add: updated_item_def replaceItemMessage_def modelUpdate_def Let_def
      item_key_def split: option.splits)+

lemma updateQueued_ok:
  assumes "wf_queue db" "update_wellformed u"
  shows "run_ok (u_sessionId u) db (updateQueued env u n db)"
proof (cases "validUpdate u")
  case False
  then show ?thesis using assms by (simp add: updateQueued_def step_ok_refl)
next
  case True
  let ?s = "u_sessionId u"
  show ?thesis
    unfolding updateQueued_def if_not_P [OF not_not [THEN iffD2, OF True]] updated_item_def [symmetric] Let_def
  proof (intro run_ok_op run_ok_after_expiry, goal_cases)
    case (3 db1 facts db2)
    show ?case
    proof (cases "List.find (\<lambda>i. item_key i = (?s, u_itemId u)) (items db2)")
      case None
      then show ?thesis using 3 by (simp add: queue_abs)
    next
      case (Some i)
      then have i: "i \<in> set (items db2)" "i_sessionId i = ?s" by (auto dest: find_key_Some)
      have v: "isQueueItem (updated_item u i)"
        by (rule updated_item_valid [OF item_of_wf [OF 3(3) i(1)] True assms(2)])
      have "step_ok ?s db2 [] (write_item (updated_item u i) db2)" if "i_status i = Queued"
        using write_queued_step [OF 3(3) i(1) _ v] that i(2) by simp
      then show ?thesis
        using Some 3 step_ok_more [OF 3(4)]
        by (simp add: queue_abs updated_item_def [unfolded Let_def, symmetric])
    qed
  qed (use assms in simp_all)
qed

lemma clearUserManageable_ok: "wf_queue db \<Longrightarrow> run_ok s db (clearUserManageable env s n db)"
  unfolding clearUserManageable_def
proof (intro run_ok_op run_ok_after_expiry, goal_cases)
  case (3 db1 facts db2)
  let ?p = "\<lambda>r. in_session s r \<and> has_status Queued r \<and> c_source (row_cols r) = Api"
  let ?P = "\<lambda>i. i_sessionId i = s \<and> i_status i = Queued \<and> i_source i = Api"
  let ?d = "delete_rows ?p db2"
  have p: "reads_as ?p ?P" by (auto intro!: reads_asI simp: row_preds)
  have "step_ok s db2 (map (removalFact Cancelled None n) (filter ?P (items db2))) ?d"
    by (rule step_delete [OF 3(4) p]) simp_all
  from step_ok_trans [OF 3(5) this]
  have st: "step_ok s db1 (facts @ map (removalFact Cancelled None n) (filter ?P (items db2))) ?d" .
  have "step_ok s db1 (facts @ map (removalFact Cancelled None n) (filter ?P (items db2))
          @ (if b then [executionStateFact s False] else []))
          (if c then delete_pause s ?d else ?d)" for b c
    using st step_ok_more [OF st step_pause(1) [OF step_ok_wf [OF st]]]
    by (auto intro: step_ok_facts)
  then show ?case
    by (simp add: clearQueuedApi_def Let_def select_items_abs [OF 3(4) p])
qed simp_all

section \<open>Reordering\<close>

lemma claims_mset:
  assumes "mset xs = mset ys"
  shows "claims s xs = claims s ys"
proof -
  have "mset (filter P xs) = mset (filter P ys)" for P using assms by simp
  from mset_eq_length [OF this] show ?thesis by (simp add: claims_def)
qed

lemma items_ok_mset:
  assumes "mset xs = mset ys"
  shows "items_ok xs = items_ok ys"
proof -
  have "set xs = set ys" by (rule mset_eq_setD [OF assms])
  moreover have "mset (map item_key xs) = mset (map item_key ys)" using assms by simp
  then have "distinct (map item_key xs) = distinct (map item_key ys)"
    by (rule mset_eq_imp_distinct_iff)
  ultimately show ?thesis by (simp add: items_ok_def list_all_iff)
qed

text \<open>Deleting the rows of a query and inserting a permutation of them.\<close>

lemma step_permute:
  assumes wf: "wf_queue db" and p: "reads_as p P" and P: "\<And>i. P i \<Longrightarrow> i_sessionId i = s"
    and ys: "mset ys = mset (filter P (items db))"
  shows "insert_rows ys (delete_rows p db) = Inr (add_rows ys (delete_rows p db))"
    and "step_ok s db [] (add_rows ys (delete_rows p db))"
proof -
  let ?d = "delete_rows p db"
  have d: "items ?d = filter (\<lambda>i. \<not> P i) (items db)" "store_ok ?d"
    using wf p by (auto intro: delete_rows_items delete_rows_store)
  have m: "mset (filter (\<lambda>i. \<not> P i) (items db) @ ys) = mset (items db)"
    using ys multiset_partition [of "mset (items db)" P] by (simp add: ac_simps)
  then have ok: "items_ok (filter (\<lambda>i. \<not> P i) (items db) @ ys)"
    using items_ok_mset [OF m] wf_items [OF wf] by blast
  show "insert_rows ys ?d = Inr (add_rows ys ?d)"
    by (rule insert_rows_abs [OF d(2)]) (use ok in \<open>simp_all add: d items_ok_def Int_commute\<close>)
  have "\<forall>i \<in> set ys. i_sessionId i = s"
    using mset_eq_setD [OF ys] P by auto
  then have "outside s ys = []" by (simp add: outside_def)
  moreover have "key_mset (add_rows ys ?d) = key_mset db"
    using arg_cong [OF m, of "image_mset item_key"] by (simp add: key_mset_def d)
  moreover have "claims s (items (add_rows ys ?d)) = claims s (items db)"
    using claims_mset [OF m] by (simp add: d)
  ultimately show "step_ok s db [] (add_rows ys ?d)"
    using ok d P by (simp add: step_ok_def wf_queue_def add_rows_store outside_filter)
qed

lemma reorder_items_perm:
  assumes "distinct (map i_itemId xs)" "completePermutation xs ids"
  shows "map i_itemId (reorder_items xs ids) = ids" "mset (reorder_items xs ids) = mset xs"
proof -
  let ?m = "map_of (rev (map (\<lambda>i. (i_itemId i, i)) xs))"
  have look: "?m k = Some i \<longleftrightarrow> i \<in> set xs \<and> i_itemId i = k" for k i
    using assms(1) by (subst map_of_eq_Some_iff) (auto simp: comp_def simp flip: rev_map)
  have "\<forall>k \<in> set ids. \<exists>i. ?m k = Some i"
    using assms(2) by (auto simp: completePermutation_def list_all_iff list_ex_iff look)
  then have "\<forall>k \<in> set ks. \<exists>i. ?m k = Some i" if "set ks \<subseteq> set ids" for ks using that by blast
  then have re: "map i_itemId (reorder_items xs ks) = ks \<and> set (reorder_items xs ks) \<subseteq> set xs"
    if "set ks \<subseteq> set ids" for ks
    using that
  proof (induction ks)
    case (Cons k ks)
    from Cons.prems(1) [of "k # ks"] Cons.prems(2) obtain i where i: "?m k = Some i" by auto
    have "map i_itemId (reorder_items xs ks) = ks \<and> set (reorder_items xs ks) \<subseteq> set xs"
      by (rule Cons.IH) (use Cons.prems in auto)
    moreover have "reorder_items xs (k # ks) = i # reorder_items xs ks"
      by (simp add: reorder_items_def i)
    ultimately show ?case using i look by auto
  qed (simp add: reorder_items_def)
  then show ids: "map i_itemId (reorder_items xs ids) = ids" by simp
  have d: "distinct (reorder_items xs ids)" "distinct xs"
    using assms distinct_map [of i_itemId "reorder_items xs ids"] unfolding ids
    by (simp_all add: completePermutation_def distinct_map)
  have "length (reorder_items xs ids) = length xs"
    using ids assms(2) by (metis completePermutation_def length_map)
  then have "set (reorder_items xs ids) = set xs"
    using re [of ids] d by (intro card_subset_eq) (auto simp: distinct_card)
  with d show "mset (reorder_items xs ids) = mset xs" by (simp add: set_eq_iff_mset_eq_distinct)
qed

lemma session_ids_distinct:
  "items_ok xs \<Longrightarrow> (\<And>i. P i \<Longrightarrow> i_sessionId i = s) \<Longrightarrow> distinct (map i_itemId (filter P xs))"
  by (induction xs) (auto simp: items_ok_def item_key_def image_iff)

lemma reorder_ok:
  assumes "wf_queue db"
  shows "run_ok s db (reorder env s ids n db)"
  unfolding reorder_def
proof (intro run_ok_op run_ok_after_expiry, goal_cases)
  case (3 db1 facts db2)
  let ?P = "\<lambda>i. i_sessionId i = s \<and> i_status i = Queued"
  let ?xs = "filter ?P (items db2)"
  show ?case
  proof (cases "hasClaimed s db2 \<or> \<not> completePermutation ?xs ids")
    case True
    then show ?thesis using 3(4) by (auto simp: queue_abs 3(3))
  next
    case False
    then have "?xs = filter (\<lambda>i. i_sessionId i = s) (items db2)"
      by (intro filter_cong refl) (auto simp: hasClaimed_abs [OF 3(3)] list_ex_iff
            intro: item_status.exhaust)
    moreover have "mset (reorder_items ?xs ids) = mset ?xs"
      using False session_ids_distinct [of "items db2" ?P s] 3(3)
      by (intro reorder_items_perm(2)) (auto simp: wf_queue_def)
    ultimately have m: "mset (reorder_items ?xs ids) = mset (filter (\<lambda>i. i_sessionId i = s) (items db2))"
      by simp
    have p: "reads_as (in_session s) (\<lambda>i. i_sessionId i = s)"
      by (auto intro!: reads_asI simp: row_preds)
    note st = step_permute [OF 3(3) p _ m]
    show ?thesis
      using False step_ok_more [OF 3(4) st(2)] st(1)
      by (simp add: queue_abs 3(3) replaceRows_def Let_def)
  qed
qed (use assms in simp_all)

section \<open>Acknowledging\<close>

lemma acknowledgeClaim_ok:
  assumes wf: "wf_queue db" and sound: "\<And>l. lookup = Some l \<Longrightarrow> lookup_sound l"
  shows "run_ok s db (acknowledgeClaim s c turn lookup n t db)"
proof (cases "c = []")
  case True
  then show ?thesis by (simp add: acknowledgeClaim_def)
next
  case False
  let ?body = "\<lambda>facts db. rbind (claimRows s c db)
     (\<lambda>claimed. if claimed = [] then Inl (QueueClaimNotFoundError s c)
        else rbind (claimQuery claimed c turn)
          (\<lambda>query. case lookup of
             None \<Rightarrow> Inl (QueueClaimNotAcceptedError s c turn)
           | Some lookup \<Rightarrow>
               if \<not> isAccepted lookup t query then Inl (QueueClaimNotAcceptedError s c turn)
               else rbind (markAcknowledged lookup t query)
                 (\<lambda>t'. Inr ((claimed, t'), facts @ map (removalFact Accepted None n) claimed,
                             deleteItems s claimed db))))"
  have "run_ok s db (transaction s n (after_expiry s n ?body) db)"
  proof (intro run_ok_op run_ok_after_expiry, goal_cases)
    case (3 db1 facts db2)
    let ?xs = "filter (\<lambda>i. i_sessionId i = s \<and> i_status i = Claimed \<and> i_claimId i = Some c) (items db2)"
    have del: "step_ok s db1 (facts @ map (removalFact Accepted None n) ?xs) (deleteItems s ?xs db2)"
      by (rule step_ok_trans [OF 3(4) deleteItems_filter [OF 3(3)]]) simp
    have q: "claimQuery ?xs c turn = Inl e \<Longrightarrow> \<not> reports_corruption e" for e
      by (rule claimQuery_error)
    have m: "lookup = Some l \<Longrightarrow> markAcknowledged l t x = Inl e \<Longrightarrow> \<not> reports_corruption e" for l x e
      using sound [of l] by (auto simp: lookup_sound_def)
    have "?body facts db2 = (if ?xs = [] then Inl (QueueClaimNotFoundError s c)
        else rbind (claimQuery ?xs c turn)
          (\<lambda>query. case lookup of
             None \<Rightarrow> Inl (QueueClaimNotAcceptedError s c turn)
           | Some lookup \<Rightarrow>
               if \<not> isAccepted lookup t query then Inl (QueueClaimNotAcceptedError s c turn)
               else rbind (markAcknowledged lookup t query)
                 (\<lambda>t'. Inr ((?xs, t'), facts @ map (removalFact Accepted None n) ?xs,
                             deleteItems s ?xs db2))))"
      by (simp only: claimRows_abs [OF 3(3)] rbind_Inr)
    then show ?case
      using del q m by (auto simp: rbind_def split: sum.splits option.splits)
  qed (rule wf)
  then show ?thesis using False by (simp add: acknowledgeClaim_def)
qed

section \<open>Enqueueing\<close>

lemma mset_to_front:
  assumes "distinct (map f xs)" "i \<in> set xs"
  shows "mset (i # filter (\<lambda>j. f j \<noteq> f i) xs) = mset xs"
proof -
  obtain ys zs where xs: "xs = ys @ i # zs" using assms(2) by (meson split_list)
  have "\<forall>j \<in> set ys \<union> set zs. f j \<noteq> f i"
    using distinct_map_others [of f ys i zs] assms(1) unfolding xs by blast
  then have "filter (\<lambda>j. f j \<noteq> f i) ys = ys" "filter (\<lambda>j. f j \<noteq> f i) zs = zs"
    by (simp_all add: filter_id_iff)
  then show ?thesis by (simp add: xs)
qed

definition queued_in :: "string \<Rightarrow> queue_item \<Rightarrow> bool" where
  "queued_in s i \<longleftrightarrow> i_sessionId i = s \<and> i_status i = Queued"

definition move_front :: "queue_item \<Rightarrow> queue_item list \<Rightarrow> queue_item list" where
  "move_front i xs =
     filter (\<lambda>j. \<not> queued_in (i_sessionId i) j) xs @
     i # filter (\<lambda>j. i_itemId j \<noteq> i_itemId i) (filter (queued_in (i_sessionId i)) xs)"

lemma reads_queued: "reads_as (\<lambda>r. in_session s r \<and> has_status Queued r) (queued_in s)"
  by (auto intro!: reads_asI simp: row_preds queued_in_def)

lemma moveQueuedToFront_unfold:
  assumes "wf_queue db"
  shows "moveQueuedToFront i db =
    insert_rows (i # filter (\<lambda>j. i_itemId j \<noteq> i_itemId i) (filter (queued_in (i_sessionId i)) (items db)))
      (delete_rows (\<lambda>r. in_session (i_sessionId i) r \<and> has_status Queued r) db)"
  using assms by (simp add: moveQueuedToFront_def queue_abs Let_def queued_in_def [abs_def])

lemma move_front_queued:
  assumes wf: "wf_queue db" and i: "i \<in> set (items db)" "i_status i = Queued"
  obtains db' where "moveQueuedToFront i db = Inr db'" "step_ok (i_sessionId i) db [] db'"
    "items db' = move_front i (items db)"
proof -
  let ?s = "i_sessionId i"
  let ?xs = "filter (queued_in ?s) (items db)"
  let ?d = "delete_rows (\<lambda>r. in_session ?s r \<and> has_status Queued r) db"
  let ?ys = "i # filter (\<lambda>j. i_itemId j \<noteq> i_itemId i) ?xs"
  have "distinct (map i_itemId ?xs)"
    by (rule session_ids_distinct [OF wf_items [OF wf]]) (simp add: queued_in_def)
  moreover have "i \<in> set ?xs" using i by (simp add: queued_in_def)
  ultimately have m: "mset ?ys = mset ?xs" by (rule mset_to_front)
  have s: "queued_in ?s j \<Longrightarrow> i_sessionId j = ?s" for j by (simp add: queued_in_def)
  note st = step_permute [OF wf reads_queued s m]
  have "items (add_rows ?ys ?d) = move_front i (items db)"
    by (simp add: move_front_def delete_rows_items [OF wf_store [OF wf] reads_queued])
  moreover have "moveQueuedToFront i db = Inr (add_rows ?ys ?d)"
    by (simp only: moveQueuedToFront_unfold [OF wf] st(1))
  ultimately show thesis using st(2) by (intro that)
qed

lemma move_front_claimed:
  assumes wf: "wf_queue db" and i: "i \<in> set (items db)" "i_status i = Claimed"
  shows "moveQueuedToFront i db = Inl (UniqueConstraintError (i_sessionId i) (i_itemId i))"
proof -
  let ?d = "delete_rows (\<lambda>r. in_session (i_sessionId i) r \<and> has_status Queued r) db"
  have "i \<in> set (items ?d)"
    using i by (simp add: delete_rows_items [OF wf_store [OF wf] reads_queued] queued_in_def)
  then have "item_key i \<in> item_key ` set (items ?d)" by (rule imageI)
  then show ?thesis
    using wf by (simp add: moveQueuedToFront_unfold insert_row_abs delete_rows_store wf_store)
qed

lemma move_front_ok:
  assumes "wf_queue db" "i \<in> set (items db)"
  shows "case moveQueuedToFront i db of Inl e \<Rightarrow> \<not> reports_corruption e
         | Inr db' \<Rightarrow> step_ok (i_sessionId i) db [] db'"
proof (cases "i_status i")
  case Queued
  then show ?thesis using move_front_queued [OF assms] by (metis sum.case(2))
qed (simp add: move_front_claimed [OF assms])

definition enqueue_wellformed :: "enqueue_input \<Rightarrow> bool" where
  "enqueue_wellformed e \<longleftrightarrow>
     optional isModel (e_model e) \<and> optional isUserMessageId (truthy (e_userMessageId e))"

lemma makeQueued_valid:
  assumes "validEnqueue e" "enqueue_wellformed e" "k \<noteq> []"
  shows "isQueueItem (makeQueued e k n)"
  using assms
  by (simp add: makeQueued_def item_checks validEnqueue_def enqueue_wellformed_def
      validEnqueueMetadata_def non_empty_def validDeliveryAttempts_def isQueueMessageInput_def)

lemma makeQueued_simps [simp]:
  "i_sessionId (makeQueued e k n) = s_sessionId (e_session e)"
  "i_itemId (makeQueued e k n) = k" "i_status (makeQueued e k n) = Queued"
  "item_key (makeQueued e k n) = (s_sessionId (e_session e), k)"
  "i_clientRequestId (makeQueued e k n) = truthy (e_clientRequestId e)"
  "i_source (makeQueued e k n) = (case e_source e of None \<Rightarrow> Api | Some src \<Rightarrow> src)"
  "i_message (makeQueued e k n) = e_message e"
  by (simp_all add: makeQueued_def item_key_def)

lemma find_key_item:
  assumes "wf_queue db" "find_item s k db = Inr (Some i)"
  shows "i \<in> set (items db) \<and> i_sessionId i = s \<and> i_itemId i = k \<and> item_key i = (s, k)"
  using assms by (auto simp: queue_abs dest!: find_SomeD) (auto simp: item_key_def)

lemma settle_members_ok:
  "wf_queue db \<Longrightarrow>
   (case settleBatchMemberClaims s n bms db of Inl e \<Rightarrow> \<not> reports_corruption e
    | Inr (facts, db') \<Rightarrow> step_ok s db facts db' \<and> set (items db') \<subseteq> set (items db))"
proof (induction bms arbitrary: db)
  case Nil
  then show ?case by (simp add: step_ok_refl)
next
  case (Cons bm bms)
  let ?id = "truthy (case bm_queueClaim bm of Some (i, _) \<Rightarrow> Some i | None \<Rightarrow> bm_sourceMessageId bm)"
  note IH = Cons.IH [OF Cons.prems]
  show ?case
  proof (cases ?id)
    case None
    then show ?thesis using IH by simp
  next
    case (Some k)
    let ?x = "List.find (\<lambda>i. item_key i = (s, k)) (items db)"
    have f: "find_item s k db = Inr ?x" by (rule find_item_abs [OF Cons.prems])
    show ?thesis
    proof (cases ?x)
      case None
      then show ?thesis using IH Some f by simp
    next
      case (Some i)
      have i: "i \<in> set (items db)" "i_sessionId i = s" "i_itemId i = k"
        using find_key_item [OF Cons.prems f [unfolded Some]] by auto
      have d: "step_ok s db [removalFact Injected None n i] (deleteItem (i_sessionId i) (i_itemId i) db)"
        using step_deleteItem [OF Cons.prems i(1)] i(2) by simp
      have sub: "set (items (deleteItem (i_sessionId i) (i_itemId i) db)) \<subseteq> set (items db)"
        by (auto simp: deleteItem_items_of [OF Cons.prems])
      note IH2 = Cons.IH [OF step_ok_wf [OF d]]
      show ?thesis
        using IH IH2 Some f \<open>?id = _\<close> sub step_ok_trans [OF d]
        by (auto simp: Let_def split: sum.splits)
    qed
  qed
qed

lemma restorable_ok:
  assumes wf: "wf_queue db" and fresh: "(s_sessionId (e_session e), freshId) \<notin> item_key ` set (items db)"
  obtains restored db' where "restorableIdentity e db = Inr (restored, db')"
    "step_ok (s_sessionId (e_session e)) db
       (case restored of Some (_, Some d) \<Rightarrow> [removalFact Cancelled None n d] | _ \<Rightarrow> []) db'"
    "(s_sessionId (e_session e), case restored of Some (k, _) \<Rightarrow> k | None \<Rightarrow> freshId)
       \<notin> item_key ` set (items db')"
    "restored \<noteq> None \<Longrightarrow> fst (the restored) \<noteq> []"
proof (cases "truthy (e_itemId e)")
  case None
  then show ?thesis using fresh step_ok_refl [OF wf]
    by (intro that [of None db]) (simp_all add: restorableIdentity_def)
next
  case (Some k)
  let ?s = "s_sessionId (e_session e)"
  let ?x = "List.find (\<lambda>i. item_key i = (?s, k)) (items db)"
  have f: "find_item ?s k db = Inr ?x" by (rule find_item_abs [OF wf])
  from Some have k: "e_itemId e = Some k" "k \<noteq> []" by simp_all
  show ?thesis
  proof (cases ?x)
    case None
    have "(?s, k) \<notin> item_key ` set (items db)" using None by (auto simp: find_None_iff image_iff)
    then show ?thesis using f None k step_ok_refl [OF wf]
      by (intro that [of "Some (k, None)" db]) (simp_all add: restorableIdentity_def)
  next
    case (Some i)
    have i: "i \<in> set (items db)" "i_sessionId i = ?s" "i_itemId i = k"
      using find_key_item [OF wf f [unfolded Some]] by auto
    show ?thesis
    proof (cases "i_status i")
      case Queued
      then show ?thesis using f Some k fresh step_ok_refl [OF wf]
        by (intro that [of None db]) (simp_all add: restorableIdentity_def)
    next
      case Claimed
      have "step_ok ?s db [removalFact Cancelled None n i] (deleteItem ?s k db)"
        using step_deleteItem [OF wf i(1), of "[removalFact Cancelled None n i]"] i(2,3) by simp
      then show ?thesis using f Some k Claimed i(3)
        by (intro that [of "Some (k, Some i)" "deleteItem ?s k db"])
          (auto simp: restorableIdentity_def deleteItem_items_of [OF wf])
    qed
  qed
qed

text \<open>Storing the new item: over the row its dedupe key replaces, or as a new row.\<close>

lemma store_new_ok:
  assumes wf: "wf_queue db" and i: "isQueueItem i" "i_status i = Queued"
    and new: "item_key i \<notin> item_key ` set (items db)"
    and rep: "\<And>k. replaced = Some k \<Longrightarrow> k \<in> set (items db) \<and> i_sessionId k = i_sessionId i"
  obtains db' where
    "(case replaced of Some k \<Rightarrow> replaceItem k i db | None \<Rightarrow> Inr (write_item i db)) = Inr db'"
    "step_ok (i_sessionId i) db
       ((case replaced of Some k \<Rightarrow> [removalFact Cancelled None n k] | None \<Rightarrow> []) @ [enqueueFact i]) db'"
    "i \<in> set (items db')"
proof (cases replaced)
  case None
  have "step_ok (i_sessionId i) db [enqueueFact i] (write_item i db)"
    by (rule step_write_new [OF wf i(1) new i(2)]) simp_all
  moreover have "i \<in> set (items (write_item i db))"
    using new by (simp add: write_item_abs [OF wf_store [OF wf]])
  ultimately show ?thesis using None by (intro that) simp_all
next
  case (Some k)
  with rep have k: "k \<in> set (items db)" "i_sessionId k = i_sessionId i" by auto
  have "\<not> list_ex (\<lambda>r. \<not> has_key (i_sessionId k) (i_itemId k) r \<and> has_key (i_sessionId i) (i_itemId i) r)
          (q_rows db)"
    using new key_exists [OF wf_store [OF wf], of i] by (auto simp: list_ex_iff)
  then have r: "replaceItem k i db = Inr (set_rows k i db)"
    by (auto simp: replaceItem_def Let_def set_rows_def)
  have st: "step_ok (i_sessionId i) db [removalFact Cancelled None n k, enqueueFact i] (set_rows k i db)"
    by (rule step_set [OF wf k(1) refl i(1) refl k(2)]) (use new i(2) in simp_all)
  have "i \<in> set (items (set_rows k i db))"
    using k by (auto simp: set_rows_items [OF wf_store [OF wf]] image_iff)
  with r st Some show ?thesis by (intro that) simp_all
qed

definition fresh_item :: "string \<Rightarrow> string \<Rightarrow> queue_db \<Rightarrow> bool" where
  "fresh_item s k db \<longleftrightarrow> k \<noteq> [] \<and> (s, k) \<notin> item_key ` set (items db)"

lemma dedupe_ok:
  assumes "wf_queue db"
  obtains replaced where
    "(case truthy (e_dedupeKey e) of Some key \<Rightarrow> findByDedupeKey s key db | None \<Rightarrow> Inr None) =
       Inr replaced"
    "\<And>k. replaced = Some k \<Longrightarrow> k \<in> set (items db) \<and> i_sessionId k = s \<and> i_status k = Queued"
proof (cases "truthy (e_dedupeKey e)")
  case None
  then show ?thesis by (intro that [of None]) simp_all
next
  case (Some key)
  then show ?thesis
    using assms by (intro that) (auto simp: findByDedupeKey_abs dest!: find_SomeD)
qed

lemma insertEnqueue_ok:
  assumes wf: "wf_queue db" and e: "validEnqueue e" "enqueue_wellformed e"
    and fresh: "fresh_item (s_sessionId (e_session e)) freshId db"
    and before: "step_ok (s_sessionId (e_session e)) db0 facts db"
  shows "run_ok (s_sessionId (e_session e)) db0 (insertEnqueue e freshId n facts db)"
proof -
  let ?s = "s_sessionId (e_session e)"
  let ?bms = "case e_immediateSendBatch e of None \<Rightarrow> [] | Some b \<Rightarrow> b_members b"
  show ?thesis
  proof (cases "settleBatchMemberClaims ?s n ?bms db")
    case (Inl err)
    then show ?thesis using settle_members_ok [OF wf, of ?s n ?bms]
      by (simp add: insertEnqueue_def Let_def)
  next
    case (Inr p)
    obtain bc db1 where p: "p = (bc, db1)" by (cases p)
    have s1: "step_ok ?s db bc db1" and sub: "set (items db1) \<subseteq> set (items db)"
      using settle_members_ok [OF wf, of ?s n ?bms] Inr p by simp_all
    have f1: "(?s, freshId) \<notin> item_key ` set (items db1)"
      using fresh sub by (auto simp: fresh_item_def)
    obtain restored db2 where r: "restorableIdentity e db1 = Inr (restored, db2)"
      and s2: "step_ok ?s db1
         (case restored of Some (_, Some d) \<Rightarrow> [removalFact Cancelled None n d] | _ \<Rightarrow> []) db2"
      and new: "(?s, case restored of Some (k, _) \<Rightarrow> k | None \<Rightarrow> freshId) \<notin> item_key ` set (items db2)"
      and ne: "restored \<noteq> None \<Longrightarrow> fst (the restored) \<noteq> []"
      using restorable_ok [OF step_ok_wf [OF s1] f1, of n] by blast
    note wf2 = step_ok_wf [OF s2]
    let ?k = "case restored of Some (k, _) \<Rightarrow> k | None \<Rightarrow> freshId"
    let ?i = "makeQueued e ?k n"
    have "?k \<noteq> []" using ne fresh by (auto simp: fresh_item_def split: option.splits)
    then have v: "isQueueItem ?i" by (rule makeQueued_valid [OF e])
    obtain replaced where d: "(case truthy (e_dedupeKey e) of Some key \<Rightarrow> findByDedupeKey ?s key db2
          | None \<Rightarrow> Inr None) = Inr replaced"
      and rep: "\<And>k. replaced = Some k \<Longrightarrow> k \<in> set (items db2) \<and> i_sessionId k = ?s \<and> i_status k = Queued"
      using dedupe_ok [OF wf2] by blast
    obtain db3 where w: "(case replaced of Some k \<Rightarrow> replaceItem k ?i db2
          | None \<Rightarrow> Inr (write_item ?i db2)) = Inr db3"
      and s3: "step_ok ?s db2 ((case replaced of Some k \<Rightarrow> [removalFact Cancelled None n k] | None \<Rightarrow> [])
          @ [enqueueFact ?i]) db3"
      and i3: "?i \<in> set (items db3)"
    proof (rule store_new_ok [OF wf2 v, where replaced = replaced and n = n])
      show "\<And>k. replaced = Some k \<Longrightarrow> k \<in> set (items db2) \<and> i_sessionId k = i_sessionId ?i"
        using rep by auto
    qed (use new in simp_all)
    obtain db4 where m: "(if e_front e then moveQueuedToFront ?i db3 else Inr db3) = Inr db4"
      and s4: "step_ok ?s db3 [] db4"
    proof (cases "e_front e")
      case True
      then show thesis
        using that move_front_queued [OF step_ok_wf [OF s3] i3] by auto
    next
      case False
      then show thesis using that step_ok_refl [OF step_ok_wf [OF s3]] by auto
    qed
    have "step_ok ?s db0 ((((facts @ bc) @
         (case restored of Some (_, Some d) \<Rightarrow> [removalFact Cancelled None n d] | _ \<Rightarrow> [])) @
         ((case replaced of Some k \<Rightarrow> [removalFact Cancelled None n k] | None \<Rightarrow> []) @ [enqueueFact ?i]))
         @ []) db4"
      using step_ok_trans [OF step_ok_trans [OF step_ok_trans [OF step_ok_trans [OF before s1] s2] s3] s4] .
    then show ?thesis
      by (simp only: insertEnqueue_def Let_def Inr p rbind_Inr prod.case r d w m run_ok_Inr
          append_assoc append_Nil2)
  qed
qed

lemma attach_ok:
  assumes wf: "wf_queue db" and i: "i \<in> set (items db)"
  obtains j db' where "attachRequestedTurnId i t db = (j, db')"
    "step_ok (i_sessionId i) db [] db'" "j \<in> set (items db')" "i_sessionId j = i_sessionId i"
    "i_itemId j = i_itemId i" "i_status j = i_status i"
proof (cases "truthy t = None \<or> truthy (i_requestedTurnId i) \<noteq> None")
  case True
  then have "attachRequestedTurnId i t db = (i, db)"
    by (auto simp: attachRequestedTurnId_def simp del: truthy_eq_Some split: option.splits)
  then show ?thesis using step_ok_refl [OF wf] i by (intro that) simp_all
next
  case False
  then obtain u where u: "truthy t = Some u" "truthy (i_requestedTurnId i) = None"
    by (cases "truthy t"; cases "truthy (i_requestedTurnId i)") (auto simp del: truthy_eq_Some)
  let ?j = "i\<lparr>i_requestedTurnId := Some u\<rparr>"
  have "isQueueItem ?j"
    using item_of_wf [OF wf i] by (cases "i_status i") (simp_all add: item_checks)
  then have "step_ok (i_sessionId i) db [] (write_item ?j db)"
    by (intro step_write_present [OF wf i]) (simp_all add: item_key_def)
  moreover have "?j \<in> set (items (write_item ?j db))"
  proof -
    have "item_key ?j \<in> item_key ` set (items db)" using i by (auto simp: item_key_def)
    then show ?thesis
      using i by (auto simp: write_item_abs [OF wf_store [OF wf]] set_rows_items [OF wf_store [OF wf]]
          image_iff item_key_def intro!: bexI [of _ i])
  qed
  moreover have "attachRequestedTurnId i t db = (?j, write_item ?j db)"
    using u by (simp add: attachRequestedTurnId_def Let_def del: truthy_eq_Some)
  ultimately show ?thesis by (intro that [of ?j "write_item ?j db"]) simp_all
qed

lemma replayEnqueue_ok:
  assumes wf: "wf_queue db" and i: "i \<in> set (items db)" and before: "step_ok (i_sessionId i) db0 facts db"
  shows "run_ok (i_sessionId i) db0 (replayEnqueue e i facts db)"
proof -
  obtain j db' where j: "attachRequestedTurnId i (e_requestedTurnId e) db = (j, db')"
    "step_ok (i_sessionId i) db [] db'" "j \<in> set (items db')" "i_sessionId j = i_sessionId i"
    using attach_ok [OF wf i] by metis
  note st = step_ok_more [OF before j(2)]
  show ?thesis
  proof (cases "e_front e")
    case False
    then show ?thesis using st j(1) by (simp add: replayEnqueue_def)
  next
    case True
    then show ?thesis
      using move_front_ok [OF step_ok_wf [OF st] j(3)] j(1,4) step_ok_more [OF st]
      by (auto simp: replayEnqueue_def split: sum.splits)
  qed
qed

lemma run_ok_map: "run_ok s db r \<Longrightarrow> run_ok s db (rbind r (\<lambda>(v, f, d). Inr (h v, f, d)))"
  by (cases r) auto

lemma fresh_item_step:
  assumes "fresh_item s k db" "set (items db') \<subseteq> set (items db)"
  shows "fresh_item s k db'"
  using assms by (auto simp: fresh_item_def)

lemma enqueue_ok:
  assumes wf: "wf_queue db" and e: "enqueue_wellformed e"
    and fresh: "fresh_item (s_sessionId (e_session e)) freshId db"
  shows "run_ok (s_sessionId (e_session e)) db (enqueue env e freshId n db)"
proof (cases "validEnqueue e")
  case False
  then show ?thesis by (simp add: enqueue_def step_ok_refl [OF wf])
next
  case True
  let ?s = "s_sessionId (e_session e)"
  have "run_ok ?s db (mutationTransaction env ?s n (enqueueInTransaction e freshId n) db)"
    unfolding enqueueInTransaction_def Let_def
  proof (intro run_ok_op run_ok_after_expiry, goal_cases)
    case (3 db1 facts db2)
    have f2: "fresh_item ?s freshId db2"
      using fresh_item_step [OF fresh] 3(2,5) by auto
    let ?found = "case truthy (e_clientRequestId e) of Some c \<Rightarrow> findByClientRequest ?s c db2
        | None \<Rightarrow> Inr None"
    obtain x where x: "?found = Inr x" "\<And>i. x = Some i \<Longrightarrow> i \<in> set (items db2) \<and> i_sessionId i = ?s"
      using findByClientRequest_abs [OF 3(3)]
      by (cases "truthy (e_clientRequestId e)") (auto dest: find_SomeD)
    have "run_ok ?s db1 (case x of Some i \<Rightarrow> replayEnqueue e i facts db2
        | None \<Rightarrow> insertEnqueue e freshId n facts db2)"
    proof (cases x)
      case None
      then show ?thesis using insertEnqueue_ok [OF 3(3) True e f2 3(4)] by simp
    next
      case (Some i)
      with x(2) have "i \<in> set (items db2)" "?s = i_sessionId i" by auto
      then show ?thesis using replayEnqueue_ok [OF 3(3), of i db1 facts e] 3(4) Some by simp
    qed
    from run_ok_map [OF this, of Some] show ?case
      using 3(4) by (simp add: x(1))
  qed (rule wf)
  then show ?thesis using True by (simp add: enqueue_def)
qed

section \<open>Replacing a session\<close>

lemma replaceSession_ok:
  assumes wf: "wf_queue db" and d: "distinct (map i_itemId xs)" and c: "claims s xs \<le> 1"
    and ok: "replaceSession s xs n db = Inr (v, facts, db')"
  shows "wf_queue db' \<and> outside s (items db') = outside s (items db) \<and>
    filter (\<lambda>i. i_sessionId i = s) (items db') = xs \<and>
    (\<forall>s'. s' \<noteq> s \<longrightarrow> q_pauses db' s' = q_pauses db s') \<and> pause_pending s db'"
proof -
  let ?d = "delete_rows (in_session s) db"
  have p: "reads_as (in_session s) (\<lambda>i. i_sessionId i = s)"
    by (auto intro!: reads_asI simp: row_preds)
  have it: "items ?d = outside s (items db)"
    using delete_rows_items [OF wf_store [OF wf] p] by (simp add: outside_def)
  have xs: "\<forall>i \<in> set xs. i_sessionId i = s \<and> isQueueItem i"
    using ok by (auto simp: replaceSession_def list_ex_iff split: if_splits)
  then have k: "distinct (map item_key xs)"
    using d by (auto simp: item_key_def distinct_map inj_on_def)
  have disj: "item_key ` set xs \<inter> item_key ` set (items ?d) = {}"
    using xs by (auto simp: it outside_def item_key_def)
  have ins: "insert_rows xs ?d = Inr (add_rows xs ?d)"
    by (rule insert_rows_abs [OF delete_rows_store [OF wf_store [OF wf]] k disj])
  let ?a = "add_rows xs ?d"
  let ?m = "?a\<lparr>q_migrations := (q_migrations ?a)(s \<mapsto> n), q_legacy := (q_legacy ?a)(s := None)\<rparr>"
  have "items_ok (items ?a)"
    using wf k xs disj by (auto simp: items_ok_def wf_queue_def it list_all_iff outside_def
        intro: distinct_map_filterI)
  then have wa: "wf_queue ?a"
    using wf by (simp add: wf_queue_def add_rows_store delete_rows_store)
  have sm: "same_items ?a ?m" by (simp add: same_items_def)
  have wm: "wf_queue ?m" and im: "items ?m = outside s (items db) @ xs"
    using wa same_itemsD [OF sm] by (simp_all add: it)
  have db': "db' = reconcilePause s ?m"
    using ok by (auto simp: replaceSession_def replaceRows_def ins split: if_splits)
  have i': "items db' = outside s (items db) @ xs" and w': "wf_queue db'"
    using wm im same_itemsD [OF reconcilePause_same] by (simp_all add: db')
  have "outside s xs = []" using xs by (simp add: outside_def)
  moreover have "outside s (outside s (items db)) = outside s (items db)" by (simp add: outside_def)
  moreover have "filter (\<lambda>i. i_sessionId i = s) (outside s (items db)) = []" by (simp add: outside_def)
  moreover have "filter (\<lambda>i. i_sessionId i = s) xs = xs" using xs by (simp add: filter_id_iff)
  moreover have "\<forall>s'. s' \<noteq> s \<longrightarrow> q_pauses db' s' = q_pauses db s'"
    by (simp add: db' reconcilePause_def delete_pause_def)
  ultimately show ?thesis
    using w' reconcile_pending [OF wm, of s] i' unfolding db' [symmetric] by simp
qed

section \<open>Running an operation on well-formed tables\<close>

text \<open>The tables an operation body sees: the migration marker written, expired rows gone.\<close>

definition live_queue :: "string \<Rightarrow> int \<Rightarrow> int \<Rightarrow> queue_db \<Rightarrow> queue_db" where
  "live_queue s n m db =
     delete_rows (\<lambda>r. in_session s r \<and> has_status Queued r \<and> expires_by m r)
       (ensureQueueRowsReady s n db)"

definition live_items :: "string \<Rightarrow> int \<Rightarrow> queue_db \<Rightarrow> queue_item list" where
  "live_items s m db = filter (\<lambda>i. \<not> overdue s m i) (items db)"

lemma live_queue_items:
  assumes "wf_queue db"
  shows "items (live_queue s n m db) = live_items s m db" "wf_queue (live_queue s n m db)"
proof -
  let ?e = "ensureQueueRowsReady s n db"
  have e: "wf_queue ?e" "items ?e = items db" using assms same_itemsD [OF ensure_same] by auto
  have p: "reads_as (\<lambda>r. in_session s r \<and> has_status Queued r \<and> expires_by m r) (overdue s m)"
    by (auto intro!: reads_asI simp: row_preds overdue_def)
  show i: "items (live_queue s n m db) = live_items s m db"
    unfolding live_queue_def live_items_def
    by (simp add: delete_rows_items [OF wf_store [OF e(1)] p] e)
  have "items_ok (live_items s m db)" using assms by (simp add: live_items_def items_ok_filter wf_queue_def)
  then show "wf_queue (live_queue s n m db)"
    using i e(1) by (simp add: wf_queue_def live_queue_def delete_rows_store)
qed

lemma live_queue_pause [simp]: "q_pauses (live_queue s n m db) = q_pauses db"
  "pause_of s' (live_queue s n m db) = pause_of s' db"
  by (simp_all add: live_queue_def ensureQueueRowsReady_def pause_of_def split: option.splits)

lemma run_body:
  assumes "wf_queue db"
  shows "transaction s n (after_expiry s m k) db =
    rbind (k (expiredFacts (filter (overdue s m) (items db)) m) (live_queue s n m db))
      (\<lambda>(v, facts, db2).
         Inr (v, snd (withPauseRemovalFact (v, facts) s
                        (pause_of s db \<noteq> None \<and> pause_of s (reconcilePause s db2) = None)),
              reconcilePause s db2))"
proof -
  let ?e = "ensureQueueRowsReady s n db"
  have e: "wf_queue ?e" "items ?e = items db" using assms same_itemsD [OF ensure_same] by auto
  have p: "pause_of s ?e = pause_of s db"
    by (simp add: ensureQueueRowsReady_def pause_of_def split: option.splits)
  show ?thesis
    by (simp add: transaction_def Let_def after_expiry_def deleteExpired_abs [OF e(1)] e(2) p
        live_queue_def split_beta)
qed

lemma items_reconcile [simp]: "items (reconcilePause s db) = items db"
  by (rule same_itemsD(1) [OF reconcilePause_same])

end
