(* ===== verification/QueueSystem.thy ===== *)
theory QueueSystem
  imports QueueOps
begin

text \<open>
  The queue as a state machine: \<open>queue_call\<close> is one call of the repository, with a constructor for every
  method of its interface, \<open>run_call\<close> runs it on the tables, \<open>queue_reachable\<close> holds the tables some sequence
  of calls leads to from an empty database. A failed call is rolled back. \<open>call_ok\<close> is what the code accepts
  without checking it and its callers have to guarantee: identifiers of \<open>randomUUID\<close> are fresh, a delivery uses a
  new Turn, the two fields the admission checks of \<open>policy.ts\<close> skip are well formed, and the items that replace
  a session have at most one claim among them. \<open>lookup_sound\<close> says that the acceptance lookup, which is code of
  another part, does not itself raise the error of a corrupt queue row.
\<close>

datatype queue_call =
    ListPendingCall
  | SnapshotCall string
  | ListCall string
  | FindClientCall string string
  | GetCall string string
  | PauseCall pause_input
  | ContinueCall string "queue_pause option"
  | EnqueueCall enqueue_input string
  | UpdateCall update_input
  | CancelCall string string
  | ClearCall string
  | PromoteCall string string queue_source
  | ReorderCall string "string list"
  | ClaimCall claim_input string
  | PrepareCall string string string
  | AcknowledgeCall string string "string option"
  | ReleaseCall string string "admission_reason option"
  | RejectCall string string admission_reason
  | CancelClaimCall string string
  | ConsumeCall string string consume_reason
  | RecoverCall string "recovery_scope option"
  | DrainCall string
  | DeleteCall string
  | ReplaceCall string "queue_item list"

text \<open>The session a call is about; the list of pending sessions is about none and changes nothing.\<close>

fun call_session :: "queue_call \<Rightarrow> string" where
  "call_session ListPendingCall = []"
| "call_session (SnapshotCall s) = s"
| "call_session (ListCall s) = s"
| "call_session (FindClientCall s _) = s"
| "call_session (GetCall s _) = s"
| "call_session (PauseCall input) = pi_sessionId input"
| "call_session (ContinueCall s _) = s"
| "call_session (EnqueueCall e _) = s_sessionId (e_session e)"
| "call_session (UpdateCall u) = u_sessionId u"
| "call_session (CancelCall s _) = s"
| "call_session (ClearCall s) = s"
| "call_session (PromoteCall s _ _) = s"
| "call_session (ReorderCall s _) = s"
| "call_session (ClaimCall ci _) = ci_sessionId ci"
| "call_session (PrepareCall s _ _) = s"
| "call_session (AcknowledgeCall s _ _) = s"
| "call_session (ReleaseCall s _ _) = s"
| "call_session (RejectCall s _ _) = s"
| "call_session (CancelClaimCall s _) = s"
| "call_session (ConsumeCall s _ _) = s"
| "call_session (RecoverCall s _) = s"
| "call_session (DrainCall s) = s"
| "call_session (DeleteCall s) = s"
| "call_session (ReplaceCall s _) = s"

definition effect :: "'a committed \<Rightarrow> (queue_fact list \<times> queue_db) qresult" where
  "effect r = rbind r (\<lambda>(_, facts, db'). Inr (facts, db'))"

fun run_call ::
  "queue_env \<Rightarrow> 't acceptance_lookup \<Rightarrow> 't \<Rightarrow> int \<Rightarrow> queue_call \<Rightarrow> queue_db \<Rightarrow>
   (queue_fact list \<times> queue_db) qresult" where
  "run_call env look t n ListPendingCall db = effect (Inr (listPendingSessionIds db, [], db))"
| "run_call env look t n (SnapshotCall s) db = effect (snapshot_queue s n db)"
| "run_call env look t n (ListCall s) db = effect (list_queue s n db)"
| "run_call env look t n (FindClientCall s c) db = effect (findByClientRequestId s c n db)"
| "run_call env look t n (GetCall s k) db = effect (get_item s k n db)"
| "run_call env look t n (PauseCall input) db = effect (pauseIfPending input n db)"
| "run_call env look t n (ContinueCall s p) db = effect (continueQueue s p n db)"
| "run_call env look t n (EnqueueCall e k) db = effect (enqueue env e k n db)"
| "run_call env look t n (UpdateCall u) db = effect (updateQueued env u n db)"
| "run_call env look t n (CancelCall s k) db = effect (cancel_item env s k n db)"
| "run_call env look t n (ClearCall s) db = effect (clearUserManageable env s n db)"
| "run_call env look t n (PromoteCall s k src) db = effect (promoteQueuedSource env s k src n db)"
| "run_call env look t n (ReorderCall s ids) db = effect (reorder env s ids n db)"
| "run_call env look t n (ClaimCall ci c) db = effect (claimNext env ci c n db)"
| "run_call env look t n (PrepareCall s c turn) db = effect (prepareDelivery s c turn n db)"
| "run_call env look t n (AcknowledgeCall s c turn) db =
     effect (acknowledgeClaim s c turn (Some look) n t db)"
| "run_call env look t n (ReleaseCall s c r) db = effect (releaseClaim s c r n db)"
| "run_call env look t n (RejectCall s c r) db = effect (rejectClaim s c r n db)"
| "run_call env look t n (CancelClaimCall s c) db = effect (cancelClaim s c n db)"
| "run_call env look t n (ConsumeCall s c r) db = effect (consumeClaim s c r n db)"
| "run_call env look t n (RecoverCall s scope) db = effect (recoverClaims env s look scope n t db)"
| "run_call env look t n (DrainCall s) db = effect (drainComposerInjectable s n db)"
| "run_call env look t n (DeleteCall s) db = effect (deleteSession s n db)"
| "run_call env look t n (ReplaceCall s xs) db = effect (replaceSession s xs n db)"

fun call_ok :: "queue_call \<Rightarrow> queue_db \<Rightarrow> bool" where
  "call_ok (EnqueueCall e k) db =
     (enqueue_wellformed e \<and> fresh_item (s_sessionId (e_session e)) k db)"
| "call_ok (UpdateCall u) db = update_wellformed u"
| "call_ok (ClaimCall ci c) db = (c \<noteq> [])"
| "call_ok (PrepareCall s c turn) db = new_delivery s c turn (items db)"
| "call_ok (ReplaceCall s xs) db = (claims s xs \<le> 1)"
| "call_ok _ db = True"

definition empty_queue :: queue_db where
  "empty_queue = \<lparr>q_rows = [], q_next = 1, q_pauses = Map.empty, q_migrations = Map.empty,
                  q_legacy = Map.empty\<rparr>"

inductive queue_reachable :: "queue_env \<Rightarrow> 't acceptance_lookup \<Rightarrow> queue_db \<Rightarrow> bool"
  for env :: queue_env and look :: "'t acceptance_lookup" where
  start: "queue_reachable env look empty_queue"
| committed: "queue_reachable env look db \<Longrightarrow> call_ok c db \<Longrightarrow>
     run_call env look t n c db = Inr (facts, db') \<Longrightarrow> queue_reachable env look db'"
| rolled_back: "queue_reachable env look db \<Longrightarrow> call_ok c db \<Longrightarrow>
     run_call env look t n c db = Inl e \<Longrightarrow> queue_reachable env look db"

section \<open>One call\<close>

lemma effect_run_ok: "run_ok s db r \<Longrightarrow>
   (case effect r of Inl e \<Rightarrow> \<not> reports_corruption e | Inr (facts, db') \<Rightarrow> step_ok s db facts db')"
  by (cases r) (auto simp: effect_def)

lemmas op_contracts = snapshot_queue_ok list_queue_ok findByClientRequestId_ok get_item_ok
  pauseIfPending_ok continueQueue_ok enqueue_ok updateQueued_ok cancel_item_ok
  clearUserManageable_ok promoteQueuedSource_ok reorder_ok claimNext_ok prepareDelivery_ok
  acknowledgeClaim_ok releaseClaim_ok rejectClaim_ok removeClaimed_ok recoverClaims_ok drain_ok
  deleteSession_ok

text \<open>All calls but a replacement report every row that came or went by a fact.\<close>

definition replaces :: "queue_call \<Rightarrow> bool" where
  "replaces c = (case c of ReplaceCall _ _ \<Rightarrow> True | _ \<Rightarrow> False)"

lemma step_refl: "wf_queue db \<Longrightarrow> step_ok s db [] db"
  by (simp add: step_ok_def)

lemma run_call_contract:
  assumes "wf_queue db" "call_ok c db" "lookup_sound look" "\<not> replaces c"
  shows "case run_call env look t n c db of Inl e \<Rightarrow> \<not> reports_corruption e
         | Inr (facts, db') \<Rightarrow> step_ok (call_session c) db facts db'"
  using assms
  by (cases c)
    (simp_all only: run_call.simps call_session.simps call_ok.simps cancelClaim_def consumeClaim_def,
     auto intro!: effect_run_ok op_contracts simp: replaces_def step_refl)

lemma insert_rows_Inr:
  "store_ok db \<Longrightarrow> insert_rows xs db = Inr db' \<Longrightarrow>
   distinct (map item_key xs) \<and> item_key ` set xs \<inter> item_key ` set (items db) = {}"
proof (induction xs arbitrary: db)
  case (Cons i xs)
  then have "item_key i \<notin> item_key ` set (items db)" and rest: "insert_rows xs (add_row i db) = Inr db'"
    by (auto simp: insert_row_abs split: if_splits)
  moreover have "distinct (map item_key xs) \<and> item_key ` set xs \<inter> item_key ` set (items (add_row i db)) = {}"
    by (rule Cons.IH [OF add_row_store rest]) (rule Cons.prems(1))
  ultimately show ?case
    by auto
qed simp

lemma insert_rows_error: "insert_rows xs db = Inl e \<Longrightarrow> \<exists>s i. e = UniqueConstraintError s i"
  by (induction xs arbitrary: db) (auto simp: insert_row_def result_simps split: if_splits)

lemma replace_call:
  assumes wf: "wf_queue db" and c: "claims s xs \<le> 1"
  shows "case run_call env look t n (ReplaceCall s xs) db of Inl e \<Rightarrow> \<not> reports_corruption e
         | Inr (facts, db') \<Rightarrow> facts = [] \<and> wf_queue db' \<and> outside s (items db') = outside s (items db) \<and>
             filter (\<lambda>i. i_sessionId i = s) (items db') = xs \<and>
             (\<forall>s'. s' \<noteq> s \<longrightarrow> q_pauses db' s' = q_pauses db s') \<and> pause_pending s db'"
proof (cases "replaceSession s xs n db")
  case (Inl e)
  then have "\<not> reports_corruption e"
    using insert_rows_error [of xs "delete_rows (in_session s) db"]
    by (auto simp: replaceSession_def replaceRows_def result_simps reports_corruption_def split: if_splits)
  then show ?thesis
    using Inl by (simp add: effect_def)
next
  case (Inr r)
  obtain v facts db' where r: "r = (v, facts, db')"
    by (cases r)
  have "\<exists>db1. insert_rows xs (delete_rows (in_session s) db) = Inr db1" and f: "facts = []"
      and session: "\<forall>i\<in>set xs. i_sessionId i = s"
    using Inr unfolding r by (auto simp: replaceSession_def replaceRows_def list_ex_iff result_simps split: if_splits)
  then have "distinct (map item_key xs)"
    using insert_rows_Inr [OF delete_rows_store [OF wf_store [OF wf]]] by blast
  then have "distinct (map i_itemId xs)"
    using session by (auto simp: item_key_def distinct_map inj_on_def)
  from replaceSession_ok [OF wf this c Inr [unfolded r]] f show ?thesis
    using Inr by (simp add: effect_def r)
qed

section \<open>The pause of the session\<close>

definition settles_pause :: "string \<Rightarrow> queue_db \<Rightarrow> 'a committed \<Rightarrow> bool" where
  "settles_pause s db r \<longleftrightarrow>
     (\<forall>v facts db'. r = Inr (v, facts, db') \<longrightarrow> db' = db \<or> (\<exists>db2. db' = reconcilePause s db2))"

lemma settles_transaction [simp]: "settles_pause s db (transaction s n f db)"
  by (auto simp: settles_pause_def transaction_def Let_def result_simps)

lemma settles_mutation [simp]: "settles_pause s db (mutationTransaction env s n f db)"
  using settles_transaction [of s db n f]
  by (auto simp: mutationTransaction_def settles_pause_def split: option.splits)

lemma settles_other [simp]:
  "settles_pause s db (Inl e)" "settles_pause s db (Inr (v, facts, db))"
  by (simp_all add: settles_pause_def)

lemma settles_replace [simp]: "settles_pause s db (replaceSession s xs n db)"
  by (auto simp: settles_pause_def replaceSession_def result_simps)

lemma settles_effect:
  "settles_pause s db r \<Longrightarrow> effect r = Inr (facts, db') \<Longrightarrow>
   db' = db \<or> (\<exists>db2. db' = reconcilePause s db2)"
  by (auto simp: settles_pause_def effect_def result_simps)

lemmas op_defs = snapshot_queue_def list_queue_def findByClientRequestId_def get_item_def
  pauseIfPending_def continueQueue_def enqueue_def updateQueued_def cancel_item_def
  clearUserManageable_def promoteQueuedSource_def reorder_def claimNext_def prepareDelivery_def
  acknowledgeClaim_def releaseClaim_def rejectClaim_def cancelClaim_def consumeClaim_def
  removeClaimed_def settle_claimed_def recoverClaims_def drainComposerInjectable_def
  deleteSession_def

lemma run_call_pause:
  assumes "run_call env look t n c db = Inr (facts, db')"
  shows "db' = db \<or> (\<exists>db2. db' = reconcilePause (call_session c) db2)"
  using assms
  by (cases c)
    (simp_all only: run_call.simps call_session.simps,
     (erule settles_effect [rotated], simp add: op_defs Let_def)+)

definition queue_inv :: "queue_db \<Rightarrow> bool" where
  "queue_inv db \<longleftrightarrow>
     wf_queue db \<and> (\<forall>s. claims s (items db) \<le> 1) \<and> (\<forall>s. pause_pending s db)"

text \<open>What both kinds of calls keep of the other sessions.\<close>

lemma run_call_frame:
  assumes wf: "wf_queue db" and c: "call_ok c db" "lookup_sound look"
    and run: "run_call env look t n c db = Inr (facts, db')"
  shows "wf_queue db' \<and> outside (call_session c) (items db') = outside (call_session c) (items db) \<and>
    (\<forall>s. s \<noteq> call_session c \<longrightarrow> q_pauses db' s = q_pauses db s) \<and>
    claims (call_session c) (items db') \<le> max 1 (claims (call_session c) (items db))"
proof (cases "replaces c")
  case True
  then obtain s xs where cc: "c = ReplaceCall s xs"
    by (auto simp: replaces_def split: queue_call.splits)
  have "claims s xs \<le> 1"
    using c(1) by (simp add: cc)
  from replace_call [OF wf this, of env look t n] run have fr: "wf_queue db'" "outside s (items db') = outside s (items db)"
      "filter (\<lambda>i. i_sessionId i = s) (items db') = xs" "\<forall>s'. s' \<noteq> s \<longrightarrow> q_pauses db' s' = q_pauses db s'"
    by (simp_all add: cc del: run_call.simps)
  have "claims s (items db') = claims s (filter (\<lambda>i. i_sessionId i = s) (items db'))"
    unfolding claims_def by (simp add: conj_commute cong: conj_cong)
  then show ?thesis
    using fr \<open>claims s xs \<le> 1\<close> by (simp add: cc)
next
  case False
  then have "step_ok (call_session c) db facts db'"
    using run_call_contract [OF wf c, of env t n] run by simp
  then show ?thesis
    by (simp add: step_ok_def)
qed

lemma frame_transfer:
  assumes out: "outside s (items db') = outside s (items db)" and pauses: "q_pauses db' s' = q_pauses db s'" and "s' \<noteq> s"
  shows "claims s' (items db') = claims s' (items db)" "pause_pending s' db \<Longrightarrow> pause_pending s' db'"
proof -
  have "claims s' (outside s xs) = claims s' xs" for xs
    using assms(3) unfolding claims_def outside_def filter_filter
    by (intro arg_cong [where f = length] filter_cong) auto
  then show "claims s' (items db') = claims s' (items db)"
    using out by metis
  have "i \<in> set (items db) \<and> i_sessionId i = s' \<longleftrightarrow> i \<in> set (items db') \<and> i_sessionId i = s'" for i
  proof -
    have "set (outside s (items db')) = set (outside s (items db))" by (simp add: out)
    then show ?thesis using assms(3) by (auto simp: outside_def)
  qed
  then show "pause_pending s' db \<Longrightarrow> pause_pending s' db'"
    using pauses by (auto simp: pause_pending_def pause_of_def)
qed

lemma run_call_inv:
  assumes inv: "queue_inv db" and c: "call_ok c db" "lookup_sound look"
    and run: "run_call env look t n c db = Inr (facts, db')"
  shows "queue_inv db'"
proof -
  let ?s = "call_session c"
  have fr: "wf_queue db'" "outside ?s (items db') = outside ?s (items db)"
      "\<And>s. s \<noteq> ?s \<Longrightarrow> q_pauses db' s = q_pauses db s" "claims ?s (items db') \<le> max 1 (claims ?s (items db))"
    using run_call_frame [OF _ c run] inv by (auto simp: queue_inv_def)
  have "claims s (items db') \<le> 1" for s
    using inv fr(4) frame_transfer(1) [OF fr(2) fr(3), of s] by (cases "s = ?s") (auto simp: queue_inv_def)
  moreover have "pause_pending s db'" for s
  proof (cases "s = ?s")
    case True
    show ?thesis
      using run_call_pause [OF run]
    proof
      assume "\<exists>db2. db' = reconcilePause ?s db2"
      then obtain db2 where d: "db' = reconcilePause ?s db2" by blast
      then have "wf_queue db2" using fr(1) same_itemsD(3) [OF reconcilePause_same] by simp
      then show ?thesis unfolding d True by (rule reconcile_pending)
    qed (use inv in \<open>simp add: queue_inv_def\<close>)
  next
    case False
    then show ?thesis using frame_transfer(2) [OF fr(2) fr(3), of s] inv by (simp add: queue_inv_def)
  qed
  ultimately show ?thesis using fr(1) by (simp add: queue_inv_def)
qed

lemma empty_queue_inv: "queue_inv empty_queue"
  by (simp add: queue_inv_def empty_queue_def wf_queue_def store_ok_def items_ok_def items_def
      pause_pending_def pause_of_def)

end
