(* ===== verification/QueueProps.thy ===== *)
theory QueueProps
  imports QueueSystem
begin

text \<open>
  The properties of the Session queue. First what every sequence of calls keeps, then what the
  single operations do, on the abstract list of items.
\<close>

section \<open>A concrete queue\<close>

definition text_message :: "string \<Rightarrow> queue_message" where
  "text_message s =
     \<lparr> m_content = s, m_attachments = [], m_inputSafetyDecision = None,
       m_displayAttachments = None, m_hideUserMessage = None, m_displayContent = None,
       m_clientIntent = None, m_queueItemId = None, m_source = None, m_origin = None,
       m_quotedMessage = None, m_channelContext = None \<rparr>"

definition text_enqueue :: "string \<Rightarrow> string \<Rightarrow> string option \<Rightarrow> enqueue_input" where
  "text_enqueue s txt req =
     \<lparr> e_immediateSendBatch = None, e_createdAt = None,
       e_session = \<lparr>s_sessionId = s, s_agentName = ''coder''\<rparr>,
       e_itemId = None, e_userMessageId = None, e_requestedTurnId = None,
       e_message = text_message txt, e_source = None, e_front = False, e_model = None,
       e_clientRequestId = req, e_dedupeKey = None, e_expiresAt = None \<rparr>"

definition demo_env :: queue_env where
  "demo_env = make_queue_env
     \<lparr>opt_claimOwnerId = None, opt_claimLeaseMs = None, opt_isClaimOwnerAlive = None,
      opt_enqueueAdmission = None\<rparr> ''0''"

definition no_lookup :: "unit acceptance_lookup" where
  "no_lookup = \<lparr>isAccepted = (\<lambda>_ _. False),
                markAcknowledged = (\<lambda>_ _. Inl (QueueLookupError ''not accepted''))\<rparr>"

definition fifo_claim :: "string \<Rightarrow> claim_input" where
  "fifo_claim s = \<lparr>ci_sessionId = s, ci_itemId = None, ci_continuePaused = False,
                   ci_excludeItemIds = None, ci_allowedSources = None, ci_nowMs = None\<rparr>"

text \<open>The tables a list of calls leads to; a failed call is rolled back.\<close>

fun play :: "(int \<times> queue_call) list \<Rightarrow> queue_db \<Rightarrow> queue_db" where
  "play [] db = db"
| "play ((n, c) # cs) db =
     play cs (case run_call demo_env no_lookup () n c db of Inr (_, db') \<Rightarrow> db' | Inl _ \<Rightarrow> db)"

fun playable :: "(int \<times> queue_call) list \<Rightarrow> queue_db \<Rightarrow> bool" where
  "playable [] db = True"
| "playable ((n, c) # cs) db =
     (call_ok c db \<and>
      playable cs (case run_call demo_env no_lookup () n c db of Inr (_, db') \<Rightarrow> db' | Inl _ \<Rightarrow> db))"

lemma play_reachable:
  "queue_reachable demo_env no_lookup db \<Longrightarrow> playable cs db \<Longrightarrow>
   queue_reachable demo_env no_lookup (play cs db)"
proof (induction cs arbitrary: db)
  case (Cons nc cs)
  obtain n c where nc: "nc = (n, c)" by (cases nc)
  show ?case
  proof (cases "run_call demo_env no_lookup () n c db")
    case (Inl e)
    then show ?thesis using Cons nc by simp
  next
    case (Inr r)
    obtain facts db' where r: "r = (facts, db')" by (cases r)
    have "queue_reachable demo_env no_lookup db'"
      using Cons.prems nc Inr r by (auto intro: queue_reachable.committed)
    then show ?thesis using Cons.IH Cons.prems nc Inr r by simp
  qed
qed simp

lemma no_lookup_sound: "lookup_sound no_lookup"
  by (simp add: lookup_sound_def no_lookup_def)

definition demo_calls :: "(int \<times> queue_call) list" where
  "demo_calls =
     [(10, EnqueueCall (text_enqueue ''s'' ''first'' (Some ''r1'')) ''q1''),
      (11, EnqueueCall (text_enqueue ''s'' ''second'' None) ''q2''),
      (12, ClaimCall (fifo_claim ''s'') ''c1'')]"

definition demo_queue :: queue_db where
  "demo_queue = play demo_calls empty_queue"

lemma demo_playable: "playable demo_calls empty_queue"
  by code_simp

lemma demo_items: "map (\<lambda>i. (i_itemId i, i_status i)) (items demo_queue) = [(''q1'', Claimed), (''q2'', Queued)]"
  by code_simp

lemma demo_reachable: "queue_reachable demo_env no_lookup demo_queue"
  unfolding demo_queue_def by (rule play_reachable [OF queue_reachable.start demo_playable])

section \<open>What every sequence of calls keeps\<close>

text \<open>C14: From an empty database, whatever calls of the repository are made, with failed ones rolled back, each
  stored row decodes, keys are unique, a session has at most one claimed item, and a paused session has pending
  work - as long as the callers keep to \<open>call_ok\<close>, which the code does not check: model overrides and message ids
  are well formed, fresh identifiers are new, a delivery uses a new Turn, and a replacement brings at most one claim.\<close>

theorem queue_reachable_inv:
  assumes "queue_reachable env look db" "lookup_sound look"
  shows "queue_inv db"
  using assms(1)
proof (induction rule: queue_reachable.induct)
  case start
  show ?case by (rule empty_queue_inv)
next
  case (committed db c t n facts db')
  from run_call_inv [OF committed.IH committed.hyps(2) assms(2) committed.hyps(3)] show ?case .
qed

theorem queue_reachable_inv_witness:
  "queue_inv demo_queue \<and> length (items demo_queue) = 2"
  using queue_reachable_inv [OF demo_reachable no_lookup_sound] arg_cong [OF demo_items, of length]
  by simp

text \<open>The invariant of the demo tables, from the single-call lemmas.\<close>

lemma play_inv: "queue_inv db \<Longrightarrow> playable cs db \<Longrightarrow> queue_inv (play cs db)"
proof (induction cs arbitrary: db)
  case (Cons nc cs)
  obtain n c where nc: "nc = (n, c)" by (cases nc)
  show ?case
  proof (cases "run_call demo_env no_lookup () n c db")
    case (Inl e)
    then show ?thesis using Cons nc by simp
  next
    case (Inr r)
    obtain facts db' where r: "r = (facts, db')" by (cases r)
    have "queue_inv db'"
      using run_call_inv [OF Cons.prems(1) _ no_lookup_sound] Cons.prems(2) nc Inr r by auto
    then show ?thesis using Cons.IH Cons.prems nc Inr r by simp
  qed
qed simp

lemma demo_inv: "queue_inv demo_queue"
  unfolding demo_queue_def by (rule play_inv [OF empty_queue_inv demo_playable])

lemma demo_wf: "wf_queue demo_queue"
  using demo_inv by (simp add: queue_inv_def)

text \<open>C15: The facts a committed call publishes account exactly for the rows that came and went: on
  well-formed tables and under \<open>call_ok\<close>, keys before plus enqueued keys are keys after plus removed keys, as
  multisets, for every call but the replacement of a session. A replacement publishes no fact at all, whatever
  rows of the session it drops and brings.\<close>

theorem queue_calls_account:
  assumes "wf_queue db" "call_ok c db" "lookup_sound look"
    and "run_call env look t n c db = Inr (facts, db')"
  shows "case c of ReplaceCall s xs \<Rightarrow> facts = [] \<and> filter (\<lambda>i. i_sessionId i = s) (items db') = xs
    | _ \<Rightarrow> key_mset db' + removed_keys facts = key_mset db + enqueued_keys facts"
proof (cases "replaces c")
  case True
  then obtain s xs where c: "c = ReplaceCall s xs"
    by (auto simp: replaces_def split: queue_call.splits)
  then have "claims s xs \<le> 1"
    using assms(2) by simp
  from replace_call [OF assms(1) this, of env look t n] assms(4) show ?thesis
    by (simp add: c del: run_call.simps)
next
  case False
  then have "key_mset db' + removed_keys facts = key_mset db + enqueued_keys facts"
    using run_call_contract [OF assms(1-3), of env t n] assms(4) by (simp add: step_ok_def)
  then show ?thesis
    using False by (cases c) (simp_all add: replaces_def)
qed

lemma demo_drain:
  "(case run_call demo_env no_lookup () 20 (DrainCall ''s'') demo_queue of
      Inr (facts, db') \<Rightarrow> map item_key (items db') = [(''s'', ''q1'')] \<and>
        concat (map removed_key facts) = [(''s'', ''q2'')] | Inl _ \<Rightarrow> False)"
  by code_simp

theorem queue_calls_account_witness:
  "\<exists>facts db'. run_call demo_env no_lookup () 20 (DrainCall ''s'') demo_queue = Inr (facts, db') \<and>
     removed_keys facts = {# (''s'', ''q2'') #} \<and>
     key_mset db' + removed_keys facts = key_mset demo_queue + enqueued_keys facts"
proof -
  obtain facts db' where r: "run_call demo_env no_lookup () 20 (DrainCall ''s'') demo_queue = Inr (facts, db')"
    and k: "concat (map removed_key facts) = [(''s'', ''q2'')]"
    using demo_drain by (auto split: sum.splits)
  have "key_mset db' + removed_keys facts = key_mset demo_queue + enqueued_keys facts"
    using queue_calls_account [OF demo_wf _ no_lookup_sound r] by simp
  moreover have "removed_keys facts = {# (''s'', ''q2'') #}" by (simp add: removed_keys_def k)
  ultimately show ?thesis using r by blast
qed

text \<open>A call changes nothing outside its session: the items of the other sessions keep their
  content and order, and their pauses stay.\<close>

theorem queue_calls_isolated:
  assumes "wf_queue db" "call_ok c db" "lookup_sound look"
    and "run_call env look t n c db = Inr (facts, db')"
  shows "outside (call_session c) (items db') = outside (call_session c) (items db) \<and>
    (\<forall>s. s \<noteq> call_session c \<longrightarrow> pause_of s db' = pause_of s db)"
  using run_call_frame [OF assms] by (simp add: pause_of_def)

lemma demo_delete_other:
  "(case run_call demo_env no_lookup () 20 (DeleteCall ''other'') demo_queue of
      Inr _ \<Rightarrow> True | Inl _ \<Rightarrow> False)"
  by code_simp

theorem queue_calls_isolated_witness:
  "\<exists>facts db'. run_call demo_env no_lookup () 20 (DeleteCall ''other'') demo_queue = Inr (facts, db') \<and>
     outside ''other'' (items db') = outside ''other'' (items demo_queue)"
proof -
  obtain facts db' where r:
    "run_call demo_env no_lookup () 20 (DeleteCall ''other'') demo_queue = Inr (facts, db')"
    using demo_delete_other by (cases "run_call demo_env no_lookup () 20 (DeleteCall ''other'') demo_queue") auto
  from queue_calls_isolated [OF demo_wf _ no_lookup_sound r] r show ?thesis by auto
qed

text \<open>C16: On well-formed tables no call under \<open>call_ok\<close> reports a corrupt row: whatever error it returns,
  it is not \<open>QueueDataCorruptionError\<close>. The condition is needed: a malformed model override is
  accepted, and from then on the row it is stored in does not decode.\<close>

theorem queue_calls_no_corruption:
  assumes "wf_queue db" "call_ok c db" "lookup_sound look"
    and "run_call env look t n c db = Inl e"
  shows "e \<noteq> QueueDataCorruptionError s i"
proof -
  have "\<not> reports_corruption e"
  proof (cases "replaces c")
    case True
    then obtain s xs where c: "c = ReplaceCall s xs"
      by (auto simp: replaces_def split: queue_call.splits)
    then have "claims s xs \<le> 1"
      using assms(2) by simp
    from replace_call [OF assms(1) this, of env look t n] assms(4) show ?thesis
      by (simp add: c del: run_call.simps)
  next
    case False
    then show ?thesis
      using run_call_contract [OF assms(1-3), of env t n] assms(4) by simp
  qed
  then show ?thesis
    by (auto simp: reports_corruption_def)
qed

lemma demo_ack_error_eval:
  "(case run_call demo_env no_lookup () 20 (AcknowledgeCall ''s'' ''c9'' None) demo_queue of
      Inl e \<Rightarrow> e = QueueClaimNotFoundError ''s'' ''c9'' | Inr _ \<Rightarrow> False)"
  by code_simp

lemma demo_ack_error:
  "run_call demo_env no_lookup () 20 (AcknowledgeCall ''s'' ''c9'' None) demo_queue =
     Inl (QueueClaimNotFoundError ''s'' ''c9'')"
  using demo_ack_error_eval by (simp split: sum.splits)

theorem queue_calls_no_corruption_witness:
  "run_call demo_env no_lookup () 20 (AcknowledgeCall ''s'' ''c9'' None) demo_queue =
     Inl (QueueClaimNotFoundError ''s'' ''c9'') \<and>
   QueueClaimNotFoundError ''s'' ''c9'' \<noteq> QueueDataCorruptionError ''s'' ''q1''"
  using queue_calls_no_corruption [OF demo_wf _ no_lookup_sound demo_ack_error, of "''s''" "''q1''"]
    demo_ack_error by simp

section \<open>Claiming\<close>

text \<open>The abstract choice of a claim over the live items of the session.\<close>

definition claim_choice :: "claim_input \<Rightarrow> bool \<Rightarrow> queue_item list \<Rightarrow> queue_item option" where
  "claim_choice ci paused xs =
     (let s = ci_sessionId ci;
          eligible = (\<lambda>i. i_sessionId i = s \<and> i_status i = Queued \<and>
             i_itemId i \<notin> set (case ci_excludeItemIds ci of None \<Rightarrow> [] | Some ex \<Rightarrow> ex))
      in if truthy (ci_itemId ci) = None \<and> \<not> ci_continuePaused ci \<and> paused then None
         else if \<exists>i \<in> set xs. i_sessionId i = s \<and> i_status i = Claimed then None
         else case (case truthy (ci_itemId ci) of
                      Some k \<Rightarrow> onlyQueuedItem (List.find (\<lambda>i. item_key i = (s, k)) xs)
                    | None \<Rightarrow> List.find eligible xs) of
                None \<Rightarrow> None
              | Some i \<Rightarrow>
                  if (case ci_allowedSources ci of
                        None \<Rightarrow> False | Some allowed \<Rightarrow> i_source i \<notin> set allowed)
                  then None else Some i)"

definition claimed_as :: "queue_env \<Rightarrow> string \<Rightarrow> int \<Rightarrow> queue_item \<Rightarrow> queue_item" where
  "claimed_as env c n i =
     i\<lparr>i_status := Claimed, i_claimId := Some c, i_claimedAt := Some n,
       i_claimOwnerId := Some (env_claimOwnerId env),
       i_claimLeaseExpiresAt := Some (n + env_claimLeaseMs env)\<rparr>"

definition replace_item :: "queue_item \<Rightarrow> queue_item list \<Rightarrow> queue_item list" where
  "replace_item i xs = map (\<lambda>j. if item_key j = item_key i then i else j) xs"

definition claim_time :: "claim_input \<Rightarrow> int \<Rightarrow> int" where
  "claim_time ci n = (case ci_nowMs ci of Some t \<Rightarrow> t | None \<Rightarrow> n)"

lemma write_present_items:
  assumes "wf_queue db" "k \<in> set (items db)" "item_key i = item_key k"
  shows "items (write_item i db) = replace_item i (items db)"
proof -
  have "item_key i \<in> item_key ` set (items db)" using assms by auto
  then show ?thesis
    using assms by (simp add: write_item_abs wf_store set_rows_items replace_item_def)
qed

lemma claimed_as_key [simp]: "item_key (claimed_as env c n i) = item_key i"
  by (simp add: claimed_as_def item_key_def)

lemma claim_choice_found:
  assumes "claim_choice ci paused xs = Some i"
  shows "i \<in> set xs" "i_sessionId i = ci_sessionId ci" "i_status i = Queued"
  using assms
  by (auto simp: claim_choice_def Let_def onlyQueuedItem_def item_key_def dest!: find_SomeD
      split: if_splits option.splits)

lemma claimNext_body:
  assumes wf: "wf_queue db" and c: "c \<noteq> []" and own: "env_claimOwnerId env \<noteq> []"
  shows "(if truthy (ci_itemId ci) = None \<and> \<not> ci_continuePaused ci \<and> pause_of (ci_sessionId ci) db \<noteq> None
           then Inr (None, facts, db)
           else if hasClaimed (ci_sessionId ci) db then Inr (None, facts, db)
           else rbind (claimCandidate ci db)
             (\<lambda>candidate.
                case candidate of
                  None \<Rightarrow> Inr (None, facts, db)
                | Some selected \<Rightarrow>
                    if (case ci_allowedSources ci of
                          Some allowed \<Rightarrow> i_source selected \<notin> set allowed | None \<Rightarrow> False)
                    then Inr (None, facts, db)
                    else case claim_item (env_claimOwnerId env) selected c n
                                 (n + env_claimLeaseMs env) db of
                           (claimed, db') \<Rightarrow> rbind (dispatchItem claimed (claimSelection ci))
                              (\<lambda>d. Inr (Some d, facts, db')))) =
     (case claim_choice ci (pause_of (ci_sessionId ci) db \<noteq> None) (items db) of
        None \<Rightarrow> Inr (None, facts, db)
      | Some i \<Rightarrow> Inr (Some \<lparr> d_claimId = c, d_sessionId = i_sessionId i, d_source = i_source i,
            d_claimOwnerId = env_claimOwnerId env,
            d_claimLeaseExpiresAt = n + env_claimLeaseMs env, d_selection = claimSelection ci,
            d_item = claimed_as env c n i, d_message = i_message i,
            d_clientRequestId = truthy (i_clientRequestId i),
            d_provenance = queueRoutingProvenance (claimed_as env c n i) \<rparr>, facts,
            write_item (claimed_as env c n i) db))"
proof -
  have d: "rbind (dispatchItem (claimed_as env c n i) sel) f =
      f \<lparr> d_claimId = c, d_sessionId = i_sessionId i, d_source = i_source i,
            d_claimOwnerId = env_claimOwnerId env,
            d_claimLeaseExpiresAt = n + env_claimLeaseMs env, d_selection = sel,
            d_item = claimed_as env c n i, d_message = i_message i,
            d_clientRequestId = truthy (i_clientRequestId i),
            d_provenance = queueRoutingProvenance (claimed_as env c n i) \<rparr>" for i sel f
    using c own by (simp add: dispatchItem_def claimed_as_def)
  have cl: "claim_item (env_claimOwnerId env) i c n (n + env_claimLeaseMs env) db =
      (claimed_as env c n i, write_item (claimed_as env c n i) db)" for i
    by (simp add: claim_item_def claimed_as_def Let_def)
  let ?gate = "truthy (ci_itemId ci) = None \<and> \<not> ci_continuePaused ci \<and>
    pause_of (ci_sessionId ci) db \<noteq> None"
  let ?blocked = "\<lambda>i. case ci_allowedSources ci of
    Some allowed \<Rightarrow> i_source i \<notin> set allowed | None \<Rightarrow> False"
  obtain sel where cand: "claimCandidate ci db = Inr sel"
    and ch: "claim_choice ci (pause_of (ci_sessionId ci) db \<noteq> None) (items db) =
      (if ?gate then None else if hasClaimed (ci_sessionId ci) db then None
       else case sel of None \<Rightarrow> None | Some i \<Rightarrow> if ?blocked i then None else Some i)"
    by (rule that [OF claimCandidate_abs [OF wf]])
      (simp only: claim_choice_def Let_def hasClaimed_abs [OF wf] list_ex_iff)
  show ?thesis
  proof (cases "?gate \<or> hasClaimed (ci_sessionId ci) db")
    case True
    then show ?thesis unfolding ch by (auto simp del: truthy_eq_Some)
  next
    case False
    then have g: "?gate = False" "hasClaimed (ci_sessionId ci) db = False" by blast+
    show ?thesis unfolding ch cand g if_False rbind_Inr
      by (cases sel) (simp_all only: option.case cl prod.case d split: if_split, simp_all)
  qed
qed

text \<open>The result of a claim in the terms of the abstract choice.\<close>

definition claim_result ::
  "queue_env \<Rightarrow> claim_input \<Rightarrow> string \<Rightarrow> int \<Rightarrow> queue_item \<Rightarrow> dispatch_item" where
  "claim_result env ci c m i =
     \<lparr> d_claimId = c, d_sessionId = i_sessionId i, d_source = i_source i,
       d_claimOwnerId = env_claimOwnerId env, d_claimLeaseExpiresAt = m + env_claimLeaseMs env,
       d_selection = claimSelection ci, d_item = claimed_as env c m i, d_message = i_message i,
       d_clientRequestId = truthy (i_clientRequestId i),
       d_provenance = queueRoutingProvenance (claimed_as env c m i) \<rparr>"

lemma claimNext_run:
  fixes ci :: claim_input and n :: int
  assumes "wf_queue db" "c \<noteq> []" "env_claimOwnerId env \<noteq> []"
  defines "m \<equiv> claim_time ci n"
  defines "live \<equiv> live_items (ci_sessionId ci) m db"
  defines "choice \<equiv> claim_choice ci (pause_of (ci_sessionId ci) db \<noteq> None) live"
  shows "\<exists>facts db'. claimNext env ci c n db =
      Inr (map_option (claim_result env ci c m) choice, facts, db') \<and>
    items db' = (case choice of None \<Rightarrow> live | Some i \<Rightarrow> replace_item (claimed_as env c m i) live)"
proof -
  let ?s = "ci_sessionId ci"
  let ?l = "live_queue ?s n m db"
  note wl = live_queue_items [OF assms(1), of ?s n m, folded live_def]
  note body = claimNext_body [OF wl(2) assms(2,3), where n = m and ci = ci, unfolded live_queue_pause wl(1),
    folded choice_def claim_result_def]
  show ?thesis
  proof (cases choice)
    case None
    then show ?thesis
      unfolding claimNext_def Let_def claim_time_def [symmetric] m_def [symmetric]
        run_body [OF assms(1)] live_queue_pause body
      by (simp add: wl(1))
  next
    case (Some i)
    have "i \<in> set (items ?l)" using claim_choice_found(1) [of ci _ live i] Some wl(1) choice_def by simp
    from write_present_items [OF wl(2) this] have "items (write_item (claimed_as env c m i) ?l) =
      replace_item (claimed_as env c m i) live" by (simp add: wl(1))
    with Some show ?thesis
      unfolding claimNext_def Let_def claim_time_def [symmetric] m_def [symmetric]
        run_body [OF assms(1)] live_queue_pause body
      by simp
  qed
qed

text \<open>C1: \<open>claimNext\<close> refines the abstract choice: on well-formed tables it succeeds, hands out
  exactly the chosen live item as claimed by this owner until its lease ends, and rewrites only that
  row in place; every other live item keeps its content and position.\<close>

theorem claimNext_refines:
  assumes "wf_queue db" "c \<noteq> []" "env_claimOwnerId env \<noteq> []"
  shows "\<exists>facts db'. claimNext env ci c n db =
      Inr (map_option (claim_result env ci c (claim_time ci n))
             (claim_choice ci (pause_of (ci_sessionId ci) db \<noteq> None)
                (live_items (ci_sessionId ci) (claim_time ci n) db)), facts, db') \<and>
    items db' =
      (case claim_choice ci (pause_of (ci_sessionId ci) db \<noteq> None)
              (live_items (ci_sessionId ci) (claim_time ci n) db) of
         None \<Rightarrow> live_items (ci_sessionId ci) (claim_time ci n) db
       | Some i \<Rightarrow> replace_item (claimed_as env c (claim_time ci n) i)
           (live_items (ci_sessionId ci) (claim_time ci n) db))"
  using claimNext_run [OF assms] .

definition two_queued :: queue_db where
  "two_queued = play (take 2 demo_calls) empty_queue"

lemma two_queued_playable: "playable (take 2 demo_calls) empty_queue"
  by code_simp

lemma two_queued_wf: "wf_queue two_queued"
  using play_inv [OF empty_queue_inv two_queued_playable] by (simp add: queue_inv_def two_queued_def)

lemma demo_owner: "env_claimOwnerId demo_env \<noteq> []"
  by code_simp

lemma two_queued_choice:
  "map_option i_itemId (claim_choice (fifo_claim ''s'') False (live_items ''s'' 12 two_queued)) = Some ''q1''"
  by code_simp

lemma two_queued_unpaused: "pause_of ''s'' two_queued = None"
proof -
  have "(case pause_of ''s'' two_queued of None \<Rightarrow> True | Some _ \<Rightarrow> False)" by code_simp
  then show ?thesis by (simp split: option.splits)
qed

theorem claimNext_refines_witness:
  "\<exists>d facts db'. claimNext demo_env (fifo_claim ''s'') ''c1'' 12 two_queued = Inr (Some d, facts, db') \<and>
     d_claimId d = ''c1'' \<and> i_itemId (d_item d) = ''q1''"
proof -
  have m: "claim_time (fifo_claim ''s'') 12 = 12" "ci_sessionId (fifo_claim ''s'') = ''s''"
    by (simp_all add: claim_time_def fifo_claim_def)
  show ?thesis
    using claimNext_refines [OF two_queued_wf _ demo_owner, of "''c1''" "fifo_claim ''s''" 12]
      two_queued_choice
    by (auto simp: m two_queued_unpaused claim_result_def claimed_as_def)
qed

lemma claimNext_in_order:
  assumes "wf_queue db" "c \<noteq> []" "env_claimOwnerId env \<noteq> []" "truthy (ci_itemId ci) = None"
    and "claimNext env ci c n db = Inr (Some d, facts, db')"
  shows "\<exists>xs i ys. live_items (ci_sessionId ci) (claim_time ci n) db = xs @ i # ys \<and>
     d_item d = claimed_as env c (claim_time ci n) i \<and>
     i_sessionId i = ci_sessionId ci \<and> i_status i = Queued \<and> \<not> item_expired i (claim_time ci n) \<and>
     (ci_continuePaused ci \<or> pause_of (ci_sessionId ci) db = None) \<and>
     (\<forall>j \<in> set (items db). i_sessionId j = ci_sessionId ci \<longrightarrow> i_status j = Queued) \<and>
     (\<forall>j \<in> set xs. i_sessionId j = ci_sessionId ci \<longrightarrow>
        (\<exists>excluded. ci_excludeItemIds ci = Some excluded \<and> i_itemId j \<in> set excluded))"
proof -
  let ?s = "ci_sessionId ci"
  let ?m = "claim_time ci n"
  let ?live = "live_items ?s ?m db"
  let ?ex = "case ci_excludeItemIds ci of None \<Rightarrow> [] | Some ex \<Rightarrow> ex"
  obtain i where ch: "claim_choice ci (pause_of ?s db \<noteq> None) ?live = Some i" and d: "d = claim_result env ci c ?m i"
    using claimNext_run [OF assms(1-3), of ci n] assms(5)
    by (cases "claim_choice ci (pause_of ?s db \<noteq> None) ?live") auto
  have gates: "ci_continuePaused ci \<or> pause_of ?s db = None"
    "\<not> (\<exists>j \<in> set ?live. i_sessionId j = ?s \<and> i_status j = Claimed)"
    and f: "List.find (\<lambda>i. i_sessionId i = ?s \<and> i_status i = Queued \<and> i_itemId i \<notin> set ?ex) ?live = Some i"
    using ch assms(4) by (auto simp: claim_choice_def Let_def split: if_splits option.splits)
  obtain xs ys where sp: "?live = xs @ i # ys" and
    xs: "\<forall>j \<in> set xs. \<not> (i_sessionId j = ?s \<and> i_status j = Queued \<and> i_itemId j \<notin> set ?ex)"
    using f find_split [of _ ?live i] by blast
  have i: "i \<in> set ?live" "i_sessionId i = ?s" "i_status i = Queued"
    using find_SomeD [OF f] by auto
  have q: "i_status j = Queued" if "j \<in> set (items db)" "i_sessionId j = ?s" for j
  proof (rule ccontr)
    assume "i_status j \<noteq> Queued"
    then have "i_status j = Claimed" "\<not> overdue ?s ?m j" by (auto simp: overdue_def intro: item_status.exhaust)
    then show False using gates(2) that by (auto simp: live_items_def)
  qed
  have "\<forall>j \<in> set xs. i_sessionId j = ?s \<longrightarrow>
      (\<exists>excluded. ci_excludeItemIds ci = Some excluded \<and> i_itemId j \<in> set excluded)"
  proof (intro ballI impI)
    fix j assume j: "j \<in> set xs" "i_sessionId j = ?s"
    then have "j \<in> set (items db)" using sp by (metis UnI1 filter_is_subset live_items_def set_append subsetD)
    then have "i_itemId j \<in> set ?ex" using xs j q by blast
    then show "\<exists>excluded. ci_excludeItemIds ci = Some excluded \<and> i_itemId j \<in> set excluded"
      by (cases "ci_excludeItemIds ci") auto
  qed
  moreover have "\<not> item_expired i ?m" using i by (auto simp: live_items_def overdue_def)
  ultimately show ?thesis using sp d i q gates(1) by (auto simp: claim_result_def)
qed

text \<open>C17: A FIFO claim is in order: when it hands out an item, the queue was not paused (or the claim
  is a Continue), no item of the session was claimed, the item was queued and not expired, and every
  earlier live item of the session is one the caller excluded.\<close>

theorem claimNext_fifo:
  assumes "wf_queue db" "c \<noteq> []" "env_claimOwnerId env \<noteq> []" "truthy (ci_itemId ci) = None"
    and "claimNext env ci c n db = Inr (Some d, facts, db')"
  shows "\<exists>xs i ys. live_items (ci_sessionId ci) (claim_time ci n) db = xs @ i # ys \<and>
     d_item d = claimed_as env c (claim_time ci n) i \<and>
     i_sessionId i = ci_sessionId ci \<and> i_status i = Queued \<and> \<not> item_expired i (claim_time ci n) \<and>
     (ci_continuePaused ci \<or> pause_of (ci_sessionId ci) db = None) \<and>
     (\<forall>j \<in> set (items db). i_sessionId j = ci_sessionId ci \<longrightarrow> i_status j = Queued) \<and>
     (\<forall>j \<in> set xs. i_sessionId j = ci_sessionId ci \<longrightarrow>
        (\<exists>excluded. ci_excludeItemIds ci = Some excluded \<and> i_itemId j \<in> set excluded))"
  using claimNext_in_order [OF assms] .

lemma two_queued_items: "map i_itemId (items two_queued) = [''q1'', ''q2'']"
  by code_simp

theorem claimNext_fifo_witness:
  "\<exists>d facts db' xs i ys. claimNext demo_env (fifo_claim ''s'') ''c1'' 12 two_queued = Inr (Some d, facts, db') \<and>
     live_items ''s'' 12 two_queued = xs @ i # ys \<and> i_status i = Queued"
proof -
  have m: "claim_time (fifo_claim ''s'') 12 = 12" "ci_sessionId (fifo_claim ''s'') = ''s''"
    "truthy (ci_itemId (fifo_claim ''s'')) = None"
    by (simp_all add: claim_time_def fifo_claim_def)
  obtain d facts db' where r: "claimNext demo_env (fifo_claim ''s'') ''c1'' 12 two_queued = Inr (Some d, facts, db')"
    using claimNext_run [OF two_queued_wf _ demo_owner, of "''c1''" "fifo_claim ''s''" 12] two_queued_choice
    by (auto simp: m two_queued_unpaused)
  show ?thesis
    using claimNext_fifo [OF two_queued_wf _ demo_owner m(3) r] r by (auto simp: m)
qed

section \<open>Settling a claim\<close>

lemma queued_no_claim: "isQueueItem i \<Longrightarrow> i_status i = Queued \<Longrightarrow> i_claimId i = None"
  by (simp add: isQueueItem_def claimFieldsAbsent_def)

lemma withoutClaim_claimed_as:
  "isQueueItem i \<Longrightarrow> i_status i = Queued \<Longrightarrow> withoutClaim (claimed_as env c m i) = i"
  by (simp add: isQueueItem_def claimFieldsAbsent_def withoutClaim_def claimed_as_def)

lemma replace_back:
  assumes "items_ok xs" "i \<in> set xs" "\<not> P i" "\<not> P j" "item_key j = item_key i"
  shows "replace_item i (filter (\<lambda>k. \<not> P k) (replace_item j xs)) = filter (\<lambda>k. \<not> P k) xs"
proof -
  have u: "k = i" if "k \<in> set xs" "item_key k = item_key i" for k
    using assms(1,2) that by (auto simp: items_ok_def dest: distinct_map_unique)
  have "replace_item i (filter (\<lambda>k. \<not> P k) (replace_item j ys)) = filter (\<lambda>k. \<not> P k) ys"
    if "set ys \<subseteq> set xs" for ys
    using that by (induction ys) (auto simp: replace_item_def assms(3-5) dest: u)
  then show ?thesis by simp
qed

lemma claim_rows_after:
  assumes "items_ok xs" "i \<in> set xs" "i_sessionId i = s"
    and "\<forall>k \<in> set xs. i_sessionId k = s \<longrightarrow> i_claimId k = None"
  shows "filter (\<lambda>k. i_sessionId k = s \<and> i_status k = Claimed \<and> i_claimId k = Some c)
           (replace_item (claimed_as env c m i) xs) = [claimed_as env c m i]"
proof -
  obtain ys zs where xs: "xs = ys @ i # zs" using assms(2) by (meson split_list)
  have o: "\<forall>j \<in> set ys \<union> set zs. item_key j \<noteq> item_key i"
    using distinct_map_others [of item_key ys i zs] assms(1) unfolding xs items_ok_def by blast
  then have r: "replace_item (claimed_as env c m i) xs = ys @ claimed_as env c m i # zs"
    by (auto simp: replace_item_def xs intro!: map_idI)
  have "filter (\<lambda>k. i_sessionId k = s \<and> i_status k = Claimed \<and> i_claimId k = Some c) ws = []"
    if "set ws \<subseteq> set xs" for ws
    using assms(4) that by (auto simp: filter_empty_conv)
  then have "filter (\<lambda>k. i_sessionId k = s \<and> i_status k = Claimed \<and> i_claimId k = Some c) ys = []"
    "filter (\<lambda>k. i_sessionId k = s \<and> i_status k = Claimed \<and> i_claimId k = Some c) zs = []"
    by (auto simp: xs)
  then show ?thesis unfolding r by (simp add: claimed_as_def assms(3))
qed

text \<open>What a granted claim leaves in the tables.\<close>

lemma claim_granted:
  assumes wf: "wf_queue db" and c: "c \<noteq> []" "env_claimOwnerId env \<noteq> []"
    and run: "claimNext env ci c n db = Inr (Some d, facts, db1)"
  obtains i where "d_item d = claimed_as env c (claim_time ci n) i" "isQueueItem i" "i_status i = Queued"
    "i_sessionId i = ci_sessionId ci" "i \<in> set (live_items (ci_sessionId ci) (claim_time ci n) db)"
    "items_ok (live_items (ci_sessionId ci) (claim_time ci n) db)"
    "\<forall>k \<in> set (live_items (ci_sessionId ci) (claim_time ci n) db).
       i_sessionId k = ci_sessionId ci \<longrightarrow> i_claimId k = None"
    "items db1 = replace_item (d_item d) (live_items (ci_sessionId ci) (claim_time ci n) db)"
    "wf_queue db1"
proof -
  let ?s = "ci_sessionId ci"
  let ?live = "live_items ?s (claim_time ci n) db"
  obtain i where ch: "claim_choice ci (pause_of ?s db \<noteq> None) ?live = Some i"
    and d: "d = claim_result env ci c (claim_time ci n) i"
    and it: "items db1 = replace_item (claimed_as env c (claim_time ci n) i) ?live"
    using claimNext_run [OF wf c, of ci n] run
    by (cases "claim_choice ci (pause_of ?s db \<noteq> None) ?live") auto
  note i = claim_choice_found [OF ch]
  have no: "\<not> (\<exists>j \<in> set ?live. i_sessionId j = ?s \<and> i_status j = Claimed)"
    using ch by (auto simp: claim_choice_def Let_def split: if_splits)
  have ok: "items_ok ?live" using wf by (simp add: live_items_def items_ok_filter wf_queue_def)
  then have v: "isQueueItem k" if "k \<in> set ?live" for k using that by (simp add: items_ok_def list_all_iff)
  have "i_claimId k = None" if "k \<in> set ?live" "i_sessionId k = ?s" for k
    using that no v by (intro queued_no_claim) (auto intro: item_status.exhaust)
  moreover have "wf_queue db1" using claimNext_ok [OF wf c(1), of ci env n] run by (simp add: step_ok_wf)
  ultimately show ?thesis using i ok v it d by (intro that [of i]) (auto simp: claim_result_def)
qed

text \<open>Releasing a claim that did not expire undoes it: the item is queued again with its
  original content at its original position, and every other item that is still live is where it was.\<close>

theorem claim_release_roundtrip:
  assumes "wf_queue db" "c \<noteq> []" "env_claimOwnerId env \<noteq> []"
    and "claimNext env ci c n db = Inr (Some d, facts, db1)"
    and "\<not> item_expired (d_item d) m"
  shows "\<exists>facts' db2. releaseClaim (ci_sessionId ci) c reason m db1 =
       Inr ([withoutClaim (d_item d)], facts', db2) \<and>
     items db2 = filter (\<lambda>i. \<not> overdue (ci_sessionId ci) m i)
       (live_items (ci_sessionId ci) (claim_time ci n) db)"
proof -
  let ?s = "ci_sessionId ci"
  let ?live = "live_items ?s (claim_time ci n) db"
  obtain i where d: "d_item d = claimed_as env c (claim_time ci n) i" and i: "isQueueItem i"
    "i_status i = Queued" "i_sessionId i = ?s" "i \<in> set ?live"
    and ok: "items_ok ?live" and nc: "\<forall>k \<in> set ?live. i_sessionId k = ?s \<longrightarrow> i_claimId k = None"
    and it: "items db1 = replace_item (d_item d) ?live" and wf1: "wf_queue db1"
    using claim_granted [OF assms(1-4)] by metis
  let ?k = "claimed_as env c (claim_time ci n) i"
  let ?l = "live_queue ?s m m db1"
  note wl = live_queue_items [OF wf1, of ?s m m]
  have cl: "i_status ?k = Claimed" "i_sessionId ?k = ?s" using i by (simp_all add: claimed_as_def)
  then have nov: "\<not> overdue ?s m ?k" by (simp add: overdue_def)
  have itl: "items ?l = filter (\<lambda>j. \<not> overdue ?s m j) (replace_item ?k ?live)"
    using wl(1) by (simp add: live_items_def it d)
  have rows: "filter (\<lambda>j. i_sessionId j = ?s \<and> i_status j = Claimed \<and> i_claimId j = Some c) (items ?l) = [?k]"
    unfolding itl filter_swap [of _ "\<lambda>j. \<not> overdue ?s m j"]
      claim_rows_after [OF ok i(4,3) nc, of c env "claim_time ci n"]
    using nov by simp
  have "?k \<in> set (items ?l)" using arg_cong [OF rows, of set] by auto
  then have w: "items (write_item i ?l) = replace_item i (items ?l)"
    by (rule write_present_items [OF wl(2)]) simp
  have nx: "\<not> overdue ?s m i" using assms(5) by (simp add: d overdue_def claimed_as_def item_expired_def)
  have undo: "replace_item i (items ?l) = filter (\<lambda>j. \<not> overdue ?s m j) ?live"
    unfolding itl by (rule replace_back [OF ok i(4) nx nov]) simp
  show ?thesis
    using assms(2,5)
    by (simp add: releaseClaim_def run_body [OF wf1] claimRows_abs [OF wl(2)] rows d release_item_def
        Let_def withoutClaim_claimed_as [OF i(1,2)] w undo)
qed

lemma demo_claim:
  "(case claimNext demo_env (fifo_claim ''s'') ''c1'' 12 two_queued of
      Inr (Some d, _, _) \<Rightarrow> \<not> item_expired (d_item d) 40 \<and> i_itemId (d_item d) = ''q1''
    | _ \<Rightarrow> False)"
  by code_simp

theorem claim_release_roundtrip_witness:
  "\<exists>d facts db1 facts' db2.
     claimNext demo_env (fifo_claim ''s'') ''c1'' 12 two_queued = Inr (Some d, facts, db1) \<and>
     releaseClaim ''s'' ''c1'' None 40 db1 = Inr ([withoutClaim (d_item d)], facts', db2) \<and>
     items db2 = filter (\<lambda>i. \<not> overdue ''s'' 40 i) (live_items ''s'' 12 two_queued)"
proof -
  obtain d facts db1 where r:
    "claimNext demo_env (fifo_claim ''s'') ''c1'' 12 two_queued = Inr (Some d, facts, db1)"
    and e: "\<not> item_expired (d_item d) 40"
    using demo_claim by (auto split: sum.splits option.splits prod.splits)
  have m: "claim_time (fifo_claim ''s'') 12 = 12" "ci_sessionId (fifo_claim ''s'') = ''s''"
    by (simp_all add: claim_time_def fifo_claim_def)
  show ?thesis
    using claim_release_roundtrip [OF two_queued_wf _ demo_owner r e, of None] r by (auto simp: m)
qed

text \<open>C5: A claim is acknowledged only when the Turn side has accepted it: on success the lookup
  answered yes for the claimed rows and marked them, those rows are gone, and all other live rows
  stay.\<close>

theorem acknowledge_only_accepted:
  assumes "wf_queue db" "acknowledgeClaim s c turn lookup n t db = Inr ((xs, t'), facts, db')"
  shows "\<exists>l q. lookup = Some l \<and> claimQuery xs c turn = Inr q \<and> isAccepted l t q \<and>
     markAcknowledged l t q = Inr t' \<and> xs \<noteq> [] \<and>
     xs = filter (\<lambda>i. i_sessionId i = s \<and> i_status i = Claimed \<and> i_claimId i = Some c) (items db) \<and>
     removed_keys facts \<supseteq># mset (map item_key xs) \<and>
     set (items db') = set (live_items s n db) - set xs"
proof -
  let ?l = "live_queue s n n db"
  note wl = live_queue_items [OF assms(1), of s n n]
  let ?P = "\<lambda>i. i_sessionId i = s \<and> i_status i = Claimed \<and> i_claimId i = Some c"
  have rows: "filter ?P (items ?l) = filter ?P (items db)"
    unfolding wl(1) live_items_def filter_filter
    by (rule filter_cong) (auto simp: overdue_def)
  have del: "items (deleteItems s ys d) = filter (\<lambda>i. item_key i \<notin> (\<lambda>y. (s, i_itemId y)) ` set ys) (items d)"
    if "wf_queue d" for ys d
    using that
  proof (induction ys arbitrary: d)
    case (Cons y ys)
    have w: "wf_queue (deleteItem s (i_itemId y) d)"
      using Cons.prems by (auto simp: wf_queue_def deleteItem_items items_ok_filter deleteItem_def
          delete_rows_store) (metis deleteItem_def deleteItem_items items_ok_filter)
    show ?case using Cons.IH [OF w] by (simp add: deleteItem_items_of [OF Cons.prems] conj_commute)
  qed simp
  have body: "\<exists>l q fs. lookup = Some l \<and> claimQuery xs c turn = Inr q \<and> isAccepted l t q \<and>
     markAcknowledged l t q = Inr t' \<and> xs \<noteq> [] \<and> xs = filter ?P (items db) \<and>
     facts = snd (withPauseRemovalFact ((xs, t'), fs @ map (removalFact Accepted None n) xs) s
       (pause_of s db \<noteq> None \<and> pause_of s (reconcilePause s (deleteItems s xs ?l)) = None)) \<and>
     db' = reconcilePause s (deleteItems s xs ?l)"
    using assms(2)
    by (auto simp: acknowledgeClaim_def run_body [OF assms(1)] claimRows_abs [OF wl(2)] rows
        result_simps split: if_splits option.splits)
  then have xs: "xs = filter ?P (items db)" and db': "db' = reconcilePause s (deleteItems s xs ?l)" by auto
  have "(\<lambda>y. (s, i_itemId y)) ` set xs = item_key ` set xs"
    unfolding xs by (intro image_cong) (auto simp: item_key_def)
  then have "items db' = filter (\<lambda>i. item_key i \<notin> item_key ` set xs) (live_items s n db)"
    by (simp add: db' del [OF wl(2)] wl(1))
  moreover have "i \<in> set xs" if "i \<in> set (live_items s n db)" "item_key i \<in> item_key ` set xs" for i
  proof -
    from that(2) obtain x where x: "x \<in> set xs" "item_key i = item_key x" by auto
    have "i \<in> set (items db)" "x \<in> set (items db)" using that(1) x(1) by (auto simp: live_items_def xs)
    then have "i = x" using key_of_wf [OF assms(1)] x(2) by blast
    then show ?thesis using x(1) by simp
  qed
  ultimately have "set (items db') = set (live_items s n db) - set xs" by auto
  then show ?thesis using body by auto
qed

definition yes_lookup :: "unit acceptance_lookup" where
  "yes_lookup = \<lparr>isAccepted = (\<lambda>_ _. True), markAcknowledged = (\<lambda>t _. Inr t)\<rparr>"

lemma demo_acknowledge:
  "(case acknowledgeClaim ''s'' ''c1'' None (Some yes_lookup) 20 () demo_queue of
      Inr ((xs, _), _, _) \<Rightarrow> map i_itemId xs = [''q1''] | Inl _ \<Rightarrow> False)"
  by code_simp

theorem acknowledge_only_accepted_witness:
  "\<exists>xs facts db'. acknowledgeClaim ''s'' ''c1'' None (Some yes_lookup) 20 () demo_queue =
       Inr ((xs, ()), facts, db') \<and> map i_itemId xs = [''q1''] \<and>
     set (items db') = set (live_items ''s'' 20 demo_queue) - set xs"
proof -
  obtain xs facts db' where r:
    "acknowledgeClaim ''s'' ''c1'' None (Some yes_lookup) 20 () demo_queue = Inr ((xs, ()), facts, db')"
    and i: "map i_itemId xs = [''q1'']"
    using demo_acknowledge by (auto split: sum.splits prod.splits)
  have "set (items db') = set (live_items ''s'' 20 demo_queue) - set xs"
    using acknowledge_only_accepted [OF demo_wf r] by metis
  with r i show ?thesis by (intro exI [of _ xs] exI [of _ facts] exI [of _ db']) simp
qed

end
