(* ===== verification/QueueEdits.thy ===== *)
theory QueueEdits
  imports QueueProps
begin

text \<open>
  What enqueueing and reordering do to the abstract list of items, the routing identity of an item,
  and two behaviours of the repository that its own comments and checks do not foresee.
\<close>

section \<open>The position of an item\<close>

lemma enqueueResult_abs:
  assumes wf: "wf_queue db" and it: "items db = xs @ i # ys" and q: "i_status i = Queued"
  shows "enqueueResult i db = (i, Suc (length (filter (queued_in (i_sessionId i)) xs)))"
proof -
  obtain rs r rs' where rows: "q_rows db = rs @ r # rs'" and xs: "map row_item rs = xs"
    and r: "row_item r = i"
    using it unfolding items_def by (auto simp: map_eq_append_conv map_eq_Cons_conv)
  have cols: "\<forall>r' \<in> set (q_rows db). cols_ok r'" and ids: "sorted_wrt (<) (map row_id (q_rows db))"
    using wf by (auto simp: wf_queue_def store_ok_def list_all_iff)
  have d: "\<forall>k \<in> set xs. item_key k \<noteq> item_key i"
    using wf_items [OF wf] distinct_map_others [of item_key xs i ys] unfolding it items_ok_def by blast
  have "List.find (has_key (i_sessionId i) (i_itemId i)) (q_rows db) = Some r"
  proof -
    have "has_key (i_sessionId i) (i_itemId i) r' \<longleftrightarrow> item_key (row_item r') = item_key i"
      if "r' \<in> set (q_rows db)" for r'
      using has_key_item [of r'] cols that by (simp add: item_key_def)
    then have "List.find (has_key (i_sessionId i) (i_itemId i)) (q_rows db) =
        List.find (\<lambda>r'. item_key (row_item r') = item_key i) (q_rows db)"
      by (intro find_cong) auto
    moreover have "\<forall>r' \<in> set rs. item_key (row_item r') \<noteq> item_key i" using d xs by auto
    ultimately show ?thesis unfolding rows by (simp add: find_append_None r)
  qed
  moreover have "filter (\<lambda>r'. in_session (i_sessionId i) r' \<and> has_status Queued r' \<and> row_id r' \<le> row_id r)
      (q_rows db) = filter (\<lambda>r'. queued_in (i_sessionId i) (row_item r')) rs @ [r]"
  proof -
    have "filter (\<lambda>r'. in_session (i_sessionId i) r' \<and> has_status Queued r' \<and> row_id r' \<le> row_id r) rs =
        filter (\<lambda>r'. queued_in (i_sessionId i) (row_item r')) rs"
      using cols ids by (intro filter_cong) (auto simp: rows row_preds queued_in_def sorted_wrt_append
          less_imp_le)
    moreover have "filter (\<lambda>r'. in_session (i_sessionId i) r' \<and> has_status Queued r' \<and> row_id r' \<le> row_id r) rs' = []"
      using ids by (auto simp: rows filter_empty_conv sorted_wrt_append)
    ultimately show ?thesis
      using cols q by (simp add: rows row_preds r)
  qed
  ultimately show ?thesis
    using q xs by (auto simp: enqueueResult_def filter_map comp_def)
qed

lemma enqueueResult_pos:
  assumes "wf_queue db" "i \<in> set (items db)" "i_status i = Queued"
  obtains xs ys where "items db = xs @ i # ys"
    "enqueueResult i db = (i, Suc (length (filter (queued_in (i_sessionId i)) xs)))"
proof -
  obtain xs ys where "items db = xs @ i # ys" using assms(2) by (meson split_list)
  then show thesis using that enqueueResult_abs [OF assms(1) _ assms(3)] by blast
qed

section \<open>Enqueueing a new item\<close>

text \<open>A plain new enqueue: admitted, not expired, no identity to restore, nothing to replace.\<close>

definition plain_enqueue :: "queue_env \<Rightarrow> enqueue_input \<Rightarrow> int \<Rightarrow> queue_db \<Rightarrow> bool" where
  "plain_enqueue env e n db \<longleftrightarrow>
     validEnqueue e \<and> enqueue_wellformed e \<and>
     assertMutationAdmitted env (s_sessionId (e_session e)) n = None \<and>
     (case e_expiresAt e of Some t \<Rightarrow> num_value t > n | None \<Rightarrow> True) \<and>
     truthy (e_itemId e) = None \<and> truthy (e_dedupeKey e) = None \<and> e_immediateSendBatch e = None \<and>
     (case truthy (e_clientRequestId e) of None \<Rightarrow> True
      | Some c \<Rightarrow> list_all (\<lambda>i. \<not> (i_sessionId i = s_sessionId (e_session e) \<and>
                    i_clientRequestId i = Some c)) (live_items (s_sessionId (e_session e)) n db))"

lemma enqueue_new:
  fixes e n db
  defines "s \<equiv> s_sessionId (e_session e)"
  assumes wf: "wf_queue db" and plain: "plain_enqueue env e n db" and fresh: "fresh_item s k db"
    and gate: "e_front e \<Longrightarrow> \<not> (\<exists>i \<in> set (live_items s n db). i_sessionId i = s \<and> i_status i = Claimed)"
  obtains db3 where "wf_queue db3" "items db3 = live_items s n db @ [makeQueued e k n]"
    "\<And>db4. (if e_front e then moveQueuedToFront (makeQueued e k n) db3 else Inr db3) = Inr db4 \<Longrightarrow>
       \<exists>facts. enqueue env e k n db =
         Inr (Some (enqueueResult (makeQueued e k n) db4), facts, reconcilePause s db4)"
proof -
  let ?l = "live_queue s n n db"
  let ?i = "makeQueued e k n"
  note wl = live_queue_items [OF wf, of s n n]
  have p: "validEnqueue e" "enqueue_wellformed e" "assertMutationAdmitted env s n = None"
    "\<not> (case e_expiresAt e of Some t \<Rightarrow> num_value t \<le> n | None \<Rightarrow> False)"
    "truthy (e_itemId e) = None" "truthy (e_dedupeKey e) = None" "e_immediateSendBatch e = None"
    using plain by (auto simp: plain_enqueue_def s_def split: option.splits)
  have client: "(case truthy (e_clientRequestId e) of Some c \<Rightarrow> findByClientRequest s c ?l
      | None \<Rightarrow> Inr None) = Inr None"
    using plain unfolding plain_enqueue_def s_def [symmetric]
    by (cases "truthy (e_clientRequestId e)")
      (auto simp: findByClientRequest_abs [OF wl(2)] wl(1) find_None_iff list_all_iff
        simp del: truthy_eq_Some)
  have front: "\<not> (e_front e \<and> truthy (e_itemId e) = None \<and> hasClaimed s ?l)"
    using gate by (auto simp: hasClaimed_abs [OF wl(2)] wl(1) list_ex_iff)
  have v: "isQueueItem ?i"
    using fresh by (intro makeQueued_valid [OF p(1,2)]) (simp add: fresh_item_def)
  have new: "item_key ?i \<notin> item_key ` set (items ?l)"
    using fresh unfolding wl(1) by (auto simp: fresh_item_def live_items_def s_def [symmetric])
  then have w: "write_item ?i ?l = add_row ?i ?l" by (simp add: write_item_abs [OF wf_store [OF wl(2)]])
  have wf3: "wf_queue (write_item ?i ?l)"
    using step_write_new [OF wl(2) v new, of "[enqueueFact ?i]"] by (simp add: step_ok_wf)
  have "\<exists>facts. enqueue env e k n db = Inr (Some (enqueueResult ?i db4), facts, reconcilePause s db4)"
    if "(if e_front e then moveQueuedToFront ?i (write_item ?i ?l) else Inr (write_item ?i ?l)) = Inr db4" for db4
  proof -
    have "insertEnqueue e k n f ?l = Inr (enqueueResult ?i db4, f @ [enqueueFact ?i], db4)" for f
      using p(5-7) that
      by (cases "e_front e") (simp_all add: insertEnqueue_def Let_def restorableIdentity_def
            s_def [symmetric] del: truthy_eq_Some)
    then show ?thesis
      unfolding enqueue_def mutationTransaction_def enqueueInTransaction_def Let_def s_def [symmetric]
        run_body [OF wf]
      using p(1,3,4) client front by (simp del: truthy_eq_Some)
  qed
  with wf3 show thesis by (intro that [of "write_item ?i ?l"]) (simp_all add: w wl(1))
qed

text \<open>A new enqueue without placement appends exactly one item behind everything that is live
  and reports its position: one more than the queued items before it.\<close>

theorem enqueue_appends:
  assumes "wf_queue db" "plain_enqueue env e n db" "fresh_item (s_sessionId (e_session e)) k db"
    and "\<not> e_front e"
  shows "\<exists>facts db'. enqueue env e k n db =
      Inr (Some (makeQueued e k n,
        Suc (length (filter (queued_in (s_sessionId (e_session e)))
          (live_items (s_sessionId (e_session e)) n db)))), facts, db') \<and>
    items db' = live_items (s_sessionId (e_session e)) n db @ [makeQueued e k n]"
proof -
  obtain db3 where wf3: "wf_queue db3"
    and it: "items db3 = live_items (s_sessionId (e_session e)) n db @ [makeQueued e k n]"
    and run: "\<exists>facts. enqueue env e k n db = Inr (Some (enqueueResult (makeQueued e k n) db3), facts,
        reconcilePause (s_sessionId (e_session e)) db3)"
    using enqueue_new [OF assms(1-3)] assms(4) by (metis (no_types, lifting))
  have "enqueueResult (makeQueued e k n) db3 = (makeQueued e k n,
      Suc (length (filter (queued_in (s_sessionId (e_session e)))
        (live_items (s_sessionId (e_session e)) n db))))"
    using enqueueResult_abs [OF wf3, of _ "makeQueued e k n" "[]"] it by simp
  with run it show ?thesis by auto
qed

text \<open>A new enqueue at the front, when nothing of the session is claimed, becomes the first
  queued item of the session and reports position 1; the other queued items follow in their order.\<close>

theorem enqueue_front_first:
  assumes "wf_queue db" "plain_enqueue env e n db" "fresh_item (s_sessionId (e_session e)) k db"
    and "e_front e"
    and "\<not> (\<exists>i \<in> set (live_items (s_sessionId (e_session e)) n db).
           i_sessionId i = s_sessionId (e_session e) \<and> i_status i = Claimed)"
  shows "\<exists>facts db'. enqueue env e k n db = Inr (Some (makeQueued e k n, 1), facts, db') \<and>
    filter (queued_in (s_sessionId (e_session e))) (items db') =
      makeQueued e k n # filter (queued_in (s_sessionId (e_session e)))
        (live_items (s_sessionId (e_session e)) n db)"
proof -
  let ?s = "s_sessionId (e_session e)"
  let ?i = "makeQueued e k n"
  let ?live = "live_items ?s n db"
  obtain db3 where wf3: "wf_queue db3" and it: "items db3 = ?live @ [?i]"
    and run: "\<And>db4. moveQueuedToFront ?i db3 = Inr db4 \<Longrightarrow>
      \<exists>facts. enqueue env e k n db = Inr (Some (enqueueResult ?i db4), facts, reconcilePause ?s db4)"
    using enqueue_new [OF assms(1-3)] assms(4,5) by (metis (no_types, lifting))
  have "?i \<in> set (items db3)" by (simp add: it)
  then obtain db4 where m: "moveQueuedToFront ?i db3 = Inr db4" and st: "step_ok ?s db3 [] db4"
    and it4: "items db4 = move_front ?i (items db3)"
    using move_front_queued [OF wf3, of ?i] by auto
  have nk: "\<forall>j \<in> set ?live. i_sessionId j = ?s \<longrightarrow> i_itemId j \<noteq> k"
    using assms(3) by (auto simp: fresh_item_def live_items_def item_key_def image_iff)
  have f: "filter (\<lambda>j. i_itemId j \<noteq> k) (filter (queued_in ?s) (?live @ [?i])) = filter (queued_in ?s) ?live"
    using nk by (auto simp: queued_in_def intro!: filter_cong)
  have i4: "items db4 = filter (\<lambda>j. \<not> queued_in ?s j) (?live @ [?i]) @ ?i # filter (queued_in ?s) ?live"
    using it4 f by (simp add: it move_front_def)
  have "enqueueResult ?i db4 = (?i, 1)"
    using enqueueResult_abs [OF step_ok_wf [OF st] i4] by simp
  moreover have "filter (queued_in ?s) (items db4) = ?i # filter (queued_in ?s) ?live"
    by (simp add: i4) (simp add: queued_in_def [abs_def])
  ultimately show ?thesis using run [OF m] by auto
qed

lemma front_ok_demo:
  "validEnqueue (text_enqueue ''s'' ''urgent'' None\<lparr>e_front := True\<rparr>) \<and>
   enqueue_wellformed (text_enqueue ''s'' ''urgent'' None\<lparr>e_front := True\<rparr>) \<and>
   validEnqueue (text_enqueue ''s'' ''third'' (Some ''r3'')) \<and>
   enqueue_wellformed (text_enqueue ''s'' ''third'' (Some ''r3''))"
  by code_simp

lemma demo_plain:
  "plain_enqueue demo_env (text_enqueue ''s'' ''third'' (Some ''r3'')) 12 two_queued"
  "plain_enqueue demo_env (text_enqueue ''s'' ''urgent'' None\<lparr>e_front := True\<rparr>) 12 two_queued"
  by code_simp+

lemma demo_fresh: "fresh_item ''s'' ''q3'' two_queued"
  by code_simp

lemma demo_live:
  "length (filter (queued_in ''s'') (live_items ''s'' 12 two_queued)) = 2 \<and>
   list_all (\<lambda>i. i_status i = Queued) (live_items ''s'' 12 two_queued)"
  by code_simp

theorem enqueue_appends_witness:
  "\<exists>item facts db'. enqueue demo_env (text_enqueue ''s'' ''third'' (Some ''r3'')) ''q3'' 12 two_queued =
     Inr (Some (item, 3), facts, db') \<and> items db' = live_items ''s'' 12 two_queued @ [item]"
  using enqueue_appends [OF two_queued_wf demo_plain(1), of "''q3''"] demo_fresh demo_live
  by (auto simp: text_enqueue_def)

theorem enqueue_front_first_witness:
  "\<exists>item facts db'. enqueue demo_env (text_enqueue ''s'' ''urgent'' None\<lparr>e_front := True\<rparr>) ''q3'' 12
       two_queued = Inr (Some (item, 1), facts, db') \<and>
     filter (queued_in ''s'') (items db') = item # filter (queued_in ''s'') (live_items ''s'' 12 two_queued)"
proof -
  have e: "s_sessionId (e_session (text_enqueue ''s'' ''urgent'' None\<lparr>e_front := True\<rparr>)) = ''s''"
    "e_front (text_enqueue ''s'' ''urgent'' None\<lparr>e_front := True\<rparr>)"
    by (simp_all add: text_enqueue_def)
  have "\<not> (\<exists>i \<in> set (live_items ''s'' 12 two_queued). i_sessionId i = ''s'' \<and> i_status i = Claimed)"
    using demo_live by (auto simp: list_all_iff)
  then show ?thesis
    using enqueue_front_first [OF two_queued_wf demo_plain(2), of "''q3''", unfolded e(1)] demo_fresh e(2)
    by auto
qed

section \<open>Enqueueing again\<close>

text \<open>Enqueueing is idempotent in the client request: when a live item of the session carries
  the request's identity and the request neither asks for the front nor names a Turn, the call
  returns that item and changes no item.\<close>

theorem enqueue_replay_idempotent:
  assumes "wf_queue db" "validEnqueue e" "assertMutationAdmitted env (s_sessionId (e_session e)) n = None"
    and "case e_expiresAt e of Some t \<Rightarrow> num_value t > n | None \<Rightarrow> True"
    and "\<not> e_front e" "truthy (e_requestedTurnId e) = None"
    and "e_clientRequestId e = Some c" "c \<noteq> []"
    and "List.find (\<lambda>i. i_sessionId i = s_sessionId (e_session e) \<and> i_clientRequestId i = Some c)
           (live_items (s_sessionId (e_session e)) n db) = Some i"
  shows "\<exists>pos facts db'. enqueue env e k n db = Inr (Some (i, pos), facts, db') \<and>
    items db' = live_items (s_sessionId (e_session e)) n db"
proof -
  let ?s = "s_sessionId (e_session e)"
  let ?l = "live_queue ?s n n db"
  note wl = live_queue_items [OF assms(1), of ?s n n]
  have x: "\<not> (case e_expiresAt e of Some t \<Rightarrow> num_value t \<le> n | None \<Rightarrow> False)"
    using assms(4) by (auto split: option.splits)
  have r: "replayEnqueue e i f ?l = Inr (enqueueResult i ?l, f, ?l)" for f
    using assms(5,6) by (simp add: replayEnqueue_def attachRequestedTurnId_def)
  have "fst (enqueueResult i ?l) = i"
    by (simp add: enqueueResult_def split: option.splits)
  then obtain pos where p: "enqueueResult i ?l = (i, pos)" by (metis prod.collapse)
  have f: "findByClientRequest ?s c ?l = Inr (Some i)"
    using assms(9) by (simp add: findByClientRequest_abs [OF wl(2)] wl(1))
  show ?thesis
    unfolding enqueue_def mutationTransaction_def enqueueInTransaction_def Let_def run_body [OF assms(1)]
    using assms(2,3,5,7,8) x by (simp add: f r p wl(1))
qed

theorem enqueue_replay_idempotent_witness:
  "\<exists>i pos facts db'. enqueue demo_env (text_enqueue ''s'' ''again'' (Some ''r1'')) ''q9'' 12 two_queued =
     Inr (Some (i, pos), facts, db') \<and> i_itemId i = ''q1'' \<and> items db' = live_items ''s'' 12 two_queued"
proof -
  have "case List.find (\<lambda>i. i_sessionId i = ''s'' \<and> i_clientRequestId i = Some ''r1'')
      (live_items ''s'' 12 two_queued) of Some i \<Rightarrow> i_itemId i = ''q1'' | None \<Rightarrow> False"
    by code_simp
  then obtain i where i: "List.find (\<lambda>i. i_sessionId i = ''s'' \<and> i_clientRequestId i = Some ''r1'')
      (live_items ''s'' 12 two_queued) = Some i" "i_itemId i = ''q1''"
    by (auto split: option.splits)
  have v: "validEnqueue (text_enqueue ''s'' ''again'' (Some ''r1''))" by code_simp
  have e: "s_sessionId (e_session (text_enqueue ''s'' ''again'' (Some ''r1''))) = ''s''"
    "\<not> e_front (text_enqueue ''s'' ''again'' (Some ''r1''))"
    "truthy (e_requestedTurnId (text_enqueue ''s'' ''again'' (Some ''r1''))) = None"
    "e_clientRequestId (text_enqueue ''s'' ''again'' (Some ''r1'')) = Some ''r1''"
    "e_expiresAt (text_enqueue ''s'' ''again'' (Some ''r1'')) = None"
    by (simp_all add: text_enqueue_def)
  have a: "assertMutationAdmitted demo_env ''s'' 12 = None"
    by (simp add: assertMutationAdmitted_def demo_env_def make_queue_env_def)
  show ?thesis
    using enqueue_replay_idempotent [OF two_queued_wf v, of demo_env 12 "''r1''" i "''q9''"] i
    by (auto simp: e a)
qed

section \<open>Reordering\<close>

lemma reorder_commit:
  assumes wf: "wf_queue db" and nc: "\<not> hasClaimed s db"
  defines "xs \<equiv> filter (\<lambda>i. i_sessionId i = s \<and> i_status i = Queued) (items db)"
  assumes perm: "completePermutation xs ids"
  obtains d where "replaceRows s (reorder_items xs ids) db = Inr d"
    "items d = outside s (items db) @ reorder_items xs ids"
    "map i_itemId (reorder_items xs ids) = ids"
    "mset (reorder_items xs ids) = mset (filter (\<lambda>i. i_sessionId i = s) (items db))"
    "\<forall>i \<in> set (reorder_items xs ids). i_sessionId i = s"
proof -
  have xs: "xs = filter (\<lambda>i. i_sessionId i = s) (items db)"
    unfolding xs_def using nc
    by (intro filter_cong refl) (auto simp: hasClaimed_abs [OF wf] list_ex_iff intro: item_status.exhaust)
  have "distinct (map i_itemId xs)"
    unfolding xs_def by (rule session_ids_distinct [OF wf_items [OF wf]]) simp
  note re = reorder_items_perm [OF this perm]
  have m: "mset (reorder_items xs ids) = mset (filter (\<lambda>i. i_sessionId i = s) (items db))"
    using re(2) xs by simp
  have p: "reads_as (in_session s) (\<lambda>i. i_sessionId i = s)"
    by (auto intro!: reads_asI simp: row_preds)
  have "replaceRows s (reorder_items xs ids) db =
      Inr (add_rows (reorder_items xs ids) (delete_rows (in_session s) db))"
    unfolding replaceRows_def by (rule step_permute(1) [OF wf p _ m]) simp
  moreover have "items (add_rows (reorder_items xs ids) (delete_rows (in_session s) db)) =
      outside s (items db) @ reorder_items xs ids"
    by (simp add: delete_rows_items [OF wf_store [OF wf] p] outside_def)
  moreover have "\<forall>i \<in> set (reorder_items xs ids). i_sessionId i = s"
    using mset_eq_setD [OF m] by auto
  ultimately show thesis using re(1) m by (intro that)
qed

lemma session_of_append:
  assumes "\<forall>i \<in> set ys. i_sessionId i = s"
  shows "filter (\<lambda>i. i_sessionId i = s) (outside s xs @ ys) = ys"
    "outside s (outside s xs @ ys) = outside s xs"
  using assms by (simp_all add: outside_def filter_id_iff filter_empty_conv)

text \<open>Reordering is exact: when it reports the new order, the items of the session are the live
  ones in precisely the requested order of identities; when it reports the request invalid, no item
  moved.\<close>

theorem reorder_exact:
  assumes wf: "wf_queue db" and run: "reorder env s ids n db = Inr (r, facts, db')"
  shows "case r of
      Edited xs \<Rightarrow> map i_itemId xs = ids \<and> filter (\<lambda>i. i_sessionId i = s) (items db') = xs \<and>
        mset xs = mset (filter (\<lambda>i. i_sessionId i = s) (live_items s n db)) \<and>
        outside s (items db') = outside s (items db)
    | Invalid \<Rightarrow> items db' = live_items s n db
    | _ \<Rightarrow> False"
proof -
  let ?l = "live_queue s n n db"
  note wl = live_queue_items [OF wf, of s n n]
  let ?xs = "filter (\<lambda>i. i_sessionId i = s \<and> i_status i = Queued) (items ?l)"
  have o: "outside s (items ?l) = outside s (items db)"
    unfolding wl(1) live_items_def by (rule outside_filter) (simp add: overdue_def)
  note run' = run [unfolded reorder_def mutationTransaction_def run_body [OF wf] rowsByStatus_abs [OF wl(2)]
      rbind_Inr]
  show ?thesis
  proof (cases "hasClaimed s ?l \<or> \<not> completePermutation ?xs ids")
    case True
    then have "r = Invalid \<and> items db' = items ?l"
      using run' by (cases "hasClaimed s ?l") (auto split: option.splits)
    then show ?thesis by (simp add: wl(1))
  next
    case False
    then obtain d where d: "replaceRows s (reorder_items ?xs ids) ?l = Inr d"
      "items d = outside s (items ?l) @ reorder_items ?xs ids"
      "map i_itemId (reorder_items ?xs ids) = ids"
      "mset (reorder_items ?xs ids) = mset (filter (\<lambda>i. i_sessionId i = s) (items ?l))"
      "\<forall>i \<in> set (reorder_items ?xs ids). i_sessionId i = s"
      using reorder_commit [OF wl(2), of s ids] by blast
    have r: "r = Edited (reorder_items ?xs ids) \<and> items db' = items d"
      using run' False d(1) by (auto simp: Let_def split: option.splits)
    note f = session_of_append [OF d(5), of "items ?l", folded d(2)]
    show ?thesis using r f d(3,4) o by (simp add: wl(1))
  qed
qed

lemma demo_reorder:
  "(case reorder demo_env ''s'' [''q2'', ''q1''] 12 two_queued of
      Inr (Edited xs, _, _) \<Rightarrow> map i_itemId xs = [''q2'', ''q1''] | _ \<Rightarrow> False)"
  by code_simp

theorem reorder_exact_witness:
  "\<exists>xs facts db'. reorder demo_env ''s'' [''q2'', ''q1''] 12 two_queued = Inr (Edited xs, facts, db') \<and>
     map i_itemId (filter (\<lambda>i. i_sessionId i = ''s'') (items db')) = [''q2'', ''q1'']"
proof -
  obtain xs facts db' where r: "reorder demo_env ''s'' [''q2'', ''q1''] 12 two_queued = Inr (Edited xs, facts, db')"
    using demo_reorder by (auto split: sum.splits prod.splits edit_result.splits)
  show ?thesis using reorder_exact [OF two_queued_wf r] r by auto
qed

section \<open>Two behaviours the checks do not foresee\<close>

text \<open>A front requeue that restores an item's identity and replays a client request whose item
  is still claimed does not return that item: moving the claimed item to the front inserts it a
  second time, and the unique index rejects the transaction.\<close>

theorem replay_front_claimed_raises:
  assumes "wf_queue db" "validEnqueue e" "assertMutationAdmitted env (s_sessionId (e_session e)) n = None"
    and "case e_expiresAt e of Some t \<Rightarrow> num_value t > n | None \<Rightarrow> True"
    and "e_front e" "truthy (e_itemId e) \<noteq> None"
    and "e_clientRequestId e = Some c" "c \<noteq> []"
    and "List.find (\<lambda>i. i_sessionId i = s_sessionId (e_session e) \<and> i_clientRequestId i = Some c)
           (live_items (s_sessionId (e_session e)) n db) = Some i" "i_status i = Claimed"
  shows "enqueue env e k n db = Inl (UniqueConstraintError (i_sessionId i) (i_itemId i))"
proof -
  let ?s = "s_sessionId (e_session e)"
  let ?l = "live_queue ?s n n db"
  note wl = live_queue_items [OF assms(1), of ?s n n]
  have x: "\<not> (case e_expiresAt e of Some t \<Rightarrow> num_value t \<le> n | None \<Rightarrow> False)"
    using assms(4) by (auto split: option.splits)
  have f: "findByClientRequest ?s c ?l = Inr (Some i)"
    using assms(9) by (simp add: findByClientRequest_abs [OF wl(2)] wl(1))
  have i: "i \<in> set (items ?l)" using assms(9) by (simp add: find_SomeD wl(1))
  obtain j d where a: "attachRequestedTurnId i (e_requestedTurnId e) ?l = (j, d)"
    "step_ok (i_sessionId i) ?l [] d" "j \<in> set (items d)" "i_sessionId j = i_sessionId i"
    "i_itemId j = i_itemId i" "i_status j = i_status i"
    using attach_ok [OF wl(2) i] by metis
  have "moveQueuedToFront j d = Inl (UniqueConstraintError (i_sessionId i) (i_itemId i))"
    using move_front_claimed [OF step_ok_wf [OF a(2)] a(3)] a(4-6) assms(10) by simp
  then have r: "replayEnqueue e i fs ?l = Inl (UniqueConstraintError (i_sessionId i) (i_itemId i))" for fs
    using assms(5) a(1) by (simp add: replayEnqueue_def)
  show ?thesis
    unfolding enqueue_def mutationTransaction_def enqueueInTransaction_def Let_def run_body [OF assms(1)]
    using assms(2,3,5-8) x by (simp add: f r)
qed

lemma replay_demo_found:
  "(case List.find (\<lambda>i. i_sessionId i = ''s'' \<and> i_clientRequestId i = Some ''r1'')
      (live_items ''s'' 20 demo_queue) of
      Some i \<Rightarrow> i_itemId i = ''q1'' \<and> i_sessionId i = ''s'' \<and> i_status i = Claimed | None \<Rightarrow> False)"
  by code_simp

theorem replay_front_claimed_raises_witness:
  "enqueue demo_env (text_enqueue ''s'' ''first'' (Some ''r1'')\<lparr>e_front := True, e_itemId := Some ''q1''\<rparr>)
     ''q9'' 20 demo_queue = Inl (UniqueConstraintError ''s'' ''q1'')"
proof -
  let ?e = "text_enqueue ''s'' ''first'' (Some ''r1'')\<lparr>e_front := True, e_itemId := Some ''q1''\<rparr>"
  obtain i where i: "List.find (\<lambda>i. i_sessionId i = ''s'' \<and> i_clientRequestId i = Some ''r1'')
      (live_items ''s'' 20 demo_queue) = Some i" "i_itemId i = ''q1''" "i_sessionId i = ''s''"
    "i_status i = Claimed"
    using replay_demo_found by (auto split: option.splits)
  have v: "validEnqueue ?e" by code_simp
  have e: "s_sessionId (e_session ?e) = ''s''" "e_front ?e" "truthy (e_itemId ?e) \<noteq> None"
    "e_clientRequestId ?e = Some ''r1''" "e_expiresAt ?e = None"
    by (simp_all add: text_enqueue_def)
  have a: "assertMutationAdmitted demo_env ''s'' 20 = None"
    by (simp add: assertMutationAdmitted_def demo_env_def make_queue_env_def)
  show ?thesis
    using replay_front_claimed_raises [OF demo_wf v, of demo_env 20 "''r1''" i "''q9''"] i e a by simp
qed

section \<open>A row the admission check lets in and the decoder refuses\<close>

lemma rmap_last_error:
  "(\<forall>x \<in> set xs. \<exists>y. f x = Inr y) \<Longrightarrow> f z = Inl e \<Longrightarrow> rmap f (xs @ [z]) = Inl e"
proof (induction xs)
  case (Cons x xs)
  then obtain y where "f x = Inr y" by auto
  then show ?case using Cons by simp
qed simp

lemma decode_rows_ok:
  assumes "wf_queue db"
  shows "\<forall>r \<in> set (filter p (q_rows db)). \<exists>y. decodeQueueRow r = Inr y"
proof
  fix r assume "r \<in> set (filter p (q_rows db))"
  then have "cols_ok r" "isQueueItem (row_item r)"
    using assms by (auto simp: wf_queue_def store_ok_def items_ok_def items_def list_all_iff)
  then show "\<exists>y. decodeQueueRow r = Inr y" by (auto simp: decodeQueueRow_ok)
qed

lemma rmap_all_ok: "\<forall>x \<in> set xs. \<exists>y. f x = Inr y \<Longrightarrow> \<exists>ys. rmap f xs = Inr ys"
  by (induction xs) auto

text \<open>Listing a session whose last row is queued, does not expire and does not decode.\<close>

lemma list_corrupt_row:
  assumes wf: "wf_queue l" and rows: "q_rows db = q_rows l @ [r]"
    and r: "in_session s r" "has_status Queued r" "c_expiresAtMs (row_cols r) = None"
    and bad: "decodeQueueRow r = Inl e"
  shows "list_queue s m db = Inl e"
proof -
  let ?d = "ensureQueueRowsReady s m db"
  let ?p = "\<lambda>r. in_session s r \<and> has_status Queued r \<and> expires_by m r"
  have rd: "q_rows ?d = q_rows l @ [r]"
    using ensure_same [of db s m] rows by (simp add: same_items_def)
  have "\<not> ?p r" using r(3) by (simp add: expires_by_def)
  then have f: "filter ?p (q_rows ?d) = filter ?p (q_rows l)" by (simp add: rd)
  obtain xs where xs: "select_items ?p ?d = Inr xs"
    unfolding select_items_def f using rmap_all_ok [OF decode_rows_ok [OF wf]] by blast
  have "filter (\<lambda>r. in_session s r \<and> has_status Queued r) (q_rows (delete_rows ?p ?d)) =
      filter (\<lambda>r. (in_session s r \<and> has_status Queued r) \<and> \<not> ?p r) (q_rows l) @ [r]"
    using r \<open>\<not> ?p r\<close> by (simp add: delete_rows_def rd conj_commute)
  then have "rowsByStatus s Queued (delete_rows ?p ?d) = Inl e"
    using rmap_last_error [OF decode_rows_ok [OF wf] bad]
    by (simp only: rowsByStatus_def select_items_def)
  then show ?thesis
    using xs by (simp add: list_queue_def transaction_def after_expiry_def deleteExpired_def Let_def)
qed

text \<open>C18: The admission check of an enqueue does not look at the model override: with a context
  limit the decoder refuses, a new enqueue is accepted and stored, and the next listing of that
  session reports the stored row as corrupt.\<close>

theorem unchecked_model_poisons_queue:
  assumes wf: "wf_queue db" and valid: "validEnqueue e" and model: "\<not> optional isModel (e_model e)"
    and admitted: "assertMutationAdmitted env (s_sessionId (e_session e)) n = None"
    and plain: "e_expiresAt e = None" "\<not> e_front e" "truthy (e_itemId e) = None"
      "truthy (e_dedupeKey e) = None" "e_immediateSendBatch e = None" "truthy (e_clientRequestId e) = None"
    and fresh: "fresh_item (s_sessionId (e_session e)) k db"
  shows "\<exists>pos facts db'. enqueue env e k n db = Inr (Some (makeQueued e k n, pos), facts, db') \<and>
    list_queue (s_sessionId (e_session e)) m db' =
      Inl (QueueDataCorruptionError (s_sessionId (e_session e)) k)"
proof -
  let ?s = "s_sessionId (e_session e)"
  let ?i = "makeQueued e k n"
  let ?l = "live_queue ?s n n db"
  note wl = live_queue_items [OF wf, of ?s n n]
  have new: "item_key ?i \<notin> item_key ` set (items ?l)"
    using fresh unfolding wl(1) by (auto simp: fresh_item_def live_items_def)
  then have w: "write_item ?i ?l = add_row ?i ?l" by (simp add: write_item_abs [OF wf_store [OF wl(2)]])
  have "insertEnqueue e k n f ?l = Inr (enqueueResult ?i (add_row ?i ?l), f @ [enqueueFact ?i], add_row ?i ?l)" for f
    using plain by (simp add: insertEnqueue_def Let_def restorableIdentity_def w)
  then obtain facts where run: "enqueue env e k n db =
      Inr (Some (enqueueResult ?i (add_row ?i ?l)), facts, reconcilePause ?s (add_row ?i ?l))"
    unfolding enqueue_def mutationTransaction_def enqueueInTransaction_def Let_def run_body [OF wf]
    using valid admitted plain by (auto)
  have "fst (enqueueResult ?i (add_row ?i ?l)) = ?i"
    by (simp add: enqueueResult_def split: option.splits)
  then obtain pos where pos: "enqueueResult ?i (add_row ?i ?l) = (?i, pos)" by (metis prod.collapse)
  let ?r = "\<lparr>row_id = q_next ?l, row_cols = storage ?i\<rparr>"
  have rows: "q_rows (reconcilePause ?s (add_row ?i ?l)) = q_rows ?l @ [?r]"
    using reconcilePause_same [of "add_row ?i ?l" ?s] by (simp add: same_items_def add_row_def)
  have "\<not> isQueueItem ?i"
    using model by (simp add: isQueueItem_def hasOptionalMetadata_def makeQueued_def)
  then have "decodeQueueRow ?r = Inl (QueueDataCorruptionError ?s k)"
    by (simp add: decodeQueueRow_def storage_def)
  then have "list_queue ?s m (reconcilePause ?s (add_row ?i ?l)) = Inl (QueueDataCorruptionError ?s k)"
    by (intro list_corrupt_row [OF wl(2) rows])
      (simp_all add: in_session_def has_status_def storage_def makeQueued_def plain)
  then show ?thesis using run pos by auto
qed

definition bad_model :: queue_model where
  "bad_model = \<lparr>o_parameterSnapshot = None, o_reasoning = None, o_context_limit = Some (Fin 0),
     o_provider_id = None, o_model_id = None, o_variant = None, o_thinking = None\<rparr>"

theorem unchecked_model_poisons_queue_witness:
  "\<exists>item pos facts db'.
     enqueue demo_env (text_enqueue ''s'' ''x'' None\<lparr>e_model := Some bad_model\<rparr>) ''q3'' 12 two_queued =
       Inr (Some (item, pos), facts, db') \<and>
     list_queue ''s'' 13 db' = Inl (QueueDataCorruptionError ''s'' ''q3'')"
proof -
  let ?e = "text_enqueue ''s'' ''x'' None\<lparr>e_model := Some bad_model\<rparr>"
  have v: "validEnqueue ?e" by code_simp
  have m: "\<not> optional isModel (e_model ?e)" by code_simp
  have a: "assertMutationAdmitted demo_env (s_sessionId (e_session ?e)) 12 = None"
    by (simp add: assertMutationAdmitted_def demo_env_def make_queue_env_def)
  have s: "s_sessionId (e_session ?e) = ''s''" by (simp add: text_enqueue_def)
  show ?thesis
    using unchecked_model_poisons_queue [OF two_queued_wf v m a, of "''q3''" 13] demo_fresh
    unfolding s by (auto simp: text_enqueue_def)
qed

end
