(* ===== verification/JsonText.thy ===== *)
theory JsonText
  imports Prelude
begin

text \<open>
  JSON text as \<open>JSON.stringify\<close> writes it: the quoting of strings (defined in the prelude) and the decimal
  text of integers are prefix codes, so a text determines the value it was written from.
\<close>

section \<open>Quoting is a prefix code\<close>

lemma hex_digit_inj: "a < 16 \<Longrightarrow> b < 16 \<Longrightarrow> hex_digit a = hex_digit b \<Longrightarrow> a = b"
proof -
  assume a: "a < 16" "b < 16" "hex_digit a = hex_digit b"
  have n: "of_char (hex_digit k) = (if k < 10 then 48 + k else 87 + k)" if "k < 16" for k :: nat
    using that by (simp add: hex_digit_def)
  from arg_cong [OF a(3), of "of_char :: char \<Rightarrow> nat"] show "a = b"
    using a(1,2) by (simp add: n split: if_splits)
qed

lemma json_escape_cases:
  obtains (quote) "of_char c = (34 :: nat)" "json_escape c = [CHR 0x5C, CHR 0x22]"
  | (slash) "of_char c = (92 :: nat)" "json_escape c = [CHR 0x5C, CHR 0x5C]"
  | (b) "of_char c = (8 :: nat)" "json_escape c = [CHR 0x5C, CHR ''b'']"
  | (t) "of_char c = (9 :: nat)" "json_escape c = [CHR 0x5C, CHR ''t'']"
  | (n) "of_char c = (10 :: nat)" "json_escape c = [CHR 0x5C, CHR ''n'']"
  | (f) "of_char c = (12 :: nat)" "json_escape c = [CHR 0x5C, CHR ''f'']"
  | (r) "of_char c = (13 :: nat)" "json_escape c = [CHR 0x5C, CHR ''r'']"
  | (u) "(of_char c :: nat) < 32"
      "json_escape c = [CHR 0x5C, CHR ''u'', CHR ''0'', CHR ''0'', hex_digit (of_char c div 16),
         hex_digit (of_char c mod 16)]"
  | (plain) "c \<noteq> CHR 0x5C" "c \<noteq> CHR 0x22" "json_escape c = [c]"
proof -
  let ?n = "of_char c :: nat"
  consider "?n = 34" | "?n = 92" | "?n = 8" | "?n = 9" | "?n = 10" | "?n = 12" | "?n = 13"
    | "?n < 32" "?n \<notin> {8, 9, 10, 12, 13}" | "32 \<le> ?n" "?n \<noteq> 34" "?n \<noteq> 92"
    by (cases "?n < 32") auto
  then show thesis
  proof cases
    case 8
    then have "json_escape c = [CHR 0x5C, CHR ''u'', CHR ''0'', CHR ''0'', hex_digit (?n div 16),
         hex_digit (?n mod 16)]"
      by (simp add: json_escape_def Let_def)
    with 8(1) show thesis by (rule that(8))
  next
    case 9
    then have "c \<noteq> CHR 0x5C" "c \<noteq> CHR 0x22" by auto
    moreover have "json_escape c = [c]" using 9 by (simp add: json_escape_def Let_def)
    ultimately show thesis by (rule that(9))
  qed (use that(1-7) in \<open>simp_all add: json_escape_def\<close>)
qed

lemma json_escape_prefix:
  assumes "json_escape c @ x = json_escape d @ y"
  shows "c = d" "x = y"
proof -
  have "c = d \<and> x = y"
  proof (cases c rule: json_escape_cases)
    case u
    show ?thesis
    proof (cases d rule: json_escape_cases)
      case u2: u
      have h: "hex_digit (of_char c div 16) = hex_digit (of_char d div 16)"
        "hex_digit (of_char c mod 16) = hex_digit (of_char d mod 16)" and xy: "x = y"
        using assms u(2) u2(2) by simp_all
      have "(of_char c div 16 :: nat) = of_char d div 16" "(of_char c mod 16 :: nat) = of_char d mod 16"
        using h u(1) u2(1) by (auto intro!: hex_digit_inj)
      then have "(of_char c :: nat) = of_char d" by (metis div_mult_mod_eq)
      then show ?thesis using xy by simp
    qed (use assms u in auto)
  next
    case plain
    then show ?thesis using assms by (cases d rule: json_escape_cases) auto
  qed (use assms in \<open>cases d rule: json_escape_cases; auto simp flip: of_char_eq_iff [where 'a = nat]\<close>)+
  then show "c = d" "x = y" by simp_all
qed

lemma escape_not_quote: "\<exists>h rest. json_escape c = h # rest \<and> h \<noteq> CHR 0x22"
  by (cases c rule: json_escape_cases) auto

lemma escape_quote_clash: "json_escape c @ x \<noteq> CHR 0x22 # y" "CHR 0x22 # y \<noteq> json_escape c @ x"
  using escape_not_quote [of c] by auto

lemma escaped_prefix:
  "concat (map json_escape s) @ CHR 0x22 # x = concat (map json_escape t) @ CHR 0x22 # y \<Longrightarrow>
   s = t \<and> x = y"
proof (induction s arbitrary: t)
  case Nil
  then show ?case by (cases t) (auto simp: escape_quote_clash)
next
  case (Cons c s)
  show ?case
  proof (cases t)
    case Nil
    then show ?thesis using Cons.prems by (simp add: escape_quote_clash)
  next
    case (Cons d t')
    have "json_escape c @ (concat (map json_escape s) @ CHR 0x22 # x) =
        json_escape d @ (concat (map json_escape t') @ CHR 0x22 # y)"
      using Cons.prems Cons by simp
    from json_escape_prefix [OF this] show ?thesis using Cons.IH Cons by blast
  qed
qed

lemma json_quote_prefix: "json_quote s @ x = json_quote t @ y \<Longrightarrow> s = t \<and> x = y"
  using escaped_prefix [of s x t y] by (simp add: json_quote_def)

section \<open>Integers\<close>

text \<open>The text of an integer below 10 to the 21 in absolute value; from there on JavaScript writes an exponent.\<close>

definition is_digit :: "char \<Rightarrow> bool" where
  "is_digit c \<longleftrightarrow> CHR ''0'' \<le> c \<and> c \<le> CHR ''9''"

definition digit_char :: "nat \<Rightarrow> char" where
  "digit_char n = char_of (48 + n)"

fun nat_digits :: "nat \<Rightarrow> string" where
  "nat_digits n = (if n < 10 then [digit_char n] else nat_digits (n div 10) @ [digit_char (n mod 10)])"

definition json_int :: "int \<Rightarrow> string" where
  "json_int i = (if i < 0 then CHR ''-'' # nat_digits (nat (- i)) else nat_digits (nat i))"

declare nat_digits.simps [simp del]

definition digits_nat :: "string \<Rightarrow> nat" where
  "digits_nat s = foldl (\<lambda>n c. 10 * n + (of_char c - 48)) 0 s"

lemma of_digit_char: "n < 10 \<Longrightarrow> of_char (digit_char n) = 48 + n"
  by (simp add: digit_char_def)

lemma is_digit_char: "n < 10 \<Longrightarrow> is_digit (digit_char n)"
  by (simp add: is_digit_def less_eq_char_def digit_char_def)

lemma digits_nat_digits: "digits_nat (nat_digits n) = n"
proof (induction n rule: nat_digits.induct)
  case (1 n)
  then show ?case
    by (subst nat_digits.simps) (simp add: digits_nat_def of_digit_char)
qed

lemma nat_digits_digits: "c \<in> set (nat_digits n) \<Longrightarrow> is_digit c"
proof (induction n rule: nat_digits.induct)
  case (1 n)
  then show ?case
    by (subst (asm) (2) nat_digits.simps) (auto simp: is_digit_char split: if_splits)
qed

lemma nat_digits_not_Nil [simp]: "nat_digits n \<noteq> []"
  by (subst nat_digits.simps) simp

definition no_digit_next :: "string \<Rightarrow> bool" where
  "no_digit_next x \<longleftrightarrow> (case x of [] \<Rightarrow> True | c # _ \<Rightarrow> \<not> is_digit c)"

lemma takeWhile_digits:
  assumes "no_digit_next x" shows "takeWhile is_digit (nat_digits n @ x) = nat_digits n"
proof -
  have "takeWhile is_digit x = []" using assms by (cases x) (auto simp: no_digit_next_def)
  then show ?thesis by (simp add: takeWhile_append2 nat_digits_digits)
qed

lemma nat_digits_prefix:
  assumes "nat_digits m @ x = nat_digits n @ y" "no_digit_next x" "no_digit_next y"
  shows "m = n \<and> x = y"
proof -
  have "nat_digits m = nat_digits n"
    using takeWhile_digits [OF assms(2), of m] takeWhile_digits [OF assms(3), of n] assms(1) by simp
  then show ?thesis using assms(1) digits_nat_digits by (metis same_append_eq)
qed

lemma digits_no_minus: "nat_digits n @ x \<noteq> CHR ''-'' # y"
proof
  assume "nat_digits n @ x = CHR ''-'' # y"
  then have "CHR ''-'' \<in> set (nat_digits n)" by (cases "nat_digits n") auto
  then show False using nat_digits_digits by (fastforce simp: is_digit_def less_eq_char_def)
qed

lemma json_int_prefix:
  assumes "json_int i @ x = json_int j @ y" "no_digit_next x" "no_digit_next y"
  shows "i = j \<and> x = y"
  using assms digits_no_minus digits_no_minus [symmetric]
  by (auto simp: json_int_def split: if_splits dest!: nat_digits_prefix)

lemma json_int_head: "\<exists>c s. json_int i = c # s \<and> (is_digit c \<or> c = CHR ''-'')"
proof (cases "i < 0")
  case False
  obtain c s where cs: "nat_digits (nat i) = c # s" using nat_digits_not_Nil by (meson neq_Nil_conv)
  then have "is_digit c" using nat_digits_digits by (metis list.set_intros(1))
  then show ?thesis using cs False by (simp add: json_int_def)
qed (simp add: json_int_def)

end
