(* ===== verification/QueueRouting.thy ===== *)
theory QueueRouting
  imports QueueEdits JsonText
begin

text \<open>
  The routing fingerprint of \<open>routing.ts\<close> is a JSON text. It is injective on the routing fields:
  the quoting of \<open>JSON.stringify\<close> is a prefix code, so equal fingerprints mean equal fields.
\<close>

section \<open>The fingerprint\<close>

lemma json_value_prefix:
  "json_string_or_null v @ x = json_string_or_null w @ y \<Longrightarrow> v = w \<and> x = y"
proof (cases v; cases w)
  fix a b
  assume "json_string_or_null v @ x = json_string_or_null w @ y" "v = Some a" "w = Some b"
  then show ?thesis using json_quote_prefix [of a x b y] by (simp add: json_string_or_null_def)
qed (auto simp: json_string_or_null_def json_quote_def)

lemma json_pair_prefix:
  assumes "json_field_pair p @ x = json_field_pair q @ y"
  shows "p = q \<and> x = y"
proof -
  have "json_quote (fst p) @ (CHR '','' # json_string_or_null (snd p) @ CHR '']'' # x) =
      json_quote (fst q) @ (CHR '','' # json_string_or_null (snd q) @ CHR '']'' # y)"
    using assms by (simp add: json_field_pair_def)
  from json_quote_prefix [OF this]
  have "fst p = fst q" "json_string_or_null (snd p) @ CHR '']'' # x = json_string_or_null (snd q) @ CHR '']'' # y"
    by simp_all
  then show ?thesis using json_value_prefix by (metis list.inject prod.expand)
qed

lemma json_pairs_prefix:
  "length ps = length qs \<Longrightarrow> ps \<noteq> [] \<Longrightarrow>
   js_join '','' (map json_field_pair ps) @ x = js_join '','' (map json_field_pair qs) @ y \<Longrightarrow>
   ps = qs \<and> x = y"
proof (induction ps arbitrary: qs)
  case (Cons p ps)
  then obtain q qs' where qs: "qs = q # qs'" "length ps = length qs'" by (cases qs) auto
  show ?case
  proof (cases ps)
    case Nil
    then show ?thesis using Cons.prems qs json_pair_prefix [of p x q y] by simp
  next
    case (Cons p2 ps2)
    then obtain q2 qs2 where qs': "qs' = q2 # qs2" using qs by (cases qs') auto
    have "json_field_pair p @ (CHR '','' # js_join '','' (map json_field_pair ps) @ x) =
        json_field_pair q @ (CHR '','' # js_join '','' (map json_field_pair qs') @ y)"
      using Cons.prems Cons qs qs' by simp
    from json_pair_prefix [OF this]
    have "p = q" "js_join '','' (map json_field_pair ps) @ x = js_join '','' (map json_field_pair qs') @ y"
      by simp_all
    then show ?thesis using Cons.IH [OF qs(2)] Cons qs by simp
  qed
qed simp

text \<open>Two items have the same routing fingerprint exactly when all thirteen routing fields
  agree: the JSON text of the fields loses nothing.\<close>

theorem queueRoutingFingerprint_inject:
  "queueRoutingFingerprint i = queueRoutingFingerprint j \<longleftrightarrow> routingFields i = routingFields j"
proof
  assume "queueRoutingFingerprint i = queueRoutingFingerprint j"
  then have "js_join '','' (map json_field_pair (routingFields i)) @ '']'' =
      js_join '','' (map json_field_pair (routingFields j)) @ '']''"
    by (simp add: queueRoutingFingerprint_def)
  then show "routingFields i = routingFields j"
    by (intro json_pairs_prefix [THEN conjunct1]) (simp_all add: routingFields_def Let_def)
qed (simp add: queueRoutingFingerprint_def)

end
