(* ===== verification/QueueFence.thy ===== *)
theory QueueFence
  imports QueueOps
begin

text \<open>
  The priority fence between the Session queue and Turn admission
  (\<open>session-system/queue/turn-priority-fence.ts\<close>, interface in \<open>session-system/contracts.ts\<close>).
  Turn admission calls it inside its own transaction: \<open>blocks\<close> decides whether queued work goes
  first, \<open>accepted\<close> consumes the durable pause, \<open>settled\<close> records one and \<open>revoked\<close> restores the
  one that a revoked admission had consumed.

  The interface is the record \<open>priority_fence\<close> over a database state \<open>'q\<close>, its laws the locale
  \<open>pause_fence\<close>; the queue's own fence interprets it.
\<close>

section \<open>The interface\<close>

datatype admission_priority =
    Fifo int "string option" "string list option"
  | ContinuedQueueHead string "string list option"
  | SelectedQueueItem string
  | RetryContinuation
  | PausedQueueSend
  | UserInputResume
  | TurnContinuation

record 'q priority_fence =
  fence_blocks :: "'q \<Rightarrow> string \<Rightarrow> admission_priority \<Rightarrow> bool"
  fence_accepted :: "'q \<Rightarrow> string \<Rightarrow> bool \<Rightarrow> queue_fact list \<times> queue_pause option \<times> 'q"
  fence_settled :: "'q \<Rightarrow> string \<Rightarrow> string \<Rightarrow> pause_cause option \<Rightarrow> int \<Rightarrow> queue_fact list \<times> 'q"
  fence_revoked :: "'q \<Rightarrow> string \<Rightarrow> queue_pause option \<Rightarrow> int \<Rightarrow> queue_fact list \<times> 'q"

text \<open>The decision of the order part reads the claim identity and the yielded items of a priority.\<close>

fun priority_claim :: "admission_priority \<Rightarrow> string option" where
  "priority_claim (Fifo _ c _) = c"
| "priority_claim (ContinuedQueueHead c _) = Some c"
| "priority_claim (SelectedQueueItem c) = Some c"
| "priority_claim _ = None"

fun priority_yielded :: "admission_priority \<Rightarrow> string list" where
  "priority_yielded (Fifo _ _ y) = (case y of None \<Rightarrow> [] | Some ids \<Rightarrow> ids)"
| "priority_yielded (ContinuedQueueHead _ y) = (case y of None \<Rightarrow> [] | Some ids \<Rightarrow> ids)"
| "priority_yielded _ = []"

fun bypassesQueuePause :: "admission_priority \<Rightarrow> bool" where
  "bypassesQueuePause (ContinuedQueueHead _ _) = True"
| "bypassesQueuePause (SelectedQueueItem _) = True"
| "bypassesQueuePause RetryContinuation = True"
| "bypassesQueuePause TurnContinuation = True"
| "bypassesQueuePause PausedQueueSend = True"
| "bypassesQueuePause UserInputResume = True"
| "bypassesQueuePause (Fifo _ _ _) = False"

fun bypassesQueueOrder :: "admission_priority \<Rightarrow> bool" where
  "bypassesQueueOrder RetryContinuation = True"
| "bypassesQueueOrder TurnContinuation = True"
| "bypassesQueueOrder PausedQueueSend = True"
| "bypassesQueueOrder UserInputResume = True"
| "bypassesQueueOrder _ = False"

section \<open>The fence of the queue\<close>

definition pending_row :: "string \<Rightarrow> queue_row \<Rightarrow> bool" where
  "pending_row s r \<longleftrightarrow> in_session s r \<and> c_status (row_cols r) \<in> {Queued, Claimed}"

text \<open>\<open>min(id)\<close> over the claimed rows of the claim; ids ascend along the table.\<close>

definition firstClaimedId :: "string \<Rightarrow> string \<Rightarrow> queue_db \<Rightarrow> nat option" where
  "firstClaimedId s claimId db =
     (case map row_id (filter (\<lambda>r. in_session s r \<and> c_claimId (row_cols r) = Some claimId \<and>
                                  has_status Claimed r) (q_rows db)) of
        [] \<Rightarrow> None | i # is \<Rightarrow> Some (foldl min i is))"

definition claimedQueueItemBlocks ::
  "queue_db \<Rightarrow> string \<Rightarrow> admission_priority \<Rightarrow> string \<Rightarrow> bool" where
  "claimedQueueItemBlocks db s priority claimId =
     (case firstClaimedId s claimId db of
        None \<Rightarrow> True
      | Some first \<Rightarrow>
          (case priority of
             SelectedQueueItem _ \<Rightarrow> False
           | _ \<Rightarrow> list_ex (\<lambda>r. pending_row s r \<and> row_id r < first \<and>
                             c_itemId (row_cols r) \<notin> set (priority_yielded priority))
                   (q_rows db)))"

definition blocksQueueCandidate :: "queue_db \<Rightarrow> string \<Rightarrow> admission_priority \<Rightarrow> bool" where
  "blocksQueueCandidate db s priority =
     (if q_pauses db s \<noteq> None \<and> \<not> bypassesQueuePause priority then True
      else if bypassesQueueOrder priority then False
      else case truthy (priority_claim priority) of
             Some claimId \<Rightarrow> claimedQueueItemBlocks db s priority claimId
           | None \<Rightarrow>
               (case priority of
                  Fifo candidateCreatedAtMs _ _ \<Rightarrow>
                    list_ex (\<lambda>r. pending_row s r \<and>
                               c_createdAtMs (row_cols r) \<le> candidateCreatedAtMs) (q_rows db)
                | _ \<Rightarrow> True))"

definition acceptedInTransaction ::
  "queue_db \<Rightarrow> string \<Rightarrow> bool \<Rightarrow> queue_fact list \<times> queue_pause option \<times> queue_db" where
  "acceptedInTransaction db s consumeQueuePause =
     (if \<not> consumeQueuePause then ([], None, db)
      else case q_pauses db s of
             None \<Rightarrow> ([], None, db)
           | Some pause \<Rightarrow> ([executionStateFact s False], Some pause, delete_pause s db))"

text \<open>Claimed rows count as pending for ever, queued rows until they expire.\<close>

definition unexpired_pending :: "string \<Rightarrow> int \<Rightarrow> queue_row \<Rightarrow> bool" where
  "unexpired_pending s nowMs r \<longleftrightarrow>
     pending_row s r \<and>
     (has_status Claimed r \<or>
      (case c_expiresAtMs (row_cols r) of None \<Rightarrow> True | Some t \<Rightarrow> t > nowMs))"

definition settledInTransaction ::
  "queue_db \<Rightarrow> string \<Rightarrow> string \<Rightarrow> pause_cause option \<Rightarrow> int \<Rightarrow> queue_fact list \<times> queue_db" where
  "settledInTransaction db s triggerTurnId cause pausedAtMs =
     (case cause of
        None \<Rightarrow> ([], db)
      | Some c \<Rightarrow>
          if length (filter (unexpired_pending s pausedAtMs) (q_rows db)) = 0 then ([], db)
          else ([executionStateFact s True],
                db\<lparr>q_pauses := (q_pauses db)(s \<mapsto>
                   \<lparr>pause_cause = c, pause_triggerTurnId = triggerTurnId,
                    pause_pausedAtMs = pausedAtMs\<rparr>)\<rparr>))"

definition revokedInTransaction ::
  "queue_db \<Rightarrow> string \<Rightarrow> queue_pause option \<Rightarrow> int \<Rightarrow> queue_fact list \<times> queue_db" where
  "revokedInTransaction db s revokeToken restoredAtMs =
     (case revokeToken of
        None \<Rightarrow> ([], db)
      | Some token \<Rightarrow>
          if \<not> list_ex (unexpired_pending s restoredAtMs) (q_rows db) then ([], db)
          else (case q_pauses db s of
                  Some _ \<Rightarrow> ([], db)
                | None \<Rightarrow> ([executionStateFact s True],
                           db\<lparr>q_pauses := (q_pauses db)(s \<mapsto> token)\<rparr>)))"

definition queue_fence :: "queue_db priority_fence" where
  "queue_fence =
     \<lparr> fence_blocks = blocksQueueCandidate, fence_accepted = acceptedInTransaction,
       fence_settled = settledInTransaction, fence_revoked = revokedInTransaction \<rparr>"

end
