(* ===== verification/FenceProps.thy ===== *)
theory FenceProps
  imports QueueFence QueueProps
begin

text \<open>
  The contract of a priority fence as a locale, the queue's fence as its interpretation, and the
  agreement of the two orders of the system: an item the queue hands out to a first-in-first-out
  claim is one that Turn admission lets through.
\<close>

section \<open>The contract\<close>

text \<open>
  \<open>paused\<close> is the durable pause of a Session and \<open>pending\<close> whether it has work at a time. The
  laws say when the three notifications of a Turn record, consume and restore the pause.
\<close>

locale pause_fence =
  fixes fence :: "'q priority_fence"
    and paused :: "'q \<Rightarrow> string \<Rightarrow> queue_pause option"
    and pending :: "'q \<Rightarrow> string \<Rightarrow> int \<Rightarrow> bool"
  assumes accepted_pause: "paused (snd (snd (fence_accepted fence q s consume))) =
      (if consume then (paused q)(s := None) else paused q)"
    and accepted_token: "fst (snd (fence_accepted fence q s consume)) = (if consume then paused q s else None)"
    and accepted_pending: "pending (snd (snd (fence_accepted fence q s consume))) = pending q"
    and settled_pause: "paused (snd (fence_settled fence q s turnId cause t)) =
      (case cause of None \<Rightarrow> paused q
       | Some c \<Rightarrow> if pending q s t
                   then (paused q)(s \<mapsto> \<lparr>pause_cause = c, pause_triggerTurnId = turnId, pause_pausedAtMs = t\<rparr>)
                   else paused q)"
    and revoked_pause: "paused (snd (fence_revoked fence q s token t)) =
      (if token \<noteq> None \<and> pending q s t \<and> paused q s = None then (paused q)(s := token) else paused q)"
    and paused_blocks: "paused q s \<noteq> None \<Longrightarrow> \<not> bypassesQueuePause p \<Longrightarrow> fence_blocks fence q s p"
begin

text \<open>Revoking with the token of the admission restores what the admission consumed.\<close>

lemma revoke_restores:
  assumes "fence_accepted fence q s consume = (facts, token, q')"
  shows "paused (snd (fence_revoked fence q' s token t)) =
    (if consume \<and> \<not> pending q s t then (paused q)(s := None) else paused q)"
  using accepted_pause [of q s consume] accepted_token [of q s consume] accepted_pending [of q s consume]
  by (auto simp: assms revoked_pause)

text \<open>A pause recorded at a settlement blocks the queued work until an admission consumes it.\<close>

lemma settled_blocks:
  "pending q s t \<Longrightarrow> \<not> bypassesQueuePause p \<Longrightarrow>
   fence_blocks fence (snd (fence_settled fence q s turnId (Some c) t)) s p"
  by (intro paused_blocks) (simp_all add: settled_pause)

lemma others_keep_pause:
  assumes "s' \<noteq> s"
  shows "paused (snd (snd (fence_accepted fence q s consume))) s' = paused q s'"
    and "paused (snd (fence_settled fence q s turnId cause t)) s' = paused q s'"
    and "paused (snd (fence_revoked fence q s token t)) s' = paused q s'"
  using assms by (auto simp: accepted_pause settled_pause revoked_pause split: option.splits)

end

interpretation qf: pause_fence queue_fence q_pauses
  "\<lambda>q s t. list_ex (unexpired_pending s t) (q_rows q)"
  by unfold_locales
    (auto simp: queue_fence_def acceptedInTransaction_def settledInTransaction_def revokedInTransaction_def
      delete_pause_def blocksQueueCandidate_def list_ex_iff filter_empty_conv fun_upd_idem split: option.splits)

section \<open>The fence over the list of items\<close>

lemma pending_row_wf:
  assumes "wf_queue db" "r \<in> set (q_rows db)"
  shows "pending_row s r \<longleftrightarrow> i_sessionId (row_item r) = s"
    and "c_itemId (row_cols r) = i_itemId (row_item r)" "c_claimId (row_cols r) = i_claimId (row_item r)"
    and "in_session s r \<longleftrightarrow> i_sessionId (row_item r) = s" "has_status st r \<longleftrightarrow> i_status (row_item r) = st"
proof -
  have "row_cols r = storage (row_item r)"
    using assms by (simp add: wf_queue_def store_ok_def list_all_iff cols_ok_def)
  then show "pending_row s r \<longleftrightarrow> i_sessionId (row_item r) = s"
    "c_itemId (row_cols r) = i_itemId (row_item r)" "c_claimId (row_cols r) = i_claimId (row_item r)"
    "in_session s r \<longleftrightarrow> i_sessionId (row_item r) = s" "has_status st r \<longleftrightarrow> i_status (row_item r) = st"
    by (cases "i_status (row_item r)"; simp add: pending_row_def in_session_def has_status_def storage_def)+
qed

text \<open>
  A claimed item is held back exactly by the items of its Session before it in the table that the
  candidate did not yield to.
\<close>

lemma claimedQueueItemBlocks_abs:
  assumes wf: "wf_queue db" and it: "items db = xs @ i # ys"
    and i: "i_sessionId i = s" "i_claimId i = Some c" "i_status i = Claimed"
    and only: "\<And>j. j \<in> set xs \<union> set ys \<Longrightarrow> i_sessionId j = s \<Longrightarrow> i_claimId j \<noteq> Some c"
  shows "claimedQueueItemBlocks db s p c \<longleftrightarrow>
    (\<forall>k. p \<noteq> SelectedQueueItem k) \<and>
    (\<exists>j \<in> set xs. i_sessionId j = s \<and> i_itemId j \<notin> set (priority_yielded p))"
proof -
  from it obtain rxs r rys where rows: "q_rows db = rxs @ r # rys" and m: "map row_item rxs = xs"
    "row_item r = i" "map row_item rys = ys"
    by (auto simp: items_def map_eq_append_conv)
  have in_rows: "u \<in> set (q_rows db)" if "u \<in> set rxs \<union> {r} \<union> set rys" for u using that rows by auto
  note col = pending_row_wf [OF wf in_rows]
  let ?P = "\<lambda>u. in_session s u \<and> c_claimId (row_cols u) = Some c \<and> has_status Claimed u"
  have "\<not> ?P u" if "u \<in> set rxs \<union> set rys" for u
    using that only [of "row_item u"] m col [of u] by auto
  then have "filter ?P (q_rows db) = [r]"
    using i m(2) col [of r] by (simp add: rows filter_empty_conv)
  then have first: "firstClaimedId s c db = Some (row_id r)" by (simp add: firstClaimedId_def)
  have "sorted_wrt (<) (map row_id (rxs @ r # rys))"
    using wf by (simp add: wf_queue_def store_ok_def rows)
  then have less: "u \<in> set (q_rows db) \<and> row_id u < row_id r \<longleftrightarrow> u \<in> set rxs" for u
    by (auto simp: rows sorted_wrt_append)
  have "list_ex (\<lambda>u. pending_row s u \<and> row_id u < row_id r \<and> c_itemId (row_cols u) \<notin> Y) (q_rows db) \<longleftrightarrow>
      (\<exists>u \<in> set rxs. i_sessionId (row_item u) = s \<and> i_itemId (row_item u) \<notin> Y)" for Y
  proof -
    have "list_ex (\<lambda>u. pending_row s u \<and> row_id u < row_id r \<and> c_itemId (row_cols u) \<notin> Y) (q_rows db) \<longleftrightarrow>
        (\<exists>u \<in> set rxs. pending_row s u \<and> c_itemId (row_cols u) \<notin> Y)"
      unfolding list_ex_iff using less by blast
    also have "\<dots> \<longleftrightarrow> (\<exists>u \<in> set rxs. i_sessionId (row_item u) = s \<and> i_itemId (row_item u) \<notin> Y)"
      using col by (intro bex_cong) simp_all
    finally show ?thesis .
  qed
  moreover have "claimedQueueItemBlocks db s p c \<longleftrightarrow> (\<forall>k. p \<noteq> SelectedQueueItem k) \<and>
      list_ex (\<lambda>u. pending_row s u \<and> row_id u < row_id r \<and>
                   c_itemId (row_cols u) \<notin> set (priority_yielded p)) (q_rows db)"
    by (cases p) (simp_all add: claimedQueueItemBlocks_def first del: priority_yielded.simps)
  ultimately show ?thesis by (auto simp: m(1) [symmetric])
qed

section \<open>A claim passes the fence\<close>

lemma claimNext_pause:
  assumes wf: "wf_queue db" and c: "c \<noteq> []" "env_claimOwnerId env \<noteq> []"
    and run: "claimNext env ci c n db = Inr (v, facts, db')" and p: "pause_of (ci_sessionId ci) db = None"
  shows "q_pauses db' (ci_sessionId ci) = None"
proof -
  let ?s = "ci_sessionId ci" let ?m = "claim_time ci n"
  note wl = live_queue_items [OF wf, of ?s n ?m]
  have w: "q_pauses (write_item i d) = q_pauses d" for i d by (simp add: write_item_def)
  have r: "q_pauses (reconcilePause ?s d) ?s = (if pendingCount ?s d > 0 then q_pauses d ?s else None)" for d
    by (simp add: reconcilePause_def delete_pause_def)
  show ?thesis
    using run p unfolding claimNext_def Let_def claim_time_def [symmetric] run_body [OF wf]
    unfolding claimNext_body [OF wl(2) c, where n = ?m and ci = ci]
    by (auto simp: r w pause_of_def result_simps split: option.splits if_splits)
qed

text \<open>C9: The queue and Turn admission agree on the order. The item that a first-in-first-out claim hands
  out passes the priority fence of the admission that follows, when that admission names the claim
  and the items the claim was told to skip, whether the claim was a plain one or a Continue of a
  paused queue.\<close>

theorem claim_passes_fence:
  assumes "wf_queue db" "c \<noteq> []" "env_claimOwnerId env \<noteq> []" "truthy (ci_itemId ci) = None"
    and "claimNext env ci c n db = Inr (Some d, facts, db')"
  shows "\<not> blocksQueueCandidate db' (ci_sessionId ci)
    (if ci_continuePaused ci then ContinuedQueueHead c (ci_excludeItemIds ci)
     else Fifo createdAt (Some c) (ci_excludeItemIds ci))"
proof -
  let ?s = "ci_sessionId ci" let ?m = "claim_time ci n" let ?live = "live_items ?s ?m db"
  let ?p = "if ci_continuePaused ci then ContinuedQueueHead c (ci_excludeItemIds ci)
            else Fifo createdAt (Some c) (ci_excludeItemIds ci)"
  obtain xs i ys where sp: "?live = xs @ i # ys" and d: "d_item d = claimed_as env c ?m i"
    and i: "i_sessionId i = ?s" and gate: "ci_continuePaused ci \<or> pause_of ?s db = None"
    and older: "\<forall>j \<in> set xs. i_sessionId j = ?s \<longrightarrow>
        (\<exists>ex. ci_excludeItemIds ci = Some ex \<and> i_itemId j \<in> set ex)"
    using claimNext_in_order [OF assms] by blast
  obtain i' where g: "items_ok ?live" "\<forall>k \<in> set ?live. i_sessionId k = ?s \<longrightarrow> i_claimId k = None"
    "items db' = replace_item (d_item d) ?live" "wf_queue db'"
    using claim_granted [OF assms(1-3,5)] by metis
  have key: "item_key (d_item d) = item_key i" by (simp add: d)
  have "\<forall>j \<in> set xs \<union> set ys. item_key j \<noteq> item_key i"
    using g(1) distinct_map_others [of item_key xs i ys] by (auto simp: items_ok_def sp)
  then have it: "items db' = xs @ d_item d # ys"
    unfolding g(3) sp replace_item_def key by (auto intro!: map_idI)
  have "claimedQueueItemBlocks db' ?s ?p c \<longleftrightarrow>
      (\<forall>k. ?p \<noteq> SelectedQueueItem k) \<and> (\<exists>j \<in> set xs. i_sessionId j = ?s \<and> i_itemId j \<notin> set (priority_yielded ?p))"
    using i g(2) sp by (intro claimedQueueItemBlocks_abs [OF g(4) it]) (auto simp: d claimed_as_def)
  then have "\<not> claimedQueueItemBlocks db' ?s ?p c" using older by auto
  then show ?thesis
    using assms(2) gate claimNext_pause [OF assms(1-3,5)] by (auto simp: blocksQueueCandidate_def)
qed

theorem claim_passes_fence_witness:
  "\<exists>d facts db'. claimNext demo_env (fifo_claim ''s'') ''c1'' 12 two_queued = Inr (Some d, facts, db') \<and>
     \<not> blocksQueueCandidate db' ''s'' (Fifo 0 (Some ''c1'') None)"
proof -
  obtain d facts db' where r: "claimNext demo_env (fifo_claim ''s'') ''c1'' 12 two_queued = Inr (Some d, facts, db')"
    using demo_claim by (auto split: sum.splits option.splits prod.splits)
  from claim_passes_fence [OF two_queued_wf _ demo_owner _ r, of 0] r show ?thesis
    by (auto simp: fifo_claim_def)
qed

end
