(* ===== verification/TurnStore.thy ===== *)
theory TurnStore
  imports QueueFence
begin

text \<open>
  The durable tables of Turn admission (\<open>infra/db/schema/turn.ts\<close>), the values the Turn
  repository takes and returns (\<open>turn-system/persistence/contracts.ts\<close>,
  \<open>turn-system/admission-contracts.ts\<close>) and the queries and row changes its operations share.

  As for the queue, a table is a list of rows, a query its documented meaning, and an insert fails
  on the unique indexes of the schema. The JSON columns hold the parsed value: \<open>queueItemIdsJson\<close>
  the list of strings (\<open>None\<close> for SQL \<open>NULL\<close>), \<open>inputMetadataJson\<close> a JavaScript value.
\<close>

section \<open>Tables\<close>

datatype turn_status = TurnAccepted | TurnCompleted | TurnFailed | TurnAborted

record session_lock =
  l_sessionId :: string
  l_ownerId :: string
  l_ownerKind :: string
  l_acquiredAtMs :: int
  l_expiresAtMs :: int

record turn_row =
  t_turnId :: string
  t_sessionId :: string
  t_busyReason :: string
  t_clientRequestId :: "string option"
  t_claimId :: "string option"
  t_claimSource :: "string option"
  t_queueItemIds :: "string list option"
  t_status :: turn_status
  t_acceptedAtMs :: int
  t_acceptedSequence :: "nat option"
  t_completedAtMs :: "int option"
  t_queueAcknowledgedAtMs :: "int option"
  t_inputDigest :: "string option"
  t_inputMetadata :: js

record client_request =
  r_sessionId :: string
  r_clientRequestId :: string
  r_turnId :: string

record turn_db =
  td_locks :: "session_lock list"
  td_turns :: "turn_row list"
  td_sequences :: "(nat \<times> string) list"
  td_nextSequence :: nat
  td_clients :: "client_request list"

section \<open>Inputs, results and errors\<close>

datatype busy_reason = BusyTurn | BusyCompaction

fun busy_kind :: "busy_reason \<Rightarrow> string" where
  "busy_kind BusyTurn = ''turn''"
| "busy_kind BusyCompaction = ''compaction''"

datatype turn_rejection =
    RejInvalidSession | RejInvalidInput | RejActiveTurn | RejCompactionActive | RejSessionDeleting
  | RejSessionMutating | RejPriorityBlocked | RejIngressConflict | RejPolicy string

record queue_ingress =
  qi_claimId :: string
  qi_itemId :: string
  qi_userMessageId :: "string option"
  qi_clientRequestId :: "string option"
  qi_source :: queue_source

record user_input_resume =
  ur_requestId :: string
  ur_goalId :: "string option"

record admit_input =
  ai_sessionId :: string
  ai_candidateCreatedAtMs :: int
  ai_genuineUserMessage :: "bool option"
  ai_clientIntent :: "string option"
  ai_queueIngress :: "queue_ingress option"
  ai_userInputResume :: "user_input_resume option"
  ai_turnId :: string
  ai_busyReason :: busy_reason
  ai_inputDigest :: string
  ai_attachmentCount :: int
  ai_hasContent :: bool
  ai_priority :: admission_priority
  ai_foreground :: bool
  ai_consumeQueuePause :: bool
  ai_clientRequestId :: "string option"
  ai_bypassPriorityFence :: bool
  ai_bypassSessionMutation :: bool

datatype recovery_reason = ProcessRestart | ExpiredLease | SettlementRetry

record terminal_fact =
  tf_sessionId :: string
  tf_turnId :: string
  tf_completedAtMs :: int
  tf_reason :: recovery_reason

datatype admit_status =
    Admitted string nat int
  | DuplicateTurn string
  | Rejected turn_rejection

datatype terminal_outcome = OutcomeCompleted | OutcomeFailed | OutcomeAborted

fun outcome_status :: "terminal_outcome \<Rightarrow> turn_status" where
  "outcome_status OutcomeCompleted = TurnCompleted"
| "outcome_status OutcomeFailed = TurnFailed"
| "outcome_status OutcomeAborted = TurnAborted"

record pending_settlement =
  ps_sessionId :: string
  ps_turnId :: string
  ps_leaseId :: string

datatype turn_error =
    DeletionNotQuiescent string
  | DeletionOwnedElsewhere string
  | DeletionTurnRemaining string string
  | DeletionActiveTurnMissing string
  | LockCannotEnterDeletion string string
  | LostOwnership string string
  | ReceiptMalformed string
  | ClaimNotAccepted string string
  | TurnUniqueConstraint string
  | TurnTypeError string

type_synonym 'a tresult = "turn_error + 'a"

section \<open>Owner kinds of a Session lock\<close>

definition SESSION_DELETION :: string where "SESSION_DELETION = ''session-deletion''"
definition MAINTENANCE :: string where "MAINTENANCE = ''maintenance''"
definition MAINTENANCE_DELETING :: string where "MAINTENANCE_DELETING = ''maintenance-deleting''"
definition TURN_DELETING :: string where "TURN_DELETING = ''turn-deleting''"
definition COMPACTION_DELETING :: string where "COMPACTION_DELETING = ''compaction-deleting''"

text \<open>\<open>Number.MAX_SAFE_INTEGER\<close>\<close>

definition DELETION_FENCE_EXPIRES_AT_MS :: int where
  "DELETION_FENCE_EXPIRES_AT_MS = 9007199254740991"

lemmas owner_kinds = SESSION_DELETION_def MAINTENANCE_def MAINTENANCE_DELETING_def
  TURN_DELETING_def COMPACTION_DELETING_def

definition deletionPendingOwnerKind :: "string \<Rightarrow> string option" where
  "deletionPendingOwnerKind kind =
     (if kind = ''turn'' \<or> kind = TURN_DELETING then Some TURN_DELETING
      else if kind = ''compaction'' \<or> kind = COMPACTION_DELETING then Some COMPACTION_DELETING
      else if kind = MAINTENANCE \<or> kind = MAINTENANCE_DELETING then Some MAINTENANCE_DELETING
      else None)"

definition isDeletionOwnerKind :: "string \<Rightarrow> bool" where
  "isDeletionOwnerKind kind \<longleftrightarrow>
     kind = SESSION_DELETION \<or> kind = TURN_DELETING \<or> kind = COMPACTION_DELETING \<or>
     kind = MAINTENANCE_DELETING"

definition storedBusyReason :: "string \<Rightarrow> busy_reason option" where
  "storedBusyReason v =
     (if v = ''turn'' \<or> v = ''send'' \<or> v = ''dispatcher'' then Some BusyTurn
      else if v = ''compaction'' then Some BusyCompaction else None)"

section \<open>Queries\<close>

definition findSessionLock :: "turn_db \<Rightarrow> string \<Rightarrow> session_lock option" where
  "findSessionLock db s = List.find (\<lambda>l. l_sessionId l = s) (td_locks db)"

text \<open>
  \<open>ORDER BY accepted_sequence DESC LIMIT 1\<close>: the row with the greatest sequence; SQLite orders
  \<open>NULL\<close> after every number in descending order, and the first of equal rows wins.
\<close>

definition seq_value :: "turn_row \<Rightarrow> nat" where
  "seq_value t = (case t_acceptedSequence t of None \<Rightarrow> 0 | Some n \<Rightarrow> Suc n)"

fun latest_row :: "turn_row list \<Rightarrow> turn_row option" where
  "latest_row [] = None"
| "latest_row (t # ts) =
     (case latest_row ts of
        None \<Rightarrow> Some t
      | Some u \<Rightarrow> if seq_value t < seq_value u then Some u else Some t)"

definition accepted_of :: "string \<Rightarrow> turn_row \<Rightarrow> bool" where
  "accepted_of s t \<longleftrightarrow> t_sessionId t = s \<and> t_status t = TurnAccepted"

definition latestAccepted :: "turn_db \<Rightarrow> string \<Rightarrow> turn_row option" where
  "latestAccepted db s = latest_row (filter (accepted_of s) (td_turns db))"

definition requireAcceptedTurnId :: "turn_db \<Rightarrow> string \<Rightarrow> string tresult" where
  "requireAcceptedTurnId db s =
     (case latestAccepted db s of
        None \<Rightarrow> Inl (DeletionActiveTurnMissing s) | Some t \<Rightarrow> Inr (t_turnId t))"

definition parseStringArray :: "string list option \<Rightarrow> string list" where
  "parseStringArray v = (case v of None \<Rightarrow> [] | Some xs \<Rightarrow> xs)"

section \<open>Row changes\<close>

definition insert_lock :: "session_lock \<Rightarrow> turn_db \<Rightarrow> turn_db tresult" where
  "insert_lock l db =
     (if list_ex (\<lambda>k. l_sessionId k = l_sessionId l) (td_locks db)
      then Inl (TurnUniqueConstraint (l_sessionId l))
      else Inr (db\<lparr>td_locks := td_locks db @ [l]\<rparr>))"

definition delete_locks :: "(session_lock \<Rightarrow> bool) \<Rightarrow> turn_db \<Rightarrow> turn_db" where
  "delete_locks p db = db\<lparr>td_locks := filter (\<lambda>l. \<not> p l) (td_locks db)\<rparr>"

definition update_locks ::
  "(session_lock \<Rightarrow> bool) \<Rightarrow> (session_lock \<Rightarrow> session_lock) \<Rightarrow> turn_db \<Rightarrow> turn_db" where
  "update_locks p f db = db\<lparr>td_locks := map (\<lambda>l. if p l then f l else l) (td_locks db)\<rparr>"

definition update_turns ::
  "(turn_row \<Rightarrow> bool) \<Rightarrow> (turn_row \<Rightarrow> turn_row) \<Rightarrow> turn_db \<Rightarrow> turn_db" where
  "update_turns p f db = db\<lparr>td_turns := map (\<lambda>t. if p t then f t else t) (td_turns db)\<rparr>"

text \<open>The row count \<open>changes\<close> of an \<open>UPDATE\<close> or \<open>DELETE\<close>.\<close>

definition lock_changes :: "(session_lock \<Rightarrow> bool) \<Rightarrow> turn_db \<Rightarrow> nat" where
  "lock_changes p db = length (filter p (td_locks db))"

definition turn_changes :: "(turn_row \<Rightarrow> bool) \<Rightarrow> turn_db \<Rightarrow> nat" where
  "turn_changes p db = length (filter p (td_turns db))"

definition owned_lock :: "string \<Rightarrow> string \<Rightarrow> session_lock \<Rightarrow> bool" where
  "owned_lock s owner l \<longleftrightarrow> l_sessionId l = s \<and> l_ownerId l = owner"

definition accepted_turn :: "string \<Rightarrow> string \<Rightarrow> turn_row \<Rightarrow> bool" where
  "accepted_turn s turnId t \<longleftrightarrow>
     t_sessionId t = s \<and> t_turnId t = turnId \<and> t_status t = TurnAccepted"

definition settle_row :: "turn_status \<Rightarrow> int \<Rightarrow> turn_row \<Rightarrow> turn_row" where
  "settle_row st completedAtMs t = t\<lparr>t_status := st, t_completedAtMs := Some completedAtMs\<rparr>"

definition deletion_lock :: "int \<Rightarrow> session_lock \<Rightarrow> session_lock" where
  "deletion_lock nowMs l =
     l\<lparr>l_ownerKind := SESSION_DELETION, l_acquiredAtMs := nowMs,
       l_expiresAtMs := DELETION_FENCE_EXPIRES_AT_MS\<rparr>"

text \<open>\<open>releaseOrPromoteDeletionFence\<close>: the new tables and the number of rows it changed.\<close>

definition releaseOrPromoteDeletionFence ::
  "string \<Rightarrow> string \<Rightarrow> string \<Rightarrow> int \<Rightarrow> turn_db \<Rightarrow> nat \<times> turn_db" where
  "releaseOrPromoteDeletionFence s leaseId ownerKind completedAtMs db =
     (let own = owned_lock s leaseId in
      (lock_changes own db,
       if ownerKind = TURN_DELETING \<or> ownerKind = COMPACTION_DELETING
       then update_locks own (deletion_lock completedAtMs) db
       else delete_locks own db))"

section \<open>Recovery of a lock whose owner is gone\<close>

definition createRecoveredTerminalFact ::
  "string \<Rightarrow> string \<Rightarrow> int \<Rightarrow> recovery_reason \<Rightarrow> terminal_fact" where
  "createRecoveredTerminalFact s turnId completedAtMs reason =
     \<lparr>tf_sessionId = s, tf_turnId = turnId, tf_completedAtMs = completedAtMs, tf_reason = reason\<rparr>"

definition releaseRecoveredLock ::
  "session_lock \<Rightarrow> int \<Rightarrow> recovery_reason \<Rightarrow> turn_db \<Rightarrow> terminal_fact list \<times> turn_db" where
  "releaseRecoveredLock lock completedAtMs reason db =
     (let orphan = latestAccepted db (l_sessionId lock);
          facts = (case orphan of
                     None \<Rightarrow> []
                   | Some t \<Rightarrow> [createRecoveredTerminalFact (l_sessionId lock) (t_turnId t)
                                  completedAtMs reason]);
          db1 = (case orphan of
                   None \<Rightarrow> db
                 | Some t \<Rightarrow> update_turns (\<lambda>u. t_turnId u = t_turnId t)
                               (settle_row TurnFailed completedAtMs) db)
      in (facts,
          delete_locks (\<lambda>l. l_sessionId l = l_sessionId lock \<and> l_ownerId l = l_ownerId lock \<and>
                          l_ownerKind l = l_ownerKind lock) db1))"

definition recoverExpired ::
  "string \<Rightarrow> int \<Rightarrow> turn_db \<Rightarrow> (bool \<times> terminal_fact list) \<times> turn_db" where
  "recoverExpired s nowMs db =
     (case List.find (\<lambda>l. l_sessionId l = s \<and> l_expiresAtMs l \<le> nowMs) (td_locks db) of
        None \<Rightarrow> ((False, []), db)
      | Some lock \<Rightarrow>
          let (facts, db') = releaseRecoveredLock lock nowMs ExpiredLease db
          in ((True, facts), db'))"

text \<open>
  Locks of an older format name their owning process, \<open>(electron|cli|runtime):<pid>:...\<close>; whether
  the process lives is asked of the operating system, the parameter \<open>pid_alive\<close> (\<open>None\<close> when the
  question itself fails).
\<close>

fun take_digits :: "string \<Rightarrow> string \<times> string" where
  "take_digits [] = ([], [])"
| "take_digits (c # cs) =
     (if CHR ''0'' \<le> c \<and> c \<le> CHR ''9'' then let (d, r) = take_digits cs in (c # d, r)
      else ([], c # cs))"

definition digits_value :: "string \<Rightarrow> nat" where
  "digits_value ds = foldl (\<lambda>n c. 10 * n + (of_char c - 48)) 0 ds"

definition split_prefix :: "string \<Rightarrow> string \<Rightarrow> string option" where
  "split_prefix p s = (if take (length p) s = p then Some (drop (length p) s) else None)"

definition no_line_break :: "string \<Rightarrow> bool" where
  "no_line_break s = list_all (\<lambda>c. of_char c \<notin> {10, 13 :: nat}) s"

definition legacyOwnerPid :: "string \<Rightarrow> string \<Rightarrow> nat option" where
  "legacyOwnerPid ownerKind ownerId =
     (if ownerKind \<in> {''electron'', ''cli'', ''runtime''}
      then case split_prefix (ownerKind @ '':'') ownerId of
             None \<Rightarrow> None
           | Some rest \<Rightarrow>
               (case take_digits rest of
                  (d # ds, CHR '':'' # c # tail) \<Rightarrow>
                    if d \<noteq> CHR ''0'' \<and> no_line_break (c # tail) \<and>
                       digits_value (d # ds) \<le> 9007199254740991
                    then Some (digits_value (d # ds)) else None
                | _ \<Rightarrow> None)
      else None)"

definition legacyProcessOwnerAlive ::
  "(nat \<Rightarrow> bool option) \<Rightarrow> session_lock \<Rightarrow> bool option" where
  "legacyProcessOwnerAlive pid_alive lock =
     (case legacyOwnerPid (l_ownerKind lock) (l_ownerId lock) of
        None \<Rightarrow> None | Some pid \<Rightarrow> pid_alive pid)"

definition recoverDeadLegacyOwner ::
  "(nat \<Rightarrow> bool option) \<Rightarrow> string \<Rightarrow> int \<Rightarrow> turn_db \<Rightarrow> (bool \<times> terminal_fact list) \<times> turn_db" where
  "recoverDeadLegacyOwner pid_alive s nowMs db =
     (case findSessionLock db s of
        None \<Rightarrow> ((False, []), db)
      | Some lock \<Rightarrow>
          if legacyProcessOwnerAlive pid_alive lock \<noteq> Some False then ((False, []), db)
          else let (facts, db') = releaseRecoveredLock lock nowMs ProcessRestart db
               in ((True, facts), db'))"

definition recoverPendingSettlement ::
  "pending_settlement \<Rightarrow> int \<Rightarrow> turn_db \<Rightarrow> terminal_fact option \<times> turn_db" where
  "recoverPendingSettlement pending completedAtMs db =
     (let s = ps_sessionId pending in
      case (findSessionLock db s,
            List.find (\<lambda>t. t_sessionId t = s \<and> t_turnId t = ps_turnId pending) (td_turns db)) of
        (Some lock, Some receipt) \<Rightarrow>
          if l_ownerId lock \<noteq> ps_leaseId pending \<or> t_status receipt \<noteq> TurnAccepted then (None, db)
          else let db1 = update_turns (accepted_turn s (ps_turnId pending))
                           (settle_row TurnFailed completedAtMs) db;
                   (_, db2) = releaseOrPromoteDeletionFence s (ps_leaseId pending)
                                (l_ownerKind lock) completedAtMs db1
               in (Some (createRecoveredTerminalFact s (ps_turnId pending) completedAtMs
                           SettlementRetry), db2)
      | _ \<Rightarrow> (None, db))"

end
