(* ===== verification/TurnRepo.thy ===== *)
theory TurnRepo
  imports TurnStore "HOL-Library.List_Lexorder"
begin

text \<open>
  The operations of the Turn repository (\<open>turn-system/persistence/turn.repository.ts\<close>,
  \<open>turn-lease-recovery.ts\<close>, \<open>turn-queue-pause-persistence.ts\<close>) over the tables of
  \<open>TurnStore\<close>: admission of a Turn under a Session lease, renewal, settlement, maintenance leases,
  the recovery of leases whose owner is gone, Session deletion, steering receipts, revocation and
  the acceptance lookup that the queue's acknowledgement uses.

  The repository object is the record \<open>turn_world\<close>: its tables, the rest of the database as a
  type parameter \<open>'q\<close> (which only the priority fence and the admission policy touch), and the two
  maps the process keeps in memory. Values the code draws during a call (the clock, a fresh lease
  identity) are arguments. A transaction that throws leaves the world of its caller in place;
  what the code does to its in-memory maps in that case is written out.
\<close>

section \<open>The repository object\<close>

text \<open>
  The in-memory observation of a lease of an older format, keyed by the Session, the owner, the
  kind and the acquisition time of the lease (the code joins the four with NUL characters; the
  last three never hold one, so the joined key and the tuple identify the same leases).
\<close>

record lease_observation =
  ob_expiresAtMs :: int
  ob_unchangedSinceMs :: int

type_synonym lease_key = "string \<times> string \<times> string \<times> int"
type_synonym observations = "lease_key \<rightharpoonup> lease_observation"

record 'q turn_env =
  te_fence :: "'q priority_fence"
  te_rejection :: "'q \<Rightarrow> string \<Rightarrow> turn_rejection option"
  te_policy :: "'q \<Rightarrow> admit_input \<Rightarrow> turn_rejection option \<times> 'q"
  te_leaseMs :: int
  te_ownerAlive :: "string \<Rightarrow> bool option"
  te_ownerCurrent :: "string \<Rightarrow> bool"
  te_pidAlive :: "nat \<Rightarrow> bool option"

record 'q turn_world =
  tw_db :: turn_db
  tw_rest :: 'q
  tw_pending :: "string \<rightharpoonup> pending_settlement"
  tw_observed :: observations

definition lease_ms :: "int option \<Rightarrow> int" where
  "lease_ms configured = max 1 (case configured of None \<Rightarrow> 30 * 60 * 1000 | Some ms \<Rightarrow> ms)"

section \<open>Maintenance leases and renewal\<close>

record maintenance_lease =
  ml_sessionId :: string
  ml_leaseId :: string
  ml_renewAfterMs :: int

definition tryAcquireSessionMaintenance ::
  "'q turn_env \<Rightarrow> string \<Rightarrow> int \<Rightarrow> string \<Rightarrow> 'q turn_world \<Rightarrow>
   ((maintenance_lease \<times> terminal_fact list) option \<times> 'q turn_world) tresult" where
  "tryAcquireSessionMaintenance env s now leaseId w =
     (if te_rejection env (tw_rest w) s \<noteq> None then Inr (None, w)
      else let ((_, facts), db1) = recoverExpired s now (tw_db w) in
        if findSessionLock db1 s \<noteq> None then Inr (None, w\<lparr>tw_db := db1\<rparr>)
        else rbind (insert_lock \<lparr>l_sessionId = s, l_ownerId = leaseId, l_ownerKind = MAINTENANCE,
                       l_acquiredAtMs = now, l_expiresAtMs = now + te_leaseMs env\<rparr> db1)
               (\<lambda>db2. Inr (Some (\<lparr>ml_sessionId = s, ml_leaseId = leaseId,
                                   ml_renewAfterMs = max 1 (te_leaseMs env div 2)\<rparr>, facts),
                             w\<lparr>tw_db := db2\<rparr>)))"

definition live_owned :: "string \<Rightarrow> string \<Rightarrow> int \<Rightarrow> session_lock \<Rightarrow> bool" where
  "live_owned s owner now l \<longleftrightarrow> owned_lock s owner l \<and> l_expiresAtMs l > now"

definition extend_lease :: "int \<Rightarrow> session_lock \<Rightarrow> session_lock" where
  "extend_lease expires l = l\<lparr>l_expiresAtMs := expires\<rparr>"

definition renewSessionMaintenance ::
  "'q turn_env \<Rightarrow> string \<Rightarrow> string \<Rightarrow> int \<Rightarrow> 'q turn_world \<Rightarrow> bool \<times> 'q turn_world" where
  "renewSessionMaintenance env s leaseId now w =
     (let p = (\<lambda>l. live_owned s leaseId now l \<and>
                   l_ownerKind l \<in> {MAINTENANCE, MAINTENANCE_DELETING})
      in (lock_changes p (tw_db w) = 1,
          w\<lparr>tw_db := update_locks p (extend_lease (now + te_leaseMs env)) (tw_db w)\<rparr>))"

definition releaseSessionMaintenance ::
  "string \<Rightarrow> string \<Rightarrow> int \<Rightarrow> 'q turn_world \<Rightarrow> 'q turn_world" where
  "releaseSessionMaintenance s leaseId now w =
     (case findSessionLock (tw_db w) s of
        None \<Rightarrow> w
      | Some lock \<Rightarrow>
          if l_ownerId lock \<noteq> leaseId then w
          else if l_ownerKind lock = MAINTENANCE_DELETING
          then w\<lparr>tw_db := update_locks (owned_lock s leaseId) (deletion_lock now) (tw_db w)\<rparr>
          else if l_ownerKind lock = MAINTENANCE
          then w\<lparr>tw_db := delete_locks (owned_lock s leaseId) (tw_db w)\<rparr>
          else w)"

definition renewTurn ::
  "'q turn_env \<Rightarrow> string \<Rightarrow> string \<Rightarrow> int \<Rightarrow> 'q turn_world \<Rightarrow> bool \<times> 'q turn_world" where
  "renewTurn env s leaseId now w =
     (let p = live_owned s leaseId now
      in (lock_changes p (tw_db w) = 1,
          w\<lparr>tw_db := update_locks p (extend_lease (now + te_leaseMs env)) (tw_db w)\<rparr>))"

section \<open>Admission\<close>

fun optional_fact :: "terminal_fact option \<Rightarrow> terminal_fact list" where
  "optional_fact None = []"
| "optional_fact (Some f) = [f]"

definition recoverAdmissionTerminalFacts ::
  "'q turn_env \<Rightarrow> string \<Rightarrow> pending_settlement option \<Rightarrow> int \<Rightarrow> turn_db \<Rightarrow>
   terminal_fact list \<times> turn_db" where
  "recoverAdmissionTerminalFacts env s pending nowMs db =
     (let (pendingRecovery, db1) =
            (case pending of None \<Rightarrow> (None, db) | Some p \<Rightarrow> recoverPendingSettlement p nowMs db);
          ((_, expired), db2) = recoverExpired s nowMs db1;
          ((_, legacy), db3) = recoverDeadLegacyOwner (te_pidAlive env) s nowMs db2
      in (optional_fact pendingRecovery @ expired @ legacy, db3))"

definition sameStrings :: "string list \<Rightarrow> string list \<Rightarrow> bool" where
  "sameStrings left right \<longleftrightarrow> length left = length right \<and>
     list_all (\<lambda>(x, y). x = y) (zip left right)"

definition ingress_items :: "admit_input \<Rightarrow> string list" where
  "ingress_items i = (case ai_queueIngress i of None \<Rightarrow> [] | Some q \<Rightarrow> [qi_itemId q])"

definition ingress_claim :: "admit_input \<Rightarrow> string option" where
  "ingress_claim i = map_option qi_claimId (ai_queueIngress i)"

definition ingress_source :: "admit_input \<Rightarrow> string option" where
  "ingress_source i = map_option (\<lambda>q. source_name (qi_source q)) (ai_queueIngress i)"

definition classifyDuplicate :: "turn_row \<Rightarrow> admit_input \<Rightarrow> admit_status" where
  "classifyDuplicate receipt i =
     (if t_sessionId receipt = ai_sessionId i \<and>
         storedBusyReason (t_busyReason receipt) = Some (ai_busyReason i) \<and>
         t_inputDigest receipt = Some (ai_inputDigest i) \<and>
         t_claimId receipt = ingress_claim i \<and>
         t_claimSource receipt = ingress_source i \<and>
         sameStrings (parseStringArray (t_queueItemIds receipt)) (ingress_items i)
      then DuplicateTurn (t_turnId receipt) else Rejected RejIngressConflict)"

definition findDuplicate :: "turn_db \<Rightarrow> admit_input \<Rightarrow> admit_status option" where
  "findDuplicate db i =
     (case List.find (\<lambda>t. t_turnId t = ai_turnId i) (td_turns db) of
        Some byTurn \<Rightarrow> Some (classifyDuplicate byTurn i)
      | None \<Rightarrow>
          (case (case truthy (ai_clientRequestId i) of
                   None \<Rightarrow> None
                 | Some c \<Rightarrow> List.find (\<lambda>t. t_sessionId t = ai_sessionId i \<and>
                                             t_clientRequestId t = Some c) (td_turns db)) of
             Some byClientRequest \<Rightarrow> Some (classifyDuplicate byClientRequest i)
           | None \<Rightarrow>
               (case truthy (ingress_claim i) of
                  None \<Rightarrow> None
                | Some c \<Rightarrow>
                    map_option (\<lambda>t. classifyDuplicate t i)
                      (List.find (\<lambda>t. t_claimId t = Some c) (td_turns db)))))"

text \<open>The inserts of \<open>insertAdmission\<close>, each with the unique indexes of its table.\<close>

definition turn_conflict :: "turn_row \<Rightarrow> turn_row \<Rightarrow> bool" where
  "turn_conflict t u \<longleftrightarrow>
     t_turnId u = t_turnId t \<or>
     (t_claimId t \<noteq> None \<and> t_claimId u = t_claimId t) \<or>
     (t_clientRequestId t \<noteq> None \<and> t_sessionId u = t_sessionId t \<and>
      t_clientRequestId u = t_clientRequestId t) \<or>
     (t_acceptedSequence t \<noteq> None \<and> t_acceptedSequence u = t_acceptedSequence t)"

definition insert_turn :: "turn_row \<Rightarrow> turn_db \<Rightarrow> turn_db tresult" where
  "insert_turn t db =
     (if list_ex (turn_conflict t) (td_turns db) then Inl (TurnUniqueConstraint (t_turnId t))
      else Inr (db\<lparr>td_turns := td_turns db @ [t]\<rparr>))"

definition next_sequence :: "string \<Rightarrow> turn_db \<Rightarrow> (nat \<times> turn_db) tresult" where
  "next_sequence turnId db =
     (if list_ex (\<lambda>(_, t). t = turnId) (td_sequences db) then Inl (TurnUniqueConstraint turnId)
      else let n = td_nextSequence db
           in Inr (n, db\<lparr>td_sequences := td_sequences db @ [(n, turnId)],
                         td_nextSequence := Suc n\<rparr>))"

definition insert_client :: "client_request \<Rightarrow> turn_db \<Rightarrow> turn_db tresult" where
  "insert_client r db =
     (if list_ex (\<lambda>q. r_sessionId q = r_sessionId r \<and>
                      r_clientRequestId q = r_clientRequestId r) (td_clients db)
      then Inl (TurnUniqueConstraint (r_clientRequestId r))
      else Inr (db\<lparr>td_clients := td_clients db @ [r]\<rparr>))"

definition input_metadata :: "admit_input \<Rightarrow> js" where
  "input_metadata i =
     JObj ([(''attachmentCount'', JNum (Fin (ai_attachmentCount i))),
            (''hasContent'', JBool (ai_hasContent i))] @
           (if ai_foreground i then [(''foreground'', JBool True)] else []) @
           (if ai_consumeQueuePause i then [(''consumeQueuePause'', JBool True)] else []))"

definition admission_row :: "admit_input \<Rightarrow> int \<Rightarrow> nat \<Rightarrow> turn_row" where
  "admission_row i nowMs sequence =
     \<lparr> t_turnId = ai_turnId i, t_sessionId = ai_sessionId i,
       t_busyReason = busy_kind (ai_busyReason i),
       t_clientRequestId = truthy (ai_clientRequestId i),
       t_claimId = ingress_claim i, t_claimSource = ingress_source i,
       t_queueItemIds = map_option (\<lambda>q. [qi_itemId q]) (ai_queueIngress i),
       t_status = TurnAccepted, t_acceptedAtMs = nowMs, t_acceptedSequence = Some sequence,
       t_completedAtMs = None, t_queueAcknowledgedAtMs = None,
       t_inputDigest = Some (ai_inputDigest i), t_inputMetadata = input_metadata i \<rparr>"

definition admission_lock :: "admit_input \<Rightarrow> string \<Rightarrow> int \<Rightarrow> int \<Rightarrow> session_lock" where
  "admission_lock i leaseId nowMs leaseMs =
     \<lparr> l_sessionId = ai_sessionId i, l_ownerId = leaseId,
       l_ownerKind = busy_kind (ai_busyReason i),
       l_acquiredAtMs = nowMs, l_expiresAtMs = nowMs + leaseMs \<rparr>"

definition insertAdmission ::
  "admit_input \<Rightarrow> string \<Rightarrow> int \<Rightarrow> int \<Rightarrow> turn_db \<Rightarrow> (admit_status \<times> turn_db) tresult" where
  "insertAdmission i leaseId nowMs leaseMs db =
     rbind (insert_lock (admission_lock i leaseId nowMs leaseMs) db)
       (\<lambda>db1. rbind (next_sequence (ai_turnId i) db1)
          (\<lambda>(sequence, db2). rbind (insert_turn (admission_row i nowMs sequence) db2)
             (\<lambda>db3. rbind (case truthy (ai_clientRequestId i) of
                             None \<Rightarrow> Inr db3
                           | Some c \<Rightarrow> insert_client \<lparr>r_sessionId = ai_sessionId i,
                                         r_clientRequestId = c, r_turnId = ai_turnId i\<rparr> db3)
                (\<lambda>db4. Inr (Admitted leaseId sequence nowMs, db4)))))"

definition activeLockRejection :: "session_lock option \<Rightarrow> turn_rejection option" where
  "activeLockRejection lock =
     map_option (\<lambda>l. if l_ownerKind l = ''compaction'' then RejCompactionActive
                     else RejActiveTurn) lock"

definition blocksAdmission :: "turn_rejection option \<Rightarrow> bool \<Rightarrow> bool" where
  "blocksAdmission rejection bypassSessionMutation \<longleftrightarrow>
     rejection \<noteq> None \<and> \<not> (rejection = Some RejSessionMutating \<and> bypassSessionMutation)"

text \<open>
  The body of the admission transaction: the status, the recovered terminal facts it carries and
  the new tables, with the rest of the database as the policy left it.
\<close>

definition admitTurnInTransaction ::
  "'q turn_env \<Rightarrow> admit_input \<Rightarrow> pending_settlement option \<Rightarrow> int \<Rightarrow> string \<Rightarrow> turn_db \<Rightarrow> 'q \<Rightarrow>
   ((admit_status \<times> terminal_fact list) \<times> turn_db \<times> 'q) tresult" where
  "admitTurnInTransaction env i pending nowMs leaseId db q =
     (let rejection = te_rejection env q (ai_sessionId i) in
      if blocksAdmission rejection (ai_bypassSessionMutation i)
      then Inr ((Rejected (the rejection), []), db, q)
      else
        let (facts, db1) = recoverAdmissionTerminalFacts env (ai_sessionId i) pending nowMs db;
            lock = findSessionLock db1 (ai_sessionId i)
        in
        if (case lock of None \<Rightarrow> False | Some l \<Rightarrow> isDeletionOwnerKind (l_ownerKind l))
        then Inr ((Rejected RejSessionDeleting, facts), db1, q)
        else
          (case findDuplicate db1 i of
             Some duplicate \<Rightarrow> Inr ((duplicate, facts), db1, q)
           | None \<Rightarrow>
               (case activeLockRejection lock of
                  Some r \<Rightarrow> Inr ((Rejected r, facts), db1, q)
                | None \<Rightarrow>
                    if \<not> ai_bypassPriorityFence i \<and>
                       fence_blocks (te_fence env) q (ai_sessionId i) (ai_priority i)
                    then Inr ((Rejected RejPriorityBlocked, facts), db1, q)
                    else
                      (case te_policy env q i of
                         (Some r, q1) \<Rightarrow> Inr ((Rejected r, facts), db1, q1)
                       | (None, q1) \<Rightarrow>
                           rbind (insertAdmission i leaseId nowMs (te_leaseMs env) db1)
                             (\<lambda>(status, db2). Inr ((status, facts), db2, q1))))))"

record admit_result =
  ar_status :: admit_status
  ar_foreground :: bool
  ar_revokeToken :: "queue_pause option"
  ar_recovered :: "terminal_fact list"

definition admitRepositoryTurn ::
  "'q turn_env \<Rightarrow> admit_input \<Rightarrow> int \<Rightarrow> string \<Rightarrow> 'q turn_world \<Rightarrow>
   (admit_result \<times> queue_fact list \<times> 'q turn_world) tresult" where
  "admitRepositoryTurn env i nowMs leaseId w =
     rbind (admitTurnInTransaction env i (tw_pending w (ai_sessionId i)) nowMs leaseId
              (tw_db w) (tw_rest w))
       (\<lambda>((status, recovered), db1, q1).
          let w1 = w\<lparr>tw_db := db1, tw_rest := q1,
                     tw_pending := (tw_pending w)(ai_sessionId i := None)\<rparr> in
          case status of
            Admitted _ _ _ \<Rightarrow>
              let (facts, token, q2) =
                    fence_accepted (te_fence env) q1 (ai_sessionId i) (ai_consumeQueuePause i)
              in Inr (\<lparr>ar_status = status, ar_foreground = ai_foreground i,
                        ar_revokeToken = token, ar_recovered = recovered\<rparr>,
                      facts, w1\<lparr>tw_rest := q2\<rparr>)
          | _ \<Rightarrow> Inr (\<lparr>ar_status = status, ar_foreground = False, ar_revokeToken = None,
                        ar_recovered = recovered\<rparr>, [], w1))"

section \<open>Settlement\<close>

datatype settle_status = Settled int terminal_outcome | StaleOwner

definition settleInTransaction ::
  "string \<Rightarrow> string \<Rightarrow> string \<Rightarrow> terminal_outcome \<Rightarrow> int \<Rightarrow> turn_db \<Rightarrow>
   (settle_status \<times> turn_db) tresult" where
  "settleInTransaction s turnId leaseId outcome completedAtMs db =
     (case (findSessionLock db s, latestAccepted db s) of
        (Some lock, Some accepted) \<Rightarrow>
          if l_ownerId lock \<noteq> leaseId \<or> t_turnId accepted \<noteq> turnId then Inr (StaleOwner, db)
          else
            let p = accepted_turn s turnId;
                updated = turn_changes p db;
                db1 = update_turns p (settle_row (outcome_status outcome) completedAtMs) db;
                (released, db2) = releaseOrPromoteDeletionFence s leaseId (l_ownerKind lock)
                                    completedAtMs db1
            in if updated \<noteq> 1 \<or> released \<noteq> 1 then Inl (LostOwnership s turnId)
               else Inr (Settled completedAtMs outcome, db2)
      | _ \<Rightarrow> Inr (StaleOwner, db))"

text \<open>
  \<open>settle\<close>. The transaction can also fail for a reason outside the tables (a busy or full
  database), the argument \<open>failure\<close>; either way the settlement is remembered as pending and the
  error is thrown on, which is why the world is returned next to the result.
\<close>

definition settleTurn ::
  "'q turn_env \<Rightarrow> string \<Rightarrow> string \<Rightarrow> string \<Rightarrow> terminal_outcome \<Rightarrow> pause_cause option \<Rightarrow> int \<Rightarrow>
   turn_error option \<Rightarrow> 'q turn_world \<Rightarrow>
   (settle_status \<times> queue_fact list) tresult \<times> 'q turn_world" where
  "settleTurn env s turnId leaseId outcome queuePauseCause completedAtMs failure w =
     (let pending = \<lparr>ps_sessionId = s, ps_turnId = turnId, ps_leaseId = leaseId\<rparr> in
      case (case failure of
              Some e \<Rightarrow> Inl e
            | None \<Rightarrow> settleInTransaction s turnId leaseId outcome completedAtMs (tw_db w)) of
        Inl e \<Rightarrow> (Inl e, w\<lparr>tw_pending := (tw_pending w)(s \<mapsto> pending)\<rparr>)
      | Inr (result, db1) \<Rightarrow>
          let (facts, q1) =
                (case result of
                   Settled _ _ \<Rightarrow> fence_settled (te_fence env) (tw_rest w) s turnId
                                    queuePauseCause completedAtMs
                 | StaleOwner \<Rightarrow> ([], tw_rest w))
          in (Inr (result, facts),
              w\<lparr>tw_db := db1, tw_rest := q1,
                tw_pending := (if tw_pending w s = Some pending then (tw_pending w)(s := None)
                               else tw_pending w)\<rparr>))"

definition recoverExpiredTurn ::
  "string \<Rightarrow> int \<Rightarrow> 'q turn_world \<Rightarrow> (bool \<times> terminal_fact list) \<times> 'q turn_world" where
  "recoverExpiredTurn s nowMs w =
     (let (result, db1) = recoverExpired s nowMs (tw_db w) in (result, w\<lparr>tw_db := db1\<rparr>))"

section \<open>Recovery after a restart of the process\<close>

definition PROCESS_RESTART_OWNER_KINDS :: "string list" where
  "PROCESS_RESTART_OWNER_KINDS =
     [''turn'', ''compaction'', ''send'', ''dispatcher'', MAINTENANCE, TURN_DELETING,
      COMPACTION_DELETING, MAINTENANCE_DELETING, SESSION_DELETION]"

definition isDeletingTurnOwnerKind :: "string \<Rightarrow> bool" where
  "isDeletingTurnOwnerKind kind \<longleftrightarrow> kind = TURN_DELETING \<or> kind = COMPACTION_DELETING"

definition isTurnOwnerKind :: "string \<Rightarrow> bool" where
  "isTurnOwnerKind kind \<longleftrightarrow>
     kind = ''turn'' \<or> kind = ''compaction'' \<or> kind = ''send'' \<or> kind = ''dispatcher'' \<or>
     isDeletingTurnOwnerKind kind"

record restart_entry =
  re_sessionId :: string
  re_ownerKind :: string
  re_turnId :: "string option"

definition restartRecoveryEntry :: "string \<Rightarrow> string \<Rightarrow> string option \<Rightarrow> restart_entry" where
  "restartRecoveryEntry s kind turnId =
     \<lparr>re_sessionId = s, re_ownerKind = kind, re_turnId = truthy turnId\<rparr>"

definition failLatestAcceptedTurn ::
  "string \<Rightarrow> int \<Rightarrow> turn_db \<Rightarrow> (string option \<times> turn_db) tresult" where
  "failLatestAcceptedTurn s completedAtMs db =
     (case latestAccepted db s of
        None \<Rightarrow> Inr (None, db)
      | Some orphan \<Rightarrow>
          let p = (\<lambda>t. t_turnId t = t_turnId orphan \<and> t_status t = TurnAccepted) in
          if turn_changes p db \<noteq> 1 then Inl (LostOwnership s (t_turnId orphan))
          else Inr (Some (t_turnId orphan),
                    update_turns p (settle_row TurnFailed completedAtMs) db))"

definition recoverProcessRestartLock ::
  "session_lock \<Rightarrow> int \<Rightarrow> turn_db \<Rightarrow> (restart_entry \<times> turn_db) tresult" where
  "recoverProcessRestartLock lock completedAtMs db =
     rbind (if isTurnOwnerKind (l_ownerKind lock)
            then failLatestAcceptedTurn (l_sessionId lock) completedAtMs db else Inr (None, db))
       (\<lambda>(turnId, db1).
          let p = (\<lambda>l. owned_lock (l_sessionId lock) (l_ownerId lock) l \<and>
                       l_ownerKind l = l_ownerKind lock \<and> l_acquiredAtMs l = l_acquiredAtMs lock)
          in if lock_changes p db1 \<noteq> 1 then Inl (LostOwnership (l_sessionId lock) (l_ownerId lock))
             else Inr (restartRecoveryEntry (l_sessionId lock) (l_ownerKind lock) turnId,
                       delete_locks p db1))"

text \<open>
  The owner of a lease of an older format: \<open>turn-lease:\<close> and a UUID, compared without regard to
  case (\<open>/i\<close>).
\<close>

definition ascii_lower :: "char \<Rightarrow> nat" where
  "ascii_lower c = (let n = of_char c in if 65 \<le> n \<and> n \<le> 90 then n + 32 else n)"

definition is_hex :: "char \<Rightarrow> bool" where
  "is_hex c \<longleftrightarrow> (let n = ascii_lower c in (48 \<le> n \<and> n \<le> 57) \<or> (97 \<le> n \<and> n \<le> 102))"

fun hex_groups :: "nat list \<Rightarrow> string \<Rightarrow> bool" where
  "hex_groups [] s \<longleftrightarrow> s = []"
| "hex_groups [n] s \<longleftrightarrow> length s = n \<and> list_all is_hex s"
| "hex_groups (n # m # ns) s \<longleftrightarrow>
     list_all is_hex (take n s) \<and> n < length s \<and> s ! n = CHR ''-'' \<and>
     hex_groups (m # ns) (drop (Suc n) s)"

definition legacyTurnLeaseOwnerId :: "string \<Rightarrow> bool" where
  "legacyTurnLeaseOwnerId owner \<longleftrightarrow>
     map ascii_lower (take 11 owner) = map ascii_lower ''turn-lease:'' \<and>
     hex_groups [8, 4, 4, 4, 12] (drop 11 owner)"

definition LEGACY_TURN_LEASE_STALL_MS :: int where "LEGACY_TURN_LEASE_STALL_MS = 30000"

definition lease_key_of :: "session_lock \<Rightarrow> lease_key" where
  "lease_key_of l = (l_sessionId l, l_ownerId l, l_ownerKind l, l_acquiredAtMs l)"

text \<open>The decision, the observations and the keys seen in this pass.\<close>

definition shouldRecoverLegacyTurnLease ::
  "session_lock \<Rightarrow> int \<Rightarrow> observations \<times> lease_key list \<Rightarrow>
   bool \<times> observations \<times> lease_key list" where
  "shouldRecoverLegacyTurnLease lock observedAtMs = (\<lambda>(obs, seen).
     if \<not> legacyTurnLeaseOwnerId (l_ownerId lock) then (False, obs, seen)
     else
       let key = lease_key_of lock; seen' = key # seen;
           first = obs(key \<mapsto> \<lparr>ob_expiresAtMs = l_expiresAtMs lock,
                              ob_unchangedSinceMs = observedAtMs\<rparr>)
       in case obs key of
            None \<Rightarrow> (False, first, seen')
          | Some previous \<Rightarrow>
              if ob_expiresAtMs previous \<noteq> l_expiresAtMs lock \<or>
                 observedAtMs < ob_unchangedSinceMs previous
              then (False, first, seen')
              else if observedAtMs - ob_unchangedSinceMs previous < LEGACY_TURN_LEASE_STALL_MS
              then (False, obs, seen')
              else (True, obs(key := None), seen'))"

record restart_result =
  rr_recovered :: "restart_entry list"
  rr_live :: "string list"
  rr_pendingDeletion :: "string list"

text \<open>
  One orphaned lock: what the pass does with it. The observations survive an error, since the
  map in memory is not part of the transaction.
\<close>

definition recover_lock ::
  "'q turn_env \<Rightarrow> (string \<Rightarrow> string) \<Rightarrow> int \<Rightarrow> session_lock \<Rightarrow> observations \<times> lease_key list \<Rightarrow>
   restart_result \<Rightarrow> turn_db \<Rightarrow>
   (observations \<times> lease_key list) \<times> (restart_result \<times> turn_db) tresult" where
  "recover_lock env makeDeletionOwnerId completedAtMs lock seen result db =
     (let ownerAlive = te_ownerAlive env (l_ownerId lock);
          unknown = ownerAlive = None \<and> l_expiresAtMs lock > completedAtMs;
          (stalled, seen') = (if unknown then shouldRecoverLegacyTurnLease lock completedAtMs seen
                              else (False, seen))
      in
      if ownerAlive = Some True \<or> (unknown \<and> \<not> stalled)
      then (seen', Inr (result\<lparr>rr_live := rr_live result @ [l_sessionId lock]\<rparr>, db))
      else if l_ownerKind lock = SESSION_DELETION then
        let p = (\<lambda>l. owned_lock (l_sessionId lock) (l_ownerId lock) l \<and>
                     l_ownerKind l = l_ownerKind lock \<and> l_acquiredAtMs l = l_acquiredAtMs lock)
        in (seen',
            if lock_changes p db \<noteq> 1
            then Inl (LostOwnership (l_sessionId lock) (l_ownerId lock))
            else Inr (result\<lparr>rr_pendingDeletion := rr_pendingDeletion result @ [l_sessionId lock]\<rparr>,
                      update_locks p
                        (\<lambda>l. l\<lparr>l_ownerId := makeDeletionOwnerId (l_sessionId lock),
                               l_acquiredAtMs := completedAtMs,
                               l_expiresAtMs := DELETION_FENCE_EXPIRES_AT_MS\<rparr>) db))
      else (seen',
            rbind (recoverProcessRestartLock lock completedAtMs db)
              (\<lambda>(entry, db1).
                 Inr (result\<lparr>rr_recovered := rr_recovered result @ [entry]\<rparr>, db1))))"

fun recover_locks ::
  "'q turn_env \<Rightarrow> (string \<Rightarrow> string) \<Rightarrow> int \<Rightarrow> session_lock list \<Rightarrow>
   observations \<times> lease_key list \<Rightarrow> restart_result \<Rightarrow> turn_db \<Rightarrow>
   (observations \<times> lease_key list) \<times> (restart_result \<times> turn_db) tresult" where
  "recover_locks env mk completedAtMs [] seen result db = (seen, Inr (result, db))"
| "recover_locks env mk completedAtMs (lock # locks) seen result db =
     (case recover_lock env mk completedAtMs lock seen result db of
        (seen', Inl e) \<Rightarrow> (seen', Inl e)
      | (seen', Inr (result', db')) \<Rightarrow>
          recover_locks env mk completedAtMs locks seen' result' db')"

definition orphaned_locks :: "int \<Rightarrow> turn_db \<Rightarrow> session_lock list" where
  "orphaned_locks processStartedAtMs db =
     sort_key l_sessionId
       (filter (\<lambda>l. l_ownerKind l \<in> set PROCESS_RESTART_OWNER_KINDS \<and>
                    l_acquiredAtMs l < processStartedAtMs) (td_locks db))"

definition restart_facts :: "int \<Rightarrow> restart_entry list \<Rightarrow> terminal_fact list" where
  "restart_facts completedAtMs entries =
     concat (map (\<lambda>e. case re_turnId e of
                        None \<Rightarrow> []
                      | Some t \<Rightarrow> [createRecoveredTerminalFact (re_sessionId e) t completedAtMs
                                     ProcessRestart]) entries)"

definition recoverProcessRestart ::
  "'q turn_env \<Rightarrow> (string \<Rightarrow> string) \<Rightarrow> int \<Rightarrow> int \<Rightarrow> observations \<Rightarrow> turn_db \<Rightarrow>
   (observations \<times> lease_key list) \<times> (restart_result \<times> turn_db) tresult" where
  "recoverProcessRestart env mk processStartedAtMs completedAtMs obs db =
     recover_locks env mk completedAtMs (orphaned_locks processStartedAtMs db) (obs, [])
       \<lparr>rr_recovered = [], rr_live = [], rr_pendingDeletion = []\<rparr> db"

definition persistedTurnConsumesQueuePause :: "turn_db \<Rightarrow> string \<Rightarrow> bool" where
  "persistedTurnConsumesQueuePause db s =
     (case latestAccepted db s of
        None \<Rightarrow> False
      | Some row \<Rightarrow>
          (case t_inputMetadata row of
             JObj metadata \<Rightarrow> js_get metadata ''consumeQueuePause'' = JBool True
           | _ \<Rightarrow> False))"

fun consume_live_pauses ::
  "'q turn_env \<Rightarrow> turn_db \<Rightarrow> string list \<Rightarrow> 'q \<Rightarrow> queue_fact list \<times> 'q" where
  "consume_live_pauses env db [] q = ([], q)"
| "consume_live_pauses env db (s # ss) q =
     (let (facts, q1) = (if persistedTurnConsumesQueuePause db s
                         then let (fs, _, q') = fence_accepted (te_fence env) q s True in (fs, q')
                         else ([], q));
          (facts', q2) = consume_live_pauses env db ss q1
      in (facts @ facts', q2))"

text \<open>
  \<open>recoverRepositoryProcessRestart\<close>: \<open>processStartedAtMs\<close> must be finite. Observations of leases
  the pass did not see are dropped, but only when the transaction committed.
\<close>

definition recoverRepositoryProcessRestart ::
  "'q turn_env \<Rightarrow> (string \<Rightarrow> string) \<Rightarrow> jsnum \<Rightarrow> int \<Rightarrow> 'q turn_world \<Rightarrow>
   (restart_result \<times> terminal_fact list \<times> queue_fact list) tresult \<times> 'q turn_world" where
  "recoverRepositoryProcessRestart env mk processStartedAtMs completedAtMs w =
     (case processStartedAtMs of
        NonFinite \<Rightarrow> (Inl (TurnTypeError ''processStartedAtMs must be finite''), w)
      | Fin started \<Rightarrow>
          (case recoverProcessRestart env mk started completedAtMs (tw_observed w) (tw_db w) of
             ((obs, seen), Inl e) \<Rightarrow> (Inl e, w\<lparr>tw_observed := obs\<rparr>)
           | ((obs, seen), Inr (result, db1)) \<Rightarrow>
               let (queueFacts, q1) = consume_live_pauses env db1 (rr_live result) (tw_rest w)
               in (Inr (result, restart_facts completedAtMs (rr_recovered result), queueFacts),
                   w\<lparr>tw_db := db1, tw_rest := q1, tw_observed := obs |` set seen\<rparr>)))"

section \<open>Session deletion\<close>

datatype deletion_state =
    DeletionNotStarted
  | DeletionQuiescent
  | DeletionMaintenance
  | DeletionActive string

definition recoverExpiredDeletionTurn :: "string \<Rightarrow> int \<Rightarrow> turn_db \<Rightarrow> turn_db tresult" where
  "recoverExpiredDeletionTurn s completedAtMs db =
     (case findSessionLock db s of
        None \<Rightarrow> Inr db
      | Some lock \<Rightarrow>
          if deletionPendingOwnerKind (l_ownerKind lock) = None \<or>
             l_expiresAtMs lock > completedAtMs
          then Inr db
          else if l_ownerKind lock = MAINTENANCE_DELETING
          then Inr (update_locks (owned_lock s (l_ownerId lock)) (deletion_lock completedAtMs) db)
          else rbind (requireAcceptedTurnId db s)
            (\<lambda>turnId.
               let p = accepted_turn s turnId;
                   updated = turn_changes p db;
                   db1 = update_turns p (settle_row TurnFailed completedAtMs) db;
                   (promoted, db2) = releaseOrPromoteDeletionFence s (l_ownerId lock)
                                       (l_ownerKind lock) completedAtMs db1
               in if updated \<noteq> 1 \<or> promoted \<noteq> 1 then Inl (LostOwnership s turnId)
                  else Inr db2))"

text \<open>\<open>beginSessionDeletionInTransaction\<close>; \<open>owner\<close> is the value \<open>makeDeletionOwnerId\<close> returns.\<close>

definition beginSessionDeletionInTransaction ::
  "'q turn_env \<Rightarrow> string \<Rightarrow> int \<Rightarrow> string \<Rightarrow> turn_db \<Rightarrow> (deletion_state \<times> turn_db) tresult" where
  "beginSessionDeletionInTransaction env s now owner db0 =
     rbind (recoverExpiredDeletionTurn s now db0)
       (\<lambda>db.
          case findSessionLock db s of
            None \<Rightarrow>
              rbind (insert_lock \<lparr>l_sessionId = s, l_ownerId = owner,
                       l_ownerKind = SESSION_DELETION, l_acquiredAtMs = now,
                       l_expiresAtMs = DELETION_FENCE_EXPIRES_AT_MS\<rparr> db)
                (\<lambda>db1. Inr (DeletionQuiescent, db1))
          | Some lock \<Rightarrow>
              if l_ownerKind lock = SESSION_DELETION then
                if te_ownerCurrent env (l_ownerId lock) then Inr (DeletionQuiescent, db)
                else if te_ownerAlive env (l_ownerId lock) \<noteq> Some False
                then Inl (DeletionOwnedElsewhere s)
                else
                  let p = (\<lambda>l. owned_lock s (l_ownerId lock) l \<and> l_ownerKind l = SESSION_DELETION)
                  in if lock_changes p db \<noteq> 1 then Inl (LostOwnership s (l_ownerId lock))
                     else Inr (DeletionQuiescent,
                               update_locks p
                                 (\<lambda>l. l\<lparr>l_ownerId := owner, l_acquiredAtMs := now,
                                        l_expiresAtMs := DELETION_FENCE_EXPIRES_AT_MS\<rparr>) db)
              else
                (case deletionPendingOwnerKind (l_ownerKind lock) of
                   None \<Rightarrow> Inl (LockCannotEnterDeletion s (l_ownerKind lock))
                 | Some deletingKind \<Rightarrow>
                     let db1 = (if l_ownerKind lock \<noteq> deletingKind
                                then update_locks (owned_lock s (l_ownerId lock))
                                       (\<lambda>l. l\<lparr>l_ownerKind := deletingKind\<rparr>) db
                                else db)
                     in if deletingKind = MAINTENANCE_DELETING then Inr (DeletionMaintenance, db1)
                        else rbind (requireAcceptedTurnId db1 s)
                               (\<lambda>turnId. Inr (DeletionActive turnId, db1))))"

definition beginSessionDeletion ::
  "'q turn_env \<Rightarrow> string \<Rightarrow> int \<Rightarrow> string \<Rightarrow> 'q turn_world \<Rightarrow>
   (deletion_state \<times> 'q turn_world) tresult" where
  "beginSessionDeletion env s now owner w =
     (let db1 = (case tw_pending w s of
                   None \<Rightarrow> tw_db w
                 | Some pending \<Rightarrow> snd (recoverPendingSettlement pending now (tw_db w)))
      in rbind (beginSessionDeletionInTransaction env s now owner db1)
           (\<lambda>(state, db2). Inr (state, w\<lparr>tw_db := db2,
                                        tw_pending := (tw_pending w)(s := None)\<rparr>)))"

definition readSessionDeletionState :: "turn_db \<Rightarrow> string \<Rightarrow> deletion_state tresult" where
  "readSessionDeletionState db s =
     (case findSessionLock db s of
        None \<Rightarrow> Inr DeletionNotStarted
      | Some lock \<Rightarrow>
          if \<not> isDeletionOwnerKind (l_ownerKind lock) then Inr DeletionNotStarted
          else if l_ownerKind lock = SESSION_DELETION then Inr DeletionQuiescent
          else if l_ownerKind lock = MAINTENANCE_DELETING then Inr DeletionMaintenance
          else rbind (requireAcceptedTurnId db s) (\<lambda>turnId. Inr (DeletionActive turnId)))"

definition isSessionDeleting :: "'q turn_env \<Rightarrow> string \<Rightarrow> 'q turn_world \<Rightarrow> bool" where
  "isSessionDeleting env s w \<longleftrightarrow>
     te_rejection env (tw_rest w) s = Some RejSessionDeleting \<or>
     (case findSessionLock (tw_db w) s of
        None \<Rightarrow> False | Some lock \<Rightarrow> isDeletionOwnerKind (l_ownerKind lock))"

text \<open>
  Deleting a Turn row deletes the client requests that refer to it: \<open>ON DELETE CASCADE\<close>, with
  foreign keys enforced by the connection.
\<close>

definition delete_turns :: "(turn_row \<Rightarrow> bool) \<Rightarrow> turn_db \<Rightarrow> turn_db" where
  "delete_turns p db =
     (let gone = map t_turnId (filter p (td_turns db)) in
      db\<lparr>td_turns := filter (\<lambda>t. \<not> p t) (td_turns db),
         td_clients := filter (\<lambda>r. r_turnId r \<notin> set gone) (td_clients db)\<rparr>)"

definition delete_sequences :: "string list \<Rightarrow> turn_db \<Rightarrow> turn_db" where
  "delete_sequences turnIds db =
     db\<lparr>td_sequences := filter (\<lambda>(_, t). t \<notin> set turnIds) (td_sequences db)\<rparr>"

definition delete_clients :: "(client_request \<Rightarrow> bool) \<Rightarrow> turn_db \<Rightarrow> turn_db" where
  "delete_clients p db = db\<lparr>td_clients := filter (\<lambda>r. \<not> p r) (td_clients db)\<rparr>"

definition deleteTurnSessionData :: "string \<Rightarrow> 'q turn_world \<Rightarrow> 'q turn_world tresult" where
  "deleteTurnSessionData s w =
     (let db = tw_db w;
          lock = findSessionLock db s;
          turnIds = map t_turnId (filter (\<lambda>t. t_sessionId t = s) (td_turns db));
          done = w\<lparr>tw_pending := (tw_pending w)(s := None)\<rparr>
      in if lock = None \<and> turnIds = [] then Inr done
         else if map_option l_ownerKind lock \<noteq> Some SESSION_DELETION
         then Inl (DeletionNotQuiescent s)
         else Inr (done\<lparr>tw_db :=
                delete_turns (\<lambda>t. t_sessionId t = s)
                  (delete_sequences turnIds (delete_clients (\<lambda>r. r_sessionId r = s) db))\<rparr>))"

definition completeTurnSessionDeletion ::
  "'q turn_env \<Rightarrow> string \<Rightarrow> turn_db \<Rightarrow> turn_db tresult" where
  "completeTurnSessionDeletion env s db =
     (case findSessionLock db s of
        None \<Rightarrow> Inr db
      | Some lock \<Rightarrow>
          if l_ownerKind lock \<noteq> SESSION_DELETION then Inl (DeletionNotQuiescent s)
          else if \<not> te_ownerCurrent env (l_ownerId lock) then Inl (DeletionOwnedElsewhere s)
          else (case List.find (\<lambda>t. t_sessionId t = s) (td_turns db) of
                  Some t \<Rightarrow> Inl (DeletionTurnRemaining s (t_turnId t))
                | None \<Rightarrow> Inr (delete_locks (\<lambda>l. l_sessionId l = s) db)))"

section \<open>Receipts and activity\<close>

record turn_receipt =
  rc_sessionId :: string
  rc_turnId :: string
  rc_inputDigest :: string
  rc_acceptedSequence :: nat

text \<open>\<open>Number.isSafeInteger\<close> holds up to 2 to the 53 less 1.\<close>

definition MAX_SAFE_INTEGER :: nat where "MAX_SAFE_INTEGER = 9007199254740991"

definition findTurnReceipt :: "turn_db \<Rightarrow> string \<Rightarrow> turn_receipt option tresult" where
  "findTurnReceipt db turnId =
     (case List.find (\<lambda>t. t_turnId t = turnId) (td_turns db) of
        None \<Rightarrow> Inr None
      | Some receipt \<Rightarrow>
          (case (storedBusyReason (t_busyReason receipt), truthy (t_inputDigest receipt),
                 t_acceptedSequence receipt) of
             (Some _, Some digest, Some sequence) \<Rightarrow>
               if sequence \<le> MAX_SAFE_INTEGER \<and> 0 < sequence
               then Inr (Some \<lparr>rc_sessionId = t_sessionId receipt, rc_turnId = t_turnId receipt,
                               rc_inputDigest = digest, rc_acceptedSequence = sequence\<rparr>)
               else Inl (ReceiptMalformed turnId)
           | _ \<Rightarrow> Inl (ReceiptMalformed turnId)))"

definition findActiveTurn :: "turn_db \<Rightarrow> string \<Rightarrow> int \<Rightarrow> (string \<times> busy_reason) option" where
  "findActiveTurn db s nowMs =
     (if list_ex (\<lambda>l. l_sessionId l = s \<and>
                      l_ownerKind l \<in> {''turn'', ''compaction'', TURN_DELETING,
                                       COMPACTION_DELETING} \<and>
                      l_expiresAtMs l > nowMs) (td_locks db)
      then (case latestAccepted db s of
              None \<Rightarrow> None
            | Some accepted \<Rightarrow>
                map_option (\<lambda>busyReason. (t_turnId accepted, busyReason))
                  (storedBusyReason (t_busyReason accepted)))
      else None)"

record turn_activity =
  ta_turnId :: string
  ta_acceptedAtMs :: int
  ta_completedAtMs :: "int option"
  ta_activityAtMs :: int

definition findLatestTurnActivity :: "turn_db \<Rightarrow> string \<Rightarrow> turn_activity option" where
  "findLatestTurnActivity db s =
     map_option
       (\<lambda>latest. \<lparr>ta_turnId = t_turnId latest, ta_acceptedAtMs = t_acceptedAtMs latest,
                  ta_completedAtMs = t_completedAtMs latest,
                  ta_activityAtMs = max (t_acceptedAtMs latest)
                    (case t_completedAtMs latest of None \<Rightarrow> t_acceptedAtMs latest | Some c \<Rightarrow> c)\<rparr>)
       (latest_row (filter (\<lambda>t. t_sessionId t = s) (td_turns db)))"

definition client_mapping :: "turn_db \<Rightarrow> string \<Rightarrow> string \<Rightarrow> client_request option" where
  "client_mapping db s c =
     List.find (\<lambda>r. r_sessionId r = s \<and> r_clientRequestId r = c) (td_clients db)"

definition findSteeringReceipt ::
  "turn_db \<Rightarrow> string \<Rightarrow> string \<Rightarrow> turn_receipt option tresult" where
  "findSteeringReceipt db s c =
     (case client_mapping db s c of
        None \<Rightarrow> Inr None | Some r \<Rightarrow> findTurnReceipt db (r_turnId r))"

datatype reserve_status = Reserved | ReserveDuplicate string | ReserveNotAccepted

definition reserveSteeringReceipt ::
  "string \<Rightarrow> string \<Rightarrow> string \<Rightarrow> turn_db \<Rightarrow> (reserve_status \<times> turn_db) tresult" where
  "reserveSteeringReceipt s c turnId db =
     (case client_mapping db s c of
        Some existing \<Rightarrow> Inr (ReserveDuplicate (r_turnId existing), db)
      | None \<Rightarrow>
          if \<not> list_ex (accepted_turn s turnId) (td_turns db) then Inr (ReserveNotAccepted, db)
          else rbind (insert_client \<lparr>r_sessionId = s, r_clientRequestId = c, r_turnId = turnId\<rparr> db)
                 (\<lambda>db1. Inr (Reserved, db1)))"

definition releaseSteeringReceipt :: "string \<Rightarrow> string \<Rightarrow> string \<Rightarrow> turn_db \<Rightarrow> turn_db" where
  "releaseSteeringReceipt s c turnId =
     delete_clients (\<lambda>r. r_sessionId r = s \<and> r_clientRequestId r = c \<and> r_turnId r = turnId)"

section \<open>Revocation and the acceptance lookup\<close>

definition revokeAdmission ::
  "'q turn_env \<Rightarrow> string \<Rightarrow> string \<Rightarrow> string \<Rightarrow> queue_pause option \<Rightarrow> int \<Rightarrow> 'q turn_world \<Rightarrow>
   bool \<times> queue_fact list \<times> 'q turn_world" where
  "revokeAdmission env s turnId leaseId revokeToken restoredAtMs w =
     (let db = tw_db w;
          accepted = list_ex (accepted_turn s turnId) (td_turns db);
          owned = (case findSessionLock db s of
                     None \<Rightarrow> False
                   | Some lock \<Rightarrow> l_ownerId lock = leaseId \<and> l_ownerKind lock = ''turn'')
      in if \<not> accepted \<or> \<not> owned then (False, [], w)
         else
           let db1 = delete_clients (\<lambda>r. r_turnId r = turnId) db;
               db2 = delete_sequences [turnId] db1;
               db3 = delete_turns (\<lambda>t. t_turnId t = turnId) db2;
               db4 = delete_locks (\<lambda>l. owned_lock s leaseId l \<and> l_ownerKind l = ''turn'') db3;
               (facts, q1) = fence_revoked (te_fence env) (tw_rest w) s revokeToken restoredAtMs
           in (True, facts, w\<lparr>tw_db := db4, tw_rest := q1\<rparr>))"

definition findAcceptedQueueTurn :: "turn_db \<Rightarrow> acceptance_query \<Rightarrow> turn_row option" where
  "findAcceptedQueueTurn db q =
     (case List.find (\<lambda>t. t_sessionId t = aq_sessionId q \<and> t_claimId t = Some (aq_claimId q))
             (td_turns db) of
        None \<Rightarrow> None
      | Some receipt \<Rightarrow>
          if t_claimSource receipt = Some (source_name (aq_source q)) \<and>
             (case truthy (aq_turnId q) of None \<Rightarrow> True | Some t \<Rightarrow> t_turnId receipt = t) \<and>
             sameStrings (parseStringArray (t_queueItemIds receipt)) (aq_queueItemIds q)
          then Some receipt else None)"

definition isAcceptedInTransaction :: "turn_db \<Rightarrow> acceptance_query \<Rightarrow> bool" where
  "isAcceptedInTransaction db q \<longleftrightarrow> findAcceptedQueueTurn db q \<noteq> None"

definition markAcknowledgedInTransaction ::
  "int \<Rightarrow> turn_db \<Rightarrow> acceptance_query \<Rightarrow> turn_db tresult" where
  "markAcknowledgedInTransaction nowMs db q =
     (case findAcceptedQueueTurn db q of
        None \<Rightarrow> Inl (ClaimNotAccepted (aq_sessionId q) (aq_claimId q))
      | Some receipt \<Rightarrow>
          Inr (update_turns (\<lambda>t. t_turnId t = t_turnId receipt)
                 (\<lambda>t. t\<lparr>t_queueAcknowledgedAtMs := Some nowMs\<rparr>) db))"

text \<open>
  The repository as the queue's acceptance lookup, over the Turn tables of the shared database.
  The queue asks only after \<open>isAccepted\<close> held in the same transaction, so its error is the
  repository's own.
\<close>

definition turn_acceptance :: "int \<Rightarrow> turn_db acceptance_lookup" where
  "turn_acceptance nowMs =
     \<lparr> isAccepted = isAcceptedInTransaction,
       markAcknowledged = (\<lambda>db q.
         case markAcknowledgedInTransaction nowMs db q of
           Inl _ \<Rightarrow> Inl (QueueClaimNotAcceptedError (aq_sessionId q) (aq_claimId q) (aq_turnId q))
         | Inr db1 \<Rightarrow> Inr db1) \<rparr>"

end
