(* ===== verification/TurnInv.thy ===== *)
theory TurnInv
  imports TurnRepo
begin

text \<open>
  The invariant of the Turn tables and the contract of an operation on one Session.

  \<open>turn_ok\<close>: a Session has at most one lock, of a kind the repository writes; the identities of
  Turns, claims and client requests are unique; the sequence table lists the Turns in order with
  ascending numbers below the counter; and a Session has exactly one accepted Turn while its lock
  is of a Turn kind, none otherwise.

  \<open>turn_step s db db'\<close>: the invariant holds after the operation and what every other Session sees
  of the tables is what it saw before.
\<close>

named_theorems turn_simps

section \<open>The invariant\<close>

definition turn_kind :: "string \<Rightarrow> bool" where
  "turn_kind k \<longleftrightarrow> k = ''turn'' \<or> k = ''compaction'' \<or> k = TURN_DELETING \<or> k = COMPACTION_DELETING"

definition known_kind :: "string \<Rightarrow> bool" where
  "known_kind k \<longleftrightarrow> turn_kind k \<or> k = MAINTENANCE \<or> k = MAINTENANCE_DELETING \<or> k = SESSION_DELETION"

definition active :: "turn_db \<Rightarrow> string \<Rightarrow> turn_row list" where
  "active db s = filter (accepted_of s) (td_turns db)"

definition turn_locked :: "turn_db \<Rightarrow> string \<Rightarrow> bool" where
  "turn_locked db s \<longleftrightarrow>
     (case findSessionLock db s of None \<Rightarrow> False | Some l \<Rightarrow> turn_kind (l_ownerKind l))"

definition locks_ok :: "session_lock list \<Rightarrow> bool" where
  "locks_ok ls \<longleftrightarrow> distinct (map l_sessionId ls) \<and> (\<forall>l \<in> set ls. known_kind (l_ownerKind l))"

text \<open>The columns no update changes.\<close>

definition row_key ::
  "turn_row \<Rightarrow> string \<times> string \<times> string option \<times> string option \<times> nat option" where
  "row_key t = (t_turnId t, t_sessionId t, t_claimId t, t_clientRequestId t, t_acceptedSequence t)"

definition keys_ok ::
  "(string \<times> string \<times> string option \<times> string option \<times> nat option) list \<Rightarrow>
   (nat \<times> string) list \<Rightarrow> nat \<Rightarrow> client_request list \<Rightarrow> bool" where
  "keys_ok ks sequences next clients \<longleftrightarrow>
     distinct (map fst ks) \<and>
     distinct (filter (\<lambda>c. c \<noteq> None) (map (\<lambda>(_, _, c, _). c) ks)) \<and>
     distinct (filter (\<lambda>(_, r). r \<noteq> None) (map (\<lambda>(_, s, _, r, _). (s, r)) ks)) \<and>
     map (\<lambda>(t, _, _, _, n). (n, t)) ks = map (\<lambda>(n, t). (Some n, t)) sequences \<and>
     sorted_wrt (<) (map fst sequences) \<and> 0 < next \<and> (\<forall>n \<in> fst ` set sequences. 0 < n \<and> n < next) \<and>
     distinct (map (\<lambda>r. (r_sessionId r, r_clientRequestId r)) clients) \<and>
     (\<forall>r \<in> set clients. (r_turnId r, r_sessionId r) \<in> (\<lambda>(t, s, _). (t, s)) ` set ks)"

abbreviation keys :: "turn_db \<Rightarrow> bool" where
  "keys db \<equiv> keys_ok (map row_key (td_turns db)) (td_sequences db) (td_nextSequence db) (td_clients db)"

definition agree :: "turn_db \<Rightarrow> string \<Rightarrow> bool" where
  "agree db s \<longleftrightarrow> length (active db s) = (if turn_locked db s then 1 else 0)"

definition turn_ok :: "turn_db \<Rightarrow> bool" where
  "turn_ok db \<longleftrightarrow> locks_ok (td_locks db) \<and> keys db \<and> (\<forall>s. agree db s)"

section \<open>What a Session sees, and the contract\<close>

definition session_view ::
  "turn_db \<Rightarrow> string \<Rightarrow> session_lock option \<times> turn_row list \<times> client_request list" where
  "session_view db s = (findSessionLock db s, filter (\<lambda>t. t_sessionId t = s) (td_turns db),
                        filter (\<lambda>r. r_sessionId r = s) (td_clients db))"

definition turn_step :: "string \<Rightarrow> turn_db \<Rightarrow> turn_db \<Rightarrow> bool" where
  "turn_step s db db' \<longleftrightarrow> turn_ok db' \<and> td_nextSequence db \<le> td_nextSequence db' \<and>
     (\<forall>s'. s' \<noteq> s \<longrightarrow> session_view db' s' = session_view db s')"

lemma turn_step_refl: "turn_ok db \<Longrightarrow> turn_step s db db"
  by (simp add: turn_step_def)

lemma turn_step_trans: "turn_step s db db1 \<Longrightarrow> turn_step s db1 db2 \<Longrightarrow> turn_step s db db2"
  by (simp add: turn_step_def)

lemma turn_step_ok: "turn_step s db db' \<Longrightarrow> turn_ok db'"
  by (simp add: turn_step_def)

lemma active_view: "active db s = filter (\<lambda>t. t_status t = TurnAccepted) (fst (snd (session_view db s)))"
  by (simp add: active_def session_view_def accepted_of_def [abs_def] conj_commute)

lemma agree_view: "session_view db' s = session_view db s \<Longrightarrow> agree db' s = agree db s"
  by (simp add: agree_def active_view turn_locked_def) (simp add: session_view_def)

text \<open>A step is a change of one Session's view that keeps the three parts of the invariant.\<close>

lemma turn_stepI:
  assumes "turn_ok db" "locks_ok (td_locks db')" "keys db'" "agree db' s"
    and "\<And>s'. s' \<noteq> s \<Longrightarrow> session_view db' s' = session_view db s'"
    and "td_nextSequence db \<le> td_nextSequence db'"
  shows "turn_step s db db'"
proof -
  have "agree db' s'" for s'
    using assms(1,4) agree_view [OF assms(5)] by (cases "s' = s") (auto simp: turn_ok_def)
  with assms show ?thesis by (simp add: turn_step_def turn_ok_def)
qed

section \<open>Locks\<close>

lemma findSessionLock_SomeD:
  "findSessionLock db s = Some l \<Longrightarrow> l \<in> set (td_locks db) \<and> l_sessionId l = s"
  unfolding findSessionLock_def by (blast dest: find_SomeD)

lemma findSessionLock_None: "findSessionLock db s = None \<longleftrightarrow> s \<notin> l_sessionId ` set (td_locks db)"
  by (auto simp: findSessionLock_def find_None_iff)

lemma findSessionLock_unique:
  "locks_ok (td_locks db) \<Longrightarrow> l \<in> set (td_locks db) \<Longrightarrow> findSessionLock db (l_sessionId l) = Some l"
  by (metis findSessionLock_None findSessionLock_SomeD distinct_map_unique image_eqI locks_ok_def
      option.exhaust)

lemma filter_session_lock:
  assumes "locks_ok ls" "l \<in> set ls" "p l" "\<And>k. p k \<Longrightarrow> l_sessionId k = l_sessionId l"
  shows "length (filter p ls) = 1"
proof -
  have "distinct ls" using assms(1) by (auto simp: locks_ok_def distinct_map)
  moreover have "set (filter p ls) = {l}"
    using assms by (auto simp: locks_ok_def dest: distinct_map_unique)
  ultimately show ?thesis by (metis distinct_card distinct_filter card_1_singleton_iff One_nat_def)
qed

lemma find_filter_other:
  "(\<And>l. p l \<Longrightarrow> l_sessionId l = s) \<Longrightarrow> s' \<noteq> s \<Longrightarrow>
   List.find (\<lambda>l. l_sessionId l = s') (filter (\<lambda>l. \<not> p l) ls) = List.find (\<lambda>l. l_sessionId l = s') ls"
  by (induction ls) auto

lemma find_map_other:
  "(\<And>l. p l \<Longrightarrow> l_sessionId l = s) \<Longrightarrow> (\<And>l. l_sessionId (f l) = l_sessionId l) \<Longrightarrow> s' \<noteq> s \<Longrightarrow>
   List.find (\<lambda>l. l_sessionId l = s') (map (\<lambda>l. if p l then f l else l) ls) =
   List.find (\<lambda>l. l_sessionId l = s') ls"
  by (induction ls) auto

lemma delete_locks_other [turn_simps]:
  "(\<And>l. p l \<Longrightarrow> l_sessionId l = s) \<Longrightarrow> s' \<noteq> s \<Longrightarrow>
   findSessionLock (delete_locks p db) s' = findSessionLock db s'"
  unfolding findSessionLock_def delete_locks_def by (simp add: find_filter_other)

lemma update_locks_other [turn_simps]:
  "(\<And>l. p l \<Longrightarrow> l_sessionId l = s) \<Longrightarrow> (\<And>l. l_sessionId (f l) = l_sessionId l) \<Longrightarrow> s' \<noteq> s \<Longrightarrow>
   findSessionLock (update_locks p f db) s' = findSessionLock db s'"
  unfolding findSessionLock_def update_locks_def by (simp add: find_map_other)

lemma delete_locks_same:
  assumes "locks_ok (td_locks db)" "findSessionLock db s = Some l" "p l"
  shows "findSessionLock (delete_locks p db) s = None"
  using assms by (auto simp: findSessionLock_None delete_locks_def dest!: findSessionLock_unique)

lemma update_locks_same:
  assumes "locks_ok (td_locks db)" "findSessionLock db s = Some l" "p l"
    and "\<And>l. l_sessionId (f l) = l_sessionId l"
  shows "findSessionLock (update_locks p f db) s = Some (f l)"
proof -
  have "List.find (\<lambda>l. l_sessionId l = s) ls = Some l \<Longrightarrow>
        List.find (\<lambda>l. l_sessionId l = s) (map (\<lambda>l. if p l then f l else l) ls) = Some (f l)" for ls
    using assms(3,4) by (induction ls) (auto split: if_splits)
  then show ?thesis using assms(2) by (simp add: findSessionLock_def update_locks_def)
qed

lemma locks_ok_filter: "locks_ok ls \<Longrightarrow> locks_ok (filter p ls)"
  by (auto simp: locks_ok_def intro: distinct_map_filterI)

lemma locks_ok_map:
  assumes "locks_ok ls" "\<And>l. l_sessionId (f l) = l_sessionId l"
    and "\<And>l. l \<in> set ls \<Longrightarrow> p l \<Longrightarrow> known_kind (l_ownerKind (f l))"
  shows "locks_ok (map (\<lambda>l. if p l then f l else l) ls)"
proof -
  have "l_sessionId \<circ> (\<lambda>l. if p l then f l else l) = l_sessionId" using assms(2) by auto
  with assms show ?thesis by (auto simp: locks_ok_def)
qed

lemma insert_lock_Inr:
  "insert_lock l db = Inr db' \<longleftrightarrow>
   findSessionLock db (l_sessionId l) = None \<and> db' = db\<lparr>td_locks := td_locks db @ [l]\<rparr>"
  by (auto simp: insert_lock_def findSessionLock_None list_ex_iff) (metis imageI)

text \<open>What only the locks change leaves the rows of every Session alone.\<close>

lemma lock_fields [simp]:
  "td_turns (delete_locks p db) = td_turns db" "td_sequences (delete_locks p db) = td_sequences db"
  "td_nextSequence (delete_locks p db) = td_nextSequence db" "td_clients (delete_locks p db) = td_clients db"
  "td_turns (update_locks p f db) = td_turns db" "td_sequences (update_locks p f db) = td_sequences db"
  "td_nextSequence (update_locks p f db) = td_nextSequence db" "td_clients (update_locks p f db) = td_clients db"
  "td_locks (delete_locks p db) = filter (\<lambda>l. \<not> p l) (td_locks db)"
  "td_locks (update_locks p f db) = map (\<lambda>l. if p l then f l else l) (td_locks db)"
  by (simp_all add: delete_locks_def update_locks_def)

section \<open>Rows\<close>

lemma turn_fields [simp]:
  "td_locks (update_turns p f db) = td_locks db" "td_sequences (update_turns p f db) = td_sequences db"
  "td_nextSequence (update_turns p f db) = td_nextSequence db" "td_clients (update_turns p f db) = td_clients db"
  "td_turns (update_turns p f db) = map (\<lambda>t. if p t then f t else t) (td_turns db)"
  "findSessionLock (update_turns p f db) s = findSessionLock db s"
  by (simp_all add: update_turns_def findSessionLock_def)

lemma row_key_map:
  "(\<And>t. row_key (f t) = row_key t) \<Longrightarrow>
   map row_key (map (\<lambda>t. if p t then f t else t) ts) = map row_key ts"
  by simp

lemma row_key_settle [simp]: "row_key (settle_row st c t) = row_key t"
  by (simp add: row_key_def settle_row_def)

lemma keys_turnId: "keys db \<Longrightarrow> distinct (map t_turnId (td_turns db))"
  by (simp add: keys_ok_def row_key_def o_def)

lemma turn_unique:
  "turn_ok db \<Longrightarrow> t \<in> set (td_turns db) \<Longrightarrow> u \<in> set (td_turns db) \<Longrightarrow> t_turnId t = t_turnId u \<Longrightarrow> t = u"
  using keys_turnId by (auto simp: turn_ok_def dest: distinct_map_unique)

lemma latest_row_Some: "latest_row ts = Some t \<Longrightarrow> t \<in> set ts"
  by (induction ts arbitrary: t) (auto split: option.splits if_splits)

lemma latest_row_None [simp]: "latest_row ts = None \<longleftrightarrow> ts = []"
  by (cases ts) (auto split: option.splits if_splits)

lemma latestAccepted_active:
  assumes "agree db s"
  shows "(latestAccepted db s = None \<longleftrightarrow> active db s = []) \<and>
         (latestAccepted db s = Some t \<longleftrightarrow> active db s = [t])"
proof -
  have "length (active db s) \<le> 1" using assms by (simp add: agree_def split: if_splits)
  then have "active db s = [] \<or> (\<exists>u. active db s = [u])"
    by (cases "active db s"; cases "tl (active db s)") auto
  then show ?thesis by (auto simp: latestAccepted_def active_def)
qed

lemma active_Some:
  assumes "turn_ok db" "active db s = [t]"
  shows "t \<in> set (td_turns db)" "t_sessionId t = s" "t_status t = TurnAccepted" "turn_locked db s"
proof -
  have "t \<in> set (active db s)" using assms(2) by simp
  then show "t \<in> set (td_turns db)" "t_sessionId t = s" "t_status t = TurnAccepted"
    by (auto simp: active_def accepted_of_def)
  show "turn_locked db s"
    using assms by (auto simp: turn_ok_def agree_def split: if_splits dest: spec [of _ s])
qed

text \<open>Settling the accepted Turn of a Session, whichever predicate selects its row.\<close>

lemma settle_active:
  assumes ok: "turn_ok db" and a: "active db s = [t]" and st: "st \<noteq> TurnAccepted"
    and p: "\<And>u. u \<in> set (td_turns db) \<Longrightarrow> p u \<longleftrightarrow> u = t"
  shows "active (update_turns p (settle_row st c) db) s = []"
    and "s' \<noteq> s \<Longrightarrow> session_view (update_turns p (settle_row st c) db) s' = session_view db s'"
    and "keys (update_turns p (settle_row st c) db)"
    and "turn_changes p db = 1"
proof -
  note t = active_Some [OF ok a]
  show "active (update_turns p (settle_row st c) db) s = []"
  proof -
    have "\<not> accepted_of s (if p u then settle_row st c u else u)" if "u \<in> set (td_turns db)" for u
    proof (cases "u = t")
      case True
      then show ?thesis using p that st by (simp add: accepted_of_def settle_row_def)
    next
      case False
      then have "u \<notin> set (active db s)" using a by simp
      then show ?thesis using False p that by (simp add: active_def)
    qed
    then show ?thesis unfolding active_def filter_empty_conv turn_fields set_map by blast
  qed
  show "keys (update_turns p (settle_row st c) db)"
    using ok by (simp add: turn_ok_def row_key_map del: map_map)
  show "session_view (update_turns p (settle_row st c) db) s' = session_view db s'" if "s' \<noteq> s"
  proof -
    have "filter (\<lambda>t. t_sessionId t = s') (map (\<lambda>u. if p u then settle_row st c u else u) us) =
          filter (\<lambda>t. t_sessionId t = s') us" if "set us \<subseteq> set (td_turns db)" for us
      using that by (induction us) (use p t \<open>s' \<noteq> s\<close> in \<open>auto simp: settle_row_def\<close>)
    then show ?thesis by (simp add: session_view_def)
  qed
  have "distinct (td_turns db)"
    using ok keys_turnId by (auto simp: turn_ok_def distinct_map)
  moreover have "set (filter p (td_turns db)) = {t}" using p t by auto
  ultimately show "turn_changes p db = 1"
    unfolding turn_changes_def by (metis distinct_card distinct_filter card_1_singleton_iff One_nat_def)
qed

end
