(* ===== verification/TurnOps.thy ===== *)
theory TurnOps
  imports TurnInv
begin

text \<open>
  Every operation of the Turn repository meets the contract \<open>turn_step\<close> of its Session, in the
  order of the code: recovery, settlement, leases, admission, deletion, receipts and revocation.
  None of its \<open>lost ownership\<close> errors can be raised on tables that meet the invariant.
\<close>

section \<open>Settling the accepted Turn and then changing the lock\<close>

definition settled_from :: "string \<Rightarrow> turn_db \<Rightarrow> turn_db \<Rightarrow> bool" where
  "settled_from s db db1 \<longleftrightarrow> td_locks db1 = td_locks db \<and> keys db1 \<and> active db1 s = [] \<and>
     td_nextSequence db1 = td_nextSequence db \<and>
     (\<forall>s'. s' \<noteq> s \<longrightarrow> session_view db1 s' = session_view db s')"

lemma settled_from_refl: "turn_ok db \<Longrightarrow> active db s = [] \<Longrightarrow> settled_from s db db"
  by (simp add: settled_from_def turn_ok_def)

lemma settled_from_settle:
  assumes "turn_ok db" "active db s = [t]" "st \<noteq> TurnAccepted"
    and "\<And>u. u \<in> set (td_turns db) \<Longrightarrow> p u \<longleftrightarrow> u = t"
  shows "settled_from s db (update_turns p (settle_row st c) db)"
  using settle_active [OF assms] by (simp add: settled_from_def)

lemma settled_fromD:
  assumes "settled_from s db db1"
  shows "keys db1" "td_nextSequence db \<le> td_nextSequence db1"
  using assms unfolding settled_from_def by (blast, simp)

lemma settled_lock: "settled_from s db db1 \<Longrightarrow> findSessionLock db1 s' = findSessionLock db s'"
  by (simp add: settled_from_def findSessionLock_def)

lemma settled_delete_lock:
  assumes "turn_ok db" "settled_from s db db1" "findSessionLock db s = Some l" "p l"
    and "\<And>k. p k \<Longrightarrow> l_sessionId k = s"
  shows "turn_step s db (delete_locks p db1)" "findSessionLock (delete_locks p db1) s = None"
    and "active (delete_locks p db1) s = []"
proof -
  have ok: "locks_ok (td_locks db1)" using assms(1,2) by (simp add: settled_from_def turn_ok_def)
  then show *: "findSessionLock (delete_locks p db1) s = None"
    using assms(2-4) by (auto intro: delete_locks_same simp: settled_lock)
  show **: "active (delete_locks p db1) s = []"
    using assms(2) by (simp add: settled_from_def active_def)
  show "turn_step s db (delete_locks p db1)"
  proof (rule turn_stepI [OF assms(1)])
    show "session_view (delete_locks p db1) s' = session_view db s'" if "s' \<noteq> s" for s'
      using assms(2) that delete_locks_other [OF assms(5) that, where db = db1]
      by (simp add: settled_from_def session_view_def)
  qed (use ok settled_fromD [OF assms(2)] * ** in
      \<open>simp_all add: locks_ok_filter agree_def turn_locked_def\<close>)
qed

lemma settled_update_lock:
  assumes "turn_ok db" "settled_from s db db1" "findSessionLock db s = Some l" "p l"
    and "\<And>k. p k \<Longrightarrow> l_sessionId k = s" "\<And>k. l_sessionId (f k) = l_sessionId k"
    and "\<And>k. known_kind (l_ownerKind (f k))" "\<not> turn_kind (l_ownerKind (f l))"
  shows "turn_step s db (update_locks p f db1)" "findSessionLock (update_locks p f db1) s = Some (f l)"
proof -
  have ok: "locks_ok (td_locks db1)" using assms(1,2) by (simp add: settled_from_def turn_ok_def)
  then show *: "findSessionLock (update_locks p f db1) s = Some (f l)"
    using assms(2-4,6) by (auto intro: update_locks_same simp: settled_lock)
  show "turn_step s db (update_locks p f db1)"
  proof (rule turn_stepI [OF assms(1)])
    show "session_view (update_locks p f db1) s' = session_view db s'" if "s' \<noteq> s" for s'
      using assms(2) that update_locks_other [OF assms(5,6) that, where db = db1]
      by (simp add: settled_from_def session_view_def)
    show "agree (update_locks p f db1) s"
      using assms(2,8) * by (simp add: agree_def turn_locked_def settled_from_def active_def)
  qed (use ok assms(6,7) settled_fromD [OF assms(2)] in \<open>simp_all add: locks_ok_map\<close>)
qed

text \<open>A change of a lock that stays on its side of \<open>turn_kind\<close>.\<close>

lemma update_lock_step:
  assumes "turn_ok db" "\<And>k. p k \<Longrightarrow> l_sessionId k = s" "\<And>k. l_sessionId (f k) = l_sessionId k"
    and "\<And>k. findSessionLock db s = Some k \<Longrightarrow> p k \<Longrightarrow> known_kind (l_ownerKind k) \<Longrightarrow>
      known_kind (l_ownerKind (f k)) \<and> turn_kind (l_ownerKind (f k)) = turn_kind (l_ownerKind k)"
  shows "turn_step s db (update_locks p f db)"
proof -
  have ok: "locks_ok (td_locks db)" using assms(1) by (simp add: turn_ok_def)
  have found: "findSessionLock db s = Some k" if "k \<in> set (td_locks db)" "p k" for k
    using findSessionLock_unique [OF ok that(1)] assms(2) [OF that(2)] by simp
  have known: "known_kind (l_ownerKind k)" if "k \<in> set (td_locks db)" for k
    using ok that by (simp add: locks_ok_def)
  show ?thesis
  proof (rule turn_stepI [OF assms(1)])
    show "session_view (update_locks p f db) s' = session_view db s'" if "s' \<noteq> s" for s'
      using that update_locks_other [OF assms(2,3) that, where db = db] by (simp add: session_view_def)
    have "turn_locked (update_locks p f db) s = turn_locked db s"
    proof (cases "findSessionLock db s")
      case None
      then have "findSessionLock (update_locks p f db) s = None"
        using assms(3) by (auto simp: findSessionLock_None image_iff split: if_splits)
      then show ?thesis using None by (simp add: turn_locked_def)
    next
      case (Some k)
      show ?thesis
      proof (cases "p k")
        case True
        then show ?thesis using Some assms(4) known findSessionLock_SomeD [OF Some]
            update_locks_same [where p = p and f = f, OF ok Some True] assms(3) by (simp add: turn_locked_def)
      next
        case False
        have "List.find (\<lambda>l. l_sessionId l = s) ls = Some k \<Longrightarrow>
          List.find (\<lambda>l. l_sessionId l = s) (map (\<lambda>l. if p l then f l else l) ls) = Some k" for ls
          using False assms(3) by (induction ls) (auto split: if_splits)
        then show ?thesis using Some
          by (simp add: turn_locked_def findSessionLock_def update_locks_def)
      qed
    qed
    then show "agree (update_locks p f db) s"
      using assms(1) by (simp add: agree_def turn_ok_def active_def)
    show "locks_ok (td_locks (update_locks p f db))"
      using locks_ok_map [OF ok, of f p] found known assms(3,4) by simp
  qed (use assms(1) in \<open>simp_all add: turn_ok_def\<close>)
qed

section \<open>Kinds\<close>

lemma turn_kind_simps [simp]:
  "\<not> turn_kind SESSION_DELETION" "\<not> turn_kind MAINTENANCE" "\<not> turn_kind MAINTENANCE_DELETING"
  "turn_kind TURN_DELETING" "turn_kind COMPACTION_DELETING" "turn_kind ''turn''"
  "turn_kind ''compaction''" "turn_kind (busy_kind b)"
  by (simp_all add: turn_kind_def owner_kinds) (cases b, simp_all)

lemma known_kind_simps [simp]:
  "known_kind SESSION_DELETION" "known_kind MAINTENANCE" "known_kind MAINTENANCE_DELETING"
  "turn_kind k \<Longrightarrow> known_kind k"
  by (simp_all add: known_kind_def)

lemma deletionPending_known: "known_kind k \<Longrightarrow> deletionPendingOwnerKind k = None \<longleftrightarrow> k = SESSION_DELETION"
  by (auto simp: known_kind_def turn_kind_def deletionPendingOwnerKind_def owner_kinds)

lemma deletionPending_turn:
  "deletionPendingOwnerKind k = Some k' \<Longrightarrow> turn_kind k' = turn_kind k \<and> known_kind k'"
  by (auto simp: known_kind_def turn_kind_def deletionPendingOwnerKind_def owner_kinds
      split: if_splits)

lemma isDeletionOwnerKind_known:
  "known_kind k \<Longrightarrow> \<not> isDeletionOwnerKind k \<Longrightarrow> k = ''turn'' \<or> k = ''compaction'' \<or> k = MAINTENANCE"
  by (auto simp: known_kind_def turn_kind_def isDeletionOwnerKind_def)

lemma isTurnOwnerKind_known: "known_kind k \<Longrightarrow> isTurnOwnerKind k = turn_kind k"
  by (auto simp: known_kind_def turn_kind_def isTurnOwnerKind_def isDeletingTurnOwnerKind_def
      owner_kinds)

lemma outcome_not_accepted [simp]: "outcome_status oc \<noteq> TurnAccepted"
  by (cases oc) simp_all

lemma deletion_lock_simps [simp]:
  "l_sessionId (deletion_lock n l) = l_sessionId l"
  "l_ownerKind (deletion_lock n l) = SESSION_DELETION"
  "l_ownerId (deletion_lock n l) = l_ownerId l"
  by (simp_all add: deletion_lock_def)

lemma turn_ok_lock:
  assumes "turn_ok db" "findSessionLock db s = Some l"
  shows "locks_ok (td_locks db)" "known_kind (l_ownerKind l)" "l_sessionId l = s"
    and "l \<in> set (td_locks db)"
  using assms findSessionLock_SomeD [of db s l] by (auto simp: turn_ok_def locks_ok_def)

lemma active_locked:
  assumes "turn_ok db" "findSessionLock db s = Some l"
  shows "if turn_kind (l_ownerKind l) then \<exists>t. active db s = [t] else active db s = []"
proof -
  have "length (active db s) = (if turn_kind (l_ownerKind l) then 1 else 0)"
    using assms by (simp add: turn_ok_def agree_def turn_locked_def)
  then show ?thesis by (auto simp: length_Suc_conv)
qed

lemma active_unlocked:
  "turn_ok db \<Longrightarrow> findSessionLock db s = None \<Longrightarrow> active db s = []"
  using agree_def [of db s] by (simp add: turn_ok_def turn_locked_def)

lemma latest_active:
  "turn_ok db \<Longrightarrow> active db s = [t] \<Longrightarrow> latestAccepted db s = Some t"
  "turn_ok db \<Longrightarrow> active db s = [] \<Longrightarrow> latestAccepted db s = None"
  using latestAccepted_active [of db s] by (auto simp: turn_ok_def)

lemma latest_activeD:
  "turn_ok db \<Longrightarrow> latestAccepted db s = Some t \<Longrightarrow> active db s = [t]"
  "turn_ok db \<Longrightarrow> latestAccepted db s = None \<Longrightarrow> active db s = []"
  using latestAccepted_active [of db s] by (auto simp: turn_ok_def)

lemma accepted_turn_active:
  assumes "turn_ok db" "active db s = [t]" "u \<in> set (td_turns db)"
  shows "accepted_turn s (t_turnId t) u \<longleftrightarrow> u = t"
  using active_Some [OF assms(1,2)] turn_unique [OF assms(1,3)] by (auto simp: accepted_turn_def)

lemma turnId_active:
  assumes "turn_ok db" "active db s = [t]" "u \<in> set (td_turns db)"
  shows "t_turnId u = t_turnId t \<longleftrightarrow> u = t"
  using active_Some [OF assms(1,2)] turn_unique [OF assms(1,3)] by auto

lemma lock_changes_one:
  "turn_ok db \<Longrightarrow> findSessionLock db s = Some l \<Longrightarrow> p l \<Longrightarrow> (\<And>k. p k \<Longrightarrow> l_sessionId k = s) \<Longrightarrow>
   lock_changes p db = 1"
  unfolding lock_changes_def using turn_ok_lock [of db s l]
  by (intro filter_session_lock [of _ l]) auto

lemma lock_changes_settled: "lock_changes p (update_turns q f db) = lock_changes p db"
  by (simp add: lock_changes_def)

section \<open>Recovery\<close>

text \<open>After a recovery of a Session whose lock is gone or fenced the Session has no accepted Turn.\<close>

lemma settled_latest:
  assumes "turn_ok db"
  shows "settled_from s db (case latestAccepted db s of None \<Rightarrow> db
           | Some t \<Rightarrow> update_turns (\<lambda>u. t_turnId u = t_turnId t) (settle_row TurnFailed c) db)"
proof (cases "latestAccepted db s")
  case None
  then show ?thesis using assms by (simp add: settled_from_refl latest_activeD)
next
  case (Some t)
  then have "active db s = [t]" using assms by (simp add: latest_activeD)
  then show ?thesis using Some assms by (simp add: settled_from_settle turnId_active)
qed

lemma releaseRecoveredLock_step:
  assumes "turn_ok db" "findSessionLock db s = Some l"
  shows "turn_step s db (snd (releaseRecoveredLock l c reason db))"
    and "findSessionLock (snd (releaseRecoveredLock l c reason db)) s = None"
proof -
  have s: "l_sessionId l = s" using assms by (simp add: turn_ok_lock)
  show "turn_step s db (snd (releaseRecoveredLock l c reason db))"
    "findSessionLock (snd (releaseRecoveredLock l c reason db)) s = None"
    unfolding releaseRecoveredLock_def Let_def snd_conv s
    by (rule settled_delete_lock [OF assms(1) settled_latest [OF assms(1)] assms(2)]; simp add: s)+
qed

lemma find_expired_lock:
  assumes "turn_ok db" "List.find (\<lambda>l. l_sessionId l = s \<and> l_expiresAtMs l \<le> now) (td_locks db) = Some l"
  shows "findSessionLock db s = Some l" "l_expiresAtMs l \<le> now"
  using find_SomeD [OF assms(2)] assms(1) by (auto simp: turn_ok_def dest!: findSessionLock_unique)

lemma find_expired_None:
  assumes "List.find (\<lambda>l. l_sessionId l = s \<and> l_expiresAtMs l \<le> now) (td_locks db) = None"
    and "findSessionLock db s = Some l"
  shows "l_expiresAtMs l > now"
  using assms findSessionLock_SomeD [OF assms(2)] by (auto simp: find_None_iff)

text \<open>The whole effect of \<open>recoverExpired\<close>: an expired lock is released, any other is kept.\<close>

lemma recoverExpired_cases:
  assumes "turn_ok db"
  shows "recoverExpired s now db =
     (case findSessionLock db s of
        None \<Rightarrow> ((False, []), db)
      | Some l \<Rightarrow> if l_expiresAtMs l \<le> now
                  then ((True, fst (releaseRecoveredLock l now ExpiredLease db)),
                        snd (releaseRecoveredLock l now ExpiredLease db))
                  else ((False, []), db))"
proof (cases "List.find (\<lambda>l. l_sessionId l = s \<and> l_expiresAtMs l \<le> now) (td_locks db)")
  case None
  then show ?thesis using find_expired_None [OF None]
    by (auto simp: recoverExpired_def not_le split: option.splits)
next
  case (Some l)
  then show ?thesis using find_expired_lock [OF assms Some]
    by (simp add: recoverExpired_def case_prod_unfold Let_def)
qed

lemma recoverExpired_step: "turn_ok db \<Longrightarrow> turn_step s db (snd (recoverExpired s now db))"
  by (auto simp: recoverExpired_cases turn_step_refl releaseRecoveredLock_step split: option.splits)

lemma recoverDeadLegacyOwner_step:
  "turn_ok db \<Longrightarrow> turn_step s db (snd (recoverDeadLegacyOwner alive s now db))"
  by (auto simp: recoverDeadLegacyOwner_def turn_step_refl releaseRecoveredLock_step
      case_prod_unfold Let_def split: option.splits)

lemma known_no_pid:
  assumes "known_kind k"
  shows "legacyOwnerPid k owner = None"
proof -
  have "k \<notin> {''electron'', ''cli'', ''runtime''}"
    using assms by (auto simp: known_kind_def turn_kind_def owner_kinds)
  then show ?thesis by (simp add: legacyOwnerPid_def)
qed

text \<open>The locks this repository writes are never taken for those of a dead legacy process.\<close>

lemma recoverDeadLegacyOwner_id:
  "turn_ok db \<Longrightarrow> recoverDeadLegacyOwner alive s now db = ((False, []), db)"
  by (auto simp: recoverDeadLegacyOwner_def legacyProcessOwnerAlive_def known_no_pid turn_ok_lock
      split: option.splits)

section \<open>Settlement\<close>

lemma releaseOrPromote_step:
  assumes "turn_ok db" "settled_from s db db1" "findSessionLock db s = Some l" "l_ownerId l = lease"
  shows "turn_step s db (snd (releaseOrPromoteDeletionFence s lease kind c db1))"
    and "findSessionLock (snd (releaseOrPromoteDeletionFence s lease kind c db1)) s =
         (if isDeletingTurnOwnerKind kind then Some (deletion_lock c l) else None)"
    and "fst (releaseOrPromoteDeletionFence s lease kind c db1) = 1"
proof -
  have p: "owned_lock s lease l" "\<And>k. owned_lock s lease k \<Longrightarrow> l_sessionId k = s"
    using assms turn_ok_lock [OF assms(1,3)] by (auto simp: owned_lock_def)
  note del = settled_delete_lock [where p = "owned_lock s lease", OF assms(1-3) p]
  note upd = settled_update_lock [where p = "owned_lock s lease" and f = "deletion_lock c",
      OF assms(1-3) p]
  show "turn_step s db (snd (releaseOrPromoteDeletionFence s lease kind c db1))"
    "findSessionLock (snd (releaseOrPromoteDeletionFence s lease kind c db1)) s =
         (if isDeletingTurnOwnerKind kind then Some (deletion_lock c l) else None)"
    using del upd by (simp_all add: releaseOrPromoteDeletionFence_def Let_def isDeletingTurnOwnerKind_def)
  have "lock_changes (owned_lock s lease) db1 = lock_changes (owned_lock s lease) db"
    using assms(2) by (simp add: lock_changes_def settled_from_def)
  then show "fst (releaseOrPromoteDeletionFence s lease kind c db1) = 1"
    using lock_changes_one [where p = "owned_lock s lease", OF assms(1,3) p]
    by (simp add: releaseOrPromoteDeletionFence_def Let_def)
qed

text \<open>
  The result of a settlement on tables that meet the invariant: it settles exactly when the lease
  holds the Session's lock and the Turn is its accepted one, and is stale in every other case.
\<close>

lemma settleInTransaction_cases:
  assumes "turn_ok db"
  shows "settleInTransaction s turnId lease oc c db =
     (case (findSessionLock db s, active db s) of
        (Some l, [t]) \<Rightarrow>
          if l_ownerId l = lease \<and> t_turnId t = turnId
          then Inr (Settled c oc, snd (releaseOrPromoteDeletionFence s lease (l_ownerKind l) c
                 (update_turns (accepted_turn s turnId) (settle_row (outcome_status oc) c) db)))
          else Inr (StaleOwner, db)
      | _ \<Rightarrow> Inr (StaleOwner, db))"
proof (cases "findSessionLock db s")
  case None
  then show ?thesis by (simp add: settleInTransaction_def)
next
  case (Some l)
  show ?thesis
  proof (cases "turn_kind (l_ownerKind l)")
    case False
    then show ?thesis using Some active_locked [OF assms Some] latest_active(2) [OF assms]
      by (simp add: settleInTransaction_def)
  next
    case True
    then obtain t where a: "active db s = [t]" using active_locked [OF assms Some] by auto
    have p: "\<And>u. u \<in> set (td_turns db) \<Longrightarrow> accepted_turn s (t_turnId t) u \<longleftrightarrow> u = t"
      using accepted_turn_active [OF assms a] .
    note st = settled_from_settle [OF assms a outcome_not_accepted p, of oc c]
      and one = settle_active(4) [OF assms a outcome_not_accepted p]
    show ?thesis
      using Some a latest_active(1) [OF assms a] one releaseOrPromote_step(3) [OF assms st Some refl]
      by (auto simp: settleInTransaction_def Let_def case_prod_unfold)
  qed
qed

lemma settleInTransaction_step:
  assumes "turn_ok db" "settleInTransaction s turnId lease oc c db = Inr (r, db')"
  shows "turn_step s db db'"
proof (cases "\<exists>c' oc'. r = Settled c' oc'")
  case False
  then have "db' = db"
    using assms(2) unfolding settleInTransaction_cases [OF assms(1)]
    by (auto split: option.splits list.splits if_splits)
  then show ?thesis using assms(1) by (simp add: turn_step_refl)
next
  case True
  then obtain l t where l: "findSessionLock db s = Some l" "l_ownerId l = lease"
    and t: "active db s = [t]" "t_turnId t = turnId"
    and db': "db' = snd (releaseOrPromoteDeletionFence s lease (l_ownerKind l) c
                 (update_turns (accepted_turn s turnId) (settle_row (outcome_status oc) c) db))"
    using assms(2) unfolding settleInTransaction_cases [OF assms(1)]
    by (auto split: option.splits list.splits if_splits)
  have "settled_from s db (update_turns (accepted_turn s turnId) (settle_row (outcome_status oc) c) db)"
    using t accepted_turn_active [OF assms(1) t(1)]
    by (intro settled_from_settle [OF assms(1) t(1)]) auto
  from releaseOrPromote_step(1) [OF assms(1) this l] show ?thesis by (simp add: db')
qed

lemma settleInTransaction_total:
  "turn_ok db \<Longrightarrow> \<exists>r db'. settleInTransaction s turnId lease oc c db = Inr (r, db')"
  unfolding settleInTransaction_cases by (auto split: option.splits list.splits)

lemma recoverPendingSettlement_step:
  assumes "turn_ok db"
  shows "turn_step (ps_sessionId p) db (snd (recoverPendingSettlement p c db))"
proof (cases "snd (recoverPendingSettlement p c db) = db")
  case True
  then show ?thesis using assms by (simp add: turn_step_refl)
next
  case False
  let ?s = "ps_sessionId p"
  from False obtain l r where l: "findSessionLock db ?s = Some l" "l_ownerId l = ps_leaseId p"
    and r: "r \<in> set (td_turns db)" "t_sessionId r = ?s" "t_turnId r = ps_turnId p" "t_status r = TurnAccepted"
    and db': "snd (recoverPendingSettlement p c db) =
      snd (releaseOrPromoteDeletionFence ?s (ps_leaseId p) (l_ownerKind l) c
        (update_turns (accepted_turn ?s (ps_turnId p)) (settle_row TurnFailed c) db))"
    by (auto simp: recoverPendingSettlement_def Let_def case_prod_unfold
        split: option.splits if_splits dest!: find_SomeD)
  then have "r \<in> set (active db ?s)" by (simp add: active_def accepted_of_def)
  then have a: "active db ?s = [r]"
    using active_locked [OF assms l(1)] by (auto split: if_splits)
  have "settled_from ?s db (update_turns (accepted_turn ?s (ps_turnId p)) (settle_row TurnFailed c) db)"
    using accepted_turn_active [OF assms a] r(3) by (intro settled_from_settle [OF assms a]) auto
  from releaseOrPromote_step(1) [OF assms this l] show ?thesis by (simp add: db')
qed

end
