(* ===== verification/TurnAdmit.thy ===== *)
theory TurnAdmit
  imports TurnOps
begin

text \<open>
  The second half of the contract of the Turn repository: leases, admission, deletion, receipts,
  revocation and the pass after a restart, on the facts of \<open>TurnOps\<close>.
\<close>

section \<open>Leases\<close>

lemma live_owned_session: "live_owned s lease now l \<Longrightarrow> l_sessionId l = s"
  by (simp add: live_owned_def owned_lock_def)

lemma extend_lease_simps [simp]:
  "l_sessionId (extend_lease e l) = l_sessionId l" "l_ownerKind (extend_lease e l) = l_ownerKind l"
  "l_ownerId (extend_lease e l) = l_ownerId l" "l_expiresAtMs (extend_lease e l) = e"
  by (simp_all add: extend_lease_def)

lemma renewTurn_step:
  "turn_ok (tw_db w) \<Longrightarrow> turn_step s (tw_db w) (tw_db (snd (renewTurn env s lease now w)))"
  by (simp add: renewTurn_def Let_def live_owned_session update_lock_step)

lemma renewSessionMaintenance_step:
  "turn_ok (tw_db w) \<Longrightarrow>
   turn_step s (tw_db w) (tw_db (snd (renewSessionMaintenance env s lease now w)))"
  unfolding renewSessionMaintenance_def Let_def
  by simp (rule update_lock_step; auto simp: live_owned_session)

lemma releaseSessionMaintenance_step:
  assumes "turn_ok (tw_db w)"
  shows "turn_step s (tw_db w) (tw_db (releaseSessionMaintenance s lease now w))"
proof (cases "findSessionLock (tw_db w) s")
  case None
  then show ?thesis using assms by (simp add: releaseSessionMaintenance_def turn_step_refl)
next
  case (Some l)
  have "turn_step s (tw_db w) (delete_locks (owned_lock s lease) (tw_db w))"
    if "l_ownerId l = lease" "l_ownerKind l = MAINTENANCE"
    using that Some assms active_locked [OF assms Some] turn_ok_lock [OF assms Some]
    by (intro settled_delete_lock [OF assms settled_from_refl Some])
       (auto simp: owned_lock_def)
  moreover have "turn_step s (tw_db w) (update_locks (owned_lock s lease) (deletion_lock now) (tw_db w))"
    if "l_ownerId l = lease" "l_ownerKind l = MAINTENANCE_DELETING"
    using that Some assms active_locked [OF assms Some] turn_ok_lock [OF assms Some]
    by (intro settled_update_lock [OF assms settled_from_refl Some])
       (auto simp: owned_lock_def)
  ultimately show ?thesis
    using Some assms by (auto simp: releaseSessionMaintenance_def turn_step_refl)
qed

text \<open>A new lock of a kind that is no Turn, on a Session that has none.\<close>

lemma find_append:
  "List.find p (xs @ ys) = (case List.find p xs of None \<Rightarrow> List.find p ys | Some x \<Rightarrow> Some x)"
  by (induction xs) auto

lemma locks_ok_append:
  "locks_ok (td_locks db) \<Longrightarrow> findSessionLock db (l_sessionId l) = None \<Longrightarrow> known_kind (l_ownerKind l) \<Longrightarrow>
   locks_ok (td_locks db @ [l])"
  by (auto simp: locks_ok_def findSessionLock_None)

lemma insert_lock_step:
  assumes ok: "turn_ok db" and ins: "insert_lock l db = Inr db'" and s: "l_sessionId l = s"
    and k: "known_kind (l_ownerKind l)" "\<not> turn_kind (l_ownerKind l)"
  shows "turn_step s db db'"
proof -
  have none: "findSessionLock db s = None" and db': "db' = db\<lparr>td_locks := td_locks db @ [l]\<rparr>"
    using ins s by (auto simp: insert_lock_Inr)
  have find: "findSessionLock db' s' = (if s' = s then Some l else findSessionLock db s')" for s'
    using none s by (auto simp: findSessionLock_def db' find_append split: option.splits)
  show ?thesis
  proof (rule turn_stepI [OF ok])
    show "session_view db' s' = session_view db s'" if "s' \<noteq> s" for s'
      using that find by (simp add: session_view_def db')
    show "agree db' s"
      using active_unlocked [OF ok none] k find by (simp add: agree_def turn_locked_def active_def db')
    show "locks_ok (td_locks db')"
      using ok none s k by (simp add: db' turn_ok_def locks_ok_append)
  qed (use ok in \<open>simp_all add: db' turn_ok_def\<close>)
qed

lemma tryAcquireSessionMaintenance_step:
  assumes "turn_ok (tw_db w)" "tryAcquireSessionMaintenance env s now lease w = Inr (r, w')"
  shows "turn_step s (tw_db w) (tw_db w')"
proof -
  note rec = recoverExpired_step [OF assms(1), of s now]
  have ins: "turn_step s (tw_db w) db2"
    if "insert_lock l (snd (recoverExpired s now (tw_db w))) = Inr db2" "l_sessionId l = s"
      "l_ownerKind l = MAINTENANCE" for l db2
    using that by (intro turn_step_trans [OF rec] insert_lock_step [OF turn_step_ok [OF rec]]) auto
  show ?thesis
    using assms(2) rec turn_step_refl [OF assms(1)] ins
    by (auto simp: tryAcquireSessionMaintenance_def case_prod_unfold Let_def result_simps
        split: if_splits)
qed

section \<open>Admission\<close>

lemma recoverAdmission_step:
  assumes "turn_ok db" "\<And>p. pending = Some p \<Longrightarrow> ps_sessionId p = s"
  shows "turn_step s db (snd (recoverAdmissionTerminalFacts env s pending now db))"
proof -
  let ?db1 = "snd (case pending of None \<Rightarrow> (None, db) | Some p \<Rightarrow> recoverPendingSettlement p now db)"
  have 1: "turn_step s db ?db1"
    using assms recoverPendingSettlement_step [OF assms(1)]
    by (auto simp: turn_step_refl split: option.splits)
  note 2 = turn_step_trans [OF 1 recoverExpired_step [OF turn_step_ok [OF 1]]]
  note 3 = turn_step_trans [OF 2 recoverDeadLegacyOwner_step [OF turn_step_ok [OF 2]]]
  show ?thesis
    using 3 by (simp add: recoverAdmissionTerminalFacts_def case_prod_unfold Let_def)
qed

text \<open>\<open>insertAdmission\<close> written out: what a successful insert requires and leaves.\<close>

definition admitted_db :: "admit_input \<Rightarrow> string \<Rightarrow> int \<Rightarrow> int \<Rightarrow> turn_db \<Rightarrow> turn_db" where
  "admitted_db i lease now leaseMs db =
     \<lparr> td_locks = td_locks db @ [admission_lock i lease now leaseMs],
       td_turns = td_turns db @ [admission_row i now (td_nextSequence db)],
       td_sequences = td_sequences db @ [(td_nextSequence db, ai_turnId i)],
       td_nextSequence = Suc (td_nextSequence db),
       td_clients = td_clients db @
         (case truthy (ai_clientRequestId i) of None \<Rightarrow> []
          | Some c \<Rightarrow> [\<lparr>r_sessionId = ai_sessionId i, r_clientRequestId = c, r_turnId = ai_turnId i\<rparr>]) \<rparr>"

definition admissible :: "admit_input \<Rightarrow> turn_db \<Rightarrow> bool" where
  "admissible i db \<longleftrightarrow>
     findSessionLock db (ai_sessionId i) = None \<and>
     (\<forall>x \<in> set (td_sequences db). snd x \<noteq> ai_turnId i) \<and>
     (\<forall>u \<in> set (td_turns db). \<not> turn_conflict (admission_row i 0 (td_nextSequence db)) u) \<and>
     (\<forall>c. truthy (ai_clientRequestId i) = Some c \<longrightarrow>
        (\<forall>r \<in> set (td_clients db). r_sessionId r = ai_sessionId i \<longrightarrow> r_clientRequestId r \<noteq> c))"

lemma conflict_time: "turn_conflict (admission_row i now n) = turn_conflict (admission_row i 0 n)"
  by (simp add: turn_conflict_def [abs_def] admission_row_def)

lemma insert_turn_Inr:
  "insert_turn t db = Inr db' \<longleftrightarrow>
   (\<forall>u \<in> set (td_turns db). \<not> turn_conflict t u) \<and> db' = db\<lparr>td_turns := td_turns db @ [t]\<rparr>"
  by (auto simp: insert_turn_def list_ex_iff)

lemma insert_client_Inr:
  "insert_client r db = Inr db' \<longleftrightarrow>
   (\<forall>q \<in> set (td_clients db). r_sessionId q = r_sessionId r \<longrightarrow> r_clientRequestId q \<noteq> r_clientRequestId r) \<and>
   db' = db\<lparr>td_clients := td_clients db @ [r]\<rparr>"
  by (auto simp: insert_client_def list_ex_iff)

lemma next_sequence_Inr:
  "next_sequence t db = Inr (n, db') \<longleftrightarrow>
   (\<forall>x \<in> set (td_sequences db). snd x \<noteq> t) \<and> n = td_nextSequence db \<and>
   db' = db\<lparr>td_sequences := td_sequences db @ [(n, t)], td_nextSequence := Suc n\<rparr>"
  by (auto simp: next_sequence_def list_ex_iff case_prod_unfold Let_def)

lemma findSessionLock_update [simp]:
  "findSessionLock (db\<lparr>td_turns := ts\<rparr>) s = findSessionLock db s"
  "findSessionLock (db\<lparr>td_sequences := sq\<rparr>) s = findSessionLock db s"
  "findSessionLock (db\<lparr>td_nextSequence := n\<rparr>) s = findSessionLock db s"
  "findSessionLock (db\<lparr>td_clients := cs\<rparr>) s = findSessionLock db s"
  by (simp_all add: findSessionLock_def)

lemma insertAdmission_Inr:
  "insertAdmission i lease now leaseMs db = Inr (st, db') \<longleftrightarrow>
   admissible i db \<and> st = Admitted lease (td_nextSequence db) now \<and>
   db' = admitted_db i lease now leaseMs db"
  by (auto simp: insertAdmission_def result_simps insert_lock_Inr next_sequence_Inr insert_turn_Inr
      insert_client_Inr admissible_def admitted_db_def admission_lock_def conflict_time [of i now]
      simp del: truthy_eq_Some truthy_Some split: option.splits)

lemma admission_row_simps [simp]:
  "t_turnId (admission_row i now n) = ai_turnId i" "t_sessionId (admission_row i now n) = ai_sessionId i"
  "t_status (admission_row i now n) = TurnAccepted" "t_acceptedSequence (admission_row i now n) = Some n"
  "t_claimId (admission_row i now n) = ingress_claim i"
  "t_clientRequestId (admission_row i now n) = truthy (ai_clientRequestId i)"
  by (simp_all add: admission_row_def)

lemma admission_lock_simps [simp]:
  "l_sessionId (admission_lock i lease now ms) = ai_sessionId i"
  "l_ownerId (admission_lock i lease now ms) = lease"
  "l_ownerKind (admission_lock i lease now ms) = busy_kind (ai_busyReason i)"
  "l_expiresAtMs (admission_lock i lease now ms) = now + ms"
  by (simp_all add: admission_lock_def)

lemma admitted_db_lock:
  "admissible i db \<Longrightarrow> findSessionLock (admitted_db i lease now ms db) s =
   (if s = ai_sessionId i then Some (admission_lock i lease now ms) else findSessionLock db s)"
  by (auto simp: admissible_def findSessionLock_def admitted_db_def find_append split: option.splits)

lemma filter_notin_distinct: "x \<notin> set xs \<Longrightarrow> distinct (filter P xs) \<Longrightarrow> distinct (filter P (xs @ [x]))"
  by simp

text \<open>The seven parts of \<open>keys_ok\<close> for a row appended at the end.\<close>

lemma keys_ok_append:
  assumes ok: "keys_ok ks sq next cl" and t: "t \<notin> fst ` set ks"
    and c: "c \<noteq> None \<Longrightarrow> c \<notin> (\<lambda>(_, _, c, _). c) ` set ks"
    and r: "r \<noteq> None \<Longrightarrow> (s, r) \<notin> (\<lambda>(_, s, _, r, _). (s, r)) ` set ks"
    and cl: "\<And>q. q \<in> set cl' \<Longrightarrow> r_sessionId q = s \<and> r_turnId q = t \<and>
      (s, r_clientRequestId q) \<notin> (\<lambda>r. (r_sessionId r, r_clientRequestId r)) ` set cl"
    and short: "length cl' \<le> 1"
  shows "keys_ok (ks @ [(t, s, c, r, Some next)]) (sq @ [(next, t)]) (Suc next) (cl @ cl')"
proof -
  have 1: "distinct (map fst (ks @ [(t, s, c, r, Some next)]))"
    using ok t by (simp add: keys_ok_def)
  have 2: "distinct (filter (\<lambda>c. c \<noteq> None) (map (\<lambda>(_, _, c, _). c) (ks @ [(t, s, c, r, Some next)])))"
    using ok c by (simp add: keys_ok_def)
  have 3: "distinct (filter (\<lambda>(_, r). r \<noteq> None)
      (map (\<lambda>(_, s, _, r, _). (s, r)) (ks @ [(t, s, c, r, Some next)])))"
    using ok r by (simp add: keys_ok_def)
  have 4: "sorted_wrt (<) (map fst (sq @ [(next, t)]))" "\<forall>n \<in> fst ` set (sq @ [(next, t)]). 0 < n \<and> n < Suc next"
    using ok by (auto simp: keys_ok_def sorted_wrt_append less_Suc_eq)
  have 5: "distinct (map (\<lambda>r. (r_sessionId r, r_clientRequestId r)) (cl @ cl'))"
    using ok cl short by (cases cl'; cases "tl cl'") (auto simp: keys_ok_def)
  have 6: "\<forall>q \<in> set (cl @ cl'). (r_turnId q, r_sessionId q) \<in> (\<lambda>(t, s, _). (t, s)) ` set (ks @ [(t, s, c, r, Some next)])"
    using ok cl by (auto simp: keys_ok_def)
  show ?thesis
    unfolding keys_ok_def using 1 2 3 4 5 6 ok by (simp add: keys_ok_def)
qed

lemma admitted_keys:
  assumes ok: "keys db" and adm: "admissible i db"
  shows "keys (admitted_db i lease now ms db)"
proof -
  let ?new = "case truthy (ai_clientRequestId i) of None \<Rightarrow> []
    | Some c \<Rightarrow> [\<lparr>r_sessionId = ai_sessionId i, r_clientRequestId = c, r_turnId = ai_turnId i\<rparr>]"
  have new: "t_turnId u \<noteq> ai_turnId i" "ingress_claim i \<noteq> None \<Longrightarrow> t_claimId u \<noteq> ingress_claim i"
    "truthy (ai_clientRequestId i) \<noteq> None \<Longrightarrow> t_sessionId u = ai_sessionId i \<Longrightarrow>
      t_clientRequestId u \<noteq> truthy (ai_clientRequestId i)" if "u \<in> set (td_turns db)" for u
    using adm that by (auto simp: admissible_def turn_conflict_def simp del: truthy_eq_Some truthy_Some)
  have cl: "\<And>c r. truthy (ai_clientRequestId i) = Some c \<Longrightarrow> r \<in> set (td_clients db) \<Longrightarrow>
      r_sessionId r = ai_sessionId i \<Longrightarrow> r_clientRequestId r \<noteq> c"
    using adm by (simp add: admissible_def del: truthy_eq_Some truthy_Some)
  have "keys_ok (map row_key (td_turns db) @ [(ai_turnId i, ai_sessionId i, ingress_claim i,
          truthy (ai_clientRequestId i), Some (td_nextSequence db))])
      (td_sequences db @ [(td_nextSequence db, ai_turnId i)]) (Suc (td_nextSequence db))
      (td_clients db @ ?new)"
  proof (rule keys_ok_append [OF ok])
    show "ai_turnId i \<notin> fst ` set (map row_key (td_turns db))"
      using new(1) by (force simp: row_key_def)
    show "ingress_claim i \<notin> (\<lambda>(_, _, c, _). c) ` set (map row_key (td_turns db))"
      if "ingress_claim i \<noteq> None"
      using new(2) that by (force simp: row_key_def)
    show "(ai_sessionId i, truthy (ai_clientRequestId i)) \<notin>
        (\<lambda>(_, s, _, r, _). (s, r)) ` set (map row_key (td_turns db))"
      if "truthy (ai_clientRequestId i) \<noteq> None"
      using new(3) that by (force simp: row_key_def simp del: truthy_eq_Some truthy_Some)
    show "r_sessionId q = ai_sessionId i \<and> r_turnId q = ai_turnId i \<and>
        (ai_sessionId i, r_clientRequestId q) \<notin> (\<lambda>r. (r_sessionId r, r_clientRequestId r)) ` set (td_clients db)"
      if "q \<in> set ?new" for q
      using that cl by (force split: option.splits simp del: truthy_eq_Some truthy_Some)
    show "length ?new \<le> 1" by (simp split: option.splits del: truthy_eq_Some truthy_Some)
  qed
  then show ?thesis by (simp add: admitted_db_def row_key_def del: truthy_eq_Some truthy_Some)
qed

lemma admitted_db_step:
  assumes ok: "turn_ok db" and adm: "admissible i db"
  shows "turn_step (ai_sessionId i) db (admitted_db i lease now ms db)"
    and "active (admitted_db i lease now ms db) (ai_sessionId i) =
         [admission_row i now (td_nextSequence db)]"
proof -
  have none: "findSessionLock db (ai_sessionId i) = None" using adm by (simp add: admissible_def)
  show act: "active (admitted_db i lease now ms db) (ai_sessionId i) =
      [admission_row i now (td_nextSequence db)]"
    using active_unlocked [OF ok none] by (simp add: active_def admitted_db_def accepted_of_def)
  show "turn_step (ai_sessionId i) db (admitted_db i lease now ms db)"
  proof (rule turn_stepI [OF ok])
    show "locks_ok (td_locks (admitted_db i lease now ms db))"
      using ok none by (simp add: admitted_db_def turn_ok_def locks_ok_append)
    show "keys (admitted_db i lease now ms db)"
      using ok adm by (intro admitted_keys) (simp_all add: turn_ok_def)
    show "agree (admitted_db i lease now ms db) (ai_sessionId i)"
      using act adm by (simp add: agree_def turn_locked_def admitted_db_lock)
    show "session_view (admitted_db i lease now ms db) s' = session_view db s'"
      if "s' \<noteq> ai_sessionId i" for s'
      using that adm by (auto simp: session_view_def admitted_db_lock)
        (auto simp: admitted_db_def split: option.splits)
    show "td_nextSequence db \<le> td_nextSequence (admitted_db i lease now ms db)"
      by (simp add: admitted_db_def)
  qed
qed

text \<open>The body of an admission: recovery, and then either nothing or the inserted admission.\<close>

abbreviation recovered :: "'q turn_env \<Rightarrow> admit_input \<Rightarrow> pending_settlement option \<Rightarrow> int \<Rightarrow> turn_db \<Rightarrow> turn_db"
where "recovered env i pending now db \<equiv>
  snd (recoverAdmissionTerminalFacts env (ai_sessionId i) pending now db)"

lemma admitTurn_cases:
  assumes "admitTurnInTransaction env i pending now lease db q = Inr ((st, facts), db', q')"
  shows "(\<exists>n. st = Admitted lease n now \<and> admissible i (recovered env i pending now db) \<and>
            n = td_nextSequence (recovered env i pending now db) \<and>
            db' = admitted_db i lease now (te_leaseMs env) (recovered env i pending now db)) \<or>
         ((\<exists>t. st = DuplicateTurn t) \<or> (\<exists>r. st = Rejected r)) \<and> db' \<in> {db, recovered env i pending now db}"
proof -
  have dup: "(\<exists>t. x = DuplicateTurn t) \<or> (\<exists>r. x = Rejected r)" if "findDuplicate d i = Some x" for d x
    using that by (auto simp: findDuplicate_def classifyDuplicate_def split: option.splits if_splits)
  show ?thesis
    using assms dup
    by (auto simp: admitTurnInTransaction_def Let_def case_prod_unfold result_simps
        insertAdmission_Inr split: if_splits option.splits)
qed

lemma admitTurn_step:
  assumes "turn_ok db" "\<And>p. pending = Some p \<Longrightarrow> ps_sessionId p = ai_sessionId i"
    and "admitTurnInTransaction env i pending now lease db q = Inr ((st, facts), db', q')"
  shows "turn_step (ai_sessionId i) db db'"
proof -
  have rec: "turn_step (ai_sessionId i) db (recovered env i pending now db)"
    using assms(1,2) by (rule recoverAdmission_step)
  show ?thesis
    using admitTurn_cases [OF assms(3)] rec turn_step_refl [OF assms(1)]
      turn_step_trans [OF rec admitted_db_step(1) [OF turn_step_ok [OF rec]]]
    by auto
qed

end
