(* ===== verification/TurnDelete.thy ===== *)
theory TurnDelete
  imports TurnAdmit
begin

text \<open>
  The contract of the remaining operations of the Turn repository: Session deletion, removal of
  rows, steering receipts, revocation, the queue's acknowledgement and the pass over the locks of
  older processes after a restart.
\<close>

section \<open>Entering deletion\<close>

text \<open>
  An expired lock on the way into deletion: a Turn's is settled, a fenced maintenance lease becomes
  the deletion lock, and a plain maintenance lease has no Turn to settle, which the code reports
  as a missing Turn.
\<close>

lemma recoverExpiredDeletionTurn_cases:
  assumes "turn_ok db"
  shows "case findSessionLock db s of
      None \<Rightarrow> recoverExpiredDeletionTurn s now db = Inr db
    | Some l \<Rightarrow>
        if l_expiresAtMs l > now \<or> l_ownerKind l = SESSION_DELETION
        then recoverExpiredDeletionTurn s now db = Inr db
        else if l_ownerKind l = MAINTENANCE
        then recoverExpiredDeletionTurn s now db = Inl (DeletionActiveTurnMissing s)
        else \<exists>db'. recoverExpiredDeletionTurn s now db = Inr db' \<and> turn_step s db db' \<and>
          findSessionLock db' s = (if isDeletionOwnerKind (l_ownerKind l)
                                   then Some (deletion_lock now l) else None)"
proof (cases "findSessionLock db s")
  case None
  then show ?thesis by (simp add: recoverExpiredDeletionTurn_def)
next
  case (Some l)
  note lock = turn_ok_lock [OF assms Some]
  have own: "owned_lock s (l_ownerId l) l" "\<And>k. owned_lock s (l_ownerId l) k \<Longrightarrow> l_sessionId k = s"
    using lock by (auto simp: owned_lock_def)
  consider "l_expiresAtMs l > now \<or> l_ownerKind l = SESSION_DELETION"
    | "l_expiresAtMs l \<le> now" "l_ownerKind l = MAINTENANCE"
    | "l_expiresAtMs l \<le> now" "l_ownerKind l = MAINTENANCE_DELETING"
    | "l_expiresAtMs l \<le> now" "turn_kind (l_ownerKind l)"
    using lock(2) by (fastforce simp: known_kind_def)
  then show ?thesis
  proof cases
    case 1
    then show ?thesis using Some lock(2)
      by (auto simp: recoverExpiredDeletionTurn_def deletionPending_known)
  next
    case 2
    have "active db s = []" using active_locked [OF assms Some] 2 by simp
    then show ?thesis using Some 2 latest_active(2) [OF assms]
      by (simp add: recoverExpiredDeletionTurn_def deletionPendingOwnerKind_def
          requireAcceptedTurnId_def owner_kinds)
  next
    case 3
    have "settled_from s db db"
      using active_locked [OF assms Some] 3 assms by (simp add: settled_from_refl)
    note upd = settled_update_lock [where p = "owned_lock s (l_ownerId l)" and f = "deletion_lock now",
        OF assms this Some own, simplified]
    have "deletionPendingOwnerKind MAINTENANCE_DELETING \<noteq> None" "MAINTENANCE_DELETING \<noteq> SESSION_DELETION"
      "MAINTENANCE_DELETING \<noteq> MAINTENANCE" "isDeletionOwnerKind MAINTENANCE_DELETING"
      by (simp_all add: deletionPendingOwnerKind_def isDeletionOwnerKind_def owner_kinds)
    then show ?thesis using upd Some 3 by (auto simp: recoverExpiredDeletionTurn_def)
  next
    case 4
    then obtain t where a: "active db s = [t]" using active_locked [OF assms Some] by auto
    have p: "\<And>u. u \<in> set (td_turns db) \<Longrightarrow> accepted_turn s (t_turnId t) u \<longleftrightarrow> u = t"
      using accepted_turn_active [OF assms a] .
    have st: "settled_from s db (update_turns (accepted_turn s (t_turnId t)) (settle_row TurnFailed now) db)"
      and one: "turn_changes (accepted_turn s (t_turnId t)) db = 1"
      using settled_from_settle [OF assms a _ p] settle_active(4) [OF assms a _ p, of TurnFailed] by simp_all
    have kinds: "deletionPendingOwnerKind (l_ownerKind l) \<noteq> None" "l_ownerKind l \<noteq> MAINTENANCE_DELETING"
      "l_ownerKind l \<noteq> SESSION_DELETION" "l_ownerKind l \<noteq> MAINTENANCE"
      "isDeletionOwnerKind (l_ownerKind l) = isDeletingTurnOwnerKind (l_ownerKind l)"
      using 4(2) deletionPending_known [OF lock(2)]
      by (auto simp: isDeletionOwnerKind_def isDeletingTurnOwnerKind_def)
    show ?thesis
      using Some 4 kinds one latest_active(1) [OF assms a] releaseOrPromote_step [OF assms st Some refl, where kind="l_ownerKind l" and c=now]
      by (auto simp: recoverExpiredDeletionTurn_def requireAcceptedTurnId_def Let_def case_prod_unfold)
  qed
qed

lemma recoverExpiredDeletionTurn_step:
  "turn_ok db \<Longrightarrow> recoverExpiredDeletionTurn s now db = Inr db' \<Longrightarrow> turn_step s db db'"
  using recoverExpiredDeletionTurn_cases [of db s now]
  by (auto simp: turn_step_refl split: option.splits if_splits)

lemma reclaim_step:
  assumes "turn_ok db" "findSessionLock db s = Some l" "l_ownerKind l = SESSION_DELETION"
    and "\<And>k. p k \<Longrightarrow> l_sessionId k = s \<and> l_ownerKind k = SESSION_DELETION"
    and "\<And>k. l_sessionId (f k) = l_sessionId k \<and> l_ownerKind (f k) = l_ownerKind k"
  shows "turn_step s db (update_locks p f db)"
  using assms by (intro update_lock_step) auto

lemma beginSessionDeletion_tx_step:
  assumes "turn_ok db0" "beginSessionDeletionInTransaction env s now owner db0 = Inr (st, db')"
  shows "turn_step s db0 db'"
proof -
  from assms(2) obtain db where rec: "recoverExpiredDeletionTurn s now db0 = Inr db"
    by (auto simp: beginSessionDeletionInTransaction_def result_simps)
  note step = recoverExpiredDeletionTurn_step [OF assms(1) rec]
  note ok = turn_step_ok [OF step]
  have "turn_step s db db'"
  proof (cases "findSessionLock db s")
    case None
    then show ?thesis using assms(2) rec
      by (auto simp: beginSessionDeletionInTransaction_def result_simps intro: insert_lock_step [OF ok])
  next
    case (Some l)
    show ?thesis
    proof (cases "l_ownerKind l = SESSION_DELETION")
      case True
      then show ?thesis using assms(2) rec Some ok
        by (auto simp: beginSessionDeletionInTransaction_def Let_def owned_lock_def turn_step_refl
            intro!: reclaim_step [OF ok Some] split: if_splits)
    next
      case False
      then show ?thesis using assms(2) rec Some ok turn_ok_lock [OF ok Some]
        by (auto simp: beginSessionDeletionInTransaction_def Let_def result_simps turn_step_refl
            owned_lock_def dest!: deletionPending_turn intro!: update_lock_step
            split: option.splits if_splits)
    qed
  qed
  with step show ?thesis by (rule turn_step_trans)
qed

lemma beginSessionDeletion_step:
  assumes "turn_ok (tw_db w)" "\<And>p. tw_pending w s = Some p \<Longrightarrow> ps_sessionId p = s"
    and "beginSessionDeletion env s now owner w = Inr (st, w')"
  shows "turn_step s (tw_db w) (tw_db w')"
proof -
  let ?db = "case tw_pending w s of None \<Rightarrow> tw_db w | Some p \<Rightarrow> snd (recoverPendingSettlement p now (tw_db w))"
  have rec: "turn_step s (tw_db w) ?db"
    using assms(2) recoverPendingSettlement_step [OF assms(1), where c = now] turn_step_refl [OF assms(1)]
    by (auto split: option.splits)
  show ?thesis
    using assms(3) turn_step_trans [OF rec beginSessionDeletion_tx_step [OF turn_step_ok [OF rec]]]
    by (auto simp: beginSessionDeletion_def Let_def result_simps)
qed

lemma completeTurnSessionDeletion_step:
  assumes "turn_ok db" "completeTurnSessionDeletion env s db = Inr db'"
  shows "turn_step s db db'"
proof (cases "findSessionLock db s")
  case None
  then show ?thesis using assms by (simp add: completeTurnSessionDeletion_def turn_step_refl)
next
  case (Some l)
  then have l: "l_ownerKind l = SESSION_DELETION" "db' = delete_locks (\<lambda>l. l_sessionId l = s) db"
    using assms(2) by (auto simp: completeTurnSessionDeletion_def split: if_splits option.splits)
  have "settled_from s db db"
    using active_locked [OF assms(1) Some] l(1) assms(1) by (simp add: settled_from_refl)
  then show ?thesis
    unfolding l(2) using turn_ok_lock [OF assms(1) Some]
    by (intro settled_delete_lock(1) [OF assms(1) _ Some]) auto
qed

section \<open>Removing rows\<close>

lemma keys_ok_remove:
  assumes ok: "keys_ok ks sq next cl" and Q: "\<And>r. r \<in> set cl \<Longrightarrow> Q r \<Longrightarrow> r_turnId r \<notin> G"
  shows "keys_ok (filter (\<lambda>k. fst k \<notin> G) ks) (filter (\<lambda>(_, t). t \<notin> G) sq) next (filter Q cl)"
proof -
  let ?ks = "filter (\<lambda>k. fst k \<notin> G) ks" let ?sq = "filter (\<lambda>(_, t). t \<notin> G) sq"
  have 1: "distinct (map fst ?ks)" using ok by (simp add: keys_ok_def distinct_map_filterI)
  have dist: "distinct (filter P (map f xs)) \<Longrightarrow> distinct (filter P (map f (filter R xs)))" for P f R xs
    by (induction xs) auto
  have 2: "map (\<lambda>(t, _, _, _, n). (n, t)) ?ks = map (\<lambda>(n, t). (Some n, t)) ?sq"
  proof -
    have "map (\<lambda>(t, _, _, _, n). (n, t)) ?ks =
        filter (\<lambda>(_, t). t \<notin> G) (map (\<lambda>(t, _, _, _, n). (n, t)) ks)"
      by (simp add: filter_map o_def case_prod_unfold)
    also have "\<dots> = filter (\<lambda>(_, t). t \<notin> G) (map (\<lambda>(n, t). (Some n, t)) sq)"
      using ok by (simp add: keys_ok_def)
    finally show ?thesis by (simp add: filter_map o_def case_prod_unfold)
  qed
  have 3: "sorted_wrt (<) (map fst ?sq)" using ok by (simp add: keys_ok_def sorted_wrt_filter_map)
  have 4: "distinct (map (\<lambda>r. (r_sessionId r, r_clientRequestId r)) (filter Q cl))"
    using ok by (simp add: keys_ok_def distinct_map_filterI)
  have 5: "(r_turnId r, r_sessionId r) \<in> (\<lambda>(t, s, _). (t, s)) ` set ?ks" if "r \<in> set (filter Q cl)" for r
  proof -
    have "(r_turnId r, r_sessionId r) \<in> (\<lambda>(t, s, _). (t, s)) ` set ks" "r_turnId r \<notin> G"
      using ok that Q by (auto simp: keys_ok_def)
    then show ?thesis by force
  qed
  show ?thesis
    unfolding keys_ok_def using 1 2 3 4 5 ok by (auto simp: keys_ok_def dist)
qed

text \<open>The three deletes of a set of Turns, with the client requests that refer to them.\<close>

lemma remove_keys:
  assumes ok: "keys db" and P: "\<And>t. t \<in> set (td_turns db) \<Longrightarrow> P t \<longleftrightarrow> t_turnId t \<in> G"
    and G: "\<And>g. g \<in> G \<longleftrightarrow> g \<in> set ids" and Q: "\<And>r. r \<in> set (td_clients db) \<Longrightarrow> Q r \<Longrightarrow> r_turnId r \<in> G"
    and sub: "G \<subseteq> t_turnId ` set (td_turns db)"
  shows "keys (delete_turns P (delete_sequences ids (delete_clients Q db)))"
    and "td_clients (delete_turns P (delete_sequences ids (delete_clients Q db))) =
         filter (\<lambda>r. r_turnId r \<notin> G) (td_clients db)"
proof -
  have gone: "set (map t_turnId (filter P (td_turns db))) = G"
    using P sub by (fastforce simp: image_iff)
  show cl: "td_clients (delete_turns P (delete_sequences ids (delete_clients Q db))) =
         filter (\<lambda>r. r_turnId r \<notin> G) (td_clients db)"
    unfolding delete_turns_def delete_sequences_def delete_clients_def
    using gone Q by (auto simp: Let_def image_iff intro!: filter_cong)
  have ks: "map row_key (filter (\<lambda>t. \<not> P t) (td_turns db)) =
      filter (\<lambda>k. fst k \<notin> G) (map row_key (td_turns db))"
    using P by (auto simp: filter_map o_def row_key_def intro!: arg_cong [where f = "map row_key"] filter_cong)
  have sq: "(\<lambda>(_, t). t \<notin> set ids) = (\<lambda>(_ :: nat, t). t \<notin> G)" using G by auto
  show "keys (delete_turns P (delete_sequences ids (delete_clients Q db)))"
    using keys_ok_remove [OF ok, of "\<lambda>r. r_turnId r \<notin> G" G] cl ks sq
    by (simp add: delete_turns_def delete_sequences_def delete_clients_def Let_def)
qed

text \<open>Removing the rows of one Session.\<close>

lemma remove_view:
  assumes "\<And>t. t \<in> set (td_turns db) \<Longrightarrow> P t \<Longrightarrow> t_sessionId t = s"
    and "\<And>r. r \<in> set (td_clients db) \<Longrightarrow> r_turnId r \<in> G \<Longrightarrow> r_sessionId r = s"
    and "td_clients db' = filter (\<lambda>r. r_turnId r \<notin> G) (td_clients db)"
    and "td_turns db' = filter (\<lambda>t. \<not> P t) (td_turns db)"
    and "findSessionLock db' s' = findSessionLock db s'" "s' \<noteq> s"
  shows "session_view db' s' = session_view db s'"
  unfolding session_view_def using assms by (auto simp: filter_swap intro!: filter_cong)

lemma client_session:
  assumes "keys db" "r \<in> set (td_clients db)" "t \<in> set (td_turns db)" "r_turnId r = t_turnId t"
  shows "r_sessionId r = t_sessionId t"
proof -
  obtain u where u: "u \<in> set (td_turns db)" "t_turnId u = r_turnId r" "t_sessionId u = r_sessionId r"
    using assms(1,2) by (force simp: keys_ok_def row_key_def)
  then have "u = t" using assms keys_turnId [OF assms(1)] by (auto dest: distinct_map_unique)
  with u show ?thesis by simp
qed

lemma remove_fields [simp]:
  "td_locks (delete_turns P db) = td_locks db" "td_nextSequence (delete_turns P db) = td_nextSequence db"
  "td_locks (delete_sequences ids db) = td_locks db"
  "td_nextSequence (delete_sequences ids db) = td_nextSequence db"
  "td_locks (delete_clients Q db) = td_locks db" "td_nextSequence (delete_clients Q db) = td_nextSequence db"
  "td_turns (delete_turns P db) = filter (\<lambda>t. \<not> P t) (td_turns db)"
  "td_turns (delete_sequences ids db) = td_turns db" "td_turns (delete_clients Q db) = td_turns db"
  "findSessionLock (delete_turns P db) s = findSessionLock db s"
  "findSessionLock (delete_sequences ids db) s = findSessionLock db s"
  "findSessionLock (delete_clients Q db) s = findSessionLock db s"
  by (simp_all add: delete_turns_def delete_sequences_def delete_clients_def findSessionLock_def Let_def)

lemma deleteTurnSessionData_step:
  assumes ok: "turn_ok (tw_db w)" and del: "deleteTurnSessionData s w = Inr w'"
  shows "turn_step s (tw_db w) (tw_db w')"
proof (cases "findSessionLock (tw_db w) s")
  case None
  then show ?thesis using ok del by (auto simp: deleteTurnSessionData_def Let_def turn_step_refl split: if_splits)
next
  case (Some l)
  let ?db = "tw_db w" let ?P = "\<lambda>t. t_sessionId t = s"
  let ?ids = "map t_turnId (filter ?P (td_turns ?db))"
  let ?db' = "delete_turns ?P (delete_sequences ?ids (delete_clients (\<lambda>r. r_sessionId r = s) ?db))"
  from Some del have l: "l_ownerKind l = SESSION_DELETION" and w': "tw_db w' = ?db'"
    by (auto simp: deleteTurnSessionData_def Let_def split: if_splits)
  have keys: "keys ?db" using ok by (simp add: turn_ok_def)
  have P: "?P t \<longleftrightarrow> t_turnId t \<in> set ?ids" if "t \<in> set (td_turns ?db)" for t
  proof
    show "t_sessionId t = s \<Longrightarrow> t_turnId t \<in> set ?ids" using that by auto
    assume "t_turnId t \<in> set ?ids"
    then obtain u where "u \<in> set (td_turns ?db)" "t_sessionId u = s" "t_turnId t = t_turnId u" by auto
    with turn_unique [OF ok that] show "t_sessionId t = s" by blast
  qed
  have cl: "r_sessionId r = s \<longleftrightarrow> r_turnId r \<in> set ?ids" if r: "r \<in> set (td_clients ?db)" for r
  proof -
    obtain t where "t \<in> set (td_turns ?db)" "r_turnId r = t_turnId t" "r_sessionId r = t_sessionId t"
      using keys r by (force simp: keys_ok_def row_key_def)
    then show ?thesis using P [of t] by simp
  qed
  have "set ?ids \<subseteq> t_turnId ` set (td_turns ?db)" by auto
  note rem = remove_keys [where P = ?P and G = "set ?ids" and ids = ?ids and Q = "\<lambda>r. r_sessionId r = s",
      OF keys P refl _ this]
  have k: "keys ?db'" and c: "td_clients ?db' = filter (\<lambda>r. r_turnId r \<notin> set ?ids) (td_clients ?db)"
    using rem cl by blast+
  show ?thesis unfolding w'
  proof (rule turn_stepI [OF ok _ k])
    show "agree ?db' s"
      using l Some by (simp add: agree_def active_def turn_locked_def accepted_of_def filter_empty_conv)
    show "session_view ?db' s' = session_view ?db s'" if "s' \<noteq> s" for s'
      using cl c that by (intro remove_view [where P = ?P and G = "set ?ids"]) auto
  qed (use ok in \<open>simp_all add: turn_ok_def\<close>)
qed

lemma revokeAdmission_step:
  assumes ok: "turn_ok (tw_db w)"
  shows "turn_step s (tw_db w) (tw_db (snd (snd (revokeAdmission env s turnId lease token now w))))"
proof (cases "fst (revokeAdmission env s turnId lease token now w)")
  case False
  then show ?thesis using ok
    by (auto simp: revokeAdmission_def Let_def case_prod_unfold turn_step_refl split: if_splits)
next
  case True
  let ?db = "tw_db w" let ?P = "\<lambda>t. t_turnId t = turnId"
  let ?db' = "delete_turns ?P (delete_sequences [turnId] (delete_clients (\<lambda>r. r_turnId r = turnId) ?db))"
  let ?p = "\<lambda>l. owned_lock s lease l \<and> l_ownerKind l = ''turn''"
  from True obtain t l where t: "t \<in> set (td_turns ?db)" "accepted_turn s turnId t"
    and l: "findSessionLock ?db s = Some l" "l_ownerId l = lease" "l_ownerKind l = ''turn''"
    by (auto simp: revokeAdmission_def Let_def case_prod_unfold list_ex_iff split: if_splits option.splits)
  have w': "tw_db (snd (snd (revokeAdmission env s turnId lease token now w))) = delete_locks ?p ?db'"
    using True by (auto simp: revokeAdmission_def Let_def case_prod_unfold split: if_splits)
  have keys: "keys ?db" using ok by (simp add: turn_ok_def)
  have sess: "t_turnId t = turnId" "t_sessionId t = s" using t by (auto simp: accepted_turn_def)
  have "{turnId} \<subseteq> t_turnId ` set (td_turns ?db)" using t sess by auto
  note rem = remove_keys [where P = ?P and G = "{turnId}" and ids = "[turnId]"
      and Q = "\<lambda>r. r_turnId r = turnId", OF keys _ _ _ this, simplified]
  have k: "keys ?db'" and c: "td_clients ?db' = filter (\<lambda>r. r_turnId r \<notin> {turnId}) (td_clients ?db)"
    using rem by simp_all
  have "active ?db s = [t]"
  proof -
    have "t \<in> set (active ?db s)" using t sess by (simp add: active_def accepted_of_def accepted_turn_def)
    then show ?thesis using active_locked [OF ok l(1)] by (auto split: if_splits)
  qed
  moreover have "active ?db' s = filter (\<lambda>t. \<not> ?P t) (active ?db s)"
    by (simp only: active_def remove_fields filter_swap)
  ultimately have "active ?db' s = []" using sess by simp
  moreover have "session_view ?db' s' = session_view ?db s'" if "s' \<noteq> s" for s'
  proof (rule remove_view [where P = ?P and G = "{turnId}"])
    show "t_sessionId u = s" if "u \<in> set (td_turns ?db)" "t_turnId u = turnId" for u
      using turn_unique [OF ok that(1) t(1)] that(2) sess by simp
    show "r_sessionId r = s" if "r \<in> set (td_clients ?db)" "r_turnId r \<in> {turnId}" for r
      using client_session [OF keys that(1) t(1)] that(2) sess by simp
  qed (use c that in simp_all)
  ultimately have "settled_from s ?db ?db'"
    unfolding settled_from_def using k by simp
  then show ?thesis unfolding w'
    using l turn_ok_lock [OF ok l(1)]
    by (intro settled_delete_lock(1) [OF ok _ l(1)]) (auto simp: owned_lock_def)
qed

section \<open>Receipts, acknowledgement and hooks\<close>

lemma update_turns_step:
  assumes ok: "turn_ok db" and f: "\<And>t. row_key (f t) = row_key t" "\<And>t. t_status (f t) = t_status t"
    and p: "\<And>t. t \<in> set (td_turns db) \<Longrightarrow> p t \<Longrightarrow> t_sessionId t = s"
  shows "turn_step s db (update_turns p f db)"
proof -
  have sess: "t_sessionId (f t) = t_sessionId t" for t using f(1) [of t] by (simp add: row_key_def)
  show ?thesis
  proof (rule turn_stepI [OF ok])
    show "keys (update_turns p f db)" using ok f(1) by (simp add: turn_ok_def row_key_map del: map_map)
    have "accepted_of s (if p t then f t else t) = accepted_of s t" for t
      using sess f(2) by (simp add: accepted_of_def)
    then have "length (filter (accepted_of s) (map (\<lambda>t. if p t then f t else t) ts)) =
        length (filter (accepted_of s) ts)" for ts
      by (induction ts) auto
    then show "agree (update_turns p f db) s"
      using ok by (simp add: turn_ok_def agree_def active_def turn_locked_def)
    show "session_view (update_turns p f db) s' = session_view db s'" if "s' \<noteq> s" for s'
    proof -
      have "filter (\<lambda>t. t_sessionId t = s') (map (\<lambda>t. if p t then f t else t) ts) =
          filter (\<lambda>t. t_sessionId t = s') ts" if "set ts \<subseteq> set (td_turns db)" for ts
        using that by (induction ts) (use p sess \<open>s' \<noteq> s\<close> in auto)
      then show ?thesis by (simp add: session_view_def)
    qed
  qed (use ok in \<open>simp_all add: turn_ok_def\<close>)
qed

lemma clients_step:
  assumes ok: "turn_ok db" and k: "keys (db\<lparr>td_clients := cl\<rparr>)"
    and o: "\<And>s'. s' \<noteq> s \<Longrightarrow> filter (\<lambda>r. r_sessionId r = s') cl = filter (\<lambda>r. r_sessionId r = s') (td_clients db)"
  shows "turn_step s db (db\<lparr>td_clients := cl\<rparr>)"
  using assms by (intro turn_stepI) (auto simp: turn_ok_def agree_def active_def turn_locked_def session_view_def)

lemma reserveSteeringReceipt_step:
  assumes ok: "turn_ok db" and r: "reserveSteeringReceipt s c turnId db = Inr (st, db')"
  shows "turn_step s db db'"
proof (cases "client_mapping db s c = None \<and> list_ex (accepted_turn s turnId) (td_turns db)")
  case False
  then show ?thesis using ok r
    by (auto simp: reserveSteeringReceipt_def turn_step_refl split: option.splits)
next
  case True
  let ?r = "\<lparr>r_sessionId = s, r_clientRequestId = c, r_turnId = turnId\<rparr>"
  from True r have new: "\<forall>q \<in> set (td_clients db). r_sessionId q = s \<longrightarrow> r_clientRequestId q \<noteq> c"
    and db': "db' = db\<lparr>td_clients := td_clients db @ [?r]\<rparr>"
    by (auto simp: reserveSteeringReceipt_def insert_client_Inr result_simps)
  have "(turnId, s) \<in> (\<lambda>(t, s, _). (t, s)) ` set (map row_key (td_turns db))"
    using True by (force simp: list_ex_iff accepted_turn_def row_key_def)
  then have "keys (db\<lparr>td_clients := td_clients db @ [?r]\<rparr>)"
    using ok new by (auto simp: turn_ok_def keys_ok_def)
  then show ?thesis unfolding db' by (intro clients_step [OF ok]) auto
qed

text \<open>A reservation never throws: the lookup before it sees the row a conflict would be with.\<close>

lemma reserveSteeringReceipt_total: "\<exists>r. reserveSteeringReceipt s c turnId db = Inr r"
  by (auto simp: reserveSteeringReceipt_def insert_client_def client_mapping_def find_None_iff
      list_ex_iff split: option.splits)

lemma releaseSteeringReceipt_step:
  assumes "turn_ok db"
  shows "turn_step s db (releaseSteeringReceipt s c turnId db)"
  unfolding releaseSteeringReceipt_def delete_clients_def using assms
  by (intro clients_step)
     (auto simp: turn_ok_def keys_ok_def distinct_map_filterI filter_swap intro!: filter_cong)

lemma findAcceptedQueueTurn_SomeD:
  assumes "findAcceptedQueueTurn db q = Some t"
  shows "t \<in> set (td_turns db)" "t_sessionId t = aq_sessionId q" "t_claimId t = Some (aq_claimId q)"
    and "t_claimSource t = Some (source_name (aq_source q))"
    and "\<And>i. truthy (aq_turnId q) = Some i \<Longrightarrow> t_turnId t = i"
    and "sameStrings (parseStringArray (t_queueItemIds t)) (aq_queueItemIds q)"
  using assms by (auto simp: findAcceptedQueueTurn_def dest!: find_SomeD split: option.splits if_splits)

lemma markAcknowledged_step:
  assumes ok: "turn_ok db" and m: "markAcknowledgedInTransaction now db q = Inr db'"
  shows "turn_step (aq_sessionId q) db db'"
proof -
  from m obtain t where t: "findAcceptedQueueTurn db q = Some t"
    and db': "db' = update_turns (\<lambda>u. t_turnId u = t_turnId t)
      (\<lambda>t. t\<lparr>t_queueAcknowledgedAtMs := Some now\<rparr>) db"
    by (auto simp: markAcknowledgedInTransaction_def split: option.splits)
  note found = findAcceptedQueueTurn_SomeD [OF t]
  show ?thesis unfolding db'
    by (rule update_turns_step [OF ok]) (use found turn_unique [OF ok _ found(1)] in \<open>auto simp: row_key_def\<close>)
qed

end
