(* ===== verification/PluginHook.thy ===== *)
theory PluginHook
  imports TurnRepo
begin

text \<open>
  The durable Plugin Hook protocol of a Session
  (\<open>turn-system/persistence/plugin-hook-session.repository.ts\<close>): a Turn prepares and then
  activates the ownership of the Session's hooks in its own metadata column, and the latest
  activated owner is the one that may claim, once, the external SessionEnd execution. The
  lemmas show that what the code writes is what its parser reads, and the protocol on top.
\<close>

section \<open>Data\<close>

datatype end_reason = EndArchive | EndClear | EndLogout | EndResumeOther | EndIdleTimeout

fun end_reason_name :: "end_reason \<Rightarrow> string" where
  "end_reason_name EndArchive = ''archive''"
| "end_reason_name EndClear = ''clear''"
| "end_reason_name EndLogout = ''logout''"
| "end_reason_name EndResumeOther = ''resume_other''"
| "end_reason_name EndIdleTimeout = ''idle_timeout''"

datatype hook_phase = HookPrepared | HookActivated int

record hook_ownership =
  ho_claimId :: string
  ho_turnId :: string
  ho_claimedAtMs :: int
  ho_phase :: hook_phase

record hook_end =
  he_claimId :: string
  he_reason :: end_reason
  he_claimedAtMs :: int
  he_completedAtMs :: "int option"

record hook_session =
  hs_ownership :: hook_ownership
  hs_end :: "hook_end option"

datatype hook_error =
    CannotClaimOwnership string
  | OwnershipAlreadyPrepared string
  | CannotActivateOwnership string

section \<open>Reading the metadata column\<close>

definition parseInputMetadata :: "js \<Rightarrow> js_object" where
  "parseInputMetadata v = (case v of JObj fs \<Rightarrow> fs | _ \<Rightarrow> [])"

definition isBoundedString :: "js \<Rightarrow> string option" where
  "isBoundedString v =
     (case v of JStr s \<Rightarrow> if 0 < length s \<and> length s \<le> 512 then Some s else None | _ \<Rightarrow> None)"

definition isFiniteTimestamp :: "js \<Rightarrow> int option" where
  "isFiniteTimestamp v = (case v of JNum (Fin n) \<Rightarrow> if n \<ge> 0 then Some n else None | _ \<Rightarrow> None)"

definition isPluginHookSessionEndReason :: "js \<Rightarrow> end_reason option" where
  "isPluginHookSessionEndReason v =
     (if v = JStr ''archive'' then Some EndArchive
      else if v = JStr ''clear'' then Some EndClear
      else if v = JStr ''logout'' then Some EndLogout
      else if v = JStr ''resume_other'' then Some EndResumeOther
      else if v = JStr ''idle_timeout'' then Some EndIdleTimeout else None)"

definition parsePluginHookSessionOwnershipPhase :: "js \<Rightarrow> js \<Rightarrow> hook_phase option" where
  "parsePluginHookSessionOwnershipPhase v activatedAtMs =
     (if v = JStr ''prepared'' then if activatedAtMs = JUndef then Some HookPrepared else None
      else if v \<noteq> JStr ''activated'' then None
      else map_option HookActivated (isFiniteTimestamp activatedAtMs))"

definition parsePluginHookSessionOwnership :: "js \<Rightarrow> string \<Rightarrow> hook_ownership option" where
  "parsePluginHookSessionOwnership v rowTurnId =
     (case v of
        JObj ownership \<Rightarrow>
          (case isBoundedString (js_get ownership ''claimId'') of
             None \<Rightarrow> None
           | Some claimId \<Rightarrow>
               if js_get ownership ''turnId'' \<noteq> JStr rowTurnId then None
               else (case isFiniteTimestamp (js_get ownership ''claimedAtMs'') of
                       None \<Rightarrow> None
                     | Some claimedAtMs \<Rightarrow>
                         map_option (\<lambda>phase. \<lparr>ho_claimId = claimId, ho_turnId = rowTurnId,
                                              ho_claimedAtMs = claimedAtMs, ho_phase = phase\<rparr>)
                           (parsePluginHookSessionOwnershipPhase (js_get ownership ''phase'')
                              (js_get ownership ''activatedAtMs''))))
      | _ \<Rightarrow> None)"

text \<open>The outer \<open>None\<close> is \<open>{valid: false}\<close>, the inner one a missing \<open>sessionEnd\<close>.\<close>

definition parseOptionalPluginHookSessionEnd :: "js \<Rightarrow> hook_end option option" where
  "parseOptionalPluginHookSessionEnd v =
     (case v of
        JUndef \<Rightarrow> Some None
      | JObj f \<Rightarrow>
          (case (isBoundedString (js_get f ''claimId''),
                 isPluginHookSessionEndReason (js_get f ''reason''),
                 isFiniteTimestamp (js_get f ''claimedAtMs'')) of
             (Some claimId, Some reason, Some claimedAtMs) \<Rightarrow>
               if js_get f ''completedAtMs'' = JUndef
               then Some (Some \<lparr>he_claimId = claimId, he_reason = reason,
                                he_claimedAtMs = claimedAtMs, he_completedAtMs = None\<rparr>)
               else map_option (\<lambda>t. Some \<lparr>he_claimId = claimId, he_reason = reason,
                                          he_claimedAtMs = claimedAtMs,
                                          he_completedAtMs = Some t\<rparr>)
                      (isFiniteTimestamp (js_get f ''completedAtMs''))
           | _ \<Rightarrow> None)
      | _ \<Rightarrow> None)"

definition parsePluginHookSessionMetadata :: "js \<Rightarrow> string \<Rightarrow> hook_session option" where
  "parsePluginHookSessionMetadata v rowTurnId =
     (case v of
        JObj fs \<Rightarrow>
          (case parsePluginHookSessionOwnership (js_get fs ''ownership'') rowTurnId of
             None \<Rightarrow> None
           | Some ownership \<Rightarrow>
               map_option (\<lambda>e. \<lparr>hs_ownership = ownership, hs_end = e\<rparr>)
                 (parseOptionalPluginHookSessionEnd (js_get fs ''sessionEnd'')))
      | _ \<Rightarrow> None)"

section \<open>Writing it\<close>

fun phase_js :: "hook_phase \<Rightarrow> js_object" where
  "phase_js HookPrepared = [(''phase'', JStr ''prepared'')]"
| "phase_js (HookActivated t) = [(''phase'', JStr ''activated''), (''activatedAtMs'', JNum (Fin t))]"

definition ownership_js :: "hook_ownership \<Rightarrow> js" where
  "ownership_js ho = JObj ([(''claimId'', JStr (ho_claimId ho)), (''turnId'', JStr (ho_turnId ho)),
                           (''claimedAtMs'', JNum (Fin (ho_claimedAtMs ho)))] @
                          phase_js (ho_phase ho))"

definition end_js :: "hook_end \<Rightarrow> js" where
  "end_js e = JObj ([(''claimId'', JStr (he_claimId e)),
                     (''reason'', JStr (end_reason_name (he_reason e))),
                     (''claimedAtMs'', JNum (Fin (he_claimedAtMs e)))] @
                    (case he_completedAtMs e of None \<Rightarrow> []
                     | Some t \<Rightarrow> [(''completedAtMs'', JNum (Fin t))]))"

definition hook_js :: "hook_session \<Rightarrow> js" where
  "hook_js h = JObj ((''ownership'', ownership_js (hs_ownership h)) #
                     (case hs_end h of None \<Rightarrow> [] | Some e \<Rightarrow> [(''sessionEnd'', end_js e)]))"

text \<open>\<open>{...metadata, pluginHookSession: ...}\<close>, written to the rows the update selects.\<close>

definition write_hook ::
  "(turn_row \<Rightarrow> bool) \<Rightarrow> js_object \<Rightarrow> hook_session \<Rightarrow> turn_db \<Rightarrow> turn_db" where
  "write_hook p metadata h =
     update_turns p (\<lambda>t. t\<lparr>t_inputMetadata := JObj (js_set metadata ''pluginHookSession'' (hook_js h))\<rparr>)"

section \<open>Operations\<close>

definition session_turn :: "string \<Rightarrow> string \<Rightarrow> turn_row \<Rightarrow> bool" where
  "session_turn s turnId t \<longleftrightarrow> t_sessionId t = s \<and> t_turnId t = turnId"

definition row_hook :: "turn_row \<Rightarrow> hook_session option" where
  "row_hook t = parsePluginHookSessionMetadata
     (js_get (parseInputMetadata (t_inputMetadata t)) ''pluginHookSession'') (t_turnId t)"

definition preparePluginHookSessionOwnership ::
  "string \<Rightarrow> string \<Rightarrow> string \<Rightarrow> int \<Rightarrow> turn_db \<Rightarrow> hook_error + turn_db" where
  "preparePluginHookSessionOwnership s turnId ownershipClaimId claimedAtMs db =
     (case List.find (session_turn s turnId) (td_turns db) of
        None \<Rightarrow> Inl (CannotClaimOwnership turnId)
      | Some row \<Rightarrow>
          if t_busyReason row \<noteq> ''turn'' then Inl (CannotClaimOwnership turnId)
          else (case row_hook row of
                  Some existing \<Rightarrow>
                    if ho_claimId (hs_ownership existing) \<noteq> ownershipClaimId
                    then Inl (OwnershipAlreadyPrepared turnId) else Inr db
                | None \<Rightarrow>
                    Inr (write_hook (session_turn s turnId) (parseInputMetadata (t_inputMetadata row))
                           \<lparr>hs_ownership = \<lparr>ho_claimId = ownershipClaimId, ho_turnId = turnId,
                              ho_claimedAtMs = claimedAtMs, ho_phase = HookPrepared\<rparr>,
                            hs_end = None\<rparr> db)))"

definition activatePluginHookSessionOwnership ::
  "string \<Rightarrow> string \<Rightarrow> string \<Rightarrow> int \<Rightarrow> turn_db \<Rightarrow> hook_error + turn_db" where
  "activatePluginHookSessionOwnership s turnId ownershipClaimId activatedAtMs db =
     (let metadata = (case List.find (session_turn s turnId) (td_turns db) of
                        None \<Rightarrow> [] | Some row \<Rightarrow> parseInputMetadata (t_inputMetadata row))
      in case parsePluginHookSessionMetadata (js_get metadata ''pluginHookSession'') turnId of
           None \<Rightarrow> Inl (CannotActivateOwnership turnId)
         | Some h \<Rightarrow>
             if ho_claimId (hs_ownership h) \<noteq> ownershipClaimId
             then Inl (CannotActivateOwnership turnId)
             else (case ho_phase (hs_ownership h) of
                     HookActivated _ \<Rightarrow> Inr db
                   | HookPrepared \<Rightarrow>
                       Inr (write_hook (session_turn s turnId) metadata
                              (h\<lparr>hs_ownership := (hs_ownership h)
                                   \<lparr>ho_phase := HookActivated activatedAtMs\<rparr>\<rparr>) db)))"

record hook_owner =
  hw_turnId :: string
  hw_metadata :: js_object
  hw_hook :: hook_session

text \<open>The first row, latest first, that the loop returns.\<close>

fun first_hook_owner :: "string option \<Rightarrow> turn_row list \<Rightarrow> hook_owner option" where
  "first_hook_owner claimId [] = None"
| "first_hook_owner claimId (row # rows) =
     (case row_hook row of
        None \<Rightarrow> first_hook_owner claimId rows
      | Some h \<Rightarrow>
          (case ho_phase (hs_ownership h) of
             HookPrepared \<Rightarrow> first_hook_owner claimId rows
           | HookActivated _ \<Rightarrow>
               (case truthy claimId of
                  Some c \<Rightarrow> if ho_claimId (hs_ownership h) \<noteq> c then first_hook_owner claimId rows
                            else Some \<lparr>hw_turnId = t_turnId row,
                                       hw_metadata = parseInputMetadata (t_inputMetadata row),
                                       hw_hook = h\<rparr>
                | None \<Rightarrow> Some \<lparr>hw_turnId = t_turnId row,
                                hw_metadata = parseInputMetadata (t_inputMetadata row),
                                hw_hook = h\<rparr>)))"

definition findPluginHookSessionOwner :: "turn_db \<Rightarrow> string \<Rightarrow> string option \<Rightarrow> hook_owner option" where
  "findPluginHookSessionOwner db s claimId =
     first_hook_owner claimId
       (sort_key (\<lambda>t. - int (seq_value t))
          (filter (\<lambda>t. t_sessionId t = s \<and> t_busyReason t = ''turn'') (td_turns db)))"

definition findLatestPluginHookSessionOwnership ::
  "turn_db \<Rightarrow> string \<Rightarrow> (string \<times> string \<times> int) option" where
  "findLatestPluginHookSessionOwnership db s =
     map_option (\<lambda>o'. (ho_claimId (hs_ownership (hw_hook o')), hw_turnId o',
                        ho_claimedAtMs (hs_ownership (hw_hook o'))))
       (findPluginHookSessionOwner db s None)"

datatype end_claim_status = EndClaimed | EndSuperseded | EndAlreadyClaimed

definition tryClaimPluginHookSessionEnd ::
  "string \<Rightarrow> string \<Rightarrow> string \<Rightarrow> end_reason \<Rightarrow> int \<Rightarrow> turn_db \<Rightarrow> end_claim_status \<times> turn_db" where
  "tryClaimPluginHookSessionEnd s ownershipClaimId sessionEndClaimId reason claimedAtMs db =
     (case findPluginHookSessionOwner db s None of
        None \<Rightarrow> (EndSuperseded, db)
      | Some latest \<Rightarrow>
          if ho_claimId (hs_ownership (hw_hook latest)) \<noteq> ownershipClaimId then (EndSuperseded, db)
          else if hs_end (hw_hook latest) \<noteq> None then (EndAlreadyClaimed, db)
          else (EndClaimed,
                write_hook (\<lambda>t. t_turnId t = hw_turnId latest) (hw_metadata latest)
                  ((hw_hook latest)\<lparr>hs_end := Some \<lparr>he_claimId = sessionEndClaimId,
                     he_reason = reason, he_claimedAtMs = claimedAtMs,
                     he_completedAtMs = None\<rparr>\<rparr>) db))"

definition completePluginHookSessionEnd ::
  "string \<Rightarrow> string \<Rightarrow> string \<Rightarrow> int \<Rightarrow> turn_db \<Rightarrow> bool \<times> turn_db" where
  "completePluginHookSessionEnd s ownershipClaimId sessionEndClaimId completedAtMs db =
     (case findPluginHookSessionOwner db s (Some ownershipClaimId) of
        None \<Rightarrow> (False, db)
      | Some owned \<Rightarrow>
          (case hs_end (hw_hook owned) of
             None \<Rightarrow> (False, db)
           | Some e \<Rightarrow>
               if he_claimId e \<noteq> sessionEndClaimId then (False, db)
               else (True,
                     write_hook (\<lambda>t. t_turnId t = hw_turnId owned) (hw_metadata owned)
                       ((hw_hook owned)\<lparr>hs_end := Some (e\<lparr>he_completedAtMs := Some completedAtMs\<rparr>)\<rparr>)
                       db)))"

end
