(* ===== verification/TurnSystem.thy ===== *)
theory TurnSystem
  imports TurnDelete PluginHook
begin

text \<open>
  The Turn repository as a state machine: \<open>turn_call\<close> lists its calls with the values they draw,
  \<open>run_turn_call\<close> runs one on the repository object, and \<open>turn_reachable\<close> collects the objects a
  sequence of calls leads to from empty tables. Every call keeps the invariant; every call but the
  pass after a restart is a \<open>turn_step\<close> of its own Session.
\<close>

section \<open>The pass after a restart\<close>

text \<open>The locks of a pass still stand when their turn comes, so no step of it loses ownership.\<close>

lemma recover_lock_step:
  assumes ok: "turn_ok db" and l: "findSessionLock db (l_sessionId l) = Some l"
  shows "\<exists>seen' result' db'. recover_lock env mk c l seen result db = (seen', Inr (result', db')) \<and>
    turn_step (l_sessionId l) db db' \<and>
    (te_ownerAlive env (l_ownerId l) = Some True \<longrightarrow> db' = db) \<and>
    (te_ownerAlive env (l_ownerId l) = Some False \<longrightarrow> l_ownerKind l \<noteq> SESSION_DELETION \<longrightarrow>
       findSessionLock db' (l_sessionId l) = None)"
proof -
  let ?s = "l_sessionId l"
  let ?p = "\<lambda>k. owned_lock ?s (l_ownerId l) k \<and> l_ownerKind k = l_ownerKind l \<and>
               l_acquiredAtMs k = l_acquiredAtMs l"
  have own: "?p l" "\<And>k. ?p k \<Longrightarrow> l_sessionId k = ?s" by (auto simp: owned_lock_def)
  note lock = turn_ok_lock [OF ok l]
  note one = lock_changes_one [where p = ?p, OF ok l own]
  let ?f = "\<lambda>k. k\<lparr>l_ownerId := mk ?s, l_acquiredAtMs := c, l_expiresAtMs := DELETION_FENCE_EXPIRES_AT_MS\<rparr>"
  have reclaim: "turn_step ?s db (update_locks ?p ?f db)" if "l_ownerKind l = SESSION_DELETION"
    using that by (intro reclaim_step [where p = ?p and f = ?f, OF ok l that]) (simp_all add: owned_lock_def)
  have release: "\<exists>e db'. recoverProcessRestartLock l c db = Inr (e, db') \<and> turn_step ?s db db' \<and>
      findSessionLock db' ?s = None"
  proof (cases "turn_kind (l_ownerKind l)")
    case False
    then have "settled_from ?s db db" using active_locked [OF ok l] ok by (simp add: settled_from_refl)
    from settled_delete_lock(1,2) [where p = ?p, OF ok this l own] show ?thesis
      using False one lock(2) by (simp add: recoverProcessRestartLock_def isTurnOwnerKind_known Let_def)
  next
    case True
    then obtain t where a: "active db ?s = [t]" using active_locked [OF ok l] by auto
    let ?q = "\<lambda>u. t_turnId u = t_turnId t \<and> t_status u = TurnAccepted"
    have q: "\<And>u. u \<in> set (td_turns db) \<Longrightarrow> ?q u \<longleftrightarrow> u = t"
      using turnId_active [OF ok a] active_Some [OF ok a] by auto
    have st: "settled_from ?s db (update_turns ?q (settle_row TurnFailed c) db)"
      and changed: "turn_changes ?q db = 1"
      using settled_from_settle [OF ok a _ q] settle_active(4) [OF ok a _ q, of TurnFailed] by simp_all
    from settled_delete_lock(1,2) [where p = ?p, OF ok st l own] show ?thesis
      using True one lock(2) changed latest_active(1) [OF ok a]
      by (simp add: recoverProcessRestartLock_def failLatestAcceptedTurn_def isTurnOwnerKind_known
          lock_changes_settled Let_def)
  qed
  show ?thesis
    using reclaim release one turn_step_refl [OF ok, of ?s]
    by (auto simp: recover_lock_def Let_def case_prod_unfold)
qed

lemma recover_locks_total:
  assumes "turn_ok db" "distinct (map l_sessionId ls)"
    and "\<And>l. l \<in> set ls \<Longrightarrow> findSessionLock db (l_sessionId l) = Some l"
  shows "\<exists>seen' result' db'. recover_locks env mk c ls seen result db = (seen', Inr (result', db')) \<and>
    turn_ok db' \<and> td_nextSequence db \<le> td_nextSequence db' \<and>
    (\<forall>s. s \<notin> l_sessionId ` set ls \<longrightarrow> session_view db' s = session_view db s) \<and>
    (\<forall>l \<in> set ls. (te_ownerAlive env (l_ownerId l) = Some True \<longrightarrow>
         session_view db' (l_sessionId l) = session_view db (l_sessionId l)) \<and>
       (te_ownerAlive env (l_ownerId l) = Some False \<longrightarrow> l_ownerKind l \<noteq> SESSION_DELETION \<longrightarrow>
         findSessionLock db' (l_sessionId l) = None))"
  using assms
proof (induction ls arbitrary: seen result db)
  case (Cons l ls)
  obtain seen1 result1 db1 where step: "recover_lock env mk c l seen result db = (seen1, Inr (result1, db1))"
    and view: "turn_step (l_sessionId l) db db1"
    and own: "te_ownerAlive env (l_ownerId l) = Some True \<Longrightarrow> db1 = db"
      "te_ownerAlive env (l_ownerId l) = Some False \<Longrightarrow> l_ownerKind l \<noteq> SESSION_DELETION \<Longrightarrow>
        findSessionLock db1 (l_sessionId l) = None"
    using recover_lock_step Cons.prems by (metis list.set_intros(1))
  have other: "session_view db1 (l_sessionId k) = session_view db (l_sessionId k)" if "k \<in> set ls" for k
  proof -
    have "l_sessionId l \<notin> l_sessionId ` set ls" using Cons.prems(2) by simp
    then have "l_sessionId k \<noteq> l_sessionId l" using that by (metis imageI)
    then show ?thesis using view by (simp add: turn_step_def)
  qed
  have "findSessionLock db1 (l_sessionId k) = Some k" if "k \<in> set ls" for k
    using other [OF that] Cons.prems(3) [of k] that by (simp add: session_view_def)
  then obtain seen2 result2 db2 where
    rest: "recover_locks env mk c ls seen1 result1 db1 = (seen2, Inr (result2, db2))" "turn_ok db2"
    "td_nextSequence db1 \<le> td_nextSequence db2"
    "\<forall>s. s \<notin> l_sessionId ` set ls \<longrightarrow> session_view db2 s = session_view db1 s"
    "\<forall>l \<in> set ls. (te_ownerAlive env (l_ownerId l) = Some True \<longrightarrow>
         session_view db2 (l_sessionId l) = session_view db1 (l_sessionId l)) \<and>
       (te_ownerAlive env (l_ownerId l) = Some False \<longrightarrow> l_ownerKind l \<noteq> SESSION_DELETION \<longrightarrow>
         findSessionLock db2 (l_sessionId l) = None)"
    using Cons.IH [of db1 seen1 result1] Cons.prems(2) turn_step_ok [OF view] by auto
  have "l_sessionId l \<notin> l_sessionId ` set ls" using Cons.prems(2) by simp
  then have v2: "session_view db2 (l_sessionId l) = session_view db1 (l_sessionId l)" using rest(4) by blast
  then have "findSessionLock db2 (l_sessionId l) = findSessionLock db1 (l_sessionId l)"
    by (simp add: session_view_def)
  then show ?case using step view rest v2 own other by (auto simp: turn_step_def)
qed simp

lemma orphaned_locks_found:
  assumes "turn_ok db"
  shows "distinct (map l_sessionId (orphaned_locks started db))"
    and "l \<in> set (orphaned_locks started db) \<Longrightarrow> findSessionLock db (l_sessionId l) = Some l"
proof -
  have ok: "locks_ok (td_locks db)" using assms by (simp add: turn_ok_def)
  then have "distinct (map l_sessionId (filter P (td_locks db)))" for P
    by (simp add: locks_ok_def distinct_map_filterI)
  then show "distinct (map l_sessionId (orphaned_locks started db))"
    by (simp add: orphaned_locks_def distinct_map)
  show "l \<in> set (orphaned_locks started db) \<Longrightarrow> findSessionLock db (l_sessionId l) = Some l"
    using ok findSessionLock_unique by (auto simp: orphaned_locks_def)
qed

lemma recoverProcessRestart_total:
  assumes "turn_ok db"
  shows "\<exists>seen result db'. recoverProcessRestart env mk started c obs db = (seen, Inr (result, db')) \<and>
    turn_ok db' \<and> td_nextSequence db \<le> td_nextSequence db' \<and>
    (\<forall>s. s \<notin> l_sessionId ` set (orphaned_locks started db) \<longrightarrow> session_view db' s = session_view db s) \<and>
    (\<forall>l \<in> set (orphaned_locks started db).
       (te_ownerAlive env (l_ownerId l) = Some True \<longrightarrow>
         session_view db' (l_sessionId l) = session_view db (l_sessionId l)) \<and>
       (te_ownerAlive env (l_ownerId l) = Some False \<longrightarrow> l_ownerKind l \<noteq> SESSION_DELETION \<longrightarrow>
         findSessionLock db' (l_sessionId l) = None))"
  unfolding recoverProcessRestart_def
  by (rule recover_locks_total [OF assms orphaned_locks_found(1) [OF assms]])
     (rule orphaned_locks_found(2) [OF assms])

section \<open>Calls\<close>

datatype 'q turn_call =
    CallMaintain string int string
  | CallRenewMaintenance string string int
  | CallReleaseMaintenance string string int
  | CallAdmit admit_input int string
  | CallRenewTurn string string int
  | CallSettle string string string terminal_outcome "pause_cause option" int "turn_error option"
  | CallRecoverExpired string int
  | CallRestart "string \<Rightarrow> string" jsnum int
  | CallBeginDeletion string int string
  | CallDeleteData string
  | CallCompleteDeletion string
  | CallReserve string string string
  | CallReleaseReceipt string string string
  | CallRevoke string string string "queue_pause option" int
  | CallAcknowledge acceptance_query int
  | CallPrepareHook string string string int
  | CallActivateHook string string string int
  | CallClaimEnd string string string end_reason int
  | CallCompleteEnd string string string int
  | CallElsewhere 'q

text \<open>A call whose transaction throws leaves the object as it was, apart from what \<open>settle\<close> and the restart pass note in memory.\<close>

definition committed_db :: "'e + turn_db \<Rightarrow> 'q turn_world \<Rightarrow> 'q turn_world" where
  "committed_db r w = (case r of Inl _ \<Rightarrow> w | Inr db \<Rightarrow> w\<lparr>tw_db := db\<rparr>)"

definition committed_world :: "'e + 'a \<times> 'q turn_world \<Rightarrow> 'q turn_world \<Rightarrow> 'q turn_world" where
  "committed_world r w = (case r of Inl _ \<Rightarrow> w | Inr (_, w') \<Rightarrow> w')"

fun run_turn_call :: "'q turn_env \<Rightarrow> 'q turn_call \<Rightarrow> 'q turn_world \<Rightarrow> 'q turn_world" where
  "run_turn_call env (CallMaintain s now lease) w =
     committed_world (tryAcquireSessionMaintenance env s now lease w) w"
| "run_turn_call env (CallRenewMaintenance s lease now) w = snd (renewSessionMaintenance env s lease now w)"
| "run_turn_call env (CallReleaseMaintenance s lease now) w = releaseSessionMaintenance s lease now w"
| "run_turn_call env (CallAdmit i now lease) w =
     committed_world (rbind (admitRepositoryTurn env i now lease w) (\<lambda>(r, _, w'). Inr (r, w'))) w"
| "run_turn_call env (CallRenewTurn s lease now) w = snd (renewTurn env s lease now w)"
| "run_turn_call env (CallSettle s t lease oc cause c failure) w =
     snd (settleTurn env s t lease oc cause c failure w)"
| "run_turn_call env (CallRecoverExpired s now) w = snd (recoverExpiredTurn s now w)"
| "run_turn_call env (CallRestart mk started c) w = snd (recoverRepositoryProcessRestart env mk started c w)"
| "run_turn_call env (CallBeginDeletion s now owner) w =
     committed_world (beginSessionDeletion env s now owner w) w"
| "run_turn_call env (CallDeleteData s) w =
     (case deleteTurnSessionData s w of Inl _ \<Rightarrow> w | Inr w' \<Rightarrow> w')"
| "run_turn_call env (CallCompleteDeletion s) w =
     committed_db (completeTurnSessionDeletion env s (tw_db w)) w"
| "run_turn_call env (CallReserve s c t) w =
     committed_db (rbind (reserveSteeringReceipt s c t (tw_db w)) (\<lambda>(_, db). Inr db)) w"
| "run_turn_call env (CallReleaseReceipt s c t) w = w\<lparr>tw_db := releaseSteeringReceipt s c t (tw_db w)\<rparr>"
| "run_turn_call env (CallRevoke s t lease token now) w =
     snd (snd (revokeAdmission env s t lease token now w))"
| "run_turn_call env (CallAcknowledge q now) w =
     committed_db (markAcknowledgedInTransaction now (tw_db w) q) w"
| "run_turn_call env (CallPrepareHook s t c now) w =
     committed_db (preparePluginHookSessionOwnership s t c now (tw_db w)) w"
| "run_turn_call env (CallActivateHook s t c now) w =
     committed_db (activatePluginHookSessionOwnership s t c now (tw_db w)) w"
| "run_turn_call env (CallClaimEnd s oc ec reason now) w =
     w\<lparr>tw_db := snd (tryClaimPluginHookSessionEnd s oc ec reason now (tw_db w))\<rparr>"
| "run_turn_call env (CallCompleteEnd s oc ec now) w =
     w\<lparr>tw_db := snd (completePluginHookSessionEnd s oc ec now (tw_db w))\<rparr>"
| "run_turn_call env (CallElsewhere q) w = w\<lparr>tw_rest := q\<rparr>"

fun call_target :: "'q turn_call \<Rightarrow> string option" where
  "call_target (CallMaintain s _ _) = Some s"
| "call_target (CallRenewMaintenance s _ _) = Some s"
| "call_target (CallReleaseMaintenance s _ _) = Some s"
| "call_target (CallAdmit i _ _) = Some (ai_sessionId i)"
| "call_target (CallRenewTurn s _ _) = Some s"
| "call_target (CallSettle s _ _ _ _ _ _) = Some s"
| "call_target (CallRecoverExpired s _) = Some s"
| "call_target (CallRestart _ _ _) = None"
| "call_target (CallBeginDeletion s _ _) = Some s"
| "call_target (CallDeleteData s) = Some s"
| "call_target (CallCompleteDeletion s) = Some s"
| "call_target (CallReserve s _ _) = Some s"
| "call_target (CallReleaseReceipt s _ _) = Some s"
| "call_target (CallRevoke s _ _ _ _) = Some s"
| "call_target (CallAcknowledge q _) = Some (aq_sessionId q)"
| "call_target (CallPrepareHook s _ _ _) = Some s"
| "call_target (CallActivateHook s _ _ _) = Some s"
| "call_target (CallClaimEnd s _ _ _ _) = Some s"
| "call_target (CallCompleteEnd s _ _ _) = Some s"
| "call_target (CallElsewhere _) = None"

definition empty_turns :: turn_db where
  "empty_turns = \<lparr>td_locks = [], td_turns = [], td_sequences = [], td_nextSequence = 1, td_clients = []\<rparr>"

definition start_world :: "'q \<Rightarrow> 'q turn_world" where
  "start_world q = \<lparr>tw_db = empty_turns, tw_rest = q, tw_pending = (\<lambda>_. None), tw_observed = (\<lambda>_. None)\<rparr>"

inductive turn_reachable :: "'q turn_env \<Rightarrow> 'q turn_world \<Rightarrow> bool" for env where
  start: "turn_reachable env (start_world q)"
| call: "turn_reachable env w \<Longrightarrow> turn_reachable env (run_turn_call env c w)"

definition world_ok :: "'q turn_world \<Rightarrow> bool" where
  "world_ok w \<longleftrightarrow> turn_ok (tw_db w) \<and> (\<forall>s p. tw_pending w s = Some p \<longrightarrow> ps_sessionId p = s)"

section \<open>Every call keeps the invariant\<close>

lemma empty_turns_ok: "turn_ok empty_turns"
  by (simp add: empty_turns_def turn_ok_def locks_ok_def keys_ok_def agree_def active_def turn_locked_def
      findSessionLock_def)

lemma write_hook_step:
  assumes "turn_ok db" "\<And>t. t \<in> set (td_turns db) \<Longrightarrow> p t \<Longrightarrow> t_sessionId t = s"
  shows "turn_step s db (write_hook p m h db)"
  unfolding write_hook_def by (rule update_turns_step [OF assms(1)]) (use assms(2) in \<open>auto simp: row_key_def\<close>)

lemma first_hook_owner_SomeD:
  "first_hook_owner c rows = Some o' \<Longrightarrow> \<exists>t \<in> set rows. t_turnId t = hw_turnId o' \<and>
     row_hook t = Some (hw_hook o') \<and> hw_metadata o' = parseInputMetadata (t_inputMetadata t)"
  by (induction rows) (auto split: option.splits hook_phase.splits if_splits)

lemma findPluginHookSessionOwner_SomeD:
  assumes "findPluginHookSessionOwner db s c = Some o'"
  shows "\<exists>t \<in> set (td_turns db). t_turnId t = hw_turnId o' \<and> t_sessionId t = s \<and> t_busyReason t = ''turn'' \<and>
     row_hook t = Some (hw_hook o') \<and> hw_metadata o' = parseInputMetadata (t_inputMetadata t)"
  using first_hook_owner_SomeD [OF assms [unfolded findPluginHookSessionOwner_def]] by auto

lemma hook_owner_step:
  assumes "turn_ok db" "findPluginHookSessionOwner db s c = Some o'"
  shows "turn_step s db (write_hook (\<lambda>t. t_turnId t = hw_turnId o') m h db)"
proof (rule write_hook_step [OF assms(1)])
  obtain u where "u \<in> set (td_turns db)" "t_turnId u = hw_turnId o'" "t_sessionId u = s"
    using findPluginHookSessionOwner_SomeD [OF assms(2)] by blast
  then show "t_sessionId t = s" if "t \<in> set (td_turns db)" "t_turnId t = hw_turnId o'" for t
    using turn_unique [OF assms(1) that(1)] that(2) by simp
qed

lemma admitRepositoryTurn_step:
  assumes "turn_ok (tw_db w)" "\<And>s p. tw_pending w s = Some p \<Longrightarrow> ps_sessionId p = s"
    and "admitRepositoryTurn env i now lease w = Inr (r, facts, w')"
  shows "turn_step (ai_sessionId i) (tw_db w) (tw_db w')"
proof -
  from assms(3) obtain st rec db' q' where
    tx: "admitTurnInTransaction env i (tw_pending w (ai_sessionId i)) now lease (tw_db w) (tw_rest w) =
      Inr ((st, rec), db', q')"
    by (auto simp: admitRepositoryTurn_def result_simps)
  moreover from this assms(3) have "tw_db w' = db'"
    by (cases st) (auto simp: admitRepositoryTurn_def Let_def case_prod_unfold)
  ultimately show ?thesis using admitTurn_step [OF assms(1) assms(2) tx] by simp
qed

lemma turn_call_step:
  assumes "world_ok w" "call_target c = Some s"
  shows "turn_step s (tw_db w) (tw_db (run_turn_call env c w))"
proof -
  have ok: "turn_ok (tw_db w)" and pend: "\<And>s p. tw_pending w s = Some p \<Longrightarrow> ps_sessionId p = s"
    using assms(1) by (auto simp: world_ok_def)
  note refl = turn_step_refl [OF ok, of s]
  show ?thesis
  proof (cases c)
    case (CallMaintain s' now lease)
    then show ?thesis using assms(2) refl tryAcquireSessionMaintenance_step [OF ok]
      by (cases "tryAcquireSessionMaintenance env s' now lease w") (auto simp: committed_world_def)
  next
    case (CallAdmit i now lease)
    then show ?thesis using assms(2) refl admitRepositoryTurn_step [OF ok pend]
      by (cases "admitRepositoryTurn env i now lease w") (auto simp: committed_world_def)
  next
    case (CallSettle s' t lease oc cause c' failure)
    then show ?thesis using assms(2) refl settleInTransaction_step [OF ok]
      by (auto simp: settleTurn_def Let_def case_prod_unfold split: sum.splits option.splits)
  next
    case (CallBeginDeletion s' now owner)
    then show ?thesis using assms(2) refl beginSessionDeletion_step [OF ok pend]
      by (cases "beginSessionDeletion env s' now owner w") (auto simp: committed_world_def)
  next
    case (CallDeleteData s')
    then show ?thesis using assms(2) refl deleteTurnSessionData_step [OF ok] by (auto split: sum.splits)
  next
    case (CallReserve s' k t)
    then show ?thesis using assms(2) refl reserveSteeringReceipt_step [OF ok]
      by (auto simp: committed_db_def split: sum.splits)
        (auto simp: result_simps)
  next
    case (CallPrepareHook s' t k now)
    then show ?thesis using assms(2) refl
      by (auto simp: committed_db_def preparePluginHookSessionOwnership_def session_turn_def
          intro!: write_hook_step [OF ok] split: sum.splits option.splits if_splits)
  next
    case (CallActivateHook s' t k now)
    then show ?thesis using assms(2) refl
      by (auto simp: committed_db_def activatePluginHookSessionOwnership_def session_turn_def Let_def
          intro!: write_hook_step [OF ok] split: sum.splits option.splits if_splits hook_phase.splits)
  next
    case (CallClaimEnd s' k e reason now)
    then show ?thesis using assms(2) refl
      by (auto simp: tryClaimPluginHookSessionEnd_def intro: hook_owner_step [OF ok] split: option.splits)
  next
    case (CallCompleteEnd s' k e now)
    then show ?thesis using assms(2) refl
      by (auto simp: completePluginHookSessionEnd_def intro: hook_owner_step [OF ok] split: option.splits)
  qed (use assms(2) refl in \<open>auto simp: committed_db_def recoverExpiredTurn_def case_prod_unfold Let_def
       renewTurn_step [OF ok] renewSessionMaintenance_step [OF ok] releaseSessionMaintenance_step [OF ok]
       recoverExpired_step [OF ok] releaseSteeringReceipt_step [OF ok] revokeAdmission_step [OF ok]
       intro: completeTurnSessionDeletion_step [OF ok] markAcknowledged_step [OF ok] split: sum.splits\<close>)
qed

text \<open>The pass after a restart commits for every finite start time, whatever the locks are.\<close>

lemma restart_step:
  assumes "turn_ok (tw_db w)"
  shows "turn_ok (tw_db (snd (recoverRepositoryProcessRestart env mk started c w)))"
    and "td_nextSequence (tw_db w) \<le>
         td_nextSequence (tw_db (snd (recoverRepositoryProcessRestart env mk started c w)))"
    and "tw_pending (snd (recoverRepositoryProcessRestart env mk started c w)) = tw_pending w"
proof -
  have *: "turn_ok (tw_db w') \<and> td_nextSequence (tw_db w) \<le> td_nextSequence (tw_db w') \<and>
      tw_pending w' = tw_pending w"
    if "w' = snd (recoverRepositoryProcessRestart env mk started c w)" for w'
  proof (cases started)
    case (Fin n)
    then show ?thesis
      using recoverProcessRestart_total [OF assms, of env mk n c "tw_observed w"] that
      by (auto simp: recoverRepositoryProcessRestart_def case_prod_unfold Let_def)
  qed (use that assms in \<open>simp add: recoverRepositoryProcessRestart_def\<close>)
  show "turn_ok (tw_db (snd (recoverRepositoryProcessRestart env mk started c w)))"
    "td_nextSequence (tw_db w) \<le> td_nextSequence (tw_db (snd (recoverRepositoryProcessRestart env mk started c w)))"
    "tw_pending (snd (recoverRepositoryProcessRestart env mk started c w)) = tw_pending w"
    using * [OF refl] by simp_all
qed

definition pending_ok :: "'q turn_world \<Rightarrow> bool" where
  "pending_ok w \<longleftrightarrow> (\<forall>s p. tw_pending w s = Some p \<longrightarrow> ps_sessionId p = s)"

lemma pending_ok_updates [simp]:
  "pending_ok (w\<lparr>tw_db := db\<rparr>) = pending_ok w" "pending_ok (w\<lparr>tw_rest := q\<rparr>) = pending_ok w"
  "pending_ok (w\<lparr>tw_observed := ob\<rparr>) = pending_ok w"
  by (simp_all add: pending_ok_def)

lemma pending_ok_change:
  "pending_ok w \<Longrightarrow> pending_ok (w\<lparr>tw_pending := (tw_pending w)(s := None)\<rparr>)"
  "pending_ok w \<Longrightarrow> ps_sessionId p = s \<Longrightarrow> pending_ok (w\<lparr>tw_pending := (tw_pending w)(s \<mapsto> p)\<rparr>)"
  by (auto simp: pending_ok_def)

lemma admitRepositoryTurn_pending:
  assumes "admitRepositoryTurn env i now lease w = Inr (r, facts, w')"
  shows "tw_pending w' = (tw_pending w)(ai_sessionId i := None)"
proof -
  from assms obtain st rec db' q' where
    "admitTurnInTransaction env i (tw_pending w (ai_sessionId i)) now lease (tw_db w) (tw_rest w) =
      Inr ((st, rec), db', q')"
    by (auto simp: admitRepositoryTurn_def result_simps)
  with assms show ?thesis
    by (cases st) (auto simp: admitRepositoryTurn_def Let_def case_prod_unfold)
qed

lemma turn_call_pending:
  assumes "pending_ok w" "\<And>mk started n. c \<noteq> CallRestart mk started n"
  shows "pending_ok (run_turn_call env c w)"
proof (cases c)
  case (CallAdmit i now lease)
  then show ?thesis using assms(1) admitRepositoryTurn_pending [of env i now lease w]
    by (cases "admitRepositoryTurn env i now lease w") (auto simp: committed_world_def pending_ok_def split: if_splits)
next
  case (CallSettle s t lease oc cause n failure)
  then show ?thesis using assms(1)
    by (auto simp: settleTurn_def Let_def case_prod_unfold pending_ok_def split: sum.splits option.splits)
next
  case (CallMaintain s now lease)
  then show ?thesis using assms(1)
    by (auto simp: committed_world_def tryAcquireSessionMaintenance_def case_prod_unfold Let_def
        result_simps split: sum.splits prod.splits if_splits)
next
  case (CallBeginDeletion s now owner)
  then show ?thesis using assms(1)
    by (auto simp: committed_world_def beginSessionDeletion_def Let_def result_simps pending_ok_def
        split: sum.splits prod.splits if_splits)
qed (use assms in \<open>auto simp: committed_db_def recoverExpiredTurn_def renewTurn_def
      renewSessionMaintenance_def releaseSessionMaintenance_def deleteTurnSessionData_def
      revokeAdmission_def case_prod_unfold Let_def pending_ok_change split: sum.splits option.splits\<close>)

lemma world_ok_alt: "world_ok w \<longleftrightarrow> turn_ok (tw_db w) \<and> pending_ok w"
  by (simp add: world_ok_def pending_ok_def)

lemma run_turn_call_ok:
  assumes "world_ok w"
  shows "world_ok (run_turn_call env c w)"
    and "td_nextSequence (tw_db w) \<le> td_nextSequence (tw_db (run_turn_call env c w))"
proof -
  have "world_ok (run_turn_call env c w) \<and>
      td_nextSequence (tw_db w) \<le> td_nextSequence (tw_db (run_turn_call env c w))"
  proof (cases "call_target c")
    case (Some s)
    moreover from Some have "c \<noteq> CallRestart mk started n" for mk started n by auto
    ultimately show ?thesis using turn_call_step [OF assms Some, of env] assms turn_call_pending [of w c env]
      by (auto simp: world_ok_alt turn_step_def)
  next
    case None
    then show ?thesis using assms restart_step [of w env]
      by (cases c) (auto simp: world_ok_alt pending_ok_def)
  qed
  then show "world_ok (run_turn_call env c w)"
    "td_nextSequence (tw_db w) \<le> td_nextSequence (tw_db (run_turn_call env c w))" by simp_all
qed

lemma start_world_ok: "world_ok (start_world q)"
  by (simp add: world_ok_def start_world_def empty_turns_ok)

lemma turn_reachable_ok: "turn_reachable env w \<Longrightarrow> world_ok w"
  by (induction rule: turn_reachable.induct)
     (simp_all add: run_turn_call_ok start_world_ok)

end
