(* ===== verification/TurnFacts.thy ===== *)
theory TurnFacts
  imports TurnSystem FenceProps
begin

text \<open>
  The facts the Turn properties share: what recovery leaves alone, when an admission goes through,
  and the concrete world the witnesses evaluate.
\<close>

section \<open>What recovery leaves alone\<close>

lemma next_after_recovery [simp]:
  "td_nextSequence (snd (releaseOrPromoteDeletionFence s o' k c db)) = td_nextSequence db"
  "td_nextSequence (snd (releaseRecoveredLock l c r db)) = td_nextSequence db"
  "td_nextSequence (snd (recoverPendingSettlement p c db)) = td_nextSequence db"
  "td_nextSequence (snd (recoverExpired s c db)) = td_nextSequence db"
  "td_nextSequence (snd (recoverDeadLegacyOwner alive s c db)) = td_nextSequence db"
  by (auto simp: releaseOrPromoteDeletionFence_def releaseRecoveredLock_def recoverPendingSettlement_def
      recoverExpired_def recoverDeadLegacyOwner_def Let_def case_prod_unfold split: option.splits)

lemma keys_after_recovery [simp]:
  "map row_key (td_turns (snd (releaseOrPromoteDeletionFence s o' k c db))) = map row_key (td_turns db)"
  "map row_key (td_turns (snd (releaseRecoveredLock l c r db))) = map row_key (td_turns db)"
  "map row_key (td_turns (snd (recoverPendingSettlement p c db))) = map row_key (td_turns db)"
  "map row_key (td_turns (snd (recoverExpired s c db))) = map row_key (td_turns db)"
  "map row_key (td_turns (snd (recoverDeadLegacyOwner alive s c db))) = map row_key (td_turns db)"
  by (auto simp: releaseOrPromoteDeletionFence_def releaseRecoveredLock_def recoverPendingSettlement_def
      recoverExpired_def recoverDeadLegacyOwner_def Let_def case_prod_unfold split: option.splits)

lemma clients_after_recovery [simp]:
  "td_clients (snd (releaseOrPromoteDeletionFence s o' k c db)) = td_clients db"
  "td_clients (snd (releaseRecoveredLock l c r db)) = td_clients db"
  "td_clients (snd (recoverPendingSettlement p c db)) = td_clients db"
  "td_clients (snd (recoverExpired s c db)) = td_clients db"
  "td_clients (snd (recoverDeadLegacyOwner alive s c db)) = td_clients db"
  "td_sequences (snd (releaseOrPromoteDeletionFence s o' k c db)) = td_sequences db"
  "td_sequences (snd (releaseRecoveredLock l c r db)) = td_sequences db"
  "td_sequences (snd (recoverPendingSettlement p c db)) = td_sequences db"
  "td_sequences (snd (recoverExpired s c db)) = td_sequences db"
  "td_sequences (snd (recoverDeadLegacyOwner alive s c db)) = td_sequences db"
  by (auto simp: releaseOrPromoteDeletionFence_def releaseRecoveredLock_def recoverPendingSettlement_def
      recoverExpired_def recoverDeadLegacyOwner_def Let_def case_prod_unfold split: option.splits)

lemma admission_recovery [simp]:
  "td_nextSequence (snd (recoverAdmissionTerminalFacts env s p c db)) = td_nextSequence db"
  "map row_key (td_turns (snd (recoverAdmissionTerminalFacts env s p c db))) = map row_key (td_turns db)"
  "td_clients (snd (recoverAdmissionTerminalFacts env s p c db)) = td_clients db"
  "td_sequences (snd (recoverAdmissionTerminalFacts env s p c db)) = td_sequences db"
  by (auto simp: recoverAdmissionTerminalFacts_def Let_def case_prod_unfold split: option.splits)

text \<open>A live lock that no pending settlement names survives the recovery, without a fact.\<close>

lemma recovery_keeps_live:
  assumes ok: "turn_ok db" and l: "findSessionLock db s = Some l" "l_expiresAtMs l > now"
    and p: "\<And>p. pending = Some p \<Longrightarrow> ps_sessionId p = s \<and> ps_leaseId p \<noteq> l_ownerId l"
  shows "recoverAdmissionTerminalFacts env s pending now db = ([], db)"
proof -
  have "recoverPendingSettlement q now db = (None, db)" if "pending = Some q" for q
    using p [OF that] l(1) by (auto simp: recoverPendingSettlement_def Let_def split: option.splits)
  moreover have "recoverExpired s now db = ((False, []), db)"
    using ok l by (simp add: recoverExpired_cases)
  ultimately show ?thesis
    using recoverDeadLegacyOwner_id [OF ok]
    by (cases pending) (simp_all add: recoverAdmissionTerminalFacts_def)
qed

lemma recovery_of_idle:
  assumes ok: "turn_ok db" and l: "findSessionLock db s = None"
    and p: "\<And>p. pending = Some p \<Longrightarrow> ps_sessionId p = s"
  shows "recoverAdmissionTerminalFacts env s pending now db = ([], db)"
proof -
  have "recoverPendingSettlement q now db = (None, db)" if "pending = Some q" for q
    using p [OF that] l by (simp add: recoverPendingSettlement_def Let_def)
  moreover have "recoverExpired s now db = ((False, []), db)"
    using ok l by (simp add: recoverExpired_cases)
  ultimately show ?thesis
    using recoverDeadLegacyOwner_id [OF ok]
    by (cases pending) (simp_all add: recoverAdmissionTerminalFacts_def)
qed

section \<open>When an admission goes through\<close>

text \<open>The identities of an input that no row of the tables carries yet.\<close>

definition fresh_input :: "admit_input \<Rightarrow> turn_db \<Rightarrow> bool" where
  "fresh_input i db \<longleftrightarrow>
     (\<forall>(t, s, c, r, _) \<in> set (map row_key (td_turns db)).
        t \<noteq> ai_turnId i \<and> (ingress_claim i \<noteq> None \<longrightarrow> c \<noteq> ingress_claim i) \<and>
        (truthy (ai_clientRequestId i) \<noteq> None \<longrightarrow> s = ai_sessionId i \<longrightarrow> r \<noteq> truthy (ai_clientRequestId i))) \<and>
     (\<forall>q \<in> set (td_clients db). r_sessionId q = ai_sessionId i \<longrightarrow>
        truthy (ai_clientRequestId i) \<noteq> Some (r_clientRequestId q))"

lemma fresh_input_cong:
  "map row_key (td_turns db) = map row_key (td_turns db') \<Longrightarrow> td_clients db = td_clients db' \<Longrightarrow>
   fresh_input i db = fresh_input i db'"
  by (simp add: fresh_input_def del: set_map list.set_map)

lemma fresh_rows:
  assumes "fresh_input i db" "u \<in> set (td_turns db)"
  shows "t_turnId u \<noteq> ai_turnId i" "ingress_claim i \<noteq> None \<Longrightarrow> t_claimId u \<noteq> ingress_claim i"
    and "truthy (ai_clientRequestId i) \<noteq> None \<Longrightarrow> t_sessionId u = ai_sessionId i \<Longrightarrow>
      t_clientRequestId u \<noteq> truthy (ai_clientRequestId i)"
  using assms by (auto simp: fresh_input_def row_key_def simp del: truthy_Some truthy_eq_Some)

lemma fresh_not_duplicate:
  assumes "fresh_input i db"
  shows "findDuplicate db i = None"
proof -
  have "List.find (\<lambda>t. t_turnId t = ai_turnId i) (td_turns db) = None"
    using fresh_rows(1) [OF assms] by (auto simp: find_None_iff)
  moreover have "List.find (\<lambda>t. t_sessionId t = ai_sessionId i \<and> t_clientRequestId t = Some c) (td_turns db) = None"
    if "truthy (ai_clientRequestId i) = Some c" for c
    using fresh_rows(3) [OF assms] that by (fastforce simp: find_None_iff simp del: truthy_Some truthy_eq_Some)
  moreover have "List.find (\<lambda>t. t_claimId t = Some c) (td_turns db) = None"
    if "truthy (ingress_claim i) = Some c" for c
    using fresh_rows(2) [OF assms] that by (auto simp: find_None_iff)
  ultimately show ?thesis
    by (simp add: findDuplicate_def split: option.splits del: truthy_Some truthy_eq_Some)
qed

lemma fresh_admissible:
  assumes ok: "turn_ok db" and f: "fresh_input i db" and none: "findSessionLock db (ai_sessionId i) = None"
  shows "admissible i db"
proof -
  have k: "keys db" using ok by (simp add: turn_ok_def)
  have m: "map (\<lambda>(t, _, _, _, n). (n, t)) (map row_key (td_turns db)) =
      map (\<lambda>(n, t). (Some n, t)) (td_sequences db)"
    using k by (simp add: keys_ok_def)
  have seq: "snd x \<noteq> ai_turnId i" if "x \<in> set (td_sequences db)" for x
  proof -
    have "(Some (fst x), snd x) \<in> set (map (\<lambda>(n, t). (Some n, t)) (td_sequences db))"
      using that by (force simp: case_prod_unfold)
    then show ?thesis unfolding m [symmetric] using fresh_rows(1) [OF f] by (force simp: row_key_def)
  qed
  have num: "t_acceptedSequence u \<noteq> Some (td_nextSequence db)" if "u \<in> set (td_turns db)" for u
  proof -
    have "(t_acceptedSequence u, t_turnId u) \<in> set (map (\<lambda>(t, _, _, _, n). (n, t)) (map row_key (td_turns db)))"
      using that by (force simp: row_key_def)
    then obtain n where "t_acceptedSequence u = Some n" "n \<in> fst ` set (td_sequences db)"
      unfolding m by force
    then show ?thesis using k by (auto simp: keys_ok_def)
  qed
  show ?thesis
    unfolding admissible_def turn_conflict_def
    using none fresh_rows [OF f] seq num f
    by (auto simp: fresh_input_def simp del: truthy_Some truthy_eq_Some)
qed

text \<open>The rules of admission, in the order the code checks them, for a fresh input.\<close>

lemma admitTurn_fresh:
  assumes ok: "turn_ok db" and p: "\<And>p. pending = Some p \<Longrightarrow> ps_sessionId p = ai_sessionId i"
    and rec: "recoverAdmissionTerminalFacts env (ai_sessionId i) pending now db = (facts, db1)"
    and none: "findSessionLock db1 (ai_sessionId i) = None" and f: "fresh_input i db"
    and open': "\<not> blocksAdmission (te_rejection env q (ai_sessionId i)) (ai_bypassSessionMutation i)"
    and fence: "ai_bypassPriorityFence i \<or> \<not> fence_blocks (te_fence env) q (ai_sessionId i) (ai_priority i)"
    and pol: "te_policy env q i = (None, q1)"
  shows "admitTurnInTransaction env i pending now lease db q =
    Inr ((Admitted lease (td_nextSequence db) now, facts),
         admitted_db i lease now (te_leaseMs env) db1, q1)"
proof -
  have rec': "db1 = recovered env i pending now db" using rec by simp
  then have ok1: "turn_ok db1"
    using turn_step_ok [OF recoverAdmission_step [OF ok p]] by simp
  have f1: "fresh_input i db1"
    using f fresh_input_cong [of db1 db i] by (simp add: rec' del: map_eq_conv)
  have n1: "td_nextSequence db1 = td_nextSequence db" by (simp add: rec')
  have ins: "insertAdmission i lease now (te_leaseMs env) db1 =
      Inr (Admitted lease (td_nextSequence db) now, admitted_db i lease now (te_leaseMs env) db1)"
    using fresh_admissible [OF ok1 f1 none] n1 by (simp add: insertAdmission_Inr)
  show ?thesis
    using open' fence pol none fresh_not_duplicate [OF f1] ins
    by (auto simp: admitTurnInTransaction_def rec activeLockRejection_def)
qed

section \<open>A concrete world\<close>

definition demo_fence_env :: "queue_db turn_env" where
  "demo_fence_env =
     \<lparr> te_fence = queue_fence, te_rejection = (\<lambda>_ _. None), te_policy = (\<lambda>q _. (None, q)),
       te_leaseMs = lease_ms (Some 1000), te_ownerAlive = (\<lambda>_. None), te_ownerCurrent = (\<lambda>_. True),
       te_pidAlive = (\<lambda>_. None) \<rparr>"

definition plain_admission :: "string \<Rightarrow> string \<Rightarrow> admit_input" where
  "plain_admission s turnId =
     \<lparr> ai_sessionId = s, ai_candidateCreatedAtMs = 0, ai_genuineUserMessage = None,
       ai_clientIntent = None, ai_queueIngress = None, ai_userInputResume = None,
       ai_turnId = turnId, ai_busyReason = BusyTurn, ai_inputDigest = ''d'', ai_attachmentCount = 0,
       ai_hasContent = True, ai_priority = PausedQueueSend, ai_foreground = True,
       ai_consumeQueuePause = True, ai_clientRequestId = Some (''r'' @ turnId),
       ai_bypassPriorityFence = False, ai_bypassSessionMutation = False \<rparr>"

text \<open>Session \<open>s\<close> runs Turn \<open>t1\<close> under lease \<open>L1\<close> until time 1100; the queue is empty.\<close>

definition busy_world :: "queue_db turn_world" where
  "busy_world = run_turn_call demo_fence_env (CallAdmit (plain_admission ''s'' ''t1'') 100 ''L1'')
     (start_world empty_queue)"

lemma busy_reachable: "turn_reachable demo_fence_env busy_world"
  unfolding busy_world_def by (intro turn_reachable.call turn_reachable.start)

lemma busy_ok: "world_ok busy_world"
  by (rule turn_reachable_ok [OF busy_reachable])

lemma busy_db:
  "tw_db busy_world =
     \<lparr>td_locks = [admission_lock (plain_admission ''s'' ''t1'') ''L1'' 100 1000],
      td_turns = [admission_row (plain_admission ''s'' ''t1'') 100 1],
      td_sequences = [(1, ''t1'')], td_nextSequence = 2,
      td_clients = [\<lparr>r_sessionId = ''s'', r_clientRequestId = ''rt1'', r_turnId = ''t1''\<rparr>]\<rparr>"
  by code_simp

end
