(* ===== verification/TurnProps.thy ===== *)
theory TurnProps
  imports TurnFacts
begin

text \<open>
  The properties of Turn admission: what every sequence of calls keeps, who may hold a Session,
  how a Turn ends, and what recovery, revocation and deletion do to it.
\<close>

section \<open>What every sequence of calls keeps\<close>

text \<open>C19: In every reachable state of the Turn repository a Session has exactly one accepted Turn while
  its lock is a Turn's (or a Turn's that deletion fences) and none otherwise, a Session has at most
  one lock, and no two Turns share an identity, a sequence number or a queue claim.\<close>

theorem turn_reachable_inv:
  assumes "turn_reachable env w"
  shows "length (filter (accepted_of s) (td_turns (tw_db w))) =
      (case findSessionLock (tw_db w) s of
         None \<Rightarrow> 0
       | Some l \<Rightarrow> if l_ownerKind l \<in> {''turn'', ''compaction'', TURN_DELETING, COMPACTION_DELETING}
                   then 1 else 0) \<and>
    distinct (map l_sessionId (td_locks (tw_db w))) \<and>
    distinct (map t_turnId (td_turns (tw_db w))) \<and>
    distinct (map t_acceptedSequence (td_turns (tw_db w))) \<and>
    distinct (filter (\<lambda>c. c \<noteq> None) (map t_claimId (td_turns (tw_db w))))"
proof -
  have ok: "turn_ok (tw_db w)" using turn_reachable_ok [OF assms] by (simp add: world_ok_def)
  then have k: "keys (tw_db w)" by (simp add: turn_ok_def)
  then have "map (\<lambda>t. (t_acceptedSequence t, t_turnId t)) (td_turns (tw_db w)) =
      map (\<lambda>(n, t). (Some n, t)) (td_sequences (tw_db w))"
    by (simp add: keys_ok_def row_key_def o_def)
  from arg_cong [OF this, of "map fst"]
  have "map t_acceptedSequence (td_turns (tw_db w)) = map Some (map fst (td_sequences (tw_db w)))"
    by (simp add: o_def case_prod_unfold)
  moreover have "distinct (map fst (td_sequences (tw_db w)))"
    using k by (simp add: keys_ok_def strict_sorted_iff)
  ultimately have "distinct (map t_acceptedSequence (td_turns (tw_db w)))"
    by (simp add: distinct_map inj_on_def)
  moreover have "length (active (tw_db w) s) = (if turn_locked (tw_db w) s then 1 else 0)"
    using ok by (simp add: turn_ok_def agree_def)
  ultimately show ?thesis
    using ok k keys_turnId [OF k]
    by (auto simp: turn_ok_def locks_ok_def active_def turn_locked_def turn_kind_def keys_ok_def
        row_key_def o_def split: option.splits)
qed

theorem turn_reachable_inv_witness:
  "length (filter (accepted_of ''s'') (td_turns (tw_db busy_world))) = 1"
  using turn_reachable_inv [OF busy_reachable, of "''s''"]
  by (simp add: busy_db findSessionLock_def plain_admission_def)

text \<open>A call of one Session leaves what every other Session sees untouched: its lock, its Turns and
  its client requests.\<close>

theorem turn_calls_isolated:
  assumes "turn_reachable env w" "call_target c = Some s" "s' \<noteq> s"
  shows "findSessionLock (tw_db (run_turn_call env c w)) s' = findSessionLock (tw_db w) s' \<and>
    filter (\<lambda>t. t_sessionId t = s') (td_turns (tw_db (run_turn_call env c w))) =
      filter (\<lambda>t. t_sessionId t = s') (td_turns (tw_db w)) \<and>
    filter (\<lambda>r. r_sessionId r = s') (td_clients (tw_db (run_turn_call env c w))) =
      filter (\<lambda>r. r_sessionId r = s') (td_clients (tw_db w))"
  using turn_call_step [OF turn_reachable_ok [OF assms(1)] assms(2), of env] assms(3)
  by (simp add: turn_step_def session_view_def)

theorem turn_calls_isolated_witness:
  "findSessionLock (tw_db (run_turn_call demo_fence_env (CallDeleteData ''other'') busy_world)) ''s'' =
   Some (admission_lock (plain_admission ''s'' ''t1'') ''L1'' 100 1000)"
  using turn_calls_isolated [OF busy_reachable, of "CallDeleteData ''other''" "''other''" "''s''"]
  by (simp add: busy_db findSessionLock_def plain_admission_def)

section \<open>Admission\<close>

lemma find_admitted:
  assumes "admitRepositoryTurn env i now lease w = Inr (r, facts, w')" "ar_status r = Admitted l n t"
  obtains st where
    "admitTurnInTransaction env i (tw_pending w (ai_sessionId i)) now lease (tw_db w) (tw_rest w) =
       Inr ((Admitted l n t, ar_recovered r), tw_db w', st)"
    "(facts, ar_revokeToken r, tw_rest w') =
       fence_accepted (te_fence env) st (ai_sessionId i) (ai_consumeQueuePause i)"
    "tw_pending w' = (tw_pending w)(ai_sessionId i := None)"
proof -
  from assms(1) obtain st rec db' q' where
    tx: "admitTurnInTransaction env i (tw_pending w (ai_sessionId i)) now lease (tw_db w) (tw_rest w) =
      Inr ((st, rec), db', q')"
    by (auto simp: admitRepositoryTurn_def result_simps)
  show thesis
    by (rule that [of q']; use assms tx in \<open>cases st\<close>)
       (auto simp: admitRepositoryTurn_def Let_def case_prod_unfold)
qed

text \<open>C2: An admission is exclusive. It goes through only when the Session had no lock, an expired one, or
  one whose settlement was pending in this process; it then holds the Session's lock under its own
  lease until the lease time has passed, its Turn is the Session's only accepted one, and it
  carries the next sequence number.\<close>

theorem admission_exclusive:
  assumes "turn_reachable env w" "admitRepositoryTurn env i now lease w = Inr (r, facts, w')"
    and "ar_status r = Admitted l n t"
  shows "l = lease \<and> t = now \<and> n = td_nextSequence (tw_db w) \<and>
    findSessionLock (tw_db w') (ai_sessionId i) =
      Some \<lparr>l_sessionId = ai_sessionId i, l_ownerId = lease, l_ownerKind = busy_kind (ai_busyReason i),
            l_acquiredAtMs = now, l_expiresAtMs = now + te_leaseMs env\<rparr> \<and>
    map t_turnId (filter (accepted_of (ai_sessionId i)) (td_turns (tw_db w'))) = [ai_turnId i] \<and>
    (case findSessionLock (tw_db w) (ai_sessionId i) of
       None \<Rightarrow> True
     | Some old \<Rightarrow> l_expiresAtMs old \<le> now \<or>
         map_option ps_leaseId (tw_pending w (ai_sessionId i)) = Some (l_ownerId old))"
proof -
  let ?s = "ai_sessionId i" let ?db = "recovered env i (tw_pending w (ai_sessionId i)) now (tw_db w)"
  have ok: "turn_ok (tw_db w)" and pend: "\<And>p. tw_pending w ?s = Some p \<Longrightarrow> ps_sessionId p = ?s"
    using turn_reachable_ok [OF assms(1)] by (auto simp: world_ok_def)
  obtain st where tx: "admitTurnInTransaction env i (tw_pending w ?s) now lease (tw_db w) (tw_rest w) =
       Inr ((Admitted l n t, ar_recovered r), tw_db w', st)"
    using find_admitted [OF assms(2,3)] by blast
  have adm: "admissible i ?db" and n: "l = lease" "t = now" "n = td_nextSequence ?db"
    and db': "tw_db w' = admitted_db i lease now (te_leaseMs env) ?db"
    using admitTurn_cases [OF tx] by auto
  have ok1: "turn_ok ?db" using turn_step_ok [OF recoverAdmission_step [OF ok pend]] .
  have act: "active (tw_db w') ?s = [admission_row i now (td_nextSequence ?db)]"
    using admitted_db_step(2) [OF ok1 adm] by (simp add: db')
  have "l_expiresAtMs old \<le> now \<or> map_option ps_leaseId (tw_pending w ?s) = Some (l_ownerId old)"
    if old: "findSessionLock (tw_db w) ?s = Some old" for old
  proof (rule ccontr)
    assume c: "\<not> ?thesis"
    have "?db = tw_db w"
    proof -
      have "recoverAdmissionTerminalFacts env ?s (tw_pending w ?s) now (tw_db w) = ([], tw_db w)"
        using c pend by (intro recovery_keeps_live [OF ok old]) auto
      then show ?thesis by simp
    qed
    then show False using adm old by (simp add: admissible_def)
  qed
  then show ?thesis
    using n act admitted_db_lock [OF adm, of lease now "te_leaseMs env" ?s]
    by (simp add: db' active_def admission_lock_def split: option.splits)
qed

lemma demo_admission:
  "case admitRepositoryTurn demo_fence_env (plain_admission ''s'' ''t2'') 1100 ''L2'' busy_world of
     Inr (r, _, _) \<Rightarrow> ar_status r = Admitted ''L2'' 2 1100 \<and>
       ar_recovered r = [createRecoveredTerminalFact ''s'' ''t1'' 1100 ExpiredLease]
   | Inl _ \<Rightarrow> False"
  by code_simp

theorem admission_exclusive_witness:
  "\<exists>r facts w'. admitRepositoryTurn demo_fence_env (plain_admission ''s'' ''t2'') 1100 ''L2'' busy_world =
     Inr (r, facts, w') \<and> map t_turnId (filter (accepted_of ''s'') (td_turns (tw_db w'))) = [''t2'']"
proof -
  obtain r facts w' where a:
    "admitRepositoryTurn demo_fence_env (plain_admission ''s'' ''t2'') 1100 ''L2'' busy_world = Inr (r, facts, w')"
    and s: "ar_status r = Admitted ''L2'' 2 1100"
    using demo_admission by (auto split: sum.splits prod.splits)
  from admission_exclusive [OF busy_reachable a s] a show ?thesis
    by (auto simp: plain_admission_def)
qed

section \<open>Settlement\<close>

text \<open>C6: A settlement is decided by the lease. While the caller's lease holds the Session's lock and its
  Turn is the accepted one, the Turn ends with the caller's outcome and the lock is released, or
  becomes the deletion lock when deletion had fenced it; otherwise the call is stale and changes no
  table. It never loses ownership half way.\<close>

theorem settle_decided_by_lease:
  assumes "turn_reachable env w"
  shows "\<exists>facts. settleTurn env s turnId lease oc cause now None w =
      (Inr (if map_option l_ownerId (findSessionLock (tw_db w) s) = Some lease \<and>
               map t_turnId (filter (accepted_of s) (td_turns (tw_db w))) = [turnId]
            then Settled now oc else StaleOwner, facts),
       snd (settleTurn env s turnId lease oc cause now None w)) \<and>
    (if map_option l_ownerId (findSessionLock (tw_db w) s) = Some lease \<and>
        map t_turnId (filter (accepted_of s) (td_turns (tw_db w))) = [turnId]
     then findSessionLock (tw_db (snd (settleTurn env s turnId lease oc cause now None w))) s =
            (let l = the (findSessionLock (tw_db w) s) in
             if l_ownerKind l = TURN_DELETING \<or> l_ownerKind l = COMPACTION_DELETING
             then Some (deletion_lock now l) else None) \<and>
          filter (\<lambda>t. t_turnId t = turnId)
              (td_turns (tw_db (snd (settleTurn env s turnId lease oc cause now None w)))) =
            map (settle_row (outcome_status oc) now)
              (filter (\<lambda>t. t_turnId t = turnId) (td_turns (tw_db w)))
     else tw_db (snd (settleTurn env s turnId lease oc cause now None w)) = tw_db w)"
proof -
  have ok: "turn_ok (tw_db w)" using turn_reachable_ok [OF assms] by (simp add: world_ok_def)
  let ?own = "map_option l_ownerId (findSessionLock (tw_db w) s) = Some lease \<and>
               map t_turnId (active (tw_db w) s) = [turnId]"
  show ?thesis
  proof (cases ?own)
    case False
    then have "settleInTransaction s turnId lease oc now (tw_db w) = Inr (StaleOwner, tw_db w)"
      unfolding settleInTransaction_cases [OF ok] by (auto split: option.splits list.splits)
    then show ?thesis using False by (auto simp: settleTurn_def active_def)
  next
    case True
    then obtain l t where l: "findSessionLock (tw_db w) s = Some l" "l_ownerId l = lease"
      and t: "active (tw_db w) s = [t]" "t_turnId t = turnId"
      by auto
    let ?p = "accepted_turn s turnId"
    let ?db1 = "update_turns ?p (settle_row (outcome_status oc) now) (tw_db w)"
    let ?db2 = "snd (releaseOrPromoteDeletionFence s lease (l_ownerKind l) now ?db1)"
    have tx: "settleInTransaction s turnId lease oc now (tw_db w) = Inr (Settled now oc, ?db2)"
      using l t unfolding settleInTransaction_cases [OF ok] by simp
    have p: "\<And>u. u \<in> set (td_turns (tw_db w)) \<Longrightarrow> ?p u \<longleftrightarrow> t_turnId u = turnId"
      using accepted_turn_active [OF ok t(1)] turnId_active [OF ok t(1)] t(2) by auto
    have "settled_from s (tw_db w) ?db1"
      using settled_from_settle [OF ok t(1) outcome_not_accepted] accepted_turn_active [OF ok t(1)] t(2)
      by blast
    note rel = releaseOrPromote_step(2) [OF ok this l, of "l_ownerKind l" now]
    have "td_turns ?db2 = td_turns ?db1"
      by (simp add: releaseOrPromoteDeletionFence_def Let_def)
    moreover have "filter (\<lambda>t. t_turnId t = turnId) (map (\<lambda>t. if ?p t then settle_row st now t else t) ts) =
        map (settle_row st now) (filter (\<lambda>t. t_turnId t = turnId) ts)"
      if "set ts \<subseteq> set (td_turns (tw_db w))" for ts st
      using that by (induction ts) (use p in \<open>auto simp: settle_row_def\<close>)
    ultimately show ?thesis
      using True l rel tx
      by (auto simp: settleTurn_def active_def isDeletingTurnOwnerKind_def case_prod_unfold Let_def)
  qed
qed

theorem settle_decided_by_lease_witness:
  "\<exists>facts w'. settleTurn demo_fence_env ''s'' ''t1'' ''L1'' OutcomeCompleted None 200 None busy_world =
     (Inr (Settled 200 OutcomeCompleted, facts), w') \<and> findSessionLock (tw_db w') ''s'' = None"
  using settle_decided_by_lease [OF busy_reachable, of "''s''" "''t1''" "''L1''" OutcomeCompleted None 200]
  by (auto simp: busy_db findSessionLock_def admission_lock_def plain_admission_def accepted_of_def owner_kinds)

end
