(* ===== verification/TurnLife.thy ===== *)
theory TurnLife
  imports TurnProps
begin

text \<open>
  The properties of a Turn's life beyond one call: the repair of a settlement that failed to
  commit, the replay and the revocation of an admission, sequence numbers, the pass after a
  restart, and Session deletion.
\<close>

section \<open>A settlement that failed to commit\<close>




lemma demo_open:
  "te_rejection demo_fence_env q s = None" "te_policy demo_fence_env q i = (None, q)"
  "te_fence demo_fence_env = queue_fence" "te_leaseMs demo_fence_env = 1000"
  by (simp_all add: demo_fence_env_def lease_ms_def)


text \<open>The repair is lost when the next admission is turned away at the Session's own gate: the code
  drops the pending settlement although it did not look at it. When the gate opens again the
  settled Turn still holds the Session, and admissions are refused until its lease expires.\<close>

theorem gate_rejection_drops_pending_settlement:
  assumes reach: "turn_reachable env w"
    and gate: "te_rejection env (tw_rest w) (ai_sessionId i) = Some r"
      "\<not> (r = RejSessionMutating \<and> ai_bypassSessionMutation i)"
    and l: "findSessionLock (tw_db w) (ai_sessionId i) = Some l" "l_ownerKind l = ''turn''"
      "now2 < l_expiresAtMs l"
    and j: "ai_sessionId j = ai_sessionId i" "fresh_input j (tw_db w)"
      "te_rejection env q (ai_sessionId i) = None"
  shows "\<exists>w1 w2. admitRepositoryTurn env i now lease w =
      Inr (\<lparr>ar_status = Rejected r, ar_foreground = False, ar_revokeToken = None, ar_recovered = []\<rparr>, [], w1) \<and>
    tw_db w1 = tw_db w \<and> tw_pending w1 (ai_sessionId i) = None \<and>
    admitRepositoryTurn env j now2 lease2 (w1\<lparr>tw_rest := q\<rparr>) =
      Inr (\<lparr>ar_status = Rejected RejActiveTurn, ar_foreground = False, ar_revokeToken = None,
            ar_recovered = []\<rparr>, [], w2)"
proof -
  let ?s = "ai_sessionId i"
  let ?w1 = "w\<lparr>tw_pending := (tw_pending w)(?s := None)\<rparr>"
  have ok: "turn_ok (tw_db w)" using turn_reachable_ok [OF reach] by (simp add: world_ok_def)
  have first: "admitRepositoryTurn env i now lease w =
      Inr (\<lparr>ar_status = Rejected r, ar_foreground = False, ar_revokeToken = None, ar_recovered = []\<rparr>, [], ?w1)"
    using gate by (simp add: admitRepositoryTurn_def admitTurnInTransaction_def blocksAdmission_def)
  have rec: "recoverAdmissionTerminalFacts env ?s None now2 (tw_db w) = ([], tw_db w)"
    by (rule recovery_keeps_live [OF ok l(1,3)]) simp
  have "admitTurnInTransaction env j None now2 lease2 (tw_db w) q =
      Inr ((Rejected RejActiveTurn, []), tw_db w, q)"
    using j l fresh_not_duplicate [OF j(2)] rec
    by (simp add: admitTurnInTransaction_def blocksAdmission_def activeLockRejection_def
        isDeletionOwnerKind_def owner_kinds)
  then have "admitRepositoryTurn env j now2 lease2 (?w1\<lparr>tw_rest := q\<rparr>) =
      Inr (\<lparr>ar_status = Rejected RejActiveTurn, ar_foreground = False, ar_revokeToken = None,
            ar_recovered = []\<rparr>, [], ?w1\<lparr>tw_rest := q\<rparr>)"
    using j by (simp add: admitRepositoryTurn_def fun_upd_idem)
  with first show ?thesis by (intro exI [of _ ?w1] exI [of _ "?w1\<lparr>tw_rest := q\<rparr>"]) auto
qed

text \<open>An environment whose gate is the rest of the database: closed while a mutation holds the Session.\<close>

definition gate_env :: "bool turn_env" where
  "gate_env =
     \<lparr> te_fence = \<lparr>fence_blocks = (\<lambda>_ _ _. False), fence_accepted = (\<lambda>q _ _. ([], None, q)),
                   fence_settled = (\<lambda>q _ _ _ _. ([], q)), fence_revoked = (\<lambda>q _ _ _. ([], q))\<rparr>,
       te_rejection = (\<lambda>q _. if q then Some RejSessionMutating else None),
       te_policy = (\<lambda>q _. (None, q)), te_leaseMs = 1000, te_ownerAlive = (\<lambda>_. None),
       te_ownerCurrent = (\<lambda>_. True), te_pidAlive = (\<lambda>_. None) \<rparr>"

text \<open>Turn \<open>t1\<close> was admitted, its settlement failed to commit, and a mutation closed the gate.\<close>

definition gated_world :: "bool turn_world" where
  "gated_world = run_turn_call gate_env (CallElsewhere True)
     (run_turn_call gate_env (CallSettle ''s'' ''t1'' ''L1'' OutcomeCompleted None 200 (Some (TurnTypeError ''SQLITE_BUSY'')))
       (run_turn_call gate_env (CallAdmit (plain_admission ''s'' ''t1'') 100 ''L1'') (start_world False)))"

lemma gated_reachable: "turn_reachable gate_env gated_world"
  unfolding gated_world_def by (intro turn_reachable.call turn_reachable.start)

lemma gated_facts:
  "findSessionLock (tw_db gated_world) ''s'' = Some (admission_lock (plain_admission ''s'' ''t1'') ''L1'' 100 1000)"
  "map_option ps_turnId (tw_pending gated_world ''s'') = Some ''t1''"
  "tw_rest gated_world" "fresh_input (plain_admission ''s'' ''t2'') (tw_db gated_world)"
  by code_simp+

theorem gate_rejection_drops_pending_settlement_witness:
  "\<exists>w1 w2. (\<exists>r. admitRepositoryTurn gate_env (plain_admission ''s'' ''t2'') 300 ''L2'' gated_world = Inr (r, [], w1)) \<and>
     tw_pending w1 ''s'' = None \<and>
     admitRepositoryTurn gate_env (plain_admission ''s'' ''t2'') 400 ''L3'' (w1\<lparr>tw_rest := False\<rparr>) =
       Inr (\<lparr>ar_status = Rejected RejActiveTurn, ar_foreground = False, ar_revokeToken = None,
             ar_recovered = []\<rparr>, [], w2)"
  using gate_rejection_drops_pending_settlement [OF gated_reachable, of "plain_admission ''s'' ''t2''"
      RejSessionMutating "admission_lock (plain_admission ''s'' ''t1'') ''L1'' 100 1000" 400
      "plain_admission ''s'' ''t2''" False 300 "''L2''" "''L3''", OF _ _ _ _ _ _ gated_facts(4)]
    gated_facts(1,3)
  by (auto simp: plain_admission_def gate_env_def admission_lock_def)

section \<open>Replay and revocation\<close>

lemma classify_admitted:
  assumes "t_turnId t = ai_turnId i" "t_sessionId t = ai_sessionId i" "t_busyReason t = busy_kind (ai_busyReason i)"
    "t_claimId t = ingress_claim i" "t_claimSource t = ingress_source i"
    "t_queueItemIds t = map_option (\<lambda>q. [qi_itemId q]) (ai_queueIngress i)"
    "t_inputDigest t = Some (ai_inputDigest i)"
  shows "classifyDuplicate t i = DuplicateTurn (ai_turnId i)"
proof -
  have "storedBusyReason (busy_kind b) = Some b" for b by (cases b) (simp_all add: storedBusyReason_def)
  moreover have "sameStrings xs xs" for xs :: "string list"
    unfolding sameStrings_def by (induction xs) auto
  moreover have "parseStringArray (map_option (\<lambda>q. [qi_itemId q]) (ai_queueIngress i)) = ingress_items i"
    by (cases "ai_queueIngress i") (simp_all add: parseStringArray_def ingress_items_def)
  ultimately show ?thesis using assms by (simp add: classifyDuplicate_def)
qed

lemma find_unique:
  assumes "x \<in> set xs" "P x" "\<And>u. u \<in> set xs \<Longrightarrow> P u \<Longrightarrow> u = x"
  shows "List.find P xs = Some x"
proof (cases "List.find P xs")
  case None
  then show ?thesis using assms(1,2) by (auto simp: find_None_iff)
next
  case (Some u)
  then show ?thesis using find_SomeD [OF Some] assms(3) by auto
qed

lemma find_map_if:
  "(\<And>u. P u \<Longrightarrow> P (f u)) \<Longrightarrow>
   List.find P (map (\<lambda>u. if P u then f u else u) xs) = map_option f (List.find P xs)"
  by (induction xs) auto

text \<open>Admission is idempotent. Sending an admitted input again, at any later time and whatever became of
  the lease meanwhile, answers with the Turn it already has and adds no Turn, as long as the Session
  is not closed or being deleted.\<close>

theorem admission_replay_is_duplicate:
  assumes reach: "turn_reachable env w" and first: "admitRepositoryTurn env i now lease w = Inr (r, facts, w1)"
    "ar_status r = Admitted l n t"
    and gate: "te_rejection env (tw_rest w1) (ai_sessionId i) = None"
  shows "\<exists>r2 w2. admitRepositoryTurn env i now2 lease2 w1 = Inr (r2, [], w2) \<and>
    ar_status r2 = DuplicateTurn (ai_turnId i) \<and>
    map t_turnId (td_turns (tw_db w2)) = map t_turnId (td_turns (tw_db w1)) \<and>
    td_nextSequence (tw_db w2) = td_nextSequence (tw_db w1)"
proof -
  let ?s = "ai_sessionId i" let ?row = "admission_row i now (td_nextSequence (recovered env i (tw_pending w ?s) now (tw_db w)))"
  have ok: "turn_ok (tw_db w)" and pend: "\<And>p. tw_pending w ?s = Some p \<Longrightarrow> ps_sessionId p = ?s"
    using turn_reachable_ok [OF reach] by (auto simp: world_ok_def)
  obtain st where tx: "admitTurnInTransaction env i (tw_pending w ?s) now lease (tw_db w) (tw_rest w) =
       Inr ((Admitted l n t, ar_recovered r), tw_db w1, st)"
    and p1: "tw_pending w1 = (tw_pending w)(?s := None)"
    using find_admitted [OF first] by metis
  let ?db = "recovered env i (tw_pending w ?s) now (tw_db w)"
  have adm: "admissible i ?db" and w1: "tw_db w1 = admitted_db i lease now (te_leaseMs env) ?db"
    using admitTurn_cases [OF tx] by auto
  have okr: "turn_ok ?db" using turn_step_ok [OF recoverAdmission_step [OF ok pend]] .
  have ok1: "turn_ok (tw_db w1)" using turn_step_ok [OF admitted_db_step(1) [OF okr adm]] by (simp add: w1)
  have lock: "findSessionLock (tw_db w1) ?s = Some (admission_lock i lease now (te_leaseMs env))"
    using admitted_db_lock [OF adm] by (simp add: w1)
  have act: "active (tw_db w1) ?s = [?row]" using admitted_db_step(2) [OF okr adm] by (simp add: w1)
  let ?rec = "recoverAdmissionTerminalFacts env ?s None now2 (tw_db w1)"
  have del: "case findSessionLock (snd ?rec) ?s of None \<Rightarrow> True | Some k \<Rightarrow> \<not> isDeletionOwnerKind (l_ownerKind k)"
    and dup: "findDuplicate (snd ?rec) i = Some (DuplicateTurn (ai_turnId i))"
  proof -
    have exp: "recoverExpired ?s now2 (tw_db w1) =
        (if now + te_leaseMs env \<le> now2
         then ((True, fst (releaseRecoveredLock (admission_lock i lease now (te_leaseMs env)) now2 ExpiredLease (tw_db w1))),
               snd (releaseRecoveredLock (admission_lock i lease now (te_leaseMs env)) now2 ExpiredLease (tw_db w1)))
         else ((False, []), tw_db w1))"
      using recoverExpired_cases [OF ok1, of ?s now2] lock by simp
    have rec: "snd ?rec = snd (recoverExpired ?s now2 (tw_db w1))"
      using recoverDeadLegacyOwner_id [OF turn_step_ok [OF recoverExpired_step [OF ok1]]]
      by (simp add: recoverAdmissionTerminalFacts_def case_prod_unfold Let_def)
    show "case findSessionLock (snd ?rec) ?s of None \<Rightarrow> True | Some k \<Rightarrow> \<not> isDeletionOwnerKind (l_ownerKind k)"
      using exp lock releaseRecoveredLock_step(2) [OF ok1 lock]
      by (cases "ai_busyReason i") (auto simp: rec isDeletionOwnerKind_def owner_kinds)
    have rows: "\<exists>u. List.find (\<lambda>t. t_turnId t = ai_turnId i) (td_turns (snd ?rec)) = Some u \<and>
        (u = ?row \<or> u = settle_row TurnFailed now2 ?row)"
    proof -
      have row1: "?row \<in> set (td_turns (tw_db w1))" using active_Some [OF ok1 act] by simp
      have uniq: "u = ?row" if "u \<in> set (td_turns (tw_db w1))" "t_turnId u = ai_turnId i" for u
        using turn_unique [OF ok1 that(1) row1] that(2) by simp
      have orphan: "latestAccepted (tw_db w1) ?s = Some ?row" using latest_active(1) [OF ok1 act] .
      have "td_turns (snd ?rec) = td_turns (tw_db w1) \<or>
          td_turns (snd ?rec) = map (\<lambda>u. if t_turnId u = ai_turnId i then settle_row TurnFailed now2 u else u)
            (td_turns (tw_db w1))"
        using exp orphan by (auto simp: rec releaseRecoveredLock_def Let_def)
      moreover have "List.find (\<lambda>t. t_turnId t = ai_turnId i) (td_turns (tw_db w1)) = Some ?row"
        by (rule find_unique [OF row1]) (use uniq in auto)
      moreover have "List.find (\<lambda>t. t_turnId t = ai_turnId i)
            (map (\<lambda>u. if t_turnId u = ai_turnId i then settle_row TurnFailed now2 u else u) ts) =
          map_option (settle_row TurnFailed now2) (List.find (\<lambda>t. t_turnId t = ai_turnId i) ts)" for ts
        by (rule find_map_if) (simp add: settle_row_def)
      ultimately show ?thesis by auto
    qed
    then obtain u where u: "List.find (\<lambda>t. t_turnId t = ai_turnId i) (td_turns (snd ?rec)) = Some u"
      "u = ?row \<or> u = settle_row TurnFailed now2 ?row" by blast
    have "classifyDuplicate u i = DuplicateTurn (ai_turnId i)"
      using u(2) by (intro classify_admitted) (auto simp: admission_row_def settle_row_def)
    with u(1) show "findDuplicate (snd ?rec) i = Some (DuplicateTurn (ai_turnId i))"
      by (simp add: findDuplicate_def)
  qed
  have "admitTurnInTransaction env i None now2 lease2 (tw_db w1) (tw_rest w1) =
      Inr ((DuplicateTurn (ai_turnId i), fst ?rec), snd ?rec, tw_rest w1)"
    using gate del dup by (auto simp: admitTurnInTransaction_def blocksAdmission_def case_prod_unfold Let_def split: option.splits)
  moreover have "map t_turnId (td_turns (snd ?rec)) = map t_turnId (td_turns (tw_db w1))"
  proof -
    have "map fst (map row_key (td_turns (snd ?rec))) = map fst (map row_key (td_turns (tw_db w1)))"
      by (simp only: admission_recovery)
    then show ?thesis by (simp add: row_key_def o_def del: admission_recovery)
  qed
  ultimately show ?thesis using p1
    by (simp add: admitRepositoryTurn_def)
qed

lemma demo_first:
  "\<exists>r facts. admitRepositoryTurn demo_fence_env (plain_admission ''s'' ''t1'') 100 ''L1'' (start_world empty_queue) =
     Inr (r, facts, busy_world) \<and> ar_status r = Admitted ''L1'' 1 100"
proof -
  have "case admitRepositoryTurn demo_fence_env (plain_admission ''s'' ''t1'') 100 ''L1'' (start_world empty_queue) of
      Inr (r, _, _) \<Rightarrow> ar_status r = Admitted ''L1'' 1 100 | Inl _ \<Rightarrow> False" by code_simp
  then show ?thesis
    by (auto simp: busy_world_def committed_world_def split: sum.splits prod.splits)
qed

theorem admission_replay_is_duplicate_witness:
  "\<exists>r2 w2. admitRepositoryTurn demo_fence_env (plain_admission ''s'' ''t1'') 5000 ''L9'' busy_world = Inr (r2, [], w2) \<and>
     ar_status r2 = DuplicateTurn ''t1'' \<and> map t_turnId (td_turns (tw_db w2)) = [''t1'']"
proof -
  obtain r facts where a: "admitRepositoryTurn demo_fence_env (plain_admission ''s'' ''t1'') 100 ''L1''
      (start_world empty_queue) = Inr (r, facts, busy_world)" and s: "ar_status r = Admitted ''L1'' 1 100"
    using demo_first by blast
  from admission_replay_is_duplicate [OF turn_reachable.start a s, of 5000 "''L9''"]
  show ?thesis by (auto simp: busy_db demo_open plain_admission_def)
qed

text \<open>Revoking an admission that just went through on an idle Session undoes it: every table is as
  before except the sequence counter, which moves on, and the queue pause the admission consumed is
  back whenever the Session still has pending work.\<close>

theorem revoke_undoes_admission:
  assumes reach: "turn_reachable env w" and idle: "findSessionLock (tw_db w) (ai_sessionId i) = None"
    and adm: "admitRepositoryTurn env i now lease w = Inr (r, facts, w1)" "ar_status r = Admitted l n t"
    and turn: "ai_busyReason i = BusyTurn" and fence: "te_fence env = queue_fence"
    and pol: "te_policy env (tw_rest w) i = (None, tw_rest w)"
  shows "\<exists>facts' w2. revokeAdmission env (ai_sessionId i) (ai_turnId i) l (ar_revokeToken r) later w1 = (True, facts', w2) \<and>
    tw_db w2 = (tw_db w)\<lparr>td_nextSequence := Suc (td_nextSequence (tw_db w))\<rparr> \<and>
    q_pauses (tw_rest w2) (ai_sessionId i) =
      (if ai_consumeQueuePause i \<and> \<not> list_ex (unexpired_pending (ai_sessionId i) later) (q_rows (tw_rest w))
       then None else q_pauses (tw_rest w) (ai_sessionId i))"
proof -
  let ?s = "ai_sessionId i" and ?db = "tw_db w"
  have ok: "turn_ok ?db" and pend: "\<And>p. tw_pending w ?s = Some p \<Longrightarrow> ps_sessionId p = ?s"
    using turn_reachable_ok [OF reach] by (auto simp: world_ok_def)
  obtain st where tx: "admitTurnInTransaction env i (tw_pending w ?s) now lease ?db (tw_rest w) =
       Inr ((Admitted l n t, ar_recovered r), tw_db w1, st)"
    and acc: "(facts, ar_revokeToken r, tw_rest w1) = fence_accepted (te_fence env) st ?s (ai_consumeQueuePause i)"
    using find_admitted [OF adm] by metis
  have rec: "recoverAdmissionTerminalFacts env ?s (tw_pending w ?s) now ?db = ([], ?db)"
    using recovery_of_idle [OF ok idle pend] .
  have ad: "admissible i ?db" and l: "l = lease" and w1: "tw_db w1 = admitted_db i lease now (te_leaseMs env) ?db"
    using admitTurn_cases [OF tx] rec by auto
  have st: "st = tw_rest w"
    using tx pol rec idle by (auto simp: admitTurnInTransaction_def result_simps Let_def split: if_splits option.splits)
  have fresh: "\<And>u. u \<in> set (td_turns ?db) \<Longrightarrow> t_turnId u \<noteq> ai_turnId i"
    "\<And>x. x \<in> set (td_sequences ?db) \<Longrightarrow> snd x \<noteq> ai_turnId i"
    using ad by (auto simp: admissible_def turn_conflict_def)
  have clients: "r_turnId q \<noteq> ai_turnId i" if "q \<in> set (td_clients ?db)" for q
  proof -
    have "(r_turnId q, r_sessionId q) \<in> (\<lambda>(t, s, _). (t, s)) ` set (map row_key (td_turns ?db))"
      using ok that by (simp add: turn_ok_def keys_ok_def)
    then show ?thesis using fresh(1) by (fastforce simp: row_key_def)
  qed
  let ?db1 = "admitted_db i lease now (te_leaseMs env) ?db"
  have lock1: "findSessionLock ?db1 ?s = Some (admission_lock i lease now (te_leaseMs env))"
    using admitted_db_lock [OF ad] by simp
  have acc1: "list_ex (accepted_turn ?s (ai_turnId i)) (td_turns ?db1)"
    by (simp add: admitted_db_def list_ex_iff accepted_turn_def)
  let ?p = "\<lambda>k. owned_lock ?s lease k \<and> l_ownerKind k = ''turn''"
  let ?db2 = "delete_locks ?p (delete_turns (\<lambda>t. t_turnId t = ai_turnId i)
     (delete_sequences [ai_turnId i] (delete_clients (\<lambda>r. r_turnId r = ai_turnId i) ?db1)))"
  have locks: "filter (\<lambda>k. \<not> ?p k) (td_locks ?db1) = td_locks ?db"
  proof -
    have "l_sessionId k \<noteq> ?s" if "k \<in> set (td_locks ?db)" for k
      using idle that by (force simp: findSessionLock_None)
    then show ?thesis using turn
      by (auto simp: admitted_db_def filter_id_iff owned_lock_def admission_lock_def)
  qed
  have db2: "?db2 = ?db\<lparr>td_nextSequence := Suc (td_nextSequence ?db)\<rparr>"
    using locks fresh clients
    by (auto simp: delete_locks_def delete_turns_def delete_sequences_def delete_clients_def Let_def
        admitted_db_def filter_id_iff case_prod_unfold split: option.splits simp del: truthy_eq_Some truthy_Some)
  let ?rv = "revokedInTransaction (tw_rest w1) ?s (ar_revokeToken r) later"
  have "revokeAdmission env ?s (ai_turnId i) l (ar_revokeToken r) later w1 =
      (True, fst ?rv, w1\<lparr>tw_db := ?db2, tw_rest := snd ?rv\<rparr>)"
    using lock1 acc1 l turn fence
    by (simp add: revokeAdmission_def w1 Let_def case_prod_unfold queue_fence_def)
  moreover have "q_pauses (snd ?rv) ?s =
      (if ai_consumeQueuePause i \<and> \<not> list_ex (unexpired_pending ?s later) (q_rows (tw_rest w))
       then None else q_pauses (tw_rest w) ?s)"
  proof -
    have "fence_accepted queue_fence (tw_rest w) ?s (ai_consumeQueuePause i) = (facts, ar_revokeToken r, tw_rest w1)"
      using acc fence st by simp
    from qf.revoke_restores [OF this, of later] show ?thesis by (auto simp: queue_fence_def)
  qed
  ultimately show ?thesis using db2 by auto
qed

definition paused_queue :: queue_db where
  "paused_queue = two_queued\<lparr>q_pauses := [''s'' \<mapsto>
     \<lparr>pause_cause = UserStop, pause_triggerTurnId = ''t0'', pause_pausedAtMs = 5\<rparr>]\<rparr>"

lemma demo_consume:
  "case admitRepositoryTurn demo_fence_env (plain_admission ''s'' ''t1'') 100 ''L1'' (start_world paused_queue) of
     Inr (r, _, w1) \<Rightarrow> ar_status r = Admitted ''L1'' 1 100 \<and> q_pauses (tw_rest w1) ''s'' = None
   | Inl _ \<Rightarrow> False"
  "list_ex (unexpired_pending ''s'' 200) (q_rows paused_queue)"
  by code_simp+

theorem revoke_undoes_admission_witness:
  "\<exists>r facts w1 facts' w2.
     admitRepositoryTurn demo_fence_env (plain_admission ''s'' ''t1'') 100 ''L1'' (start_world paused_queue) =
       Inr (r, facts, w1) \<and> q_pauses (tw_rest w1) ''s'' = None \<and>
     revokeAdmission demo_fence_env ''s'' ''t1'' ''L1'' (ar_revokeToken r) 200 w1 = (True, facts', w2) \<and>
     q_pauses (tw_rest w2) ''s'' = q_pauses paused_queue ''s''"
proof -
  obtain r facts w1 where a:
    "admitRepositoryTurn demo_fence_env (plain_admission ''s'' ''t1'') 100 ''L1'' (start_world paused_queue) =
       Inr (r, facts, w1)" and s: "ar_status r = Admitted ''L1'' 1 100" and q: "q_pauses (tw_rest w1) ''s'' = None"
    using demo_consume(1) by (auto split: sum.splits prod.splits)
  have i: "findSessionLock (tw_db (start_world paused_queue)) (ai_sessionId (plain_admission ''s'' ''t1'')) = None"
    by (simp add: start_world_def empty_turns_def findSessionLock_def)
  from revoke_undoes_admission [OF turn_reachable.start i a s _ demo_open(3) demo_open(2), of 200]
  have "\<exists>facts' w2. revokeAdmission demo_fence_env ''s'' ''t1'' ''L1'' (ar_revokeToken r) 200 w1 = (True, facts', w2) \<and>
     q_pauses (tw_rest w2) ''s'' = q_pauses paused_queue ''s''"
    using demo_consume(2) by (auto simp: plain_admission_def start_world_def)
  with a q show ?thesis by blast
qed

section \<open>Sequence numbers\<close>

fun run_turn_calls :: "'q turn_env \<Rightarrow> 'q turn_call list \<Rightarrow> 'q turn_world \<Rightarrow> 'q turn_world" where
  "run_turn_calls env [] w = w"
| "run_turn_calls env (c # cs) w = run_turn_calls env cs (run_turn_call env c w)"

lemma run_turn_calls_ok:
  "world_ok w \<Longrightarrow> world_ok (run_turn_calls env cs w) \<and>
     td_nextSequence (tw_db w) \<le> td_nextSequence (tw_db (run_turn_calls env cs w))"
  by (induction cs arbitrary: w) (simp, metis (no_types, lifting) run_turn_call_ok run_turn_calls.simps(2) le_trans)

lemma admission_next:
  assumes "world_ok w" "admitRepositoryTurn env i now lease w = Inr (r, facts, w1)" "ar_status r = Admitted l n t"
  shows "n = td_nextSequence (tw_db w)" "td_nextSequence (tw_db w1) = Suc n" "world_ok w1"
proof -
  obtain st where tx: "admitTurnInTransaction env i (tw_pending w (ai_sessionId i)) now lease (tw_db w) (tw_rest w) =
       Inr ((Admitted l n t, ar_recovered r), tw_db w1, st)"
    using find_admitted [OF assms(2,3)] by metis
  show "n = td_nextSequence (tw_db w)" "td_nextSequence (tw_db w1) = Suc n"
    using admitTurn_cases [OF tx] by (auto simp: admitted_db_def)
  have "run_turn_call env (CallAdmit i now lease) w = w1"
    using assms(2) by (simp add: committed_world_def)
  then show "world_ok w1" using run_turn_call_ok(1) [OF assms(1)] by metis
qed

text \<open>Sequence numbers are never reused: a Turn admitted later has a greater number than one admitted
  earlier, whatever was revoked, deleted or recovered between them.\<close>

theorem sequences_never_reused:
  assumes "turn_reachable env w"
    and "admitRepositoryTurn env i now lease w = Inr (r, facts, w1)" "ar_status r = Admitted l n t"
    and "admitRepositoryTurn env j now' lease' (run_turn_calls env cs w1) = Inr (r', facts', w2)"
      "ar_status r' = Admitted l' m t'"
  shows "0 < n \<and> n < m"
proof -
  have ok: "world_ok w" using turn_reachable_ok [OF assms(1)] .
  note first = admission_next [OF ok assms(2,3)]
  have "world_ok (run_turn_calls env cs w1)" and le: "td_nextSequence (tw_db w1) \<le> td_nextSequence (tw_db (run_turn_calls env cs w1))"
    using run_turn_calls_ok [OF first(3)] by blast+
  from admission_next(1) [OF this(1) assms(4,5)] le first(1,2) have "n < m" by simp
  moreover have "0 < n" using ok first(1) by (simp add: world_ok_def turn_ok_def keys_ok_def)
  ultimately show ?thesis by simp
qed

lemma demo_second:
  "case admitRepositoryTurn demo_fence_env (plain_admission ''s'' ''t2'') 300 ''L2''
      (run_turn_calls demo_fence_env [CallRevoke ''s'' ''t1'' ''L1'' None 200] busy_world) of
     Inr (r, _, _) \<Rightarrow> ar_status r = Admitted ''L2'' 2 300 | Inl _ \<Rightarrow> False"
  by code_simp

theorem sequences_never_reused_witness:
  "\<exists>(r :: admit_result) r' n m. ar_status r = Admitted ''L1'' n 100 \<and> ar_status r' = Admitted ''L2'' m 300 \<and> n < m \<and>
     (\<exists>facts w2. admitRepositoryTurn demo_fence_env (plain_admission ''s'' ''t2'') 300 ''L2''
        (run_turn_calls demo_fence_env [CallRevoke ''s'' ''t1'' ''L1'' None 200] busy_world) = Inr (r', facts, w2))"
proof -
  obtain r facts where a: "admitRepositoryTurn demo_fence_env (plain_admission ''s'' ''t1'') 100 ''L1''
      (start_world empty_queue) = Inr (r, facts, busy_world)" and s: "ar_status r = Admitted ''L1'' 1 100"
    using demo_first by blast
  obtain r' facts' w2 where b: "admitRepositoryTurn demo_fence_env (plain_admission ''s'' ''t2'') 300 ''L2''
      (run_turn_calls demo_fence_env [CallRevoke ''s'' ''t1'' ''L1'' None 200] busy_world) = Inr (r', facts', w2)"
    and s': "ar_status r' = Admitted ''L2'' 2 300"
    using demo_second by (auto split: sum.splits prod.splits)
  from sequences_never_reused [OF turn_reachable.start a s b s'] s s' b show ?thesis
    by - (intro exI [of _ r] exI [of _ r'] exI [of _ "1::nat"] exI [of _ "2::nat"], simp)
qed

end
