(* ===== verification/TurnDeletion.thy ===== *)
theory TurnDeletion
  imports TurnLife
begin

text \<open>
  Session deletion and the recovery of a process that died: the fence that deletion puts around a
  Session, the lease it cannot fence, and the pass over the locks of older processes.
\<close>

section \<open>The deletion fence\<close>







text \<open>C22: Deletion cannot begin on a Session whose maintenance lease has expired: the code takes the
  expired lease for a Turn's, finds no Turn and throws, although a maintenance lease that is still
  running is fenced as intended.\<close>

theorem deletion_stuck_on_expired_maintenance:
  assumes "turn_reachable env w" "findSessionLock (tw_db w) s = Some l" "l_ownerKind l = MAINTENANCE"
  shows "map_sum id fst (beginSessionDeletion env s now owner w) =
    (if l_expiresAtMs l \<le> now then Inl (DeletionActiveTurnMissing s) else Inr DeletionMaintenance)"
proof -
  have ok: "turn_ok (tw_db w)" using turn_reachable_ok [OF assms(1)] by (simp add: world_ok_def)
  have "active (tw_db w) s = []" using active_locked [OF ok assms(2)] assms(3) by simp
  then have none: "\<And>t. t \<in> set (td_turns (tw_db w)) \<Longrightarrow> t_sessionId t = s \<Longrightarrow> t_status t \<noteq> TurnAccepted"
    by (auto simp: active_def accepted_of_def filter_empty_conv)
  have keep: "(case tw_pending w s of None \<Rightarrow> tw_db w | Some p \<Rightarrow> snd (recoverPendingSettlement p now (tw_db w))) = tw_db w"
  proof -
    have "snd (recoverPendingSettlement p now (tw_db w)) = tw_db w" if "tw_pending w s = Some p" for p
    proof -
      have "ps_sessionId p = s" using turn_reachable_ok [OF assms(1)] that by (auto simp: world_ok_def)
      then show ?thesis using none
        by (auto simp: recoverPendingSettlement_def Let_def dest!: find_SomeD split: option.splits)
    qed
    then show ?thesis by (auto split: option.splits)
  qed
  have kind: "MAINTENANCE \<noteq> SESSION_DELETION" "deletionPendingOwnerKind MAINTENANCE = Some MAINTENANCE_DELETING"
    by (simp_all add: owner_kinds deletionPendingOwnerKind_def)
  show ?thesis
    using recoverExpiredDeletionTurn_cases [OF ok, of s now] assms(2,3) kind
    by (auto simp: beginSessionDeletion_def keep beginSessionDeletionInTransaction_def Let_def)
qed

definition maintained_world :: "queue_db turn_world" where
  "maintained_world = run_turn_call demo_fence_env (CallMaintain ''s'' 100 ''M1'') (start_world empty_queue)"

theorem deletion_stuck_on_expired_maintenance_witness:
  "map_sum id fst (beginSessionDeletion demo_fence_env ''s'' 1100 ''D1'' maintained_world) =
     Inl (DeletionActiveTurnMissing ''s'')"
proof -
  have r: "turn_reachable demo_fence_env maintained_world"
    unfolding maintained_world_def by (intro turn_reachable.call turn_reachable.start)
  have "\<exists>l. findSessionLock (tw_db maintained_world) ''s'' = Some l \<and> l_ownerKind l = MAINTENANCE \<and> l_expiresAtMs l = 1100"
  proof -
    have "findSessionLock (tw_db maintained_world) ''s'' = Some \<lparr>l_sessionId = ''s'', l_ownerId = ''M1'',
        l_ownerKind = MAINTENANCE, l_acquiredAtMs = 100, l_expiresAtMs = 1100\<rparr>" by code_simp
    then show ?thesis by simp
  qed
  then show ?thesis using deletion_stuck_on_expired_maintenance [OF r, of "''s''" _ 1100 "''D1''"] by auto
qed

section \<open>After a restart\<close>




end
