(* ===== verification/TurnQueue.thy ===== *)
theory TurnQueue
  imports TurnDeletion
begin

text \<open>
  Queue and Turn composed. The queue asks an acceptance lookup whether a Turn took a claim over
  before it acknowledges the claim; the Turn repository is that lookup. The contract between them
  is a locale, its client the queue's recovery of claims, its provider the Turn tables.
\<close>

section \<open>The contract\<close>

locale acceptance_store =
  fixes lookup :: "'t acceptance_lookup"
  assumes no_corruption: "markAcknowledged lookup t q = Inl e \<Longrightarrow> \<not> reports_corruption e"
begin

lemma sound: "lookup_sound lookup"
  using no_corruption by (auto simp: lookup_sound_def)

lemmas recover_ok = recoverClaims_ok [OF _ sound]

end

locale claim_acceptance = acceptance_store +
  assumes mark_accepted: "isAccepted lookup t q \<Longrightarrow> \<exists>t'. markAcknowledged lookup t q = Inr t'"
    and mark_keeps: "markAcknowledged lookup t q = Inr t' \<Longrightarrow> isAccepted lookup t' q' = isAccepted lookup t q'"
begin

text \<open>The verdict on a group of claimed rows.\<close>

definition takes :: "'a \<Rightarrow> string \<times> queue_item list \<Rightarrow> bool" where
  "takes t = (\<lambda>(c, xs). \<not> pendingDelivery c xs \<and>
     (case claimQuery xs c None of Inr q \<Rightarrow> isAccepted lookup t q | Inl _ \<Rightarrow> False))"

lemma takes_mark: "markAcknowledged lookup t q = Inr t' \<Longrightarrow> takes t' = takes t"
  by (auto simp: takes_def mark_keeps split: sum.splits)

text \<open>
  The loop over the groups never fails, and marking one claim does not change the verdict on the
  next: the acknowledged rows are those of the groups accepted when the loop began.
\<close>

lemma recover_groups_split:
  assumes "\<forall>(c, xs) \<in> set groups. xs \<noteq> []"
  shows "\<exists>released t' facts db'. recover_groups s n lookup groups t db =
    Inr ((concat (map snd (filter (takes t) groups)), released, t'), facts, db')"
  using assms
proof (induction groups arbitrary: t db)
  case (Cons g groups)
  obtain c xs where g: "g = (c, xs)" by (cases g)
  with Cons.prems obtain x ys where xs: "xs = x # ys" by (cases xs) auto
  let ?q = "\<lparr>aq_sessionId = i_sessionId x, aq_claimId = c, aq_source = queueExecutionSource x,
             aq_queueItemIds = map i_itemId xs, aq_turnId = None\<rparr>"
  have q: "claimQuery xs c None = Inr ?q" by (simp add: claimQuery_def xs)
  show ?case
  proof (cases "takes t g")
    case True
    then obtain t1 where m: "markAcknowledged lookup t ?q = Inr t1" and a: "isAccepted lookup t ?q" "\<not> pendingDelivery c xs"
      using mark_accepted [of t ?q] by (auto simp: takes_def g q)
    from Cons.IH [of t1 "deleteItems s xs db"] Cons.prems show ?thesis
      using True m a by (auto simp: g q takes_mark [OF m])
  next
    case False
    then have "\<not> (\<not> pendingDelivery c xs \<and> isAccepted lookup t ?q)" by (auto simp: takes_def g q)
    with Cons.IH [of t "snd (snd (release_rows s n None xs db))"] Cons.prems False show ?thesis
      by (auto simp: g q case_prod_unfold Let_def)
  qed
qed simp

end

section \<open>The Turn tables provide it\<close>

text \<open>Marking writes one column that the search for an accepted claim does not read.\<close>

lemma findAccepted_mark:
  assumes "\<And>t. t_sessionId (f t) = t_sessionId t \<and> t_claimId (f t) = t_claimId t \<and>
    t_claimSource (f t) = t_claimSource t \<and> t_turnId (f t) = t_turnId t \<and> t_queueItemIds (f t) = t_queueItemIds t"
  shows "isAcceptedInTransaction (update_turns p f db) q = isAcceptedInTransaction db q"
proof -
  let ?P = "\<lambda>t. t_sessionId t = aq_sessionId q \<and> t_claimId t = Some (aq_claimId q)"
  have "List.find ?P (map (\<lambda>t. if p t then f t else t) ts) =
      map_option (\<lambda>t. if p t then f t else t) (List.find ?P ts)" for ts
    using assms by (induction ts) auto
  then show ?thesis using assms
    by (auto simp: isAcceptedInTransaction_def findAcceptedQueueTurn_def split: option.splits)
qed

interpretation turns: claim_acceptance "turn_acceptance now"
proof unfold_locales
  show "markAcknowledged (turn_acceptance now) t q = Inl e \<Longrightarrow> \<not> reports_corruption e" for t q e
    by (auto simp: turn_acceptance_def split: sum.splits)
  show "isAccepted (turn_acceptance now) t q \<Longrightarrow> \<exists>t'. markAcknowledged (turn_acceptance now) t q = Inr t'" for t q
    by (auto simp: turn_acceptance_def isAcceptedInTransaction_def markAcknowledgedInTransaction_def)
  show "markAcknowledged (turn_acceptance now) t q = Inr t' \<Longrightarrow>
      isAccepted (turn_acceptance now) t' q' = isAccepted (turn_acceptance now) t q'" for t q t' q'
    by (auto simp: turn_acceptance_def markAcknowledgedInTransaction_def findAccepted_mark
        split: sum.splits option.splits)
qed

section \<open>The composition\<close>

text \<open>Admitting a queued item takes its claim over: the lookup says yes to exactly the claim, source and
  item the admission carried, for any Turn or for the admitted one, and not for another Turn; marking
  it records the time on the admitted Turn.\<close>

theorem admission_takes_claim:
  assumes "turn_reachable env w" "admitRepositoryTurn env i now lease w = Inr (r, facts, w')"
    and "ar_status r = Admitted l n t" "ai_queueIngress i = Some ing"
    and q: "aq_sessionId q = ai_sessionId i" "aq_claimId q = qi_claimId ing"
  shows "(isAcceptedInTransaction (tw_db w') q \<longleftrightarrow>
      source_name (aq_source q) = source_name (qi_source ing) \<and> aq_queueItemIds q = [qi_itemId ing] \<and>
      (truthy (aq_turnId q) = None \<or> truthy (aq_turnId q) = Some (ai_turnId i))) \<and>
    (isAcceptedInTransaction (tw_db w') q \<longrightarrow>
      (\<exists>db'. markAcknowledgedInTransaction later (tw_db w') q = Inr db' \<and>
        (\<forall>u \<in> set (td_turns db'). t_turnId u = ai_turnId i \<longrightarrow> t_queueAcknowledgedAtMs u = Some later)))"
proof -
  let ?s = "ai_sessionId i" let ?db = "recovered env i (tw_pending w ?s) now (tw_db w)"
  have ok: "turn_ok (tw_db w)" and pend: "\<And>p. tw_pending w ?s = Some p \<Longrightarrow> ps_sessionId p = ?s"
    using turn_reachable_ok [OF assms(1)] by (auto simp: world_ok_def)
  obtain st where tx: "admitTurnInTransaction env i (tw_pending w ?s) now lease (tw_db w) (tw_rest w) =
       Inr ((Admitted l n t, ar_recovered r), tw_db w', st)"
    using find_admitted [OF assms(2,3)] by metis
  have adm: "admissible i ?db" and w': "tw_db w' = admitted_db i lease now (te_leaseMs env) ?db"
    using admitTurn_cases [OF tx] by auto
  have ok1: "turn_ok ?db" using turn_step_ok [OF recoverAdmission_step [OF ok pend]] .
  have ok2: "turn_ok (tw_db w')" using turn_step_ok [OF admitted_db_step(1) [OF ok1 adm]] by (simp add: w')
  let ?row = "admission_row i now (td_nextSequence ?db)"
  have none: "List.find (\<lambda>t. t_sessionId t = ?s \<and> t_claimId t = Some (qi_claimId ing)) (td_turns ?db) = None"
    using adm assms(4) by (auto simp: find_None_iff admissible_def turn_conflict_def ingress_claim_def)
  have find: "List.find (\<lambda>t. t_sessionId t = aq_sessionId q \<and> t_claimId t = Some (aq_claimId q)) (td_turns (tw_db w')) = Some ?row"
    using none assms(4) q by (simp add: w' admitted_db_def find_append ingress_claim_def)
  have same: "sameStrings [x] ys \<longleftrightarrow> ys = [x]" for x ys
    by (cases ys) (auto simp: sameStrings_def)
  have acc: "isAcceptedInTransaction (tw_db w') q \<longleftrightarrow>
      source_name (aq_source q) = source_name (qi_source ing) \<and> aq_queueItemIds q = [qi_itemId ing] \<and>
      (truthy (aq_turnId q) = None \<or> truthy (aq_turnId q) = Some (ai_turnId i))"
    using assms(4)
    by (auto simp: isAcceptedInTransaction_def findAcceptedQueueTurn_def find admission_row_def
        ingress_source_def parseStringArray_def same split: option.splits simp del: truthy_eq_Some truthy_Some)
  moreover have "\<exists>db'. markAcknowledgedInTransaction later (tw_db w') q = Inr db' \<and>
        (\<forall>u \<in> set (td_turns db'). t_turnId u = ai_turnId i \<longrightarrow> t_queueAcknowledgedAtMs u = Some later)"
    if "isAcceptedInTransaction (tw_db w') q"
  proof -
    from that obtain u where u: "findAcceptedQueueTurn (tw_db w') q = Some u"
      by (auto simp: isAcceptedInTransaction_def)
    then have "u = ?row" using find by (auto simp: findAcceptedQueueTurn_def split: if_splits)
    then show ?thesis using u by (auto simp: markAcknowledgedInTransaction_def)
  qed
  ultimately show ?thesis by blast
qed

text \<open>The admission of item \<open>q1\<close> that the demo queue hands out under claim \<open>c1\<close>.\<close>

definition queued_admission :: admit_input where
  "queued_admission = (plain_admission ''s'' ''t1'')
     \<lparr>ai_queueIngress := Some \<lparr>qi_claimId = ''c1'', qi_itemId = ''q1'', qi_userMessageId = None,
        qi_clientRequestId = None, qi_source = Api\<rparr>,
      ai_priority := Fifo 10 (Some ''c1'') None, ai_consumeQueuePause := False\<rparr>"

definition claim_query :: acceptance_query where
  "claim_query = \<lparr>aq_sessionId = ''s'', aq_claimId = ''c1'', aq_source = Api, aq_queueItemIds = [''q1''],
                  aq_turnId = None\<rparr>"

lemma demo_queued_admission:
  "case admitRepositoryTurn demo_fence_env queued_admission 100 ''L1'' (start_world demo_queue) of
     Inr (r, _, _) \<Rightarrow> ar_status r = Admitted ''L1'' 1 100 | Inl _ \<Rightarrow> False"
  by code_simp

theorem admission_takes_claim_witness:
  "\<exists>r facts w'. admitRepositoryTurn demo_fence_env queued_admission 100 ''L1'' (start_world demo_queue) =
     Inr (r, facts, w') \<and> isAcceptedInTransaction (tw_db w') claim_query"
proof -
  obtain r facts w' where a: "admitRepositoryTurn demo_fence_env queued_admission 100 ''L1'' (start_world demo_queue) =
     Inr (r, facts, w')" and s: "ar_status r = Admitted ''L1'' 1 100"
    using demo_queued_admission by (auto split: sum.splits prod.splits)
  have i: "ai_queueIngress queued_admission = Some \<lparr>qi_claimId = ''c1'', qi_itemId = ''q1'', qi_userMessageId = None,
        qi_clientRequestId = None, qi_source = Api\<rparr>" "ai_sessionId queued_admission = ''s''"
    by (simp_all add: queued_admission_def plain_admission_def)
  from admission_takes_claim [OF turn_reachable.start a s i(1), of claim_query 200] a show ?thesis
    by (auto simp: i claim_query_def)
qed

text \<open>The groups of a recovery are never empty, and claimed rows outlive the removal of expired ones.\<close>

lemma group_claims_nonempty: "(c, xs) \<in> set (group_claims is) \<Longrightarrow> xs \<noteq> []"
proof (induction "is" arbitrary: c xs rule: rev_induct)
  case Nil
  then show ?case by (simp add: group_claims_def)
next
  case (snoc i js)
  have app: "\<forall>(c, xs) \<in> set al. xs \<noteq> [] \<Longrightarrow> \<forall>(c, xs) \<in> set (assoc_append k x al). xs \<noteq> []" for k and x :: queue_item and al
    by (induction k x al rule: assoc_append.induct) auto
  have "group_claims (js @ [i]) = group_claims js \<or> (\<exists>k. group_claims (js @ [i]) = assoc_append k i (group_claims js))"
    by (auto simp: group_claims_def split: option.splits)
  moreover have "\<forall>(c, xs) \<in> set (group_claims js). xs \<noteq> []" using snoc.IH by auto
  ultimately have "\<forall>(c, xs) \<in> set (group_claims (js @ [i])). xs \<noteq> []" using app by metis
  then show ?case using snoc.prems by auto
qed

lemma live_claimed:
  "filter (\<lambda>i. i_sessionId i = s \<and> i_status i = Claimed) (live_items s m db) =
   filter (\<lambda>i. i_sessionId i = s \<and> i_status i = Claimed) (items db)"
  unfolding live_items_def filter_filter by (rule filter_cong) (auto simp: overdue_def)

text \<open>Recovery after a crash delivers each claimed item once. On well-formed tables it always commits, and
  it acknowledges exactly the recoverable claims that a Turn accepted and that have no delivery still
  under way; every other recoverable claim goes back to the queue or expires.\<close>

theorem recovery_acknowledges_accepted:
  assumes "wf_queue db"
  shows "\<exists>released t' facts db'. recoverClaims env s (turn_acceptance now) scope n t db =
      Inr ((concat (map snd (filter (\<lambda>(c, xs). \<not> pendingDelivery c xs \<and>
              (case claimQuery xs c None of Inr q \<Rightarrow> isAcceptedInTransaction t q | Inl _ \<Rightarrow> False))
            (groupRecoverable env n scope
              (filter (\<lambda>i. i_sessionId i = s \<and> i_status i = Claimed) (items db))))), released, t'), facts, db')"
proof -
  let ?claimed = "filter (\<lambda>i. i_sessionId i = s \<and> i_status i = Claimed) (items db)"
  let ?groups = "groupRecoverable env n scope ?claimed" let ?l = "live_queue s n n db"
  note wl = live_queue_items [OF assms, of s n n]
  have ne: "\<forall>(c, xs) \<in> set ?groups. xs \<noteq> []"
    using group_claims_nonempty by (auto simp: groupRecoverable_def)
  have verdict: "turns.takes now t = (\<lambda>(c, xs). \<not> pendingDelivery c xs \<and>
      (case claimQuery xs c None of Inr q \<Rightarrow> isAcceptedInTransaction t q | Inl _ \<Rightarrow> False))"
  proof -
    have "isAccepted (turn_acceptance now) = isAcceptedInTransaction" by (simp add: turn_acceptance_def)
    then show ?thesis unfolding turns.takes_def by (simp only:)
  qed
  obtain released t' facts db' where
    "recover_groups s n (turn_acceptance now) ?groups t ?l =
      Inr ((concat (map snd (filter (turns.takes now t) ?groups)), released, t'), facts, db')"
    using turns.recover_groups_split [OF ne] by blast
  then show ?thesis
    by (simp add: recoverClaims_def run_body [OF assms] rowsByStatus_abs [OF wl(2)] wl(1) live_claimed verdict)
qed

lemma demo_recover:
  "case admitRepositoryTurn demo_fence_env queued_admission 100 ''L1'' (start_world demo_queue) of
     Inr (_, _, w') \<Rightarrow>
       concat (map snd (filter (\<lambda>(c, xs). \<not> pendingDelivery c xs \<and>
          (case claimQuery xs c None of Inr q \<Rightarrow> isAcceptedInTransaction (tw_db w') q | Inl _ \<Rightarrow> False))
        (groupRecoverable demo_env 900000 None
          (filter (\<lambda>i. i_sessionId i = ''s'' \<and> i_status i = Claimed) (items demo_queue))))) =
       filter (\<lambda>i. i_itemId i = ''q1'') (items demo_queue)
   | Inl _ \<Rightarrow> False"
  by code_simp

theorem recovery_acknowledges_accepted_witness:
  "\<exists>r facts w' released t' fs db'.
     admitRepositoryTurn demo_fence_env queued_admission 100 ''L1'' (start_world demo_queue) = Inr (r, facts, w') \<and>
     recoverClaims demo_env ''s'' (turn_acceptance 900000) None 900000 (tw_db w') demo_queue =
       Inr ((filter (\<lambda>i. i_itemId i = ''q1'') (items demo_queue), released, t'), fs, db')"
proof -
  obtain r facts w' where a: "admitRepositoryTurn demo_fence_env queued_admission 100 ''L1'' (start_world demo_queue) =
     Inr (r, facts, w')"
    and e: "concat (map snd (filter (\<lambda>(c, xs). \<not> pendingDelivery c xs \<and>
          (case claimQuery xs c None of Inr q \<Rightarrow> isAcceptedInTransaction (tw_db w') q | Inl _ \<Rightarrow> False))
        (groupRecoverable demo_env 900000 None
          (filter (\<lambda>i. i_sessionId i = ''s'' \<and> i_status i = Claimed) (items demo_queue))))) =
       filter (\<lambda>i. i_itemId i = ''q1'') (items demo_queue)"
    using demo_recover by (auto split: sum.splits prod.splits)
  from recovery_acknowledges_accepted [OF demo_wf, of demo_env "''s''" 900000 None 900000 "tw_db w'"] a
  show ?thesis unfolding e by blast
qed

end
