(* ===== verification/HookProps.thy ===== *)
theory HookProps
  imports TurnFacts
begin

text \<open>
  The Plugin Hook protocol: what the code writes into the metadata column is what its parser reads
  back, and the external SessionEnd execution of a Session is claimed at most once per owning Turn.
\<close>

section \<open>Writing and reading\<close>

definition bounded_id :: "string \<Rightarrow> bool" where
  "bounded_id c \<longleftrightarrow> 0 < length c \<and> length c \<le> 512"

definition valid_end :: "hook_end \<Rightarrow> bool" where
  "valid_end e \<longleftrightarrow> bounded_id (he_claimId e) \<and> he_claimedAtMs e \<ge> 0 \<and>
     (case he_completedAtMs e of None \<Rightarrow> True | Some t \<Rightarrow> t \<ge> 0)"

definition valid_hook :: "string \<Rightarrow> hook_session \<Rightarrow> bool" where
  "valid_hook turnId h \<longleftrightarrow>
     bounded_id (ho_claimId (hs_ownership h)) \<and> ho_turnId (hs_ownership h) = turnId \<and>
     ho_claimedAtMs (hs_ownership h) \<ge> 0 \<and>
     (case ho_phase (hs_ownership h) of HookPrepared \<Rightarrow> True | HookActivated t \<Rightarrow> t \<ge> 0) \<and>
     (case hs_end h of None \<Rightarrow> True | Some e \<Rightarrow> valid_end e)"

lemma parse_end_js: "valid_end e \<Longrightarrow> parseOptionalPluginHookSessionEnd (end_js e) = Some (Some e)"
  by (cases e; cases "he_completedAtMs e"; cases "he_reason e")
    (auto simp: parseOptionalPluginHookSessionEnd_def end_js_def js_get_def isBoundedString_def valid_end_def
      bounded_id_def isFiniteTimestamp_def isPluginHookSessionEndReason_def)

lemma parse_ownership_js:
  assumes "valid_hook turnId h"
  shows "parsePluginHookSessionOwnership (ownership_js (hs_ownership h)) turnId = Some (hs_ownership h)"
proof -
  obtain c t n p where o': "hs_ownership h = \<lparr>ho_claimId = c, ho_turnId = t, ho_claimedAtMs = n, ho_phase = p\<rparr>"
    by (cases "hs_ownership h")
  show ?thesis
    using assms
    by (cases p)
      (auto simp: o' valid_hook_def bounded_id_def parsePluginHookSessionOwnership_def ownership_js_def js_get_def
        isBoundedString_def isFiniteTimestamp_def parsePluginHookSessionOwnershipPhase_def)
qed

lemma parse_hook_js:
  assumes "valid_hook turnId h"
  shows "parsePluginHookSessionMetadata (hook_js h) turnId = Some h"
proof -
  have "valid_end e" if "hs_end h = Some e" for e using assms that by (simp add: valid_hook_def)
  then show ?thesis
    using parse_ownership_js [OF assms] parse_end_js
    by (cases h; cases "hs_end h")
      (auto simp: parsePluginHookSessionMetadata_def hook_js_def js_get_def parseOptionalPluginHookSessionEnd_def)
qed

text \<open>What the hook protocol writes is what it reads: the metadata column written for a valid hook record
  parses back to that record, and every other key of the column keeps its value.\<close>

theorem hook_metadata_roundtrip:
  assumes "valid_hook (t_turnId t) h" "p t"
  shows "\<exists>u \<in> set (td_turns (write_hook p metadata h (db\<lparr>td_turns := [t]\<rparr>))).
    row_hook u = Some h \<and>
    (\<forall>k. k \<noteq> ''pluginHookSession'' \<longrightarrow>
       js_get (parseInputMetadata (t_inputMetadata u)) k = js_get metadata k)"
  using assms
  by (simp add: write_hook_def row_hook_def parseInputMetadata_def js_get_js_set parse_hook_js)

definition demo_hook :: hook_session where
  "demo_hook = \<lparr>hs_ownership = \<lparr>ho_claimId = ''o1'', ho_turnId = ''t1'', ho_claimedAtMs = 5, ho_phase = HookActivated 6\<rparr>,
     hs_end = Some \<lparr>he_claimId = ''e1'', he_reason = EndClear, he_claimedAtMs = 7, he_completedAtMs = None\<rparr>\<rparr>"

theorem hook_metadata_roundtrip_witness:
  "\<exists>u. row_hook u = Some demo_hook \<and> js_get (parseInputMetadata (t_inputMetadata u)) ''hasContent'' = JBool True"
  using hook_metadata_roundtrip [of "admission_row (plain_admission ''s'' ''t1'') 100 1" demo_hook "\<lambda>_. True"
      "[(''hasContent'', JBool True)]" empty_turns]
  by (auto simp: demo_hook_def valid_hook_def valid_end_def bounded_id_def plain_admission_def js_get_def)

section \<open>Rewriting the owner's row\<close>

lemma insort_key_map:
  "(\<And>x. k (f x) = k x) \<Longrightarrow> insort_key k (f x) (map f xs) = map f (insort_key k x xs)"
  by (induction xs) auto

lemma sort_key_map: "(\<And>x. k (f x) = k x) \<Longrightarrow> sort_key k (map f xs) = map f (sort_key k xs)"
  by (induction xs) (simp_all add: insort_key_map)

definition owner_rows :: "turn_db \<Rightarrow> string \<Rightarrow> turn_row list" where
  "owner_rows db s = sort_key (\<lambda>t. - int (seq_value t))
     (filter (\<lambda>t. t_sessionId t = s \<and> t_busyReason t = ''turn'') (td_turns db))"

definition with_metadata :: "string \<Rightarrow> js \<Rightarrow> turn_row \<Rightarrow> turn_row" where
  "with_metadata turnId m t = (if t_turnId t = turnId then t\<lparr>t_inputMetadata := m\<rparr> else t)"

lemma with_metadata_simps [simp]:
  "t_turnId (with_metadata i m t) = t_turnId t" "t_sessionId (with_metadata i m t) = t_sessionId t"
  "t_busyReason (with_metadata i m t) = t_busyReason t" "seq_value (with_metadata i m t) = seq_value t"
  by (simp_all add: with_metadata_def seq_value_def)

lemma map_with_metadata_other: "i \<notin> t_turnId ` set xs \<Longrightarrow> map (with_metadata i m) xs = xs"
  by (induction xs) (auto simp: with_metadata_def)

lemma filter_map_id: "(\<And>x. P (f x) = P x) \<Longrightarrow> filter P (map f xs) = map f (filter P xs)"
  by (induction xs) auto

lemma owner_rows_write:
  "owner_rows (write_hook (\<lambda>t. t_turnId t = i) m h db) s =
   map (with_metadata i (JObj (js_set m ''pluginHookSession'' (hook_js h)))) (owner_rows db s)"
proof -
  have "td_turns (write_hook (\<lambda>t. t_turnId t = i) m h db) =
      map (with_metadata i (JObj (js_set m ''pluginHookSession'' (hook_js h)))) (td_turns db)"
    by (simp add: write_hook_def with_metadata_def update_turns_def)
  then show ?thesis
    by (simp add: owner_rows_def filter_map_id sort_key_map)
qed

lemma findOwner_rows: "findPluginHookSessionOwner db s c = first_hook_owner c (owner_rows db s)"
  by (simp add: findPluginHookSessionOwner_def owner_rows_def)

section \<open>The latest activated owner\<close>

definition activated_row :: "turn_row \<Rightarrow> bool" where
  "activated_row t = (case row_hook t of None \<Rightarrow> False
     | Some h \<Rightarrow> (case ho_phase (hs_ownership h) of HookPrepared \<Rightarrow> False | HookActivated _ \<Rightarrow> True))"

lemma first_hook_owner_skip:
  "\<forall>t \<in> set ys. \<not> activated_row t \<Longrightarrow> first_hook_owner c (ys @ zs) = first_hook_owner c zs"
  by (induction ys) (auto simp: activated_row_def split: option.splits hook_phase.splits)

lemma first_hook_owner_split:
  assumes "first_hook_owner None rows = Some latest"
  shows "\<exists>ys x zs. rows = ys @ x # zs \<and> (\<forall>t \<in> set ys. \<not> activated_row t) \<and> activated_row x \<and>
    row_hook x = Some (hw_hook latest) \<and> t_turnId x = hw_turnId latest"
  using assms
proof (induction rows)
  case (Cons r rows)
  show ?case
  proof (cases "activated_row r")
    case True
    then show ?thesis using Cons.prems
      by (intro exI [of _ "[]"] exI [of _ r] exI [of _ rows])
        (auto simp: activated_row_def split: option.splits hook_phase.splits)
  next
    case False
    then have "first_hook_owner None rows = Some latest"
      using Cons.prems by (auto simp: activated_row_def split: option.splits hook_phase.splits)
    from Cons.IH [OF this] obtain ys x zs where "rows = ys @ x # zs" "\<forall>t \<in> set ys. \<not> activated_row t"
      "activated_row x" "row_hook x = Some (hw_hook latest)" "t_turnId x = hw_turnId latest" by blast
    with False show ?thesis
      by (intro exI [of _ "r # ys"] exI [of _ x] exI [of _ zs]) auto
  qed
qed simp

lemma isBoundedString_SomeD: "isBoundedString v = Some c \<Longrightarrow> bounded_id c"
  by (auto simp: isBoundedString_def bounded_id_def split: js.splits if_splits)

lemma isFiniteTimestamp_SomeD: "isFiniteTimestamp v = Some n \<Longrightarrow> 0 \<le> n"
  by (auto simp: isFiniteTimestamp_def split: js.splits jsnum.splits if_splits)

lemma parsed_ownership:
  "parsePluginHookSessionOwnership v i = Some ho \<Longrightarrow> bounded_id (ho_claimId ho) \<and> ho_turnId ho = i \<and>
    0 \<le> ho_claimedAtMs ho \<and> (case ho_phase ho of HookPrepared \<Rightarrow> True | HookActivated t \<Rightarrow> t \<ge> 0)"
  by (auto simp: parsePluginHookSessionOwnership_def parsePluginHookSessionOwnershipPhase_def
      dest: isBoundedString_SomeD isFiniteTimestamp_SomeD split: js.splits option.splits if_splits)

lemma parsed_end: "parseOptionalPluginHookSessionEnd v = Some (Some e) \<Longrightarrow> valid_end e"
  by (auto simp: parseOptionalPluginHookSessionEnd_def valid_end_def
      dest: isBoundedString_SomeD isFiniteTimestamp_SomeD split: js.splits option.splits if_splits)

lemma row_hook_valid:
  assumes "row_hook t = Some h" shows "valid_hook (t_turnId t) h"
  using assms
  by (auto simp: row_hook_def parsePluginHookSessionMetadata_def valid_hook_def parsed_end
      dest: parsed_ownership split: js.splits option.splits)

text \<open>The owner after a new record with the same claim is written to the latest owner's row.\<close>

lemma first_hook_owner_write:
  assumes first: "first_hook_owner None rows = Some latest" and d: "distinct (map t_turnId rows)"
    and h: "valid_hook (hw_turnId latest) h" "hs_ownership h = hs_ownership (hw_hook latest)"
    and c: "c = None \<or> c = Some (ho_claimId (hs_ownership h))"
  shows "\<exists>o'. first_hook_owner c (map (with_metadata (hw_turnId latest)
      (JObj (js_set m ''pluginHookSession'' (hook_js h)))) rows) = Some o' \<and> hw_hook o' = h"
proof -
  obtain ys x zs where rows: "rows = ys @ x # zs" and ys: "\<forall>t \<in> set ys. \<not> activated_row t"
    and x: "activated_row x" "row_hook x = Some (hw_hook latest)" "t_turnId x = hw_turnId latest"
    using first_hook_owner_split [OF first] by blast
  let ?x = "x\<lparr>t_inputMetadata := JObj (js_set m ''pluginHookSession'' (hook_js h))\<rparr>"
  have "map (with_metadata (hw_turnId latest) (JObj (js_set m ''pluginHookSession'' (hook_js h)))) rows =
      ys @ ?x # zs"
    using d x(3) unfolding rows by (auto simp: map_with_metadata_other with_metadata_def [of _ _ x])
  moreover have "row_hook ?x = Some h"
    using h(1) x(3) by (simp add: row_hook_def parseInputMetadata_def js_get_js_set parse_hook_js)
  moreover have "\<exists>t. ho_phase (hs_ownership h) = HookActivated t"
    using x(1,2) h(2) by (auto simp: activated_row_def split: hook_phase.splits)
  ultimately show ?thesis
    using c by (auto simp: first_hook_owner_skip [OF ys] truthy_def split: option.splits if_splits)
qed

lemma distinct_owner_rows: "distinct (map t_turnId (td_turns db)) \<Longrightarrow> distinct (map t_turnId (owner_rows db s))"
  unfolding owner_rows_def
  by (drule distinct_map_filterI) (simp add: distinct_map)

section \<open>SessionEnd\<close>

definition hooked :: "js_object \<Rightarrow> hook_session \<Rightarrow> turn_row \<Rightarrow> turn_row" where
  "hooked m h t = t\<lparr>t_inputMetadata := JObj (js_set m ''pluginHookSession'' (hook_js h))\<rparr>"

lemma row_hook_written: "valid_hook (t_turnId t) h \<Longrightarrow> row_hook (hooked m h t) = Some h"
  by (simp add: hooked_def row_hook_def parseInputMetadata_def js_get_js_set parse_hook_js)

lemma hooked_id [simp]: "t_turnId (hooked m h t) = t_turnId t"
  by (simp add: hooked_def)

lemma write_hook_turns: "td_turns (write_hook p m h db) = map (\<lambda>t. if p t then hooked m h t else t) (td_turns db)"
  by (simp add: write_hook_def update_turns_def hooked_def)

lemma write_hook_row:
  assumes "u \<in> set (td_turns (write_hook p m h db))"
  shows "\<exists>t\<in>set (td_turns db). u = (if p t then hooked m h t else t)"
  using assms unfolding write_hook_turns set_map by (rule imageE) blast

lemma write_hook_ids [simp]: "map t_turnId (td_turns (write_hook p m h db)) = map t_turnId (td_turns db)"
  by (simp add: write_hook_turns)

lemma owner_row:
  assumes "findPluginHookSessionOwner db s c = Some own"
  obtains t where "t \<in> set (td_turns db)" "t_turnId t = hw_turnId own" "row_hook t = Some (hw_hook own)"
    "truthy c = None \<or> truthy c = Some (ho_claimId (hs_ownership (hw_hook own)))"
proof -
  have "first_hook_owner c rows = Some own \<Longrightarrow> \<exists>t\<in>set rows. t_turnId t = hw_turnId own \<and> row_hook t = Some (hw_hook own) \<and>
      (truthy c = None \<or> truthy c = Some (ho_claimId (hs_ownership (hw_hook own))))" for rows
    by (induction rows) (auto split: option.splits hook_phase.splits if_splits)
  from this [OF assms [unfolded findPluginHookSessionOwner_def]] that show ?thesis
    by auto
qed

text \<open>
  Any operations on the hooks of any Sessions, one after the other. \<open>granted\<close> are the successful claims of an end so
  far: the Turn that owned the hooks and the id of the claim. Ids of claims are not blank and within the bound of the
  parser, and the clock is not negative. Between the operations the tables may change in any way that keeps the ids of Turns
  distinct and the marker of the Turns with a granted end; such Turns may be removed, but their ids are not used again.
\<close>

inductive hook_history :: "turn_db \<Rightarrow> (string \<times> string) list \<Rightarrow> bool" where
  start: "distinct (map t_turnId (td_turns db)) \<Longrightarrow> hook_history db []"
| prepare: "hook_history db granted \<Longrightarrow> preparePluginHookSessionOwnership s turnId c now db = Inr db' \<Longrightarrow>
    hook_history db' granted"
| activate: "hook_history db granted \<Longrightarrow> 0 \<le> now \<Longrightarrow> activatePluginHookSessionOwnership s turnId c now db = Inr db' \<Longrightarrow>
    hook_history db' granted"
| claim: "hook_history db granted \<Longrightarrow> bounded_id i \<Longrightarrow> 0 \<le> now \<Longrightarrow>
    tryClaimPluginHookSessionEnd s c i r now db = (EndClaimed, db') \<Longrightarrow>
    findPluginHookSessionOwner db s None = Some own \<Longrightarrow> hook_history db' (granted @ [(hw_turnId own, i)])"
| complete: "hook_history db granted \<Longrightarrow> 0 \<le> now \<Longrightarrow> completePluginHookSessionEnd s c i now db = (b, db') \<Longrightarrow>
    hook_history db' granted"
| other: "hook_history db granted \<Longrightarrow> distinct (map t_turnId (td_turns db')) \<Longrightarrow>
    \<forall>t'\<in>set (td_turns db'). t_turnId t' \<in> fst ` set granted \<longrightarrow>
      (\<exists>t\<in>set (td_turns db). t_turnId t = t_turnId t' \<and> row_hook t = row_hook t') \<Longrightarrow> hook_history db' granted"

definition ends_kept :: "turn_db \<Rightarrow> (string \<times> string) list \<Rightarrow> bool" where
  "ends_kept db granted \<longleftrightarrow>
     (\<forall>t\<in>set (td_turns db). \<forall>i. (t_turnId t, i) \<in> set granted \<longrightarrow>
        (\<exists>h e. row_hook t = Some h \<and> hs_end h = Some e \<and> he_claimId e = i))"

lemma ends_keptD:
  assumes "ends_kept db granted" "t \<in> set (td_turns db)" "(t_turnId t, i) \<in> set granted"
  obtains h e where "row_hook t = Some h" "hs_end h = Some e" "he_claimId e = i"
  using assms unfolding ends_kept_def by blast

text \<open>A write keeps the granted ends if it keeps them in the rows it rewrites.\<close>

lemma ends_kept_write:
  assumes "ends_kept db granted"
    and "\<And>t i. t \<in> set (td_turns db) \<Longrightarrow> p t \<Longrightarrow> (t_turnId t, i) \<in> set granted \<Longrightarrow>
      valid_hook (t_turnId t) h \<and> (\<exists>e. hs_end h = Some e \<and> he_claimId e = i)"
  shows "ends_kept (write_hook p m h db) granted"
  unfolding ends_kept_def
proof (intro ballI allI impI)
  fix u i
  assume u: "u \<in> set (td_turns (write_hook p m h db))" and g: "(t_turnId u, i) \<in> set granted"
  obtain t where t: "t \<in> set (td_turns db)" "u = (if p t then hooked m h t else t)"
    using write_hook_row [OF u] by blast
  then have g': "(t_turnId t, i) \<in> set granted"
    using g by (cases "p t") simp_all
  show "\<exists>h e. row_hook u = Some h \<and> hs_end h = Some e \<and> he_claimId e = i"
  proof (cases "p t")
    case True
    from assms(2) [OF t(1) True g'] row_hook_written [of t h m] show ?thesis
      using t(2) True by auto
  next
    case False
    from assms(1) t(1) g' obtain h e where "row_hook t = Some h" "hs_end h = Some e" "he_claimId e = i"
      by (rule ends_keptD)
    then show ?thesis
      using t(2) False by simp
  qed
qed

lemma hook_history_inv:
  assumes "hook_history db granted"
  shows "distinct (map t_turnId (td_turns db)) \<and> ends_kept db granted \<and> distinct (map fst granted)"
  using assms
proof (induction rule: hook_history.induct)
  case (start db)
  then show ?case by (simp add: ends_kept_def)
next
  case (prepare db granted s turnId c now db')
  show ?case
  proof (cases "db' = db")
    case False
    then obtain row where row: "List.find (session_turn s turnId) (td_turns db) = Some row" "row_hook row = None"
      and db': "\<exists>m h. db' = write_hook (session_turn s turnId) m h db"
      using prepare.hyps(2) by (auto simp: preparePluginHookSessionOwnership_def split: option.splits if_splits)
    have in_row: "row \<in> set (td_turns db)" "t_turnId row = turnId"
      using row(1) by (auto simp: session_turn_def dest: find_SomeD)
    have kept: "ends_kept db granted"
      using prepare.IH by simp
    have "(turnId, i) \<notin> set granted" for i
    proof
      assume "(turnId, i) \<in> set granted"
      then have "(t_turnId row, i) \<in> set granted"
        by (simp add: in_row)
      with kept in_row(1) show False
        by (rule ends_keptD) (simp add: row(2))
    qed
    then have "ends_kept (write_hook (session_turn s turnId) m h db) granted" for m h
      using kept by (intro ends_kept_write) (auto simp: session_turn_def)
    then show ?thesis
      using db' prepare.IH by auto
  qed (use prepare.IH in simp)
next
  case (activate db granted now s turnId c db')
  show ?case
  proof (cases "db' = db")
    case False
    then obtain m h where h: "parsePluginHookSessionMetadata (js_get m ''pluginHookSession'') turnId = Some h"
      and m: "m = (case List.find (session_turn s turnId) (td_turns db) of None \<Rightarrow> [] | Some row \<Rightarrow> parseInputMetadata (t_inputMetadata row))"
      and db': "db' = write_hook (session_turn s turnId) m (h\<lparr>hs_ownership := (hs_ownership h)\<lparr>ho_phase := HookActivated now\<rparr>\<rparr>) db"
      using activate.hyps(3)
      by (auto simp: activatePluginHookSessionOwnership_def Let_def split: option.splits if_splits hook_phase.splits)
    have "m \<noteq> []"
      using h by (auto simp: js_get_def parsePluginHookSessionMetadata_def)
    then obtain row where row: "List.find (session_turn s turnId) (td_turns db) = Some row" "m = parseInputMetadata (t_inputMetadata row)"
      using m by (auto split: option.splits)
    have in_row: "row \<in> set (td_turns db)" "t_turnId row = turnId"
      using row(1) by (auto simp: session_turn_def dest: find_SomeD)
    have hook: "row_hook row = Some h"
      using h row(2) in_row(2) by (simp add: row_hook_def)
    let ?h = "h\<lparr>hs_ownership := (hs_ownership h)\<lparr>ho_phase := HookActivated now\<rparr>\<rparr>"
    have "valid_hook turnId ?h"
      using row_hook_valid [OF hook] in_row(2) activate.hyps(2) by (simp add: valid_hook_def)
    moreover have kept: "ends_kept db granted"
      using activate.IH by simp
    moreover have "\<exists>e. hs_end ?h = Some e \<and> he_claimId e = i" if "(turnId, i) \<in> set granted" for i
    proof -
      have "(t_turnId row, i) \<in> set granted"
        using that by (simp add: in_row)
      with kept in_row(1) show ?thesis
        by (rule ends_keptD) (use hook in simp)
    qed
    ultimately have "ends_kept db' granted"
      unfolding db' by (intro ends_kept_write) (auto simp: session_turn_def)
    then show ?thesis
      using activate.IH by (simp add: db')
  qed (use activate.IH in simp)
next
  case (claim db granted i now s c r db' own)
  obtain t where t: "t \<in> set (td_turns db)" "t_turnId t = hw_turnId own" "row_hook t = Some (hw_hook own)"
    using claim.hyps(5) by (rule owner_row)
  let ?e = "\<lparr>he_claimId = i, he_reason = r, he_claimedAtMs = now, he_completedAtMs = None\<rparr>"
  let ?h = "(hw_hook own)\<lparr>hs_end := Some ?e\<rparr>"
  have none: "hs_end (hw_hook own) = None"
    and db': "db' = write_hook (\<lambda>t. t_turnId t = hw_turnId own) (hw_metadata own) ?h db"
    using claim.hyps(4,5) by (auto simp: tryClaimPluginHookSessionEnd_def split: if_splits)
  have kept: "ends_kept db granted"
    using claim.IH by simp
  have fresh: "(hw_turnId own, j) \<notin> set granted" for j
  proof
    assume "(hw_turnId own, j) \<in> set granted"
    then have "(t_turnId t, j) \<in> set granted"
      by (simp add: t(2))
    with kept t(1) show False
      by (rule ends_keptD) (use t(3) none in simp)
  qed
  have valid: "valid_hook (hw_turnId own) ?h"
    using row_hook_valid [OF t(3)] t(2) claim.hyps(2,3) by (simp add: valid_hook_def valid_end_def)
  have "ends_kept db' granted"
    unfolding db' using kept fresh by (intro ends_kept_write) auto
  moreover have "\<exists>h e. row_hook u = Some h \<and> hs_end h = Some e \<and> he_claimId e = i"
    if u: "u \<in> set (td_turns db')" and own: "t_turnId u = hw_turnId own" for u
  proof -
    obtain v where v: "u = (if t_turnId v = hw_turnId own then hooked (hw_metadata own) ?h v else v)"
      using write_hook_row [OF u [unfolded db']] by blast
    then have "t_turnId v = hw_turnId own"
      using own by (cases "t_turnId v = hw_turnId own") simp_all
    then show ?thesis
      using v row_hook_written [of v ?h "hw_metadata own"] valid by simp
  qed
  ultimately have "ends_kept db' (granted @ [(hw_turnId own, i)])"
    unfolding ends_kept_def by auto
  moreover have "hw_turnId own \<notin> fst ` set granted"
    using fresh by force
  ultimately show ?case
    using claim.IH by (simp add: db')
next
  case (complete db granted now s c i b db')
  show ?case
  proof (cases "db' = db")
    case False
    then obtain own e where own: "findPluginHookSessionOwner db s (Some c) = Some own" "hs_end (hw_hook own) = Some e"
      and db': "db' = write_hook (\<lambda>t. t_turnId t = hw_turnId own) (hw_metadata own)
        ((hw_hook own)\<lparr>hs_end := Some (e\<lparr>he_completedAtMs := Some now\<rparr>)\<rparr>) db"
      using complete.hyps(3) by (auto simp: completePluginHookSessionEnd_def split: option.splits if_splits)
    obtain t where t: "t \<in> set (td_turns db)" "t_turnId t = hw_turnId own" "row_hook t = Some (hw_hook own)"
      using own(1) by (rule owner_row)
    have "valid_hook (hw_turnId own) ((hw_hook own)\<lparr>hs_end := Some (e\<lparr>he_completedAtMs := Some now\<rparr>)\<rparr>)"
      using row_hook_valid [OF t(3)] t(2) own(2) complete.hyps(2) by (simp add: valid_hook_def valid_end_def)
    moreover have kept: "ends_kept db granted"
      using complete.IH by simp
    moreover have "he_claimId e = j" if "(hw_turnId own, j) \<in> set granted" for j
    proof -
      have "(t_turnId t, j) \<in> set granted"
        using that by (simp add: t(2))
      with kept t(1) show ?thesis
        by (rule ends_keptD) (use t(3) own(2) in simp)
    qed
    ultimately have "ends_kept db' granted"
      unfolding db' by (intro ends_kept_write) auto
    then show ?thesis
      using complete.IH by (simp add: db')
  qed (use complete.IH in simp)
next
  case (other db granted db')
  have kept: "ends_kept db granted"
    using other.IH by simp
  have "ends_kept db' granted"
    unfolding ends_kept_def
  proof (intro ballI allI impI)
    fix t' i
    assume g: "(t_turnId t', i) \<in> set granted" and t': "t' \<in> set (td_turns db')"
    then have "t_turnId t' \<in> fst ` set granted"
      by force
    with other.hyps(3) t' obtain t where t: "t \<in> set (td_turns db)" "t_turnId t = t_turnId t'" "row_hook t = row_hook t'"
      by blast
    then have "(t_turnId t, i) \<in> set granted"
      using g by simp
    with kept t(1) show "\<exists>h e. row_hook t' = Some h \<and> hs_end h = Some e \<and> he_claimId e = i"
      by (rule ends_keptD) (use t(3) in auto)
  qed
  then show ?case
    using other by simp
qed

text \<open>C10: The external SessionEnd is claimed at most once per owning Turn, over any sequence of operations on the hooks
  and any other changes of the tables that leave the markers alone: no Turn is granted twice, a Turn with a
  granted end is never granted another, and only the claim that was granted can complete it.\<close>

theorem session_end_claimed_once:
  assumes "hook_history db granted"
  shows "distinct (map fst granted) \<and>
    (\<forall>s c i r now db' own. tryClaimPluginHookSessionEnd s c i r now db = (EndClaimed, db') \<and>
       findPluginHookSessionOwner db s None = Some own \<longrightarrow> hw_turnId own \<notin> fst ` set granted) \<and>
    (\<forall>s c i now own. fst (completePluginHookSessionEnd s c i now db) \<and> findPluginHookSessionOwner db s (Some c) = Some own \<and>
       hw_turnId own \<in> fst ` set granted \<longrightarrow> (hw_turnId own, i) \<in> set granted)"
proof -
  have kept: "ends_kept db granted" and once: "distinct (map fst granted)"
    using hook_history_inv [OF assms] by simp_all
  have marked: "\<exists>e. hs_end (hw_hook own) = Some e \<and> (hw_turnId own, he_claimId e) \<in> set granted"
    if found: "findPluginHookSessionOwner db s c = Some own" and turn: "hw_turnId own \<in> fst ` set granted" for s c own
  proof -
    obtain i where i: "(hw_turnId own, i) \<in> set granted"
      using turn by auto
    obtain t where t: "t \<in> set (td_turns db)" "t_turnId t = hw_turnId own" "row_hook t = Some (hw_hook own)"
      using found by (rule owner_row)
    then have "(t_turnId t, i) \<in> set granted"
      using i by simp
    with kept t(1) show ?thesis
      by (rule ends_keptD) (use t(3) i in auto)
  qed
  have "hw_turnId own \<notin> fst ` set granted"
    if "tryClaimPluginHookSessionEnd s c i r now db = (EndClaimed, db')" "findPluginHookSessionOwner db s None = Some own"
    for s c i r now db' own
    using marked [OF that(2)] that by (auto simp: tryClaimPluginHookSessionEnd_def split: if_splits)
  moreover have "(hw_turnId own, i) \<in> set granted"
    if "fst (completePluginHookSessionEnd s c i now db)" "findPluginHookSessionOwner db s (Some c) = Some own"
      "hw_turnId own \<in> fst ` set granted" for s c i now own
    using marked [OF that(2,3)] that(1,2) by (auto simp: completePluginHookSessionEnd_def split: if_splits)
  ultimately show ?thesis
    using once by blast
qed

definition owned_world :: turn_db where
  "owned_world = write_hook (\<lambda>_. True) []
     \<lparr>hs_ownership = \<lparr>ho_claimId = ''o1'', ho_turnId = ''t1'', ho_claimedAtMs = 5, ho_phase = HookActivated 6\<rparr>, hs_end = None\<rparr>
     (empty_turns\<lparr>td_turns := [admission_row (plain_admission ''s'' ''t1'') 100 1]\<rparr>)"

lemma owned_world_claim:
  "map_option hw_turnId (findPluginHookSessionOwner owned_world ''s'' None) = Some ''t1''"
  "fst (tryClaimPluginHookSessionEnd ''s'' ''o1'' ''e1'' EndClear 7 owned_world) = EndClaimed"
  "distinct (map t_turnId (td_turns owned_world))"
  by code_simp+

theorem session_end_claimed_once_witness:
  "\<exists>db. hook_history db [(''t1'', ''e1'')] \<and> distinct (map fst [(''t1'', ''e1'')]) \<and>
     (\<forall>s c i r now db' own. tryClaimPluginHookSessionEnd s c i r now db = (EndClaimed, db') \<and>
        findPluginHookSessionOwner db s None = Some own \<longrightarrow> hw_turnId own \<noteq> ''t1'')"
proof -
  obtain own where own: "findPluginHookSessionOwner owned_world ''s'' None = Some own" "hw_turnId own = ''t1''"
    using owned_world_claim(1) by auto
  obtain db' where claim: "tryClaimPluginHookSessionEnd ''s'' ''o1'' ''e1'' EndClear 7 owned_world = (EndClaimed, db')"
    using owned_world_claim(2) by (metis prod.collapse)
  have "bounded_id ''e1''"
    by (simp add: bounded_id_def)
  from hook_history.claim [OF hook_history.start [OF owned_world_claim(3)] this _ claim own(1)]
  have history: "hook_history db' [(''t1'', ''e1'')]"
    by (simp add: own(2))
  with session_end_claimed_once [OF history] show ?thesis
    by (intro exI [of _ db']) simp
qed

end
