(* ===== verification/GuardFingerprint.thy ===== *)
theory GuardFingerprint
  imports JsonText "HOL-Library.Multiset"
begin

text \<open>
  The keyed fingerprints of the runaway guard (\<open>agent-modules/runaway-guard/src/fingerprint.ts\<close>): a value is
  serialised by a writer with a byte budget, with object keys in sorted order, and the text goes through an
  HMAC. The HMAC of \<open>node:crypto\<close> is a parameter.

  Values are trees (a cyclic value has no model; the code refuses it, as it refuses the other values that are
  not plain data), with distinct keys in an object, strings of code units below 256 and integer numbers.
\<close>

section \<open>The writer\<close>

definition DEFAULT_MAX_FINGERPRINT_BYTES :: nat where "DEFAULT_MAX_FINGERPRINT_BYTES = 16 * 1024"
definition MAX_SERIALIZE_DEPTH :: nat where "MAX_SERIALIZE_DEPTH = 32"

text \<open>\<open>Buffer.byteLength\<close>: the length in UTF-8.\<close>

definition byteLength :: "string \<Rightarrow> nat" where
  "byteLength s = sum_list (map (\<lambda>c. if of_char c < (128 :: nat) then 1 else 2) s)"

text \<open>
  The writer is the bytes counted and the parts joined so far. A refused part makes the whole serialisation
  \<open>undefined\<close>, so the writer after a refusal is not needed.
\<close>

type_synonym bounded_writer = "nat \<times> string"

definition append_part :: "nat \<Rightarrow> string \<Rightarrow> bounded_writer \<Rightarrow> bounded_writer option" where
  "append_part maxBytes part w =
     (let bytes = fst w + byteLength part in
      if bytes > maxBytes then None else Some (bytes, snd w @ part))"

text \<open>Sorting the keys keeps the size of the fields, so the recursion of the writer goes down.\<close>

definition fields_size :: "(string \<times> js) list \<Rightarrow> nat" where
  "fields_size fs = sum_list (map (\<lambda>p. Suc (size (snd p))) fs)"

lemma fields_size_sort: "fields_size (sort_key fst fs) = fields_size fs"
proof -
  have "mset (map (\<lambda>p. Suc (size (snd p))) (sort_key fst fs)) = mset (map (\<lambda>p. Suc (size (snd p))) fs)"
    by simp
  then show ?thesis unfolding fields_size_def by (metis sum_mset_sum_list)
qed

lemma fields_size_le: "fields_size fs \<le> size_list (size_prod (\<lambda>_. 0) size) fs"
  by (induction fs) (auto simp: fields_size_def)

function (sequential) writeStableValue :: "nat \<Rightarrow> nat \<Rightarrow> js \<Rightarrow> bounded_writer \<Rightarrow> bounded_writer option"
  and writeStableArray :: "nat \<Rightarrow> nat \<Rightarrow> bool \<Rightarrow> js list \<Rightarrow> bounded_writer \<Rightarrow> bounded_writer option"
  and writeStableRecord ::
    "nat \<Rightarrow> nat \<Rightarrow> bool \<Rightarrow> (string \<times> js) list \<Rightarrow> bounded_writer \<Rightarrow> bounded_writer option" where
  "writeStableValue m depth v w =
     (if depth > MAX_SERIALIZE_DEPTH then None
      else case v of
        JNull \<Rightarrow> append_part m ''null'' w
      | JBool b \<Rightarrow> append_part m (if b then ''true'' else ''false'') w
      | JNum n \<Rightarrow> (case n of Fin i \<Rightarrow> append_part m (json_int i) w | NonFinite \<Rightarrow> None)
      | JStr s \<Rightarrow> if length s > DEFAULT_MAX_FINGERPRINT_BYTES then None else append_part m (json_quote s) w
      | JArr xs \<Rightarrow> Option.bind (append_part m ''['' w)
          (\<lambda>w. Option.bind (writeStableArray m depth True xs w) (append_part m '']''))
      | JObj fs \<Rightarrow>
          if length fs > 1024 \<or> list_ex (\<lambda>(k, _). length k > DEFAULT_MAX_FINGERPRINT_BYTES) fs then None
          else Option.bind (append_part m ''{'' w)
            (\<lambda>w. Option.bind (writeStableRecord m depth True (sort_key fst fs) w) (append_part m ''}''))
      | JUndef \<Rightarrow> None
      | JOpaque _ \<Rightarrow> None)"
| "writeStableArray m depth first [] w = Some w"
| "writeStableArray m depth first (x # xs) w =
     Option.bind (if first then Some w else append_part m '','' w)
       (\<lambda>w. Option.bind (writeStableValue m (Suc depth) x w) (writeStableArray m depth False xs))"
| "writeStableRecord m depth first [] w = Some w"
| "writeStableRecord m depth first ((k, v) # fs) w =
     Option.bind (if first then Some w else append_part m '','' w)
       (\<lambda>w. Option.bind (append_part m (json_quote k) w)
         (\<lambda>w. Option.bind (append_part m '':'' w)
           (\<lambda>w. Option.bind (writeStableValue m (Suc depth) v w) (writeStableRecord m depth False fs))))"
  by pat_completeness auto

termination
proof (relation "measure (\<lambda>a. case a of Inl (_, _, v, _) \<Rightarrow> 2 * size v
      | Inr (Inl (_, _, _, xs, _)) \<Rightarrow> 2 * size_list size xs
      | Inr (Inr (_, _, _, fs, _)) \<Rightarrow> 2 * fields_size fs)", goal_cases)
  case (3 m depth v w fs w')
  then show ?case using fields_size_le [of fs] by (simp add: fields_size_sort)
qed (auto simp: fields_size_def)

declare writeStableValue.simps [simp del] writeStableArray.simps [simp del] writeStableRecord.simps [simp del]

definition stableSerializeWithinBudget :: "js \<Rightarrow> nat \<Rightarrow> string option" where
  "stableSerializeWithinBudget v maxBytes = map_option snd (writeStableValue maxBytes 0 v (0, []))"

definition fingerprint :: "('s \<Rightarrow> string \<Rightarrow> string) \<Rightarrow> 's \<Rightarrow> string \<Rightarrow> string" where
  "fingerprint hmac secret text = hmac secret text"

definition fingerprintWithinBudget ::
  "('s \<Rightarrow> string \<Rightarrow> string) \<Rightarrow> 's \<Rightarrow> js \<Rightarrow> nat \<Rightarrow> string option" where
  "fingerprintWithinBudget hmac secret v maxBytes =
     map_option (fingerprint hmac secret) (stableSerializeWithinBudget v maxBytes)"

text \<open>\<open>typeof value === 'object' && value !== null && !Array.isArray(value)\<close>; an opaque value has no fields
  the code could read.\<close>

definition isRecord :: "js \<Rightarrow> js_object option" where
  "isRecord v = (case v of JObj fs \<Rightarrow> Some fs | _ \<Rightarrow> None)"

section \<open>The writer is the plain serialiser with a budget\<close>

text \<open>The reference: the whole text, and the values the code serialises at all.\<close>

fun stable_text :: "js \<Rightarrow> string" where
  "stable_text JNull = ''null''"
| "stable_text (JBool b) = (if b then ''true'' else ''false'')"
| "stable_text (JNum n) = (case n of Fin i \<Rightarrow> json_int i | NonFinite \<Rightarrow> [])"
| "stable_text (JStr s) = json_quote s"
| "stable_text (JArr xs) = ''['' @ js_join '','' (map stable_text xs) @ '']''"
| "stable_text (JObj fs) =
     ''{'' @ js_join '','' (map (\<lambda>(k, t). json_quote k @ '':'' @ t)
       (sort_key fst (map (\<lambda>(k, v). (k, stable_text v)) fs))) @ ''}''"
| "stable_text _ = []"

fun serializable :: "nat \<Rightarrow> js \<Rightarrow> bool" where
  "serializable d (JArr xs) \<longleftrightarrow> d \<le> MAX_SERIALIZE_DEPTH \<and> list_all (serializable (Suc d)) xs"
| "serializable d (JObj fs) \<longleftrightarrow> d \<le> MAX_SERIALIZE_DEPTH \<and> length fs \<le> 1024 \<and>
     list_all (\<lambda>(k, v). length k \<le> DEFAULT_MAX_FINGERPRINT_BYTES \<and> serializable (Suc d) v) fs"
| "serializable d (JStr s) \<longleftrightarrow> d \<le> MAX_SERIALIZE_DEPTH \<and> length s \<le> DEFAULT_MAX_FINGERPRINT_BYTES"
| "serializable d (JNum n) \<longleftrightarrow> d \<le> MAX_SERIALIZE_DEPTH \<and> n \<noteq> NonFinite"
| "serializable d JNull \<longleftrightarrow> d \<le> MAX_SERIALIZE_DEPTH"
| "serializable d (JBool b) \<longleftrightarrow> d \<le> MAX_SERIALIZE_DEPTH"
| "serializable d _ \<longleftrightarrow> False"

lemma byteLength_append [simp]: "byteLength (s @ t) = byteLength s + byteLength t"
  by (simp add: byteLength_def)

lemma byteLength_Nil [simp]: "byteLength [] = 0"
  by (simp add: byteLength_def)

text \<open>Appending a text in one go, as a sequence of parts does.\<close>

definition writes :: "nat \<Rightarrow> string \<Rightarrow> bounded_writer \<Rightarrow> bounded_writer option" where
  "writes m t w = (if fst w + byteLength t \<le> m then Some (fst w + byteLength t, snd w @ t) else None)"

lemma append_part_writes: "append_part m t w = writes m t w"
  by (simp add: append_part_def writes_def Let_def not_less)

lemma writes_bind: "Option.bind (writes m s w) (writes m t) = writes m (s @ t) w"
  by (auto simp: writes_def)

lemma writes_bind_then:
  "Option.bind (writes m s w) (\<lambda>w. Option.bind (writes m t w) f) = Option.bind (writes m (s @ t) w) f"
  by (auto simp: writes_def add.assoc)

lemma writes_Nil: "fst w \<le> m \<Longrightarrow> writes m [] w = Some w"
  by (simp add: writes_def)

lemma writes_SomeD: "writes m s w = Some w' \<Longrightarrow> fst w' \<le> m"
  by (auto simp: writes_def split: if_splits)

lemma sort_key_map_snd:
  "sort_key fst (map (\<lambda>p. (fst p, f (snd p))) fs) = map (\<lambda>p. (fst p, f (snd p))) (sort_key fst fs)"
proof (induction fs)
  case (Cons q fs)
  have "insort_key fst (fst q, f (snd q)) (map (\<lambda>p. (fst p, f (snd p))) xs) =
      map (\<lambda>p. (fst p, f (snd p))) (insort_key fst q xs)" for xs
    by (induction xs) auto
  with Cons show ?case by simp
qed simp

definition field_text :: "string \<times> js \<Rightarrow> string" where
  "field_text p = json_quote (fst p) @ '':'' @ stable_text (snd p)"

lemma stable_text_JObj:
  "stable_text (JObj fs) = ''{'' @ js_join '','' (map field_text (sort_key fst fs)) @ ''}''"
  by (simp add: sort_key_map_snd case_prod_unfold o_def field_text_def [abs_def])

definition comma :: "bool \<Rightarrow> string" where "comma first = (if first then [] else '','')"

fun items_text :: "bool \<Rightarrow> string list \<Rightarrow> string" where
  "items_text first [] = []"
| "items_text first (t # ts) = comma first @ t @ items_text False ts"

lemma items_text_False: "items_text False ts = (if ts = [] then [] else '','' @ items_text True ts)"
  by (cases ts) (auto simp: comma_def)

lemma items_text_join: "items_text True ts = js_join '','' ts"
proof (induction ts)
  case (Cons t ts)
  then show ?case by (cases ts) (simp_all add: comma_def items_text_False)
qed simp

lemma first_comma:
  "fst w \<le> m \<Longrightarrow> (if first then Some w else append_part m '','' w) = writes m (comma first) w"
  by (simp add: append_part_writes comma_def writes_Nil)

lemma writes_split: "writes m (s @ t) w = Option.bind (writes m s w) (writes m t)"
  by (simp add: writes_bind)

text \<open>Three parts in a row, each of them only what it is expected to write.\<close>

lemma writes_three:
  assumes "\<And>a. writes m s w = Some a \<Longrightarrow> f a = (if c then writes m t a else None)"
    and "\<And>a b. writes m s w = Some a \<Longrightarrow> f a = Some b \<Longrightarrow> g b = (if d then writes m u b else None)"
  shows "Option.bind (writes m s w) (\<lambda>a. Option.bind (f a) g) =
    (if c \<and> d then writes m (s @ t @ u) w else None)"
proof (cases "writes m s w")
  case (Some a)
  then show ?thesis
    using assms(1) [OF Some] assms(2) [OF Some]
    by (cases c; cases "writes m t a") (simp_all add: writes_split)
qed (simp add: writes_split)

lemma writer_exact:
  "fst w \<le> m \<Longrightarrow> writeStableValue m d v w = (if serializable d v then writes m (stable_text v) w else None)"
  "fst w \<le> m \<Longrightarrow> writeStableArray m d first xs w =
     (if list_all (serializable (Suc d)) xs then writes m (items_text first (map stable_text xs)) w else None)"
  "fst w \<le> m \<Longrightarrow> writeStableRecord m d first fs w =
     (if list_all (\<lambda>p. serializable (Suc d) (snd p)) fs
      then writes m (items_text first (map field_text fs)) w else None)"
proof (induction m d v w and m d first xs w and m d first fs w
    rule: writeStableValue_writeStableArray_writeStableRecord.induct)
  case (1 m depth v w)
  show ?case
  proof (cases "depth > MAX_SERIALIZE_DEPTH")
    case True
    then show ?thesis by (cases v) (auto simp: writeStableValue.simps)
  next
    case False
    show ?thesis
    proof (cases v)
      case (JArr xs)
      have "writeStableValue m depth v w =
          Option.bind (writes m ''['' w) (\<lambda>a. Option.bind (writeStableArray m depth True xs a) (writes m '']''))"
        using False JArr by (simp add: writeStableValue.simps append_part_writes [abs_def])
      also have "\<dots> = (if list_all (serializable (Suc depth)) xs \<and> True
          then writes m (''['' @ items_text True (map stable_text xs) @ '']'') w else None)"
        using 1(1) [OF False JArr] by (intro writes_three) (simp_all add: append_part_writes writes_SomeD)
      finally show ?thesis using False JArr by (simp add: items_text_join)
    next
      case (JObj fs)
      let ?all = "list_all (\<lambda>p. serializable (Suc depth) (snd p)) (sort_key fst fs)"
      let ?big = "1024 < length fs \<or> list_ex (\<lambda>(k, _). DEFAULT_MAX_FINGERPRINT_BYTES < length k) fs"
      have ok: "serializable depth v \<longleftrightarrow> \<not> ?big \<and> ?all"
        using False JObj by (auto simp: list_all_iff list_ex_iff split: prod.splits)
      show ?thesis
      proof (cases ?big)
        case True
        then show ?thesis using JObj unfolding ok by (auto simp: writeStableValue.simps list_ex_iff)
      next
        case small: False
        have "writeStableValue m depth v w =
            Option.bind (writes m ''{'' w)
              (\<lambda>a. Option.bind (writeStableRecord m depth True (sort_key fst fs) a) (writes m ''}''))"
          using False JObj small by (simp add: writeStableValue.simps append_part_writes [abs_def])
        also have "\<dots> = (if ?all \<and> True
            then writes m (''{'' @ items_text True (map field_text (sort_key fst fs)) @ ''}'') w else None)"
          using 1(2) [OF False JObj small] by (intro writes_three) (simp_all add: append_part_writes writes_SomeD)
        finally have "writeStableValue m depth v w = (if ?all then writes m (stable_text v) w else None)"
          by (simp only: JObj stable_text_JObj items_text_join simp_thms)
        then show ?thesis using ok small by (simp only: simp_thms)
      qed
    qed (use False in \<open>auto simp: writeStableValue.simps append_part_writes split: jsnum.splits\<close>)
  qed
next
  case (3 m depth first x xs w)
  have "writeStableArray m depth first (x # xs) w =
      Option.bind (writes m (comma first) w)
        (\<lambda>a. Option.bind (writeStableValue m (Suc depth) x a) (writeStableArray m depth False xs))"
    using 3(3) by (simp add: writeStableArray.simps first_comma)
  also have "\<dots> = (if serializable (Suc depth) x \<and> list_all (serializable (Suc depth)) xs
      then writes m (comma first @ stable_text x @ items_text False (map stable_text xs)) w else None)"
  proof (rule writes_three)
    fix a assume a: "writes m (comma first) w = Some a"
    then show v: "writeStableValue m (Suc depth) x a =
        (if serializable (Suc depth) x then writes m (stable_text x) a else None)"
      using 3(1) [of a] 3(3) by (simp add: first_comma writes_SomeD)
    fix b assume b: "writeStableValue m (Suc depth) x a = Some b"
    then have "fst b \<le> m" unfolding v by (auto dest: writes_SomeD split: if_splits)
    then show "writeStableArray m depth False xs b = (if list_all (serializable (Suc depth)) xs
        then writes m (items_text False (map stable_text xs)) b else None)"
      using 3(2) [of a b] a b 3(3) by (simp add: first_comma)
  qed
  finally show ?case by simp
next
  case (5 m depth first k v fs w)
  have "writeStableRecord m depth first ((k, v) # fs) w =
      Option.bind (writes m (comma first @ json_quote k @ '':'') w)
        (\<lambda>a. Option.bind (writeStableValue m (Suc depth) v a) (writeStableRecord m depth False fs))"
    using 5(3) by (simp add: writeStableRecord.simps first_comma append_part_writes writes_split)
  also have "\<dots> = (if serializable (Suc depth) v \<and> list_all (\<lambda>p. serializable (Suc depth) (snd p)) fs
      then writes m ((comma first @ json_quote k @ '':'') @ stable_text v @ items_text False (map field_text fs)) w
      else None)"
  proof (rule writes_three)
    fix c assume "writes m (comma first @ json_quote k @ '':'') w = Some c"
    then obtain a b where abc: "writes m (comma first) w = Some a" "writes m (json_quote k) a = Some b"
      "writes m '':'' b = Some c" unfolding writes_split by (auto simp: bind_eq_Some_conv)
    then show w: "writeStableValue m (Suc depth) v c =
        (if serializable (Suc depth) v then writes m (stable_text v) c else None)"
      using 5(1) [of a b c] 5(3) by (simp add: first_comma append_part_writes writes_SomeD)
    fix e assume e: "writeStableValue m (Suc depth) v c = Some e"
    then have "fst e \<le> m" unfolding w by (auto dest: writes_SomeD split: if_splits)
    then show "writeStableRecord m depth False fs e = (if list_all (\<lambda>p. serializable (Suc depth) (snd p)) fs
        then writes m (items_text False (map field_text fs)) e else None)"
      using 5(2) [of a b c e] abc e 5(3) by (simp add: first_comma append_part_writes)
  qed
  finally show ?case by (simp add: field_text_def [of "(k, v)"])
qed (simp_all add: writes_Nil writeStableArray.simps writeStableRecord.simps)

lemma serialize_exact:
  "stableSerializeWithinBudget v maxBytes =
    (if serializable 0 v \<and> byteLength (stable_text v) \<le> maxBytes then Some (stable_text v) else None)"
  using writer_exact(1) [of "(0, [])" maxBytes 0 v]
  by (simp add: stableSerializeWithinBudget_def writes_def)

text \<open>The writer with a byte budget, which counts as it goes and gives up at the first part that does not fit,
  produces exactly the plain JSON text with sorted keys when the value is serialisable and that whole text
  fits the budget, and nothing otherwise.\<close>

theorem bounded_writer_exact:
  "stableSerializeWithinBudget v maxBytes =
    (if serializable 0 v \<and> byteLength (stable_text v) \<le> maxBytes then Some (stable_text v) else None)"
  by (rule serialize_exact)

section \<open>The text determines the value\<close>

text \<open>Two objects with the same fields in another order are the same value.\<close>

fun canonical :: "js \<Rightarrow> js" where
  "canonical (JArr xs) = JArr (map canonical xs)"
| "canonical (JObj fs) = JObj (sort_key fst (map (\<lambda>(k, v). (k, canonical v)) fs))"
| "canonical v = v"

lemma sort_key_sorted: "sorted (map f xs) \<Longrightarrow> sort_key f xs = xs"
  by (induction xs) (auto simp: insort_is_Cons)

lemma canonical_JObj: "canonical (JObj fs) = JObj (map (\<lambda>p. (fst p, canonical (snd p))) (sort_key fst fs))"
  by (simp add: case_prod_unfold sort_key_map_snd)

lemma stable_text_canonical: "stable_text (canonical v) = stable_text v"
proof (induction v)
  case (JObj fs)
  have "field_text (fst p, canonical (snd p)) = field_text p" if "p \<in> set fs" for p
    using JObj that by (cases p) (auto simp: field_text_def)
  then have "map field_text (map (\<lambda>p. (fst p, canonical (snd p))) (sort_key fst fs)) = map field_text (sort_key fst fs)"
    by simp
  moreover have "sort_key fst (map (\<lambda>p. (fst p, canonical (snd p))) (sort_key fst fs)) =
      map (\<lambda>p. (fst p, canonical (snd p))) (sort_key fst fs)"
    by (simp add: sort_key_map_snd sort_key_sorted)
  ultimately show ?case
    unfolding canonical_JObj stable_text_JObj by (simp del: map_map)
qed (auto simp: o_def cong: map_cong)

text \<open>What may follow a value in a text.\<close>

definition after_value :: "string \<Rightarrow> bool" where
  "after_value x \<longleftrightarrow> (case x of [] \<Rightarrow> True | c # _ \<Rightarrow> c \<in> {CHR '','', CHR '']'', CHR ''}''})"

lemma after_value_no_digit: "after_value x \<Longrightarrow> no_digit_next x"
  by (cases x) (auto simp: after_value_def no_digit_next_def is_digit_def less_eq_char_def)

text \<open>The first character of the text of a value says which kind of value it is.\<close>

fun value_tag :: "js \<Rightarrow> nat" where
  "value_tag JNull = 0"
| "value_tag (JBool b) = (if b then 1 else 2)"
| "value_tag (JStr _) = 3"
| "value_tag (JArr _) = 4"
| "value_tag (JObj _) = 5"
| "value_tag (JNum _) = 6"
| "value_tag _ = 7"

definition char_tag :: "char \<Rightarrow> nat" where
  "char_tag c =
     (if c = CHR ''n'' then 0 else if c = CHR ''t'' then 1 else if c = CHR ''f'' then 2
      else if c = CHR 0x22 then 3 else if c = CHR ''['' then 4 else if c = CHR ''{'' then 5
      else if is_digit c \<or> c = CHR ''-'' then 6 else 8)"

lemma char_tag_digit: "is_digit c \<or> c = CHR ''-'' \<Longrightarrow> char_tag c = 6"
  by (auto simp: char_tag_def is_digit_def less_eq_char_def)

lemma char_tag_text: "serializable d v \<Longrightarrow> \<exists>c s. stable_text v = c # s \<and> char_tag c = value_tag v"
proof (cases v)
  case (JNum n)
  then show "serializable d v \<Longrightarrow> \<exists>c s. stable_text v = c # s \<and> char_tag c = value_tag v"
    using json_int_head [of "case n of Fin i \<Rightarrow> i"] char_tag_digit by (cases n) auto
qed (auto simp: char_tag_def json_quote_def)

lemma char_tag_after: "c \<in> {CHR '','', CHR '']'', CHR ''}''} \<Longrightarrow> char_tag c = 8"
  by (auto simp: char_tag_def is_digit_def less_eq_char_def)

definition value_head :: "string \<Rightarrow> bool" where
  "value_head t \<longleftrightarrow> (\<exists>c s. t = c # s \<and> c \<notin> {CHR '','', CHR '']'', CHR ''}''})"

lemma value_head_text:
  assumes "serializable d v" shows "value_head (stable_text v)"
proof -
  obtain c s where "stable_text v = c # s" "char_tag c = value_tag v" using char_tag_text [OF assms] by blast
  moreover have "value_tag v \<noteq> 8" by (cases v) auto
  ultimately show ?thesis using char_tag_after [of c] by (auto simp: value_head_def)
qed

lemma value_head_clash: "value_head t \<Longrightarrow> close \<in> {CHR '']'', CHR ''}''} \<Longrightarrow> t @ z \<noteq> close # x"
  by (auto simp: value_head_def)

lemma after_items: "close \<in> {CHR '']'', CHR ''}''} \<Longrightarrow> after_value (items_text False ts @ close # x)"
  by (cases ts) (auto simp: after_value_def comma_def)

lemma items_close:
  assumes "value_head t" "close \<in> {CHR '']'', CHR ''}''}"
  shows "items_text b (t # ts) @ close # y \<noteq> close # x"
  using assms value_head_clash [OF assms, of "items_text False ts @ close # y" x]
  by (cases b) (auto simp: comma_def)

lemma items_prefix:
  assumes "\<And>p q x y. p \<in> set ps \<Longrightarrow> q \<in> set qs \<Longrightarrow> after_value x \<Longrightarrow> after_value y \<Longrightarrow>
      T p @ x = T q @ y \<Longrightarrow> C p = C q \<and> x = y"
    and "\<And>p. p \<in> set ps \<union> set qs \<Longrightarrow> value_head (T p)"
    and close: "close \<in> {CHR '']'', CHR ''}''}"
    and "items_text b (map T ps) @ close # x = items_text b (map T qs) @ close # y"
  shows "map C ps = map C qs \<and> x = y"
  using assms(1,2,4)
proof (induction ps arbitrary: qs b)
  case Nil
  then show ?case
  proof (cases qs)
    case (Cons q qs')
    then have "value_head (T q)" using Nil.prems(2) by simp
    from items_close [OF this close, of b "map T qs'" y x] show ?thesis
      using Nil.prems(3) Cons by simp
  qed simp
next
  case (Cons p ps)
  show ?case
  proof (cases qs)
    case Nil
    have "value_head (T p)" using Cons.prems(2) by simp
    from items_close [OF this close, of b "map T ps" x y] show ?thesis
      using Cons.prems(3) Nil by simp
  next
    case (Cons q qs')
    have "T p @ (items_text False (map T ps) @ close # x) = T q @ (items_text False (map T qs') @ close # y)"
      using Cons.prems(3) Cons by simp
    from Cons.prems(1) [OF _ _ _ _ this] Cons after_items [OF close]
    have eq: "C p = C q" "items_text False (map T ps) @ close # x = items_text False (map T qs') @ close # y"
      by simp_all
    have "map C ps = map C qs' \<and> x = y"
    proof (rule Cons.IH [OF _ _ eq(2)])
      fix r s x y
      assume "r \<in> set ps" "s \<in> set qs'" "after_value x" "after_value y" "T r @ x = T s @ y"
      then show "C r = C s \<and> x = y" using Cons by (intro Cons.prems(1)) simp_all
    qed (use Cons.prems(2) Cons in simp)
    then show ?thesis using Cons eq(1) by simp
  qed
qed

lemma same_tag:
  assumes "serializable d v" "serializable e w" "stable_text v @ x = stable_text w @ y"
  shows "value_tag v = value_tag w"
  using char_tag_text [OF assms(1)] char_tag_text [OF assms(2)] assms(3) by auto

lemma stable_text_prefix:
  assumes "serializable d v" "serializable e w" "stable_text v @ x = stable_text w @ y"
    and "after_value x" "after_value y"
  shows "canonical v = canonical w \<and> x = y"
  using assms
proof (induction v arbitrary: d e w x y)
  case JNull
  then show ?case using same_tag [OF JNull(1-3)] by (cases w) (auto split: if_splits)
next
  case (JBool b)
  then show ?case using same_tag [OF JBool(1-3)] by (cases w) (auto split: if_splits)
next
  case (JNum n)
  then obtain n' where w: "w = js.JNum n'" using same_tag [OF JNum(1-3)] by (cases w) (auto split: if_splits)
  obtain i j where "n = Fin i" "n' = Fin j" using JNum(1,2) w by (cases n; cases n') auto
  then show ?case
    using JNum(3) json_int_prefix [of i x j y] after_value_no_digit JNum(4,5) by (simp add: w)
next
  case (JStr s)
  then obtain t where w: "w = js.JStr t" using same_tag [OF JStr(1-3)] by (cases w) (auto split: if_splits)
  then show ?case using JStr(3) json_quote_prefix [of s x t y] by simp
next
  case (JArr vs)
  then obtain ws where w: "w = js.JArr ws" using same_tag [OF JArr.prems(1-3)] by (cases w) (auto split: if_splits)
  have "map canonical vs = map canonical ws \<and> x = y"
  proof (rule items_prefix [where T = stable_text and close = "CHR '']''" and b = True])
    fix p q x y
    assume "p \<in> set vs" "q \<in> set ws" "after_value x" "after_value y" "stable_text p @ x = stable_text q @ y"
    then show "canonical p = canonical q \<and> x = y"
      using JArr.prems(1,2) w by (intro JArr.IH [of p "Suc d" "Suc e"]) (auto simp: list_all_iff)
  next
    fix p assume "p \<in> set vs \<union> set ws"
    then show "value_head (stable_text p)"
      using JArr.prems(1,2) w by (auto simp: list_all_iff intro: value_head_text)
  qed (use JArr.prems(3) in \<open>simp_all add: w items_text_join\<close>)
  then show ?case by (simp add: w)
next
  case (JObj fs)
  then obtain gs where w: "w = js.JObj gs" using same_tag [OF JObj.prems(1-3)] by (cases w) (auto split: if_splits)
  have ser: "serializable (Suc d) (snd p)" if "p \<in> set fs" for p
    using JObj.prems(1) that by (auto simp: list_all_iff)
  have ser': "serializable (Suc e) (snd p)" if "p \<in> set gs" for p
    using JObj.prems(2) that by (auto simp: list_all_iff w)
  have "map (\<lambda>p. (fst p, canonical (snd p))) (sort_key fst fs) =
      map (\<lambda>p. (fst p, canonical (snd p))) (sort_key fst gs) \<and> x = y"
  proof (rule items_prefix [where T = field_text and close = "CHR ''}''" and b = True])
    fix p q x y
    assume pq: "p \<in> set (sort_key fst fs)" "q \<in> set (sort_key fst gs)" "after_value x" "after_value y"
      and eq: "field_text p @ x = field_text q @ y"
    from eq have "json_quote (fst p) @ (CHR '':'' # stable_text (snd p) @ x) =
        json_quote (fst q) @ (CHR '':'' # stable_text (snd q) @ y)" by (simp add: field_text_def)
    from json_quote_prefix [OF this]
    have k: "fst p = fst q" and t: "stable_text (snd p) @ x = stable_text (snd q) @ y" by simp_all
    have "snd p \<in> snd ` set fs" using pq(1) by simp
    then have "canonical (snd p) = canonical (snd q) \<and> x = y"
      using pq t ser ser' by (intro JObj.IH [of p "snd p" "Suc d" "Suc e"]) (auto simp: snds.simps)
    with k show "(fst p, canonical (snd p)) = (fst q, canonical (snd q)) \<and> x = y" by simp
  next
    fix p assume "p \<in> set (sort_key fst fs) \<union> set (sort_key fst gs)"
    then show "value_head (field_text p)" by (simp add: field_text_def json_quote_def value_head_def)
  qed (use JObj.prems(3) in \<open>simp_all add: w items_text_join stable_text_JObj del: stable_text.simps\<close>)
  then show ?case by (simp add: w canonical_JObj del: canonical.simps)
qed simp_all

lemma stable_text_eq_iff:
  assumes "serializable d v" "serializable e w"
  shows "stable_text v = stable_text w \<longleftrightarrow> canonical v = canonical w"
  using stable_text_prefix [OF assms, of "[]" "[]"] stable_text_canonical
  by (metis after_value_def append_Nil2 list.case(1))

text \<open>Fingerprints identify values. When the keyed hash does not collide on the texts of two values and
  both get a fingerprint, they get the same one exactly when they are equal up to the order of object
  fields, at every depth.\<close>

theorem fingerprint_identifies:
  assumes "inj_on (hmac secret) {stable_text v, stable_text w}"
    and "fingerprintWithinBudget hmac secret v maxBytes = Some k"
    and "fingerprintWithinBudget hmac secret w maxBytes = Some l"
  shows "k = l \<longleftrightarrow> canonical v = canonical w"
proof -
  have "serializable 0 v" "serializable 0 w" "k = hmac secret (stable_text v)" "l = hmac secret (stable_text w)"
    using assms(2,3) by (auto simp: fingerprintWithinBudget_def serialize_exact fingerprint_def split: if_splits)
  then show ?thesis using stable_text_eq_iff assms(1) inj_on_eq_iff [of "hmac secret"] by (metis insertI1 insertI2)
qed

theorem fingerprint_identifies_witness:
  "fingerprintWithinBudget (\<lambda>s t. s @ t) ''k'' (JObj [(''b'', JNum (Fin 7)), (''a'', JArr [JNull])]) 100 =
   fingerprintWithinBudget (\<lambda>s t. s @ t) ''k'' (JObj [(''a'', JArr [JNull]), (''b'', JNum (Fin 7))]) 100"
proof -
  let ?v = "JObj [(''b'', JNum (Fin 7)), (''a'', JArr [JNull])]"
  let ?w = "JObj [(''a'', JArr [JNull]), (''b'', JNum (Fin 7))]"
  let ?h = "\<lambda>s t. s @ t :: string"
  have c: "canonical ?v = canonical ?w" by (simp add: less_eq_list_code less_eq_char_def less_char_def)
  have "fingerprintWithinBudget ?h ''k'' ?v 100 \<noteq> None" "fingerprintWithinBudget ?h ''k'' ?w 100 \<noteq> None"
    by (simp_all add: fingerprintWithinBudget_def serialize_exact byteLength_def MAX_SERIALIZE_DEPTH_def
        DEFAULT_MAX_FINGERPRINT_BYTES_def json_int_def nat_digits.simps json_quote_def json_escape_def
        less_eq_list_code less_eq_char_def less_char_def)
  then show ?thesis
    using c fingerprint_identifies [of ?h "''k''" ?v ?w 100] by (auto simp: inj_on_def)
qed

end
