(* ===== verification/GuardView.thy ===== *)
theory GuardView
  imports GuardFingerprint
begin

text \<open>
  What the runaway guard looks at (\<open>agent-modules/runaway-guard/src\<close>: \<open>contracts.ts\<close>, \<open>state.ts\<close>,
  \<open>step-view.ts\<close>): the values of one step of the agent loop, the state of one Turn and the projection of a step
  into fingerprints. Facts of the host and results of tool policies are untrusted JavaScript values; a policy
  is a record of functions of the host, each of which may throw (\<open>Inl ()\<close>).
\<close>

section \<open>Contracts\<close>

datatype signal_kind =
    ExactActionRepeat | ExactResultRepeat | SameErrorFamily | AbabActionCycle | PollingRepeat
  | UnchangedProgressRepeat

datatype tool_policy_kind = Detect | Polling | Exempt

datatype content_block = ToolCall string string js | OtherBlock

record guard_message =
  gm_assistant :: bool
  gm_content :: "content_block list"
  gm_totalTokens :: js

text \<open>\<open>details\<close> is \<open>JUndef\<close> where the property is absent.\<close>

record tool_result =
  gr_toolName :: string
  gr_content :: js
  gr_details :: js
  gr_isError :: bool

record tool_step =
  ts_toolCallId :: string
  ts_toolName :: string
  ts_arguments :: js
  ts_result :: "tool_result option"
  ts_verifiedProgress :: "js option"
  ts_provenance :: "js option"

record tool_policy =
  tp_kind :: tool_policy_kind
  tp_projectActionKey :: "(js \<Rightarrow> unit + js) option"
  tp_isExpectedResult :: "(tool_step \<Rightarrow> unit + js) option"
  tp_projectProgress :: "(tool_step \<Rightarrow> unit + js) option"

text \<open>A step: the message, the results by call id, the blocked calls with what blocked them, and host facts.\<close>

record replay_step =
  sp_message :: guard_message
  sp_toolResults :: "(string \<times> tool_result) list"
  sp_blocked :: "(string \<times> string) list"
  sp_verifiedProgress :: "js list"
  sp_provenance :: "js list"

record run_identity =
  ri_sessionId :: string
  ri_turnId :: string
  ri_agentName :: string

record observation =
  on_identity :: run_identity
  on_signalKind :: signal_kind
  on_stepIndex :: nat
  on_occurrences :: nat

section \<open>State of a Turn\<close>

record progress_streak =
  pk_progressKey :: string
  pk_occurrences :: nat
  pk_continuousPolling :: bool
  pk_reminderEligible :: bool

record signal_stats =
  ss_episodeCount :: nat
  ss_maxOccurrences :: nat
  ss_firstStepIndex :: "nat option"
  ss_lastStepIndex :: "nat option"

text \<open>A JavaScript \<open>Map\<close> is an association list in insertion order: \<open>AList.update\<close> is \<open>Map.set\<close>.\<close>

record 's shadow_state =
  sh_secret :: 's
  sh_stepIndex :: nat
  sh_skipped :: nat
  sh_reminderAttempted :: bool
  sh_reminderInjected :: bool
  sh_stats :: "signal_kind \<Rightarrow> signal_stats"
  sh_detectActions :: "(string \<times> nat) list"
  sh_pollingActions :: "(string \<times> nat) list"
  sh_detectResults :: "(string \<times> nat) list"
  sh_errorFamilies :: "(string \<times> nat) list"
  sh_progress :: "(string \<times> progress_streak) list"
  sh_recentBatches :: "string list"
  sh_activeAbab :: "string option"

definition emptySignalStats :: signal_stats where
  "emptySignalStats =
     \<lparr>ss_episodeCount = 0, ss_maxOccurrences = 0, ss_firstStepIndex = None, ss_lastStepIndex = None\<rparr>"

definition newShadowState :: "'s \<Rightarrow> 's shadow_state" where
  "newShadowState secret =
     \<lparr>sh_secret = secret, sh_stepIndex = 0, sh_skipped = 0, sh_reminderAttempted = False,
      sh_reminderInjected = False, sh_stats = (\<lambda>_. emptySignalStats), sh_detectActions = [],
      sh_pollingActions = [], sh_detectResults = [], sh_errorFamilies = [], sh_progress = [],
      sh_recentBatches = [], sh_activeAbab = None\<rparr>"

definition clearDetectionStreaks :: "'s shadow_state \<Rightarrow> 's shadow_state" where
  "clearDetectionStreaks st =
     st\<lparr>sh_detectActions := [], sh_pollingActions := [], sh_detectResults := [], sh_errorFamilies := [],
        sh_progress := [], sh_recentBatches := [], sh_activeAbab := None\<rparr>"

definition recordMaxOccurrences :: "signal_kind \<Rightarrow> nat \<Rightarrow> 's shadow_state \<Rightarrow> 's shadow_state" where
  "recordMaxOccurrences kind n st =
     (let stats = sh_stats st kind in
      st\<lparr>sh_stats := (sh_stats st)(kind := stats\<lparr>ss_maxOccurrences := max (ss_maxOccurrences stats) n\<rparr>)\<rparr>)"

record turn_summary =
  su_identity :: run_identity
  su_stepCount :: nat
  su_projectionSkippedCount :: nat
  su_reminderInjected :: bool
  su_signals :: "signal_kind \<Rightarrow> signal_stats"

definition snapshotTurnSummary :: "run_identity \<Rightarrow> 's shadow_state \<Rightarrow> turn_summary" where
  "snapshotTurnSummary ctx st =
     \<lparr>su_identity = ctx, su_stepCount = sh_stepIndex st, su_projectionSkippedCount = sh_skipped st,
      su_reminderInjected = sh_reminderInjected st, su_signals = sh_stats st\<rparr>"

definition runKey :: "run_identity \<Rightarrow> string" where
  "runKey ctx = ri_sessionId ctx @ [CHR 0x00] @ ri_turnId ctx"

section \<open>Checks on untrusted values\<close>

definition isSafeInteger :: "js \<Rightarrow> int option" where
  "isSafeInteger v =
     (case v of JNum (Fin n) \<Rightarrow> if \<bar>n\<bar> \<le> 9007199254740991 then Some n else None | _ \<Rightarrow> None)"

definition is_js_bool :: "js \<Rightarrow> bool" where
  "is_js_bool v = (case v of JBool _ \<Rightarrow> True | _ \<Rightarrow> False)"

definition validPollingControl :: "js \<Rightarrow> bool" where
  "validPollingControl v \<longleftrightarrow> v = JUndef \<or>
     (case isRecord v of None \<Rightarrow> False
      | Some c \<Rightarrow> js_get c ''mode'' \<in> {JStr ''continuous'', JStr ''reset''} \<and>
          (js_get c ''reminderEligible'' = JUndef \<or> is_js_bool (js_get c ''reminderEligible'')))"

definition validProgressProjection :: "js \<Rightarrow> bool" where
  "validProgressProjection v \<longleftrightarrow>
     (case isRecord v of None \<Rightarrow> False
      | Some p \<Rightarrow>
          js_get p ''loopKey'' \<notin> {JUndef, JNull} \<and> js_get p ''progressKey'' \<notin> {JUndef, JNull} \<and>
          (js_get p ''newFacts'' = JUndef \<or>
            (case isSafeInteger (js_get p ''newFacts'') of None \<Rightarrow> False | Some n \<Rightarrow> n \<ge> 0)) \<and>
          (js_get p ''stateChanged'' = JUndef \<or> is_js_bool (js_get p ''stateChanged'')) \<and>
          (js_get p ''artifactChanged'' = JUndef \<or> is_js_bool (js_get p ''artifactChanged'')) \<and>
          validPollingControl (js_get p ''polling''))"

definition js_field :: "js \<Rightarrow> string \<Rightarrow> js" where
  "js_field v k = (case isRecord v of None \<Rightarrow> JUndef | Some fs \<Rightarrow> js_get fs k)"

text \<open>\<open>new Map(values.map(v => [v.toolCallId, v]))\<close>: the last entry of a key counts.\<close>

definition by_call_id :: "js list \<Rightarrow> (string \<times> js) list" where
  "by_call_id vs =
     rev (concat (map (\<lambda>v. case js_field v ''toolCallId'' of JStr i \<Rightarrow> [(i, v)] | _ \<Rightarrow> []) vs))"

definition expected_call :: "string list \<Rightarrow> js \<Rightarrow> bool" where
  "expected_call expected v \<longleftrightarrow>
     (case js_field v ''toolCallId'' of JStr i \<Rightarrow> i \<in> set expected | _ \<Rightarrow> False)"

text \<open>The best-effort variants only add the handling of throwing accessors, which plain values do not have.\<close>

definition verifiedProgressMap :: "js list \<Rightarrow> string list \<Rightarrow> (string \<times> js) list" where
  "verifiedProgressMap values expected =
     by_call_id (filter (\<lambda>v. expected_call expected v \<and> validProgressProjection v) values)"

definition trustedToolProvenanceMap :: "js list \<Rightarrow> string list \<Rightarrow> (string \<times> js) list" where
  "trustedToolProvenanceMap values expected =
     by_call_id (filter (\<lambda>v. expected_call expected v \<and>
       (case js_field v ''toolName'' of JStr n \<Rightarrow> n \<noteq> [] | _ \<Rightarrow> False) \<and>
       js_field v ''source'' \<in> {JStr ''builtin'', JStr ''captured-compatibility''}) values)"

definition toolCallIdsFromMessage :: "guard_message \<Rightarrow> string list" where
  "toolCallIdsFromMessage m =
     (if gm_assistant m
      then concat (map (\<lambda>b. case b of ToolCall i _ _ \<Rightarrow> [i] | OtherBlock \<Rightarrow> []) (gm_content m))
      else [])"

section \<open>Error families\<close>

text \<open>\<open>toLowerCase\<close> on code units below 256.\<close>

definition lower_char :: "char \<Rightarrow> char" where
  "lower_char c =
     (let n = of_char c :: nat in
      if (65 \<le> n \<and> n \<le> 90) \<or> (192 \<le> n \<and> n \<le> 222 \<and> n \<noteq> 215) then char_of (n + 32) else c)"

fun contains :: "string \<Rightarrow> string \<Rightarrow> bool" where
  "contains p [] \<longleftrightarrow> p = []"
| "contains p (c # cs) \<longleftrightarrow> take (length p) (c # cs) = p \<or> contains p cs"

text \<open>\<open>/p.?q/\<close>: at most one character that is no line break stands between the two.\<close>

fun contains_gap :: "string \<Rightarrow> string \<Rightarrow> string \<Rightarrow> bool" where
  "contains_gap p q [] \<longleftrightarrow> p = [] \<and> q = []"
| "contains_gap p q (c # cs) \<longleftrightarrow>
     (take (length p) (c # cs) = p \<and>
      (let rest = drop (length p) (c # cs) in
       take (length q) rest = q \<or>
       (case rest of [] \<Rightarrow> False
        | d # ds \<Rightarrow> d \<notin> {CHR 0x0A, CHR 0x0D} \<and> take (length q) ds = q))) \<or>
     contains_gap p q cs"

definition word_char :: "char \<Rightarrow> bool" where
  "word_char c \<longleftrightarrow> is_digit c \<or> (CHR ''a'' \<le> c \<and> c \<le> CHR ''z'') \<or> (CHR ''A'' \<le> c \<and> c \<le> CHR ''Z'') \<or> c = CHR ''_''"

text \<open>\<open>/\bw\b/\<close> for a word \<open>w\<close> of word characters; the flag says whether a word character came before.\<close>

fun has_word :: "string \<Rightarrow> bool \<Rightarrow> string \<Rightarrow> bool" where
  "has_word w prev [] \<longleftrightarrow> False"
| "has_word w prev (c # cs) \<longleftrightarrow>
     (\<not> prev \<and> take (length w) (c # cs) = w \<and>
      (case drop (length w) (c # cs) of [] \<Rightarrow> True | d # _ \<Rightarrow> \<not> word_char d)) \<or>
     has_word w (word_char c) cs"

definition ERROR_CATEGORIES :: "(string \<times> (string \<Rightarrow> bool)) list" where
  "ERROR_CATEGORIES =
     [(''timeout'', \<lambda>s. contains ''timeout'' s \<or> contains ''timed out'' s \<or> contains ''deadline exceeded'' s),
      (''rate_limit'', \<lambda>s. contains_gap ''rate'' ''limit'' s \<or> contains ''too many requests'' s \<or> has_word ''429'' False s),
      (''network'', \<lambda>s. contains ''network'' s \<or> contains ''econn'' s \<or> contains ''socket'' s \<or> contains ''dns'' s \<or>
         contains ''connection reset'' s),
      (''auth'', \<lambda>s. contains ''unauth'' s \<or> contains ''invalid api key'' s \<or> has_word ''401'' False s),
      (''permission'', \<lambda>s. contains ''permission'' s \<or> contains ''forbidden'' s \<or> contains ''access denied'' s \<or>
         has_word ''403'' False s),
      (''not_found'', \<lambda>s. contains ''not found'' s \<or> contains ''enoent'' s \<or> has_word ''404'' False s),
      (''invalid_argument'', \<lambda>s. contains ''invalid argument'' s \<or> contains ''validation failed'' s \<or>
         contains ''bad request'' s \<or> has_word ''400'' False s),
      (''process_exit'', \<lambda>s. contains ''exit code'' s \<or> contains ''non-zero'' s \<or> contains ''process failed'' s)]"

text \<open>\<open>replace(/\s+/g, ' ')\<close>.\<close>

fun collapse_space :: "bool \<Rightarrow> string \<Rightarrow> string" where
  "collapse_space in_run [] = []"
| "collapse_space in_run (c # cs) =
     (if js_space c then (if in_run then [] else '' '') @ collapse_space True cs
      else c # collapse_space False cs)"

fun structured_code :: "js_object \<Rightarrow> string list \<Rightarrow> string option" where
  "structured_code details [] = None"
| "structured_code details (k # ks) =
     (case js_get details k of
        JStr s \<Rightarrow> if 0 < length s \<and> length s \<le> 128 then Some s else structured_code details ks
      | JNum (Fin n) \<Rightarrow> Some (json_int n)
      | _ \<Rightarrow> structured_code details ks)"

definition structuredErrorCode :: "js \<Rightarrow> string option" where
  "structuredErrorCode details =
     (case isRecord details of None \<Rightarrow> None
      | Some d \<Rightarrow> structured_code d [''error_code'', ''errorCode'', ''code'', ''status''])"

fun first_text :: "js list \<Rightarrow> string option" where
  "first_text [] = None"
| "first_text (b # bs) =
     (if js_field b ''type'' \<noteq> JStr ''text'' then first_text bs
      else case js_field b ''text'' of
             JStr t \<Rightarrow> if 0 < length t \<and> length t \<le> 4096 then Some t else first_text bs
           | _ \<Rightarrow> first_text bs)"

definition firstText :: "js \<Rightarrow> string option" where
  "firstText content = (case content of JArr bs \<Rightarrow> first_text bs | _ \<Rightarrow> None)"

definition errorFamily :: "string \<Rightarrow> js \<Rightarrow> js \<Rightarrow> string option" where
  "errorFamily toolName details content =
     (case structuredErrorCode details of
        Some code \<Rightarrow> Some (toolName @ [CHR 0x00] @ ''code:'' @ code)
      | None \<Rightarrow>
          (case firstText content of
             None \<Rightarrow> None
           | Some text \<Rightarrow>
               let normalized = map lower_char text in
               (case List.find (\<lambda>(_, pattern). pattern normalized) ERROR_CATEGORIES of
                  Some (name, _) \<Rightarrow> Some (toolName @ [CHR 0x00] @ ''category:'' @ name)
                | None \<Rightarrow>
                    let bounded = take 1024 (js_trim (collapse_space False normalized)) in
                    if bounded = [] then None else Some (toolName @ [CHR 0x00] @ ''text:'' @ bounded))))"

end
