(* ===== verification/GuardProject.thy ===== *)
theory GuardProject
  imports GuardView "HOL-Library.AList"
begin

text \<open>
  The projection of one step into fingerprints (\<open>projectStep\<close> of \<open>runaway-guard/src/step-view.ts\<close>): which
  actions, results and error families count for the detectors, and which progress the polling tools report.
\<close>

section \<open>Views\<close>

datatype progress_view =
    ProgressObservation tool_policy_kind string string bool bool bool
  | ProgressReset string
  | ProgressInterrupt

record step_view =
  sv_detectActions :: "string list"
  sv_pollingActions :: "string list"
  sv_detectResults :: "string list"
  sv_errorFamilies :: "string list"
  sv_remindableErrors :: "string list"
  sv_progress :: "progress_view list"
  sv_batch :: "string option"

text \<open>What the projection reads besides the step: the hash, the budget and the policies.\<close>

record 's project_env =
  pe_hmac :: "'s \<Rightarrow> string \<Rightarrow> string"
  pe_maxBytes :: nat
  pe_policies :: "string \<Rightarrow> tool_policy option"

definition key_of :: "'s project_env \<Rightarrow> 's \<Rightarrow> js \<Rightarrow> string option" where
  "key_of env secret v = truthy (fingerprintWithinBudget (pe_hmac env) secret v (pe_maxBytes env))"

definition policy_kind :: "tool_policy option \<Rightarrow> tool_policy_kind" where
  "policy_kind p = (case p of None \<Rightarrow> Detect | Some q \<Rightarrow> tp_kind q)"

section \<open>Calls into tool policies\<close>

definition projectActionKeyBestEffort :: "tool_policy option \<Rightarrow> js \<Rightarrow> js" where
  "projectActionKeyBestEffort policy arguments =
     (case Option.bind policy tp_projectActionKey of
        None \<Rightarrow> arguments
      | Some f \<Rightarrow>
          (case f arguments of
             Inl _ \<Rightarrow> arguments
           | Inr v \<Rightarrow> if v = JUndef \<or> v = JNull then arguments else v))"

definition isExpectedResultBestEffort :: "tool_policy option \<Rightarrow> tool_step \<Rightarrow> bool" where
  "isExpectedResultBestEffort policy step =
     (case Option.bind policy tp_isExpectedResult of
        None \<Rightarrow> False | Some f \<Rightarrow> f step = Inr (JBool True))"

definition optional_field :: "js_object \<Rightarrow> string \<Rightarrow> js_object" where
  "optional_field fs k = (if js_get fs k = JUndef then [] else [(k, js_get fs k)])"

definition projectProgressBestEffort :: "tool_policy option \<Rightarrow> tool_step \<Rightarrow> js_object option" where
  "projectProgressBestEffort policy step =
     (let own = (case Option.bind policy tp_projectProgress of
                   None \<Rightarrow> None
                 | Some f \<Rightarrow> (case f step of
                                Inl _ \<Rightarrow> None
                              | Inr v \<Rightarrow> if validProgressProjection v then isRecord v else None))
      in case own of
           Some p \<Rightarrow> Some p
         | None \<Rightarrow>
             (case ts_verifiedProgress step of
                None \<Rightarrow> None
              | Some v \<Rightarrow>
                  if \<not> validProgressProjection v then None
                  else map_option (\<lambda>p. [(''loopKey'', js_get p ''loopKey''), (''progressKey'', js_get p ''progressKey'')] @
                         optional_field p ''newFacts'' @ optional_field p ''stateChanged'' @
                         optional_field p ''artifactChanged'') (isRecord v)))"

definition hasPositiveProgress :: "js_object option \<Rightarrow> bool" where
  "hasPositiveProgress p =
     (case p of None \<Rightarrow> False
      | Some fs \<Rightarrow> js_get fs ''stateChanged'' = JBool True \<or> js_get fs ''artifactChanged'' = JBool True \<or>
          (case js_get fs ''newFacts'' of JNum (Fin n) \<Rightarrow> n > 0 | _ \<Rightarrow> False))"

section \<open>The calls of the message\<close>

record projection =
  pj_detectActions :: "string list"
  pj_pollingActions :: "string list"
  pj_detectResults :: "string list"
  pj_errorFamilies :: "string list"
  pj_remindable :: "string list"
  pj_progress :: "progress_view list"
  pj_actionKeys :: "(string \<times> string) list"
  pj_expected :: "string list"
  pj_skipped :: nat

definition empty_projection :: projection where
  "empty_projection =
     \<lparr>pj_detectActions = [], pj_pollingActions = [], pj_detectResults = [], pj_errorFamilies = [],
      pj_remindable = [], pj_progress = [], pj_actionKeys = [], pj_expected = [], pj_skipped = 0\<rparr>"

definition add_progress :: "progress_view \<Rightarrow> projection \<Rightarrow> projection" where
  "add_progress v acc = acc\<lparr>pj_progress := pj_progress acc @ [v]\<rparr>"

definition skip :: "nat \<Rightarrow> projection \<Rightarrow> projection" where
  "skip n acc = acc\<lparr>pj_skipped := pj_skipped acc + n\<rparr>"

definition control_mode :: "js_object option \<Rightarrow> js" where
  "control_mode c = (case c of None \<Rightarrow> JUndef | Some fs \<Rightarrow> js_get fs ''mode'')"

definition loop_value :: "string \<Rightarrow> js_object \<Rightarrow> js" where
  "loop_value toolName p = JObj [(''toolName'', JStr toolName), (''loopKey'', js_get p ''loopKey'')]"

definition appendPollingControl ::
  "'s project_env \<Rightarrow> 's \<Rightarrow> js_object option \<Rightarrow> js_object option \<Rightarrow> string \<Rightarrow> projection \<Rightarrow> projection" where
  "appendPollingControl env secret control p toolName acc =
     (case p of
        None \<Rightarrow> acc
      | Some fs \<Rightarrow>
          if control_mode control \<noteq> JStr ''reset'' then acc
          else (case key_of env secret (loop_value toolName fs) of
                  None \<Rightarrow> add_progress ProgressInterrupt (skip 1 acc)
                | Some loopKey \<Rightarrow> add_progress (ProgressReset loopKey) acc))"

text \<open>The observation of the progress of one call; the flag says that a change was observed.\<close>

definition observe_call ::
  "'s project_env \<Rightarrow> 's \<Rightarrow> tool_policy_kind \<Rightarrow> string \<Rightarrow> js_object option \<Rightarrow> js_object option \<Rightarrow>
   js_object option \<Rightarrow> projection \<Rightarrow> bool \<times> projection" where
  "observe_call env secret kind toolName p control verified acc =
     (case p of
        None \<Rightarrow> (False, acc)
      | Some fs \<Rightarrow>
          if control_mode control = JStr ''reset'' then (False, acc)
          else
            let loopKey = key_of env secret (loop_value toolName fs);
                progressKey = key_of env secret
                  (JObj [(''toolName'', JStr toolName), (''progressKey'', js_get fs ''progressKey'')]);
                continuous = (control_mode control = JStr ''continuous'')
            in case (loopKey, progressKey) of
                 (Some l, Some k) \<Rightarrow>
                   let change = hasPositiveProgress p \<or> (continuous \<and> hasPositiveProgress verified);
                       eligible = (continuous \<and>
                         (case control of None \<Rightarrow> False | Some c \<Rightarrow> js_get c ''reminderEligible'' = JBool True))
                   in (change, add_progress (ProgressObservation kind l k change continuous eligible) acc)
               | _ \<Rightarrow>
                   let acc' = skip ((if loopKey = None then 1 else 0) + (if progressKey = None then 1 else 0)) acc
                   in (False, if continuous then add_progress ProgressInterrupt acc' else acc'))"

definition step_of_call ::
  "replay_step \<Rightarrow> bool \<Rightarrow> (string \<times> js) list \<Rightarrow> (string \<times> js) list \<Rightarrow> string \<Rightarrow> string \<Rightarrow> js \<Rightarrow> tool_step" where
  "step_of_call step excluded verified provenance i name arguments =
     \<lparr>ts_toolCallId = i, ts_toolName = name, ts_arguments = arguments,
      ts_result = (if excluded then None else map_of (rev (sp_toolResults step)) i),
      ts_verifiedProgress = (if excluded then None else map_of verified i),
      ts_provenance = map_of provenance i\<rparr>"

definition action_of_call ::
  "'s project_env \<Rightarrow> 's \<Rightarrow> tool_policy option \<Rightarrow> string \<Rightarrow> string \<Rightarrow> js \<Rightarrow> bool \<Rightarrow> bool \<Rightarrow> projection \<Rightarrow> projection" where
  "action_of_call env secret policy i name arguments change has_progress acc =
     (case key_of env secret (JObj [(''toolName'', JStr name),
             (''actionKey'', projectActionKeyBestEffort policy arguments)]) of
        None \<Rightarrow> skip 1 acc
      | Some actionKey \<Rightarrow>
          let acc' = acc\<lparr>pj_actionKeys := AList.update i actionKey (pj_actionKeys acc)\<rparr>
          in if change then acc'\<lparr>pj_expected := pj_expected acc' @ [i]\<rparr>
             else if policy_kind policy = Polling
             then (if has_progress then acc'
                   else acc'\<lparr>pj_pollingActions := pj_pollingActions acc' @ [actionKey]\<rparr>)
             else acc'\<lparr>pj_detectActions := pj_detectActions acc' @ [actionKey]\<rparr>)"

definition project_block ::
  "'s project_env \<Rightarrow> 's \<Rightarrow> replay_step \<Rightarrow> (string \<times> js) list \<Rightarrow> (string \<times> js) list \<Rightarrow> string list \<Rightarrow>
   projection \<Rightarrow> content_block \<Rightarrow> projection" where
  "project_block env secret step verified provenance excludedIds acc block =
     (case block of
        OtherBlock \<Rightarrow> acc
      | ToolCall i name arguments \<Rightarrow>
          let excluded = (i \<in> set excludedIds);
              policy = pe_policies env name;
              kind = policy_kind policy;
              toolStep = step_of_call step excluded verified provenance i name arguments;
              p = projectProgressBestEffort policy toolStep;
              control = (if kind = Polling then Option.bind p (\<lambda>fs. isRecord (js_get fs ''polling'')) else None);
              acc1 = appendPollingControl env secret control p name acc;
              acc2 = (if control = None then add_progress ProgressInterrupt acc1 else acc1)
          in if excluded \<or> kind = Exempt then acc2
             else
               let failed = (case map_of (rev (sp_toolResults step)) i of None \<Rightarrow> False | Some r \<Rightarrow> gr_isError r);
                   acc3 = (if failed \<and> isExpectedResultBestEffort policy toolStep
                           then acc2\<lparr>pj_expected := pj_expected acc2 @ [i]\<rparr> else acc2);
                   (change, acc4) = observe_call env secret kind name p control
                     (Option.bind (ts_verifiedProgress toolStep) isRecord) acc3
               in action_of_call env secret policy i name arguments change (p \<noteq> None) acc4)"

section \<open>The results\<close>

definition result_value :: "tool_result \<Rightarrow> js" where
  "result_value r =
     JObj ([(''toolName'', JStr (gr_toolName r)), (''content'', gr_content r), (''isError'', JBool (gr_isError r))] @
           (if gr_details r = JUndef then [] else [(''details'', gr_details r)]))"

definition error_of_result ::
  "'s project_env \<Rightarrow> 's \<Rightarrow> string \<Rightarrow> tool_result \<Rightarrow> tool_policy_kind \<Rightarrow> projection \<Rightarrow> projection" where
  "error_of_result env secret i r kind acc =
     (if \<not> (gr_isError r \<and> kind \<noteq> Exempt \<and> i \<notin> set (pj_expected acc)) then acc
      else case errorFamily (gr_toolName r) (gr_details r) (gr_content r) of
             None \<Rightarrow> acc
           | Some family \<Rightarrow>
               let actionKey = map_of (pj_actionKeys acc) i in
               (case key_of env secret (JObj [(''family'', JStr family),
                       (''actionKey'', case actionKey of None \<Rightarrow> JNull | Some a \<Rightarrow> JStr a)]) of
                  None \<Rightarrow> skip 1 acc
                | Some key \<Rightarrow>
                    let acc' = acc\<lparr>pj_errorFamilies := pj_errorFamilies acc @ [key]\<rparr>
                    in if kind = Detect \<and> truthy actionKey \<noteq> None
                       then acc'\<lparr>pj_remindable := List.insert key (pj_remindable acc')\<rparr> else acc'))"

definition project_result ::
  "'s project_env \<Rightarrow> 's \<Rightarrow> string list \<Rightarrow> projection \<Rightarrow> string \<times> tool_result \<Rightarrow> projection" where
  "project_result env secret excludedIds acc res =
     (let (i, r) = res in
      if i \<in> set excludedIds then acc
      else
        let kind = policy_kind (pe_policies env (gr_toolName r));
            acc' = (if kind \<noteq> Detect then acc
                    else case key_of env secret (result_value r) of
                           None \<Rightarrow> skip 1 acc
                         | Some key \<Rightarrow> acc\<lparr>pj_detectResults := pj_detectResults acc @ [key]\<rparr>)
        in error_of_result env secret i r kind acc')"

section \<open>The step\<close>

definition excluded_ids :: "replay_step \<Rightarrow> string list" where
  "excluded_ids step = map fst (filter (\<lambda>(_, by'). by' = ''permission'') (sp_blocked step))"

definition project_calls ::
  "'s project_env \<Rightarrow> 's \<Rightarrow> replay_step \<Rightarrow> (string \<times> js) list \<Rightarrow> (string \<times> js) list \<Rightarrow> projection" where
  "project_calls env secret step verified provenance =
     (if gm_assistant (sp_message step)
      then foldl (project_block env secret step verified provenance (excluded_ids step)) empty_projection
             (gm_content (sp_message step))
      else empty_projection)"

definition batch_text :: "string list \<Rightarrow> string" where
  "batch_text keys = ''action-batch'' @ [CHR 0x00] @ js_join [CHR 0x00] keys"

definition projectStep ::
  "'s project_env \<Rightarrow> replay_step \<Rightarrow> (string \<times> js) list \<Rightarrow> (string \<times> js) list \<Rightarrow> 's shadow_state \<Rightarrow>
   step_view \<times> 's shadow_state" where
  "projectStep env step verified provenance st =
     (let secret = sh_secret st;
          calls = project_calls env secret step verified provenance;
          acc = foldl (project_result env secret (excluded_ids step)) calls (sp_toolResults step);
          actions = sort (pj_detectActions acc)
      in (\<lparr>sv_detectActions = actions, sv_pollingActions = sort (pj_pollingActions acc),
           sv_detectResults = sort (pj_detectResults acc), sv_errorFamilies = sort (pj_errorFamilies acc),
           sv_remindableErrors = pj_remindable acc, sv_progress = pj_progress acc,
           sv_batch = (if actions = [] then None
                       else Some (fingerprint (pe_hmac env) secret (batch_text actions)))\<rparr>,
          st\<lparr>sh_skipped := sh_skipped st + pj_skipped acc\<rparr>))"

end
