(* ===== verification/GuardSignals.thy ===== *)
theory GuardSignals
  imports GuardProject
begin

text \<open>
  The detectors of the runaway guard (\<open>runaway-guard/src/signals.ts\<close>), its reminder
  (\<open>reminder.ts\<close>), the guard itself (\<open>guard.ts\<close>) and the replay of a recorded Turn (\<open>replay.ts\<close>).

  A detector returns the new state, the observations it sends to the observer (whose failures the code
  ignores) and the kinds of reminder it proposes. Random secrets are arguments.
\<close>

section \<open>Observations\<close>

definition emitObservation ::
  "run_identity \<Rightarrow> signal_kind \<Rightarrow> nat \<Rightarrow> 's shadow_state \<times> observation list \<Rightarrow> 's shadow_state \<times> observation list" where
  "emitObservation ctx kind occurrences = (\<lambda>(st, obs).
     let stats = sh_stats st kind;
         st' = st\<lparr>sh_stats := (sh_stats st)(kind := stats
                 \<lparr>ss_episodeCount := ss_episodeCount stats + 1,
                  ss_firstStepIndex := (case ss_firstStepIndex stats of None \<Rightarrow> Some (sh_stepIndex st) | Some i \<Rightarrow> Some i),
                  ss_lastStepIndex := Some (sh_stepIndex st)\<rparr>)\<rparr>
     in (recordMaxOccurrences kind occurrences st',
         obs @ [\<lparr>on_identity = ctx, on_signalKind = kind, on_stepIndex = sh_stepIndex st,
                 on_occurrences = occurrences\<rparr>]))"

section \<open>Repeated keys\<close>

definition count_of :: "(string \<times> nat) list \<Rightarrow> string \<Rightarrow> nat" where
  "count_of counts k = (case map_of counts k of None \<Rightarrow> 0 | Some n \<Rightarrow> n)"

definition occurrenceCounts :: "string list \<Rightarrow> (string \<times> nat) list" where
  "occurrenceCounts values = foldl (\<lambda>counts v. AList.update v (count_of counts v + 1) counts) [] values"

definition isReminderSignalKind :: "signal_kind \<Rightarrow> bool" where
  "isReminderSignalKind kind \<longleftrightarrow> kind \<in> {UnchangedProgressRepeat, SameErrorFamily, ExactActionRepeat, PollingRepeat}"

type_synonym 's sinks = "'s shadow_state \<times> observation list"

fun repeat_counts ::
  "run_identity \<Rightarrow> (string \<times> nat) list \<Rightarrow> signal_kind \<Rightarrow> nat option \<Rightarrow> (string \<Rightarrow> bool) \<Rightarrow> (string \<times> nat) list \<Rightarrow>
   (string \<times> nat) list \<times> 's sinks \<times> signal_kind list \<Rightarrow> (string \<times> nat) list \<times> 's sinks \<times> signal_kind list" where
  "repeat_counts ctx previous kind threshold eligible [] acc = acc"
| "repeat_counts ctx previous kind threshold eligible ((key, n) # counts) (nxt, (st, obs), cands) =
     (let prior = count_of previous key;
          occurrences = prior + n;
          sinks = (recordMaxOccurrences kind occurrences st, obs);
          sinks' = (if prior < 2 \<and> occurrences \<ge> 2 then emitObservation ctx kind 2 sinks else sinks);
          cands' = (case threshold of
                      None \<Rightarrow> cands
                    | Some t \<Rightarrow> if eligible key \<and> prior < t \<and> occurrences \<ge> t \<and> isReminderSignalKind kind
                                then List.insert kind cands else cands)
      in repeat_counts ctx previous kind threshold eligible counts
           (AList.update key occurrences nxt, sinks', cands'))"

definition observeRepeatedKeys ::
  "run_identity \<Rightarrow> (string \<times> nat) list \<Rightarrow> string list \<Rightarrow> signal_kind \<Rightarrow> nat option \<Rightarrow> (string \<Rightarrow> bool) \<Rightarrow>
   's sinks \<Rightarrow> signal_kind list \<Rightarrow> (string \<times> nat) list \<times> 's sinks \<times> signal_kind list" where
  "observeRepeatedKeys ctx previous current kind threshold eligible sinks cands =
     repeat_counts ctx previous kind threshold eligible (occurrenceCounts current) ([], sinks, cands)"

section \<open>Progress\<close>

definition drop_continuous :: "(string \<times> progress_streak) list \<Rightarrow> (string \<times> progress_streak) list" where
  "drop_continuous streaks = filter (\<lambda>(_, s). \<not> pk_continuousPolling s) streaks"

definition keep_continuous :: "(string \<times> progress_streak) list \<Rightarrow> (string \<times> progress_streak) list" where
  "keep_continuous streaks = filter (\<lambda>(_, s). pk_continuousPolling s) streaks"

text \<open>The progress map being built, the polling candidates, the sinks and the reminder candidates.\<close>

record 's progress_acc =
  pa_next :: "(string \<times> progress_streak) list"
  pa_polling :: "string list"
  pa_sinks :: "'s sinks"
  pa_candidates :: "signal_kind list"

definition prior_streak ::
  "(string \<times> progress_streak) list \<Rightarrow> (string \<times> progress_streak) list \<Rightarrow> string \<Rightarrow> bool \<Rightarrow> progress_streak option" where
  "prior_streak previous nxt loopKey continuous =
     (if continuous
      then (case map_of nxt loopKey of
              None \<Rightarrow> None | Some s \<Rightarrow> if pk_continuousPolling s then Some s else None)
      else map_of previous loopKey)"

definition observe_progress_view ::
  "run_identity \<Rightarrow> (string \<times> progress_streak) list \<Rightarrow> nat option \<Rightarrow> 's progress_acc \<Rightarrow> progress_view \<Rightarrow> 's progress_acc" where
  "observe_progress_view ctx previous threshold acc view =
     (case view of
        ProgressInterrupt \<Rightarrow> acc\<lparr>pa_next := drop_continuous (pa_next acc), pa_polling := []\<rparr>
      | ProgressReset loopKey \<Rightarrow>
          acc\<lparr>pa_next := AList.delete loopKey (pa_next acc), pa_polling := removeAll loopKey (pa_polling acc)\<rparr>
      | ProgressObservation kind loopKey progressKey verified continuous eligible \<Rightarrow>
          let prior = prior_streak previous (pa_next acc) loopKey continuous in
          if verified
          then acc\<lparr>pa_next := AList.update loopKey \<lparr>pk_progressKey = progressKey, pk_occurrences = 0,
                     pk_continuousPolling = continuous, pk_reminderEligible = eligible\<rparr> (pa_next acc),
                   pa_polling := removeAll loopKey (pa_polling acc)\<rparr>
          else
            let same = (map_option pk_progressKey prior = Some progressKey);
                before = (case prior of None \<Rightarrow> 0 | Some s \<Rightarrow> pk_occurrences s);
                occurrences = (if same then before + 1 else 1);
                nxt = AList.update loopKey \<lparr>pk_progressKey = progressKey, pk_occurrences = occurrences,
                        pk_continuousPolling = continuous, pk_reminderEligible = eligible\<rparr> (pa_next acc);
                polling = (if same then pa_polling acc else removeAll loopKey (pa_polling acc));
                signal = (if kind = Polling then PollingRepeat else UnchangedProgressRepeat);
                (st, obs) = pa_sinks acc;
                sinks = (recordMaxOccurrences signal occurrences st, obs);
                sinks' = (if before < 2 \<and> occurrences \<ge> 2 then emitObservation ctx signal 2 sinks else sinks);
                reached = (case threshold of None \<Rightarrow> False | Some t \<Rightarrow> before < t \<and> occurrences \<ge> t)
            in acc\<lparr>pa_next := nxt,
                   pa_polling := (if reached \<and> continuous \<and> eligible then List.insert loopKey polling else polling),
                   pa_sinks := sinks',
                   pa_candidates := (if reached \<and> kind = Detect
                     then List.insert UnchangedProgressRepeat (pa_candidates acc) else pa_candidates acc)\<rparr>)"

definition observeProgress ::
  "run_identity \<Rightarrow> progress_view list \<Rightarrow> nat option \<Rightarrow> 's sinks \<Rightarrow> signal_kind list \<Rightarrow>
   (string \<times> progress_streak) list \<times> 's sinks \<times> signal_kind list" where
  "observeProgress ctx views threshold sinks cands =
     (let previous = sh_progress (fst sinks);
          acc = foldl (observe_progress_view ctx previous threshold)
                  \<lparr>pa_next = keep_continuous previous, pa_polling = [], pa_sinks = sinks, pa_candidates = cands\<rparr> views;
          cands' = (case threshold of
                      None \<Rightarrow> pa_candidates acc
                    | Some t \<Rightarrow>
                        if list_ex (\<lambda>loopKey. case map_of (pa_next acc) loopKey of None \<Rightarrow> False
                              | Some s \<Rightarrow> pk_continuousPolling s \<and> pk_reminderEligible s \<and> pk_occurrences s \<ge> t)
                            (pa_polling acc)
                        then List.insert PollingRepeat (pa_candidates acc) else pa_candidates acc)
      in (pa_next acc, pa_sinks acc, cands'))"

section \<open>Alternating actions\<close>

definition push_batch :: "string list \<Rightarrow> string \<Rightarrow> string list" where
  "push_batch recent key =
     (let pushed = recent @ [key] in if length pushed > 4 then tl pushed else pushed)"

definition observeAbab :: "run_identity \<Rightarrow> string option \<Rightarrow> 's sinks \<Rightarrow> 's sinks" where
  "observeAbab ctx current sinks =
     (let (st, obs) = sinks in
      case truthy current of
        None \<Rightarrow> (st\<lparr>sh_recentBatches := [], sh_activeAbab := None\<rparr>, obs)
      | Some key \<Rightarrow>
          let recent = push_batch (sh_recentBatches st) key;
              st1 = st\<lparr>sh_recentBatches := recent\<rparr>
          in (case recent of
                [a, b, c, d] \<Rightarrow>
                  if a = [] \<or> b = [] \<or> a = b \<or> a \<noteq> c \<or> b \<noteq> d then (st1\<lparr>sh_activeAbab := None\<rparr>, obs)
                  else let episode = a @ [CHR 0x00] @ b in
                       if sh_activeAbab st1 = Some episode then (st1, obs)
                       else emitObservation ctx AbabActionCycle 2 (st1\<lparr>sh_activeAbab := Some episode\<rparr>, obs)
              | _ \<Rightarrow> (st1, obs)))"

section \<open>One step\<close>

definition observeStep ::
  "run_identity \<Rightarrow> step_view \<Rightarrow> nat option \<Rightarrow> 's sinks \<Rightarrow> signal_kind list \<times> 's sinks" where
  "observeStep ctx view threshold sinks =
     (let (n1, (st1, o1), c1) = observeRepeatedKeys ctx (sh_detectActions (fst sinks)) (sv_detectActions view)
            ExactActionRepeat threshold (\<lambda>_. True) sinks [];
          st1 = st1\<lparr>sh_detectActions := n1\<rparr>;
          (n2, (st2, o2), c2) = observeRepeatedKeys ctx (sh_pollingActions st1) (sv_pollingActions view)
            PollingRepeat threshold (\<lambda>_. False) (st1, o1) c1;
          st2 = st2\<lparr>sh_pollingActions := n2\<rparr>;
          (n3, (st3, o3), c3) = observeRepeatedKeys ctx (sh_detectResults st2) (sv_detectResults view)
            ExactResultRepeat threshold (\<lambda>_. False) (st2, o2) c2;
          st3 = st3\<lparr>sh_detectResults := n3\<rparr>;
          (n4, (st4, o4), c4) = observeRepeatedKeys ctx (sh_errorFamilies st3) (sv_errorFamilies view)
            SameErrorFamily threshold (\<lambda>k. k \<in> set (sv_remindableErrors view)) (st3, o3) c3;
          st4 = st4\<lparr>sh_errorFamilies := n4\<rparr>;
          (n5, (st5, o5), c5) = observeProgress ctx (sv_progress view) threshold (st4, o4) c4;
          st5 = st5\<lparr>sh_progress := n5\<rparr>
      in (c5, observeAbab ctx (sv_batch view) (st5, o5)))"

section \<open>The reminder\<close>

definition REMINDER_CANDIDATE_PRIORITY :: "signal_kind list" where
  "REMINDER_CANDIDATE_PRIORITY = [UnchangedProgressRepeat, SameErrorFamily, ExactActionRepeat, PollingRepeat]"

definition number_text :: "nat \<Rightarrow> string" where
  "number_text n = json_int (int n)"

definition reminderGuidance :: "signal_kind \<Rightarrow> nat \<Rightarrow> string option" where
  "reminderGuidance kind n =
     (if n = 0 then None
      else case kind of
        ExactActionRepeat \<Rightarrow> Some
          (''[runaway guard] The immediately repeated tool action has now occurred '' @ number_text n @ '' '' @
           ''times with the same arguments. Do not repeat it unchanged. Inspect the results already '' @
           ''available, then either change strategy with a concrete expected state change, or report the '' @
           ''blocker. Repetition alone does not establish that the task is complete or impossible.'')
      | SameErrorFamily \<Rightarrow> Some
          (''[runaway guard] The same tool error family has now occurred '' @ number_text n @ '' times in '' @
           ''a row. Do not retry the same route unchanged. Diagnose the cause, change one controlled '' @
           ''variable or switch route. Do not infer that the entire task has failed from this signal.'')
      | UnchangedProgressRepeat \<Rightarrow> Some
          (''[runaway guard] Verified progress for the same work target has remained unchanged across '' @
           number_text n @ '' attempts. Do not continue the same route without a concrete expected state '' @
           ''change. Inspect the current artifact or state, change strategy, or explain the blocker. '' @
           ''Unchanged observed state is not proof that the entire task has failed.'')
      | _ \<Rightarrow> None)"

definition pollingReminderContent :: "nat \<Rightarrow> string option" where
  "pollingReminderContent n =
     (if n = 0 then None
      else Some (''<system-reminder>'' @ [CHR 0x0A] @ (if n = 3 then ''Three'' else number_text n) @
        '' task_output reads for the same task have returned an unchanged status and output cursor. Avoid repeated polling; you will be notified automatically and this conversation will resume when the background task completes.'' @
        [CHR 0x0A] @ ''This reminder applies only to the current Turn. Do not save or generalize it into Memory, Skills, or other persistent instructions.'' @
        [CHR 0x0A] @ ''</system-reminder>''))"

definition reminderContent :: "signal_kind \<Rightarrow> nat \<Rightarrow> string option" where
  "reminderContent kind n =
     (if kind = PollingRepeat then pollingReminderContent n
      else map_option (\<lambda>guidance. guidance @ '' This is a temporary runtime reminder for the current Turn only, not a user preference or a durable rule; do not save this reminder or generalize it into Memory, Skills, or other persistent instruction files for future Turns or sessions.'')
             (reminderGuidance kind n))"

record reminder =
  rm_content :: string
  rm_observation :: observation

definition takePreferredReminder ::
  "signal_kind list \<Rightarrow> run_identity \<Rightarrow> nat \<Rightarrow> 's shadow_state \<Rightarrow> reminder option \<times> 's shadow_state" where
  "takePreferredReminder cands ctx after st =
     (case List.find (\<lambda>k. k \<in> set cands) REMINDER_CANDIDATE_PRIORITY of
        None \<Rightarrow> (None, st)
      | Some kind \<Rightarrow>
          (case truthy (reminderContent kind after) of
             None \<Rightarrow> (None, st)
           | Some content \<Rightarrow>
               if sh_reminderAttempted st then (None, st)
               else (Some \<lparr>rm_content = content,
                       rm_observation = \<lparr>on_identity = ctx, on_signalKind = kind, on_stepIndex = sh_stepIndex st,
                                         on_occurrences = after\<rparr>\<rparr>,
                     st\<lparr>sh_reminderAttempted := True\<rparr>)))"

end
