(* ===== verification/RunawayGuard.thy ===== *)
theory RunawayGuard
  imports GuardSignals
begin

text \<open>
  The runaway guard as its host uses it (\<open>runaway-guard/src/guard.ts\<close>): one state per Turn, made on the
  first step and dropped when the Turn finishes, and the offline replay of a recorded Turn
  (\<open>replay.ts\<close>). The random secret of a new state is an argument.
\<close>

section \<open>Options\<close>

record guard_options =
  go_toolPolicies :: "string \<Rightarrow> tool_policy option"
  go_maxFingerprintBytes :: "jsnum option"
  go_remindAfterOccurrences :: "jsnum option"

datatype guard_error = NotPositiveInteger string | NotIntegerAtLeast string int

text \<open>A number that is not an integer is \<open>NonFinite\<close> here: the checks refuse both alike.\<close>

definition positiveInteger_guard :: "jsnum \<Rightarrow> string \<Rightarrow> guard_error + nat" where
  "positiveInteger_guard value field =
     (case value of Fin n \<Rightarrow> if n > 0 then Inr (nat n) else Inl (NotPositiveInteger field)
      | NonFinite \<Rightarrow> Inl (NotPositiveInteger field))"

definition integerAtLeast :: "jsnum \<Rightarrow> int \<Rightarrow> string \<Rightarrow> guard_error + nat" where
  "integerAtLeast value minimum field =
     (case value of Fin n \<Rightarrow> if n \<ge> minimum then Inr (nat n) else Inl (NotIntegerAtLeast field minimum)
      | NonFinite \<Rightarrow> Inl (NotIntegerAtLeast field minimum))"

record 's guard_config =
  gc_env :: "'s project_env"
  gc_afterOccurrences :: "nat option"

definition max_bytes :: "jsnum option \<Rightarrow> jsnum" where
  "max_bytes configured =
     (case configured of None \<Rightarrow> Fin (int DEFAULT_MAX_FINGERPRINT_BYTES) | Some n \<Rightarrow> n)"

definition createRunawayGuard ::
  "('s \<Rightarrow> string \<Rightarrow> string) \<Rightarrow> guard_options \<Rightarrow> guard_error + 's guard_config" where
  "createRunawayGuard hmac options =
     rbind (positiveInteger_guard (max_bytes (go_maxFingerprintBytes options)) ''maxFingerprintBytes'') (\<lambda>bytes.
     rbind (rmap_option (\<lambda>n. integerAtLeast n 3 ''remindAfterOccurrences'') (go_remindAfterOccurrences options)) (\<lambda>after.
     Inr \<lparr>gc_env = \<lparr>pe_hmac = hmac, pe_maxBytes = bytes, pe_policies = go_toolPolicies options\<rparr>,
          gc_afterOccurrences = after\<rparr>))"

section \<open>The guard\<close>

type_synonym 's guard_states = "(string \<times> 's shadow_state) list"

definition stateFor :: "'s \<Rightarrow> run_identity \<Rightarrow> 's guard_states \<Rightarrow> 's shadow_state" where
  "stateFor fresh ctx states =
     (case map_of states (runKey ctx) of None \<Rightarrow> newShadowState fresh | Some st \<Rightarrow> st)"

text \<open>One step through the projector and the detectors, as the guard and the replay both do it.\<close>

definition detect_step ::
  "'s project_env \<Rightarrow> run_identity \<Rightarrow> replay_step \<Rightarrow> nat option \<Rightarrow> 's shadow_state \<Rightarrow>
   signal_kind list \<times> 's shadow_state \<times> observation list" where
  "detect_step env ctx step threshold st0 =
     (let st = st0\<lparr>sh_stepIndex := sh_stepIndex st0 + 1\<rparr>;
          ids = toolCallIdsFromMessage (sp_message step);
          (view, st1) = projectStep env step (verifiedProgressMap (sp_verifiedProgress step) ids)
            (trustedToolProvenanceMap (sp_provenance step) ids) st
      in observeStep ctx view threshold (st1, []))"

definition guard_observe ::
  "'s guard_config \<Rightarrow> run_identity \<Rightarrow> replay_step \<Rightarrow> bool \<Rightarrow> 's \<Rightarrow> 's guard_states \<Rightarrow>
   (reminder option \<times> observation list) \<times> 's guard_states" where
  "guard_observe cfg ctx step shouldRemind fresh states =
     (let threshold = (if shouldRemind then gc_afterOccurrences cfg else None);
          (cands, st, obs) = detect_step (gc_env cfg) ctx step threshold (stateFor fresh ctx states);
          (rem, st') = (case threshold of None \<Rightarrow> (None, st) | Some t \<Rightarrow> takePreferredReminder cands ctx t st)
      in ((rem, obs), AList.update (runKey ctx) st' states))"

definition guard_clear :: "run_identity \<Rightarrow> 's guard_states \<Rightarrow> 's guard_states" where
  "guard_clear ctx states =
     (case map_of states (runKey ctx) of None \<Rightarrow> states
      | Some st \<Rightarrow> AList.update (runKey ctx) (clearDetectionStreaks st) states)"

definition markReminderInjected :: "run_identity \<Rightarrow> 's guard_states \<Rightarrow> 's guard_states" where
  "markReminderInjected ctx states =
     (case map_of states (runKey ctx) of None \<Rightarrow> states
      | Some st \<Rightarrow> AList.update (runKey ctx) (st\<lparr>sh_reminderInjected := True\<rparr>) states)"

definition finishTurn :: "run_identity \<Rightarrow> 's guard_states \<Rightarrow> turn_summary option \<times> 's guard_states" where
  "finishTurn ctx states =
     (case map_of states (runKey ctx) of None \<Rightarrow> (None, states)
      | Some st \<Rightarrow> (Some (snapshotTurnSummary ctx st), AList.delete (runKey ctx) states))"

section \<open>Replay\<close>

definition assistantMessageTokens :: "guard_message \<Rightarrow> int" where
  "assistantMessageTokens m =
     (if \<not> gm_assistant m then 0
      else case gm_totalTokens m of JNum (Fin n) \<Rightarrow> if n \<ge> 0 then n else 0 | _ \<Rightarrow> 0)"

record replay_metrics =
  mt_toolCallCount :: nat
  mt_providerTokens :: int
  mt_firstSignalStepIndex :: "nat option"
  mt_postSignalStepCount :: nat
  mt_postSignalToolCallCount :: nat
  mt_postSignalProviderTokens :: int

definition first_signal :: "observation list \<Rightarrow> nat option" where
  "first_signal obs =
     foldl (\<lambda>m ob. case m of None \<Rightarrow> Some (on_stepIndex ob) | Some i \<Rightarrow> Some (min i (on_stepIndex ob))) None obs"

definition replayMetrics :: "replay_step list \<Rightarrow> observation list \<Rightarrow> replay_metrics" where
  "replayMetrics steps obs =
     (let first = first_signal obs;
          calls = map (\<lambda>s. length (toolCallIdsFromMessage (sp_message s))) steps;
          tokens = map (\<lambda>s. assistantMessageTokens (sp_message s)) steps;
          after = (case first of None \<Rightarrow> length steps | Some i \<Rightarrow> i)
      in \<lparr>mt_toolCallCount = sum_list calls, mt_providerTokens = sum_list tokens,
          mt_firstSignalStepIndex = first,
          mt_postSignalStepCount = (case first of None \<Rightarrow> 0 | Some i \<Rightarrow> length steps - i),
          mt_postSignalToolCallCount = sum_list (drop after calls),
          mt_postSignalProviderTokens = sum_list (drop after tokens)\<rparr>)"

fun replay_steps ::
  "'s project_env \<Rightarrow> run_identity \<Rightarrow> replay_step list \<Rightarrow> 's shadow_state \<Rightarrow> observation list \<times> 's shadow_state" where
  "replay_steps env ctx [] st = ([], st)"
| "replay_steps env ctx (step # steps) st =
     (let (_, st1, obs) = detect_step env ctx step None st;
          (obs', st2) = replay_steps env ctx steps st1
      in (obs @ obs', st2))"

definition replayRunawayGuardTrajectory ::
  "('s \<Rightarrow> string \<Rightarrow> string) \<Rightarrow> 's \<Rightarrow> (string \<Rightarrow> tool_policy option) \<Rightarrow> jsnum option \<Rightarrow> run_identity \<Rightarrow> replay_step list \<Rightarrow>
   guard_error + (observation list \<times> turn_summary \<times> replay_metrics)" where
  "replayRunawayGuardTrajectory hmac secret policies maxBytes ctx steps =
     rbind (positiveInteger_guard (max_bytes maxBytes) ''maxFingerprintBytes'') (\<lambda>bytes.
       let (obs, st) = replay_steps \<lparr>pe_hmac = hmac, pe_maxBytes = bytes, pe_policies = policies\<rparr> ctx steps
             (newShadowState secret)
       in Inr (obs, snapshotTurnSummary ctx st, replayMetrics steps obs))"

end
