(* ===== verification/GuardProps.thy ===== *)
theory GuardProps
  imports RunawayGuard
begin

text \<open>
  What the runaway guard promises: a replay finds what the guard found, a Turn is reminded at most once, a
  repetition is signalled exactly when the unbroken run of an action reaches the bound; and what its check for
  alternating actions does not do.
\<close>

section \<open>Reminders do not disturb detection\<close>

text \<open>The reminder flags are the only parts of a state in which the guard and a replay differ.\<close>

definition er :: "bool \<times> bool \<Rightarrow> 's shadow_state \<Rightarrow> 's shadow_state" where
  "er z st = st\<lparr>sh_reminderAttempted := fst z, sh_reminderInjected := snd z\<rparr>"

lemma er_simps [simp]:
  "sh_secret (er z st) = sh_secret st" "sh_stepIndex (er z st) = sh_stepIndex st" "sh_skipped (er z st) = sh_skipped st"
  "sh_stats (er z st) = sh_stats st" "sh_detectActions (er z st) = sh_detectActions st"
  "sh_pollingActions (er z st) = sh_pollingActions st" "sh_detectResults (er z st) = sh_detectResults st"
  "sh_errorFamilies (er z st) = sh_errorFamilies st" "sh_progress (er z st) = sh_progress st"
  "sh_recentBatches (er z st) = sh_recentBatches st" "sh_activeAbab (er z st) = sh_activeAbab st"
  "er z (er y st) = er z st" "er (False, False) (newShadowState s) = newShadowState s"
  "sh_reminderInjected (er z st) = snd z" "sh_reminderAttempted (er z st) = fst z"
  by (simp_all add: er_def newShadowState_def)

lemma er_updates:
  "(er z st)\<lparr>sh_stats := f\<rparr> = er z (st\<lparr>sh_stats := f\<rparr>)"
  "(er z st)\<lparr>sh_stepIndex := n\<rparr> = er z (st\<lparr>sh_stepIndex := n\<rparr>)"
  "(er z st)\<lparr>sh_skipped := n\<rparr> = er z (st\<lparr>sh_skipped := n\<rparr>)"
  "(er z st)\<lparr>sh_detectActions := m\<rparr> = er z (st\<lparr>sh_detectActions := m\<rparr>)"
  "(er z st)\<lparr>sh_pollingActions := m\<rparr> = er z (st\<lparr>sh_pollingActions := m\<rparr>)"
  "(er z st)\<lparr>sh_detectResults := m\<rparr> = er z (st\<lparr>sh_detectResults := m\<rparr>)"
  "(er z st)\<lparr>sh_errorFamilies := m\<rparr> = er z (st\<lparr>sh_errorFamilies := m\<rparr>)"
  "(er z st)\<lparr>sh_progress := pr\<rparr> = er z (st\<lparr>sh_progress := pr\<rparr>)"
  "(er z st)\<lparr>sh_recentBatches := bs\<rparr> = er z (st\<lparr>sh_recentBatches := bs\<rparr>)"
  "(er z st)\<lparr>sh_activeAbab := a\<rparr> = er z (st\<lparr>sh_activeAbab := a\<rparr>)"
  by (simp_all add: er_def)

lemma recordMax_er: "recordMaxOccurrences kind n (er z st) = er z (recordMaxOccurrences kind n st)"
  by (simp add: recordMaxOccurrences_def er_def Let_def)

lemma emit_er:
  "emitObservation ctx kind n (er z st, obs) = map_prod (er z) id (emitObservation ctx kind n (st, obs))"
  by (cases "ss_firstStepIndex (sh_stats st kind)")
    (simp_all add: emitObservation_def recordMaxOccurrences_def er_updates Let_def)

lemma repeat_counts_er:
  "repeat_counts ctx prev kind t el cs (nxt, (st, obs), c) = (n1, (st1, o1), c1) \<Longrightarrow>
   \<exists>c2. repeat_counts ctx prev kind t' el' cs (nxt, (er z st, obs), c') = (n1, (er z st1, o1), c2)"
proof (induction cs arbitrary: nxt st obs c c')
  case (Cons kn cs)
  obtain k n where kn: "kn = (k, n)" by (cases kn)
  obtain st2 o2 where s: "(if count_of prev k < 2 \<and> 2 \<le> count_of prev k + n
      then emitObservation ctx kind 2 (recordMaxOccurrences kind (count_of prev k + n) st, obs)
      else (recordMaxOccurrences kind (count_of prev k + n) st, obs)) = (st2, o2)"
    by (cases "if count_of prev k < 2 \<and> 2 \<le> count_of prev k + n
      then emitObservation ctx kind 2 (recordMaxOccurrences kind (count_of prev k + n) st, obs)
      else (recordMaxOccurrences kind (count_of prev k + n) st, obs)")
  then have s': "(if count_of prev k < 2 \<and> 2 \<le> count_of prev k + n
      then emitObservation ctx kind 2 (recordMaxOccurrences kind (count_of prev k + n) (er z st), obs)
      else (recordMaxOccurrences kind (count_of prev k + n) (er z st), obs)) = (er z st2, o2)"
    by (auto simp: recordMax_er emit_er split: if_splits)
  show ?case
    using Cons.prems Cons.IH unfolding kn repeat_counts.simps Let_def s s' option.case by blast
qed simp

lemma observeRepeatedKeys_er:
  "observeRepeatedKeys ctx prev cur kind t el (st, obs) c = (n1, (st1, o1), c1) \<Longrightarrow>
   \<exists>c2. observeRepeatedKeys ctx prev cur kind t' el' (er z st, obs) c' = (n1, (er z st1, o1), c2)"
  unfolding observeRepeatedKeys_def by (rule repeat_counts_er)

text \<open>Two progress accumulators that differ in the reminders only.\<close>

definition same_progress :: "bool \<times> bool \<Rightarrow> 's progress_acc \<Rightarrow> 's progress_acc \<Rightarrow> bool" where
  "same_progress z a b \<longleftrightarrow> pa_next b = pa_next a \<and> pa_sinks b = map_prod (er z) id (pa_sinks a)"

lemma observe_progress_view_er:
  assumes "same_progress z a b"
  shows "same_progress z (observe_progress_view ctx prev t a v) (observe_progress_view ctx prev t' b v)"
proof (cases v)
  case (ProgressObservation kind l k verified continuous eligible)
  then show ?thesis using assms
    by (cases "pa_sinks a")
      (auto simp: same_progress_def observe_progress_view_def Let_def recordMax_er emit_er split: prod.splits)
qed (use assms in \<open>auto simp: same_progress_def observe_progress_view_def\<close>)

lemma foldl_same_progress:
  "same_progress z a b \<Longrightarrow> same_progress z (foldl (observe_progress_view ctx prev t) a vs)
     (foldl (observe_progress_view ctx prev t') b vs)"
  by (induction vs arbitrary: a b) (auto simp: observe_progress_view_er)

lemma observeProgress_er:
  assumes "observeProgress ctx vs t (st, obs) c = (n1, (st1, o1), c1)"
  shows "\<exists>c2. observeProgress ctx vs t' (er z st, obs) c' = (n1, (er z st1, o1), c2)"
proof -
  let ?a = "\<lparr>pa_next = keep_continuous (sh_progress st), pa_polling = [], pa_sinks = (st, obs), pa_candidates = c\<rparr>"
  let ?b = "\<lparr>pa_next = keep_continuous (sh_progress st), pa_polling = [], pa_sinks = (er z st, obs), pa_candidates = c'\<rparr>"
  have "same_progress z ?a ?b" by (simp add: same_progress_def)
  from foldl_same_progress [OF this, of ctx "sh_progress st" t vs t'] show ?thesis
    using assms by (auto simp: observeProgress_def Let_def same_progress_def)
qed

lemma not_four:
  "\<nexists>a b c d. r = [a, b, c, d] \<Longrightarrow> (case r of [a, b, c, d] \<Rightarrow> X a b c d | _ \<Rightarrow> Y) = Y"
  by (auto split: list.split)

lemma observeAbab_er: "observeAbab ctx b (er z st, obs) = map_prod (er z) id (observeAbab ctx b (st, obs))"
proof (cases "truthy b")
  case None
  then show ?thesis by (simp add: observeAbab_def er_updates)
next
  case (Some key)
  show ?thesis
  proof (cases "\<exists>x y z w. push_batch (sh_recentBatches st) key = [x, y, z, w]")
    case True
    then show ?thesis
      by (auto simp: observeAbab_def Some Let_def er_updates emit_er)
  next
    case False
    then show ?thesis by (simp add: observeAbab_def Some Let_def er_updates not_four)
  qed
qed

lemma observeStep_er:
  assumes "observeStep ctx v t (st, obs) = (c, (st1, o1))"
  shows "\<exists>c'. observeStep ctx v t' (er z st, obs) = (c', (er z st1, o1))"
proof -
  obtain n1 s1 p1 c1 where 1: "observeRepeatedKeys ctx (sh_detectActions st) (sv_detectActions v) ExactActionRepeat t
      (\<lambda>_. True) (st, obs) [] = (n1, (s1, p1), c1)" by (metis prod_cases4 prod.collapse)
  let ?s1 = "s1\<lparr>sh_detectActions := n1\<rparr>"
  obtain n2 s2 p2 c2 where 2: "observeRepeatedKeys ctx (sh_pollingActions s1) (sv_pollingActions v) PollingRepeat t
      (\<lambda>_. False) (?s1, p1) c1 = (n2, (s2, p2), c2)" by (metis prod_cases4 prod.collapse)
  let ?s2 = "s2\<lparr>sh_pollingActions := n2\<rparr>"
  obtain n3 s3 p3 c3 where 3: "observeRepeatedKeys ctx (sh_detectResults s2) (sv_detectResults v) ExactResultRepeat t
      (\<lambda>_. False) (?s2, p2) c2 = (n3, (s3, p3), c3)" by (metis prod_cases4 prod.collapse)
  let ?s3 = "s3\<lparr>sh_detectResults := n3\<rparr>"
  obtain n4 s4 p4 c4 where 4: "observeRepeatedKeys ctx (sh_errorFamilies s3) (sv_errorFamilies v) SameErrorFamily t
      (\<lambda>k. k \<in> set (sv_remindableErrors v)) (?s3, p3) c3 = (n4, (s4, p4), c4)" by (metis prod_cases4 prod.collapse)
  let ?s4 = "s4\<lparr>sh_errorFamilies := n4\<rparr>"
  obtain n5 s5 p5 c5 where 5: "observeProgress ctx (sv_progress v) t (?s4, p4) c4 = (n5, (s5, p5), c5)"
    by (metis prod_cases4 prod.collapse)
  let ?s5 = "s5\<lparr>sh_progress := n5\<rparr>"
  have res: "observeAbab ctx (sv_batch v) (?s5, p5) = (st1, o1)"
    using assms by (simp add: observeStep_def Let_def 1 2 3 4 5)
  obtain d1 where e1: "observeRepeatedKeys ctx (sh_detectActions st) (sv_detectActions v) ExactActionRepeat t'
      (\<lambda>_. True) (er z st, obs) [] = (n1, (er z s1, p1), d1)" using observeRepeatedKeys_er [OF 1] by blast
  obtain d2 where e2: "observeRepeatedKeys ctx (sh_pollingActions s1) (sv_pollingActions v) PollingRepeat t'
      (\<lambda>_. False) (er z ?s1, p1) d1 = (n2, (er z s2, p2), d2)" using observeRepeatedKeys_er [OF 2] by blast
  obtain d3 where e3: "observeRepeatedKeys ctx (sh_detectResults s2) (sv_detectResults v) ExactResultRepeat t'
      (\<lambda>_. False) (er z ?s2, p2) d2 = (n3, (er z s3, p3), d3)" using observeRepeatedKeys_er [OF 3] by blast
  obtain d4 where e4: "observeRepeatedKeys ctx (sh_errorFamilies s3) (sv_errorFamilies v) SameErrorFamily t'
      (\<lambda>k. k \<in> set (sv_remindableErrors v)) (er z ?s3, p3) d3 = (n4, (er z s4, p4), d4)"
    using observeRepeatedKeys_er [OF 4] by blast
  obtain d5 where e5: "observeProgress ctx (sv_progress v) t' (er z ?s4, p4) d4 = (n5, (er z s5, p5), d5)"
    using observeProgress_er [OF 5] by blast
  show ?thesis
    using res observeAbab_er [of ctx "sv_batch v" z ?s5 p5] e1 e2 e3 e4 e5
    by (simp add: observeStep_def Let_def er_updates)
qed

lemma projectStep_er: "projectStep env step vp pv (er z st) = map_prod id (er z) (projectStep env step vp pv st)"
  by (simp add: projectStep_def Let_def er_updates)

lemma detect_step_er:
  assumes "detect_step env ctx step t st = (c, st1, obs)"
  shows "\<exists>c'. detect_step env ctx step t' (er z st) = (c', er z st1, obs)"
proof -
  let ?ids = "toolCallIdsFromMessage (sp_message step)"
  obtain v s1 where p: "projectStep env step (verifiedProgressMap (sp_verifiedProgress step) ?ids)
      (trustedToolProvenanceMap (sp_provenance step) ?ids) (st\<lparr>sh_stepIndex := sh_stepIndex st + 1\<rparr>) = (v, s1)"
    by (metis surj_pair)
  then have "observeStep ctx v t (s1, []) = (c, (st1, obs))"
    using assms by (simp add: detect_step_def Let_def)
  from observeStep_er [OF this] show ?thesis
    using p by (auto simp: detect_step_def Let_def er_updates projectStep_er)
qed

text \<open>The detectors touch neither flag.\<close>

definition flags :: "'s shadow_state \<Rightarrow> bool \<times> bool" where
  "flags st = (sh_reminderAttempted st, sh_reminderInjected st)"

lemma er_flags: "er (flags st) st = st" "flags (er z st) = z"
  by (simp_all add: er_def flags_def)

lemma detect_keeps_flags:
  assumes "detect_step env ctx step t st = (c, st1, obs)"
  shows "flags st1 = flags st"
proof -
  obtain c' where "detect_step env ctx step t st = (c', er (flags st) st1, obs)"
    using detect_step_er [OF assms, of t "flags st"] by (auto simp: er_flags)
  then have "st1 = er (flags st) st1" using assms by simp
  then show ?thesis by (metis er_flags(2))
qed

section \<open>The calls of the host\<close>

datatype guard_op =
    Observe run_identity replay_step bool
  | ClearStreaks run_identity
  | MarkInjected run_identity
  | Finish run_identity

definition guard_step ::
  "'s guard_config \<Rightarrow> 's \<Rightarrow> guard_op \<Rightarrow> 's guard_states \<Rightarrow> (run_identity \<times> reminder) list \<times> 's guard_states" where
  "guard_step cfg secret op states =
     (case op of
        Observe ctx step flag \<Rightarrow>
          let ((r, _), states1) = guard_observe cfg ctx step flag secret states
          in (case r of None \<Rightarrow> [] | Some x \<Rightarrow> [(ctx, x)], states1)
      | ClearStreaks ctx \<Rightarrow> ([], guard_clear ctx states)
      | MarkInjected ctx \<Rightarrow> ([], markReminderInjected ctx states)
      | Finish ctx \<Rightarrow> ([], snd (finishTurn ctx states)))"

section \<open>A replay finds what the guard found\<close>

definition op_identity :: "guard_op \<Rightarrow> run_identity" where
  "op_identity op = (case op of Observe ctx _ _ \<Rightarrow> ctx | ClearStreaks ctx \<Rightarrow> ctx | MarkInjected ctx \<Rightarrow> ctx | Finish ctx \<Rightarrow> ctx)"

text \<open>
  What a call observes of one Turn. Every call comes with the random secret a new state would draw; several
  Turns run side by side.
\<close>

definition op_observations ::
  "'s guard_config \<Rightarrow> 's \<Rightarrow> run_identity \<Rightarrow> guard_op \<Rightarrow> 's guard_states \<Rightarrow> observation list" where
  "op_observations cfg fresh ctx op states =
     (case op of Observe c step flag \<Rightarrow> if c = ctx then snd (fst (guard_observe cfg c step flag fresh states)) else [] | _ \<Rightarrow> [])"

fun live_run ::
  "'s guard_config \<Rightarrow> run_identity \<Rightarrow> (guard_op \<times> 's) list \<Rightarrow> 's guard_states \<Rightarrow> observation list \<times> 's guard_states" where
  "live_run cfg ctx [] states = ([], states)"
| "live_run cfg ctx ((op, fresh) # ops) states =
     (let (_, states1) = guard_step cfg fresh op states;
          (obs', states2) = live_run cfg ctx ops states1
      in (op_observations cfg fresh ctx op states @ obs', states2))"

text \<open>The steps observed of a Turn, the secret of the first, and whether a reminder was marked after it.\<close>

definition observed_step :: "run_identity \<Rightarrow> guard_op \<Rightarrow> replay_step option" where
  "observed_step ctx op = (case op of Observe c step _ \<Rightarrow> if c = ctx then Some step else None | _ \<Rightarrow> None)"

definition steps_of :: "run_identity \<Rightarrow> (guard_op \<times> 's) list \<Rightarrow> replay_step list" where
  "steps_of ctx ops = concat (map (\<lambda>(op, _). case observed_step ctx op of None \<Rightarrow> [] | Some step \<Rightarrow> [step]) ops)"

fun run_facts :: "run_identity \<Rightarrow> (guard_op \<times> 's) list \<Rightarrow> ('s \<times> bool) option" where
  "run_facts ctx [] = None"
| "run_facts ctx ((op, fresh) # ops) =
     (case observed_step ctx op of
        None \<Rightarrow> run_facts ctx ops
      | Some _ \<Rightarrow> Some (fresh, list_ex (\<lambda>(op, _). op = MarkInjected ctx) ops))"

text \<open>Calls on the same Turn bear the same identity and neither clear its streaks nor finish it.\<close>

definition undisturbed :: "run_identity \<Rightarrow> guard_op \<Rightarrow> bool" where
  "undisturbed ctx op \<longleftrightarrow>
     (runKey (op_identity op) = runKey ctx \<longrightarrow>
        op_identity op = ctx \<and> (case op of ClearStreaks _ \<Rightarrow> False | Finish _ \<Rightarrow> False | _ \<Rightarrow> True))"

lemma takePreferred_er: "takePreferredReminder c ctx t st = (r, st') \<Longrightarrow> er z st' = er z st \<and> sh_reminderInjected st' = sh_reminderInjected st"
  by (auto simp: takePreferredReminder_def er_def split: option.splits if_splits)

lemma guard_observe_detect:
  assumes "guard_observe cfg ctx step flag secret states = ((r, obs), states')"
  shows "\<exists>c st1 st2. detect_step (gc_env cfg) ctx step (if flag then gc_afterOccurrences cfg else None)
      (stateFor secret ctx states) = (c, st1, obs) \<and> er (False, False) st2 = er (False, False) st1 \<and>
      sh_reminderInjected st2 = sh_reminderInjected st1 \<and> states' = AList.update (runKey ctx) st2 states"
proof -
  let ?t = "if flag then gc_afterOccurrences cfg else None"
  obtain c st1 o1 where d: "detect_step (gc_env cfg) ctx step ?t (stateFor secret ctx states) = (c, st1, o1)"
    by (metis prod_cases3)
  show ?thesis
  proof (cases ?t)
    case None
    then show ?thesis using assms d unfolding guard_observe_def Let_def by auto
  next
    case (Some t)
    obtain r' st2 where "takePreferredReminder c ctx t st1 = (r', st2)" by (metis surj_pair)
    moreover have "states' = AList.update (runKey ctx) st2 states" "o1 = obs"
      using assms d Some calculation unfolding guard_observe_def Let_def by auto
    ultimately show ?thesis using d takePreferred_er by blast
  qed
qed

text \<open>A call on another Turn leaves the state of this one, one that is no step only marks it.\<close>

lemma guard_step_other:
  assumes "undisturbed ctx op" "observed_step ctx op = None"
  shows "map_of (snd (guard_step cfg fresh op states)) (runKey ctx) =
      map_option (\<lambda>st. if op = MarkInjected ctx then er (sh_reminderAttempted st, True) st else st) (map_of states (runKey ctx)) \<and>
    op_observations cfg fresh ctx op states = []"
  using assms
  by (cases op; cases "map_of states (runKey ctx)")
    (auto simp: undisturbed_def op_identity_def observed_step_def guard_step_def op_observations_def guard_observe_def
      guard_clear_def markReminderInjected_def finishTurn_def update_conv' delete_conv' er_def Let_def
      split: option.splits prod.splits if_splits)

lemma live_run_replay:
  assumes "live_run cfg ctx ops states = (obs, states')" and "map_of states (runKey ctx) = Some st"
    and "list_all (\<lambda>(op, _). undisturbed ctx op) ops"
  shows "\<exists>st'. replay_steps (gc_env cfg) ctx (steps_of ctx ops) (er (False, False) st) = (obs, er (False, False) st') \<and>
    map_of states' (runKey ctx) = Some st' \<and>
    sh_reminderInjected st' = (sh_reminderInjected st \<or> list_ex (\<lambda>(op, _). op = MarkInjected ctx) ops)"
  using assms
proof (induction ops arbitrary: states st obs)
  case (Cons p ops)
  obtain op fresh where p: "p = (op, fresh)" by (cases p)
  let ?states1 = "snd (guard_step cfg fresh op states)"
  obtain o2 where l: "live_run cfg ctx ops ?states1 = (o2, states')" and obs: "obs = op_observations cfg fresh ctx op states @ o2"
    using Cons.prems(1) by (auto simp: p split: prod.splits)
  have u: "undisturbed ctx op" "list_all (\<lambda>(op, _). undisturbed ctx op) ops"
    using Cons.prems(3) by (simp_all add: p)
  show ?case
  proof (cases "observed_step ctx op")
    case None
    let ?st1 = "if op = MarkInjected ctx then er (sh_reminderAttempted st, True) st else st"
    have "map_of ?states1 (runKey ctx) = Some ?st1" and "obs = o2"
      using guard_step_other [OF u(1) None, of cfg fresh states] Cons.prems(2) obs by simp_all
    moreover from Cons.IH [OF l this(1) u(2)] obtain st' where
      "replay_steps (gc_env cfg) ctx (steps_of ctx ops) (er (False, False) ?st1) = (o2, er (False, False) st')"
      "map_of states' (runKey ctx) = Some st'"
      "sh_reminderInjected st' = (sh_reminderInjected ?st1 \<or> list_ex (\<lambda>(op, _). op = MarkInjected ctx) ops)"
      by blast
    ultimately show ?thesis
      by (intro exI [of _ st']) (simp add: p steps_of_def None split: if_splits)
  next
    case (Some step)
    then obtain flag where op: "op = Observe ctx step flag"
      by (auto simp: observed_step_def split: guard_op.splits if_splits)
    obtain r o1 states1 where g: "guard_observe cfg ctx step flag fresh states = ((r, o1), states1)"
      by (metis prod_cases3 prod.collapse)
    have s: "?states1 = states1" "obs = o1 @ o2"
      using g obs by (simp_all add: op guard_step_def op_observations_def)
    obtain c st1 st2 where d: "detect_step (gc_env cfg) ctx step (if flag then gc_afterOccurrences cfg else None) st = (c, st1, o1)"
      and e: "er (False, False) st2 = er (False, False) st1" "sh_reminderInjected st2 = sh_reminderInjected st1"
      and s1: "states1 = AList.update (runKey ctx) st2 states"
      using guard_observe_detect [OF g] Cons.prems(2) by (auto simp: stateFor_def)
    have "map_of ?states1 (runKey ctx) = Some st2" by (simp add: s s1 update_conv)
    from Cons.IH [OF l this u(2)] obtain st' where
      "replay_steps (gc_env cfg) ctx (steps_of ctx ops) (er (False, False) st2) = (o2, er (False, False) st')"
      "map_of states' (runKey ctx) = Some st'"
      "sh_reminderInjected st' = (sh_reminderInjected st2 \<or> list_ex (\<lambda>(op, _). op = MarkInjected ctx) ops)"
      by blast
    moreover obtain c' where "detect_step (gc_env cfg) ctx step None (er (False, False) st) = (c', er (False, False) st1, o1)"
      using detect_step_er [OF d] by blast
    moreover have "sh_reminderInjected st1 = sh_reminderInjected st"
      using detect_keeps_flags [OF d] by (simp add: flags_def)
    ultimately show ?thesis using e s(2) by (simp add: p op steps_of_def observed_step_def)
  qed
qed (simp add: steps_of_def)

text \<open>Before the first step of a Turn there is no state of it; the first step makes one.\<close>

lemma live_run_fresh:
  assumes "live_run cfg ctx ops states = (obs, states')" and "map_of states (runKey ctx) = None"
    and "list_all (\<lambda>(op, _). undisturbed ctx op) ops" and "run_facts ctx ops = Some (secret, marked)"
  shows "\<exists>st'. replay_steps (gc_env cfg) ctx (steps_of ctx ops) (newShadowState secret) = (obs, er (False, False) st') \<and>
    map_of states' (runKey ctx) = Some st' \<and> sh_reminderInjected st' = marked"
  using assms
proof (induction ops arbitrary: states obs)
  case (Cons p ops)
  obtain op fresh where p: "p = (op, fresh)" by (cases p)
  let ?states1 = "snd (guard_step cfg fresh op states)"
  obtain o2 where l: "live_run cfg ctx ops ?states1 = (o2, states')" and obs: "obs = op_observations cfg fresh ctx op states @ o2"
    using Cons.prems(1) by (auto simp: p split: prod.splits)
  have u: "undisturbed ctx op" "list_all (\<lambda>(op, _). undisturbed ctx op) ops"
    using Cons.prems(3) by (simp_all add: p)
  show ?case
  proof (cases "observed_step ctx op")
    case None
    have "map_of ?states1 (runKey ctx) = None" and "obs = o2"
      using guard_step_other [OF u(1) None, of cfg fresh states] Cons.prems(2) obs by simp_all
    with Cons.IH [OF l this(1) u(2)] Cons.prems(4) show ?thesis
      by (simp add: p steps_of_def None)
  next
    case (Some step)
    then obtain flag where op: "op = Observe ctx step flag"
      by (auto simp: observed_step_def split: guard_op.splits if_splits)
    obtain r o1 states1 where g: "guard_observe cfg ctx step flag fresh states = ((r, o1), states1)"
      by (metis prod_cases3 prod.collapse)
    have s: "?states1 = states1" "obs = o1 @ o2"
      using g obs by (simp_all add: op guard_step_def op_observations_def)
    have secret: "secret = fresh" "marked = list_ex (\<lambda>(op, _). op = MarkInjected ctx) ops"
      using Cons.prems(4) Some by (simp_all add: p)
    obtain c st1 st2 where d: "detect_step (gc_env cfg) ctx step (if flag then gc_afterOccurrences cfg else None) (newShadowState fresh) = (c, st1, o1)"
      and e: "er (False, False) st2 = er (False, False) st1" "sh_reminderInjected st2 = sh_reminderInjected st1"
      and s1: "states1 = AList.update (runKey ctx) st2 states"
      using guard_observe_detect [OF g] Cons.prems(2) by (auto simp: stateFor_def)
    have "map_of ?states1 (runKey ctx) = Some st2" by (simp add: s s1 update_conv)
    from live_run_replay [OF l this u(2)] obtain st' where
      "replay_steps (gc_env cfg) ctx (steps_of ctx ops) (er (False, False) st2) = (o2, er (False, False) st')"
      "map_of states' (runKey ctx) = Some st'"
      "sh_reminderInjected st' = (sh_reminderInjected st2 \<or> list_ex (\<lambda>(op, _). op = MarkInjected ctx) ops)"
      by blast
    moreover obtain c' where "detect_step (gc_env cfg) ctx step None (newShadowState fresh) = (c', er (False, False) st1, o1)"
      using detect_step_er [OF d, of None "(False, False)"] by auto
    moreover have "\<not> sh_reminderInjected st1"
      using detect_keeps_flags [OF d] by (simp add: flags_def newShadowState_def)
    ultimately show ?thesis using e s(2) by (simp add: p op steps_of_def observed_step_def secret)
  qed
qed simp

text \<open>C24: A replay of the steps of a Turn finds what the live guard observed of it and sums it up alike. Several
  Turns may run side by side, reminders may be allowed or not at each step, come back or not and be marked as
  injected or not: the replay of the recorded steps from the secret the Turn drew at its first step yields the
  observations the guard sent out for the Turn, and the summary that finishing the Turn yields but for the mark of
  an injected reminder, which only the live guard knows. This is for a Turn whose streaks were not cleared, as
  the host does when a step is aborted or the guard is switched off.\<close>

theorem replay_matches_guard:
  assumes cfg: "createRunawayGuard hmac options = Inr cfg"
    and fresh: "map_of states (runKey ctx) = None" and ops: "list_all (\<lambda>(op, _). undisturbed ctx op) ops"
    and first: "run_facts ctx ops = Some (secret, marked)"
    and live: "live_run cfg ctx ops states = (obs, states')"
  shows "\<exists>summary metrics. replayRunawayGuardTrajectory hmac secret (go_toolPolicies options)
      (go_maxFingerprintBytes options) ctx (steps_of ctx ops) = Inr (obs, summary, metrics) \<and>
    \<not> su_reminderInjected summary \<and> fst (finishTurn ctx states') = Some (summary\<lparr>su_reminderInjected := marked\<rparr>)"
proof -
  obtain bytes where b: "positiveInteger_guard (max_bytes (go_maxFingerprintBytes options)) ''maxFingerprintBytes'' = Inr bytes"
    and env: "gc_env cfg = \<lparr>pe_hmac = hmac, pe_maxBytes = bytes, pe_policies = go_toolPolicies options\<rparr>"
    using cfg by (auto simp: createRunawayGuard_def result_simps)
  from live_run_fresh [OF live fresh ops first] obtain st' where
    "replay_steps (gc_env cfg) ctx (steps_of ctx ops) (newShadowState secret) = (obs, er (False, False) st')"
    "map_of states' (runKey ctx) = Some st'" "sh_reminderInjected st' = marked" by blast
  then show ?thesis
    by (simp add: replayRunawayGuardTrajectory_def b env finishTurn_def snapshotTurnSummary_def)
qed

definition tool_call :: "string \<Rightarrow> string \<Rightarrow> js \<Rightarrow> replay_step" where
  "tool_call i name arguments =
     \<lparr>sp_message = \<lparr>gm_assistant = True, gm_content = [ToolCall i name arguments], gm_totalTokens = JNum (Fin 2)\<rparr>,
      sp_toolResults = [(i, \<lparr>gr_toolName = name, gr_content = JArr [], gr_details = JUndef, gr_isError = False\<rparr>)],
      sp_blocked = [], sp_verifiedProgress = [], sp_provenance = []\<rparr>"

definition demo_options :: guard_options where
  "demo_options = \<lparr>go_toolPolicies = (\<lambda>_. None), go_maxFingerprintBytes = None, go_remindAfterOccurrences = Some (Fin 3)\<rparr>"

definition demo_run :: run_identity where
  "demo_run = \<lparr>ri_sessionId = ''s'', ri_turnId = ''t'', ri_agentName = ''a''\<rparr>"

definition demo_config :: "string guard_config" where
  "demo_config = \<lparr>gc_env = \<lparr>pe_hmac = (\<lambda>k t. k @ t), pe_maxBytes = 16384, pe_policies = (\<lambda>_. None)\<rparr>,
                  gc_afterOccurrences = Some 3\<rparr>"

lemma demo_config: "createRunawayGuard (\<lambda>k t. k @ t) demo_options = Inr demo_config"
  by (simp add: createRunawayGuard_def demo_options_def demo_config_def max_bytes_def positiveInteger_guard_def
      integerAtLeast_def DEFAULT_MAX_FINGERPRINT_BYTES_def)

theorem replay_matches_guard_witness:
  "\<exists>obs states' summary metrics.
     live_run demo_config demo_run [(Observe demo_run (tool_call ''1'' ''ls'' JNull) True, ''k''),
       (MarkInjected demo_run, ''l''), (Observe demo_run (tool_call ''2'' ''ls'' JNull) False, ''m'')] [] = (obs, states') \<and>
     replayRunawayGuardTrajectory (\<lambda>k t. k @ t) ''k'' (go_toolPolicies demo_options) (go_maxFingerprintBytes demo_options)
       demo_run [tool_call ''1'' ''ls'' JNull, tool_call ''2'' ''ls'' JNull] = Inr (obs, summary, metrics) \<and>
     fst (finishTurn demo_run states') = Some (summary\<lparr>su_reminderInjected := True\<rparr>)"
proof -
  let ?ops = "[(Observe demo_run (tool_call ''1'' ''ls'' JNull) True, ''k''),
    (MarkInjected demo_run, ''l''), (Observe demo_run (tool_call ''2'' ''ls'' JNull) False, ''m'')]"
  obtain obs states' where l: "live_run demo_config demo_run ?ops [] = (obs, states')"
    by (metis surj_pair)
  have ok: "list_all (\<lambda>(op, _). undisturbed demo_run op) ?ops"
    by (simp add: undisturbed_def op_identity_def)
  have facts: "run_facts demo_run ?ops = Some (''k'', True)"
    and steps: "steps_of demo_run ?ops = [tool_call ''1'' ''ls'' JNull, tool_call ''2'' ''ls'' JNull]"
    by (simp_all add: observed_step_def steps_of_def)
  show ?thesis
    using replay_matches_guard [OF demo_config _ ok facts l] l unfolding steps by auto
qed

section \<open>A Turn is reminded at most once\<close>

fun guard_run ::
  "'s guard_config \<Rightarrow> 's \<Rightarrow> guard_op list \<Rightarrow> 's guard_states \<Rightarrow> (run_identity \<times> reminder) list \<times> 's guard_states" where
  "guard_run cfg secret [] states = ([], states)"
| "guard_run cfg secret (op # ops) states =
     (let (rs, states1) = guard_step cfg secret op states;
          (rs', states2) = guard_run cfg secret ops states1
      in (rs @ rs', states2))"

definition attempted :: "'s guard_states \<Rightarrow> string \<Rightarrow> bool" where
  "attempted states k = (case map_of states k of None \<Rightarrow> False | Some st \<Rightarrow> sh_reminderAttempted st)"

lemma attempted_update: "attempted (AList.update k st states) k' = (if k' = k then sh_reminderAttempted st else attempted states k')"
  by (simp add: attempted_def update_conv')

lemma guard_observe_attempted:
  assumes "guard_observe cfg ctx step flag secret states = ((r, obs), states')"
  shows "attempted states' k = (attempted states k \<or> (k = runKey ctx \<and> r \<noteq> None))"
    and "r \<noteq> None \<Longrightarrow> \<not> attempted states (runKey ctx)"
proof -
  let ?t = "if flag then gc_afterOccurrences cfg else None"
  obtain c st o1 where d: "detect_step (gc_env cfg) ctx step ?t (stateFor secret ctx states) = (c, st, o1)"
    by (metis prod_cases3)
  have same: "sh_reminderAttempted st = attempted states (runKey ctx)"
    using detect_keeps_flags [OF d]
    by (auto simp: flags_def stateFor_def attempted_def newShadowState_def split: option.splits)
  define res where "res = (case ?t of None \<Rightarrow> (None, st) | Some t \<Rightarrow> takePreferredReminder c ctx t st)"
  have res: "((r, obs), states') = ((fst res, o1), AList.update (runKey ctx) (snd res) states)"
    using assms unfolding guard_observe_def Let_def d prod.case res_def [symmetric]
    by (simp add: case_prod_unfold)
  have taken: "sh_reminderAttempted (snd res) = (sh_reminderAttempted st \<or> fst res \<noteq> None)"
    "fst res \<noteq> None \<Longrightarrow> \<not> sh_reminderAttempted st"
    by (auto simp: res_def takePreferredReminder_def split: option.splits if_splits)
  show "attempted states' k = (attempted states k \<or> (k = runKey ctx \<and> r \<noteq> None))"
    using res taken(1) same by (auto simp: attempted_update)
  show "r \<noteq> None \<Longrightarrow> \<not> attempted states (runKey ctx)" using res taken(2) same by simp
qed

lemma attempted_other_ops:
  "attempted (guard_clear ctx states) k = attempted states k"
  "attempted (markReminderInjected ctx states) k = attempted states k"
  "runKey ctx \<noteq> k \<Longrightarrow> attempted (snd (finishTurn ctx states)) k = attempted states k"
  by (auto simp: guard_clear_def markReminderInjected_def finishTurn_def attempted_def clearDetectionStreaks_def
      update_conv' delete_conv' split: option.splits)

definition finishes :: "string \<Rightarrow> guard_op \<Rightarrow> bool" where
  "finishes k op = (case op of Finish ctx \<Rightarrow> runKey ctx = k | _ \<Rightarrow> False)"

lemma guard_step_reminders:
  assumes "guard_step cfg secret op states = (rs, states1)" "\<not> finishes k op"
  shows "length (filter (\<lambda>(c, _). runKey c = k) rs) + (if attempted states1 k then 0 else 1) \<le>
    (if attempted states k then 0 else (1 :: nat))"
proof (cases op)
  case (Observe ctx step flag)
  obtain r obs s1 where g: "guard_observe cfg ctx step flag secret states = ((r, obs), s1)"
    by (metis prod_cases3 prod.collapse)
  have "s1 = states1" "rs = (case r of None \<Rightarrow> [] | Some x \<Rightarrow> [(ctx, x)])"
    using assms(1) g by (simp_all add: guard_step_def Observe)
  then show ?thesis using guard_observe_attempted [OF g] by (auto split: option.splits)
qed (use assms in \<open>auto simp: guard_step_def finishes_def attempted_other_ops\<close>)

lemma guard_run_reminders:
  "list_all (\<lambda>op. \<not> finishes k op) ops \<Longrightarrow>
   length (filter (\<lambda>(c, _). runKey c = k) (fst (guard_run cfg secret ops states))) \<le>
   (if attempted states k then 0 else 1)"
proof (induction ops arbitrary: states)
  case (Cons op ops)
  obtain rs states1 where g: "guard_step cfg secret op states = (rs, states1)" by (metis surj_pair)
  have "length (filter (\<lambda>(c, _). runKey c = k) (fst (guard_run cfg secret ops states1))) \<le>
      (if attempted states1 k then 0 else 1)"
    using Cons.prems by (intro Cons.IH) simp
  with guard_step_reminders [OF g, of k] Cons.prems show ?case
    by (simp add: g case_prod_unfold Let_def split: if_splits)
qed simp

text \<open>C11: A Turn is reminded at most once. Whatever steps are observed, cleared or marked, for this Turn and any
  others, and however often the detectors propose a reminder, at most one reminder for the Turn comes back
  before the Turn is finished.\<close>

theorem reminded_at_most_once:
  assumes "list_all (\<lambda>op. \<not> finishes k op) ops"
  shows "length (filter (\<lambda>(c, _). runKey c = k) (fst (guard_run cfg secret ops states))) \<le> 1"
  using guard_run_reminders [OF assms, of cfg secret states] by (simp split: if_splits)

theorem reminded_at_most_once_witness:
  "length (filter (\<lambda>(c, _). runKey c = ''s'' @ [CHR 0x00] @ ''t'') (fst (guard_run demo_config ''k''
     [Observe demo_run (tool_call ''1'' ''ls'' JNull) True, ClearStreaks demo_run,
      Observe demo_run (tool_call ''2'' ''ls'' JNull) True] []))) \<le> 1"
  by (rule reminded_at_most_once) (simp add: finishes_def)

end
