(* ===== verification/GuardRepeat.thy ===== *)
theory GuardRepeat
  imports GuardProps
begin

text \<open>
  What the detectors of the runaway guard count: the unbroken run of a repeated action, exactly, and the check
  for alternating actions, which does not do what it is written for.
\<close>

section \<open>What one detector may change\<close>

text \<open>Statistics, and observations of the given kinds.\<close>

definition extends :: "signal_kind set \<Rightarrow> 's sinks \<Rightarrow> 's sinks \<Rightarrow> bool" where
  "extends K s s' \<longleftrightarrow> (\<exists>f new. fst s' = (fst s)\<lparr>sh_stats := f\<rparr> \<and> snd s' = snd s @ new \<and>
     (\<forall>ob \<in> set new. on_signalKind ob \<in> K))"

lemma extends_refl: "extends K s s"
proof -
  have "fst s = (fst s)\<lparr>sh_stats := sh_stats (fst s)\<rparr>" by simp
  then show ?thesis unfolding extends_def by (intro exI [of _ "sh_stats (fst s)"] exI [of _ "[]"]) simp
qed

lemma extends_trans: "extends K s s' \<Longrightarrow> extends K s' s'' \<Longrightarrow> extends K s s''"
  unfolding extends_def by fastforce

lemma extends_mono: "extends K s s' \<Longrightarrow> K \<subseteq> L \<Longrightarrow> extends L s s'"
  unfolding extends_def by blast

lemma extends_recordMax: "extends K (st, obs) (recordMaxOccurrences kind n st, obs)"
  unfolding extends_def recordMaxOccurrences_def Let_def by auto

lemma extends_emit: "kind \<in> K \<Longrightarrow> extends K s (emitObservation ctx kind n s)"
  unfolding extends_def emitObservation_def recordMaxOccurrences_def Let_def
  by (cases s) auto

lemma extends_frame:
  assumes "extends K s s'"
  shows "sh_detectActions (fst s') = sh_detectActions (fst s)" "sh_pollingActions (fst s') = sh_pollingActions (fst s)"
    "sh_detectResults (fst s') = sh_detectResults (fst s)" "sh_errorFamilies (fst s') = sh_errorFamilies (fst s)"
    "sh_recentBatches (fst s') = sh_recentBatches (fst s)" "sh_activeAbab (fst s') = sh_activeAbab (fst s)"
    "sh_stepIndex (fst s') = sh_stepIndex (fst s)"
  using assms by (auto simp: extends_def)

lemma length_emit: "length (snd (emitObservation ctx kind n s)) = Suc (length (snd s))"
  by (cases s) (simp add: emitObservation_def Let_def)

definition of_kind :: "signal_kind \<Rightarrow> observation list \<Rightarrow> observation list" where
  "of_kind kind obs = filter (\<lambda>ob. on_signalKind ob = kind) obs"

lemma extends_of_kind: "extends K s s' \<Longrightarrow> kind \<notin> K \<Longrightarrow> of_kind kind (snd s') = of_kind kind (snd s)"
  by (auto simp: extends_def of_kind_def filter_empty_conv)

section \<open>Counting\<close>

lemma count_of_update: "count_of (AList.update k n al) k' = (if k' = k then n else count_of al k')"
  by (simp add: count_of_def update_conv')

lemma keys_update: "fst ` set (AList.update k n al) = insert k (fst ` set al)"
  using dom_update [of k n al] by (simp add: dom_map_of_conv_image_fst)

lemma occurrence_fold:
  assumes "distinct (map fst counts)"
  shows "distinct (map fst (foldl (\<lambda>counts v. AList.update v (count_of counts v + 1) counts) counts vs)) \<and>
    (\<forall>k. count_of (foldl (\<lambda>counts v. AList.update v (count_of counts v + 1) counts) counts vs) k =
       count_of counts k + count_list vs k) \<and>
    fst ` set (foldl (\<lambda>counts v. AList.update v (count_of counts v + 1) counts) counts vs) = fst ` set counts \<union> set vs"
  using assms
proof (induction vs arbitrary: counts)
  case (Cons v vs)
  have "distinct (map fst (AList.update v (count_of counts v + 1) counts))"
    using Cons.prems by (rule distinct_update)
  from Cons.IH [OF this] show ?case
    unfolding keys_update count_of_update foldl_Cons by auto
qed simp

lemma occurrenceCounts:
  "distinct (map fst (occurrenceCounts vs))" "count_of (occurrenceCounts vs) k = count_list vs k"
  "fst ` set (occurrenceCounts vs) = set vs"
  using occurrence_fold [of "[]" vs] by (simp_all add: occurrenceCounts_def count_of_def)

lemma in_occurrenceCounts:
  assumes "(k, n) \<in> set (occurrenceCounts vs)" shows "k \<in> set vs \<and> n = count_list vs k"
proof -
  have "map_of (occurrenceCounts vs) k = Some n" using assms occurrenceCounts(1) by simp
  then have "count_of (occurrenceCounts vs) k = n" by (simp add: count_of_def)
  then show ?thesis using assms occurrenceCounts(2,3) [of vs] by force
qed

lemma set_occurrenceCounts: "set (occurrenceCounts vs) = (\<lambda>k. (k, count_list vs k)) ` set vs"
proof
  show "set (occurrenceCounts vs) \<subseteq> (\<lambda>k. (k, count_list vs k)) ` set vs" using in_occurrenceCounts by fast
  show "(\<lambda>k. (k, count_list vs k)) ` set vs \<subseteq> set (occurrenceCounts vs)"
  proof
    fix p assume "p \<in> (\<lambda>k. (k, count_list vs k)) ` set vs"
    then obtain k where k: "k \<in> set vs" "p = (k, count_list vs k)" by blast
    then obtain n where "(k, n) \<in> set (occurrenceCounts vs)" using occurrenceCounts(3) by force
    then show "p \<in> set (occurrenceCounts vs)" using in_occurrenceCounts k by metis
  qed
qed

section \<open>One detector of repeated keys\<close>

definition crosses :: "(string \<times> nat) list \<Rightarrow> nat \<Rightarrow> string \<times> nat \<Rightarrow> bool" where
  "crosses previous t = (\<lambda>(k, n). count_of previous k < t \<and> count_of previous k + n \<ge> t)"

lemma repeat_counts_closed:
  assumes "distinct (map fst cs)"
    and "repeat_counts ctx prev kind t el cs (nxt, (st, obs), c) = (n1, (st1, o1), c1)"
  shows "count_of n1 k = (case map_of cs k of None \<Rightarrow> count_of nxt k | Some n \<Rightarrow> count_of prev k + n) \<and>
    extends {kind} (st, obs) (st1, o1) \<and>
    length o1 = length obs + length (filter (crosses prev 2) cs) \<and>
    set c1 = set c \<union> {kind' . kind' = kind \<and> isReminderSignalKind kind \<and>
      (\<exists>th. t = Some th \<and> (\<exists>p \<in> set cs. el (fst p) \<and> crosses prev th p))}"
  using assms
proof (induction cs arbitrary: nxt st obs c)
  case Nil
  then show ?case by (simp add: extends_refl)
next
  case (Cons p cs)
  obtain k0 n where p: "p = (k0, n)" by (cases p)
  let ?s1 = "(recordMaxOccurrences kind (count_of prev k0 + n) st, obs)"
  define s2 where "s2 = (if crosses prev 2 (k0, n) then emitObservation ctx kind 2 ?s1 else ?s1)"
  define c2 where "c2 = (case t of None \<Rightarrow> c | Some th \<Rightarrow>
      if el k0 \<and> crosses prev th (k0, n) \<and> isReminderSignalKind kind then List.insert kind c else c)"
  obtain st2 o2 where s2': "s2 = (st2, o2)" by (cases s2)
  have r: "repeat_counts ctx prev kind t el cs (AList.update k0 (count_of prev k0 + n) nxt, (st2, o2), c2) =
      (n1, (st1, o1), c1)"
    using Cons.prems(2) unfolding p s2' [symmetric] s2_def c2_def crosses_def prod.case
    by (simp add: Let_def conj_ac cong: option.case_cong)
  have e: "extends {kind} (st, obs) s2"
    using extends_recordMax [of "{kind}" st obs kind "count_of prev k0 + n"]
      extends_trans [OF _ extends_emit [of kind "{kind}" ?s1 ctx 2]]
    by (auto simp: s2_def)
  have l: "length o2 = length obs + (if crosses prev 2 p then 1 else 0)"
    using arg_cong [OF s2', of snd] by (auto simp: s2_def p length_emit split: if_splits)
  have d: "distinct (map fst cs)" "map_of cs k0 = None"
    using Cons.prems(1) p by (auto simp: map_of_eq_None_iff)
  note ih = Cons.IH [OF d(1) r]
  have "count_of n1 k = (case map_of (p # cs) k of None \<Rightarrow> count_of nxt k | Some n \<Rightarrow> count_of prev k + n)"
    using ih d(2) by (auto simp: p count_of_update split: option.splits)
  moreover have "extends {kind} (st, obs) (st1, o1)" using extends_trans [OF e] ih s2' by simp
  moreover have "length o1 = length obs + length (filter (crosses prev 2) (p # cs))" using ih l by simp
  moreover have "set c2 = set c \<union> {kind'. kind' = kind \<and> isReminderSignalKind kind \<and>
      (\<exists>th. t = Some th \<and> el k0 \<and> crosses prev th (k0, n))}"
    by (auto simp: c2_def split: option.splits)
  ultimately show ?case using ih p by auto
qed

lemma observeRepeatedKeys_other:
  assumes "observeRepeatedKeys ctx prev cur kind t el (st, obs) c = (n1, (st1, o1), c1)"
  shows "extends {kind} (st, obs) (st1, o1)" "kind' \<noteq> kind \<Longrightarrow> kind' \<in> set c1 \<longleftrightarrow> kind' \<in> set c"
  using repeat_counts_closed [OF occurrenceCounts(1) assms [unfolded observeRepeatedKeys_def]] by auto

text \<open>The unbroken run of a key: how often it occurred in the latest steps that all had it, latest first.\<close>

fun unbroken :: "string \<Rightarrow> string list list \<Rightarrow> nat" where
  "unbroken k [] = 0"
| "unbroken k (s # ss) = (if k \<in> set s then count_list s k + unbroken k ss else 0)"

definition tracks :: "(string \<times> nat) list \<Rightarrow> string list list \<Rightarrow> bool" where
  "tracks counts past \<longleftrightarrow> (\<forall>k. count_of counts k = unbroken k past)"

lemma crosses_unbroken:
  "tracks prev past \<Longrightarrow> k \<in> set cur \<Longrightarrow>
   crosses prev t (k, count_list cur k) \<longleftrightarrow> unbroken k past < t \<and> unbroken k (cur # past) \<ge> t"
  by (simp add: crosses_def tracks_def add.commute)

lemma observeRepeatedKeys_exact:
  assumes tr: "tracks prev past"
    and r: "observeRepeatedKeys ctx prev cur kind t el (st, obs) c = (n1, (st1, o1), c1)"
  shows "tracks n1 (cur # past)" "extends {kind} (st, obs) (st1, o1)"
    "length (of_kind kind o1) = length (of_kind kind obs) +
       card {k \<in> set cur. unbroken k past < 2 \<and> unbroken k (cur # past) \<ge> 2}"
    "set c1 = set c \<union> {kind'. kind' = kind \<and> isReminderSignalKind kind \<and> (\<exists>th. t = Some th \<and>
       (\<exists>k \<in> set cur. el k \<and> unbroken k past < th \<and> unbroken k (cur # past) \<ge> th))}"
proof -
  note closed = repeat_counts_closed [OF occurrenceCounts(1) r [unfolded observeRepeatedKeys_def]]
  show e: "extends {kind} (st, obs) (st1, o1)" using closed by blast
  have "count_of n1 k = unbroken k (cur # past)" for k
  proof (cases "k \<in> set cur")
    case True
    then have "(k, count_list cur k) \<in> set (occurrenceCounts cur)" by (simp add: set_occurrenceCounts)
    then have "map_of (occurrenceCounts cur) k = Some (count_list cur k)" using occurrenceCounts(1) by simp
    then show ?thesis using closed [of k] tr True by (simp add: tracks_def)
  next
    case False
    then have "map_of (occurrenceCounts cur) k = None"
      using occurrenceCounts(3) by (metis map_of_eq_None_iff)
    then show ?thesis using closed [of k] False by (simp add: count_of_def)
  qed
  then show "tracks n1 (cur # past)" by (simp add: tracks_def)
  obtain new where new: "o1 = obs @ new" "\<forall>ob \<in> set new. on_signalKind ob = kind"
    using e by (auto simp: extends_def)
  have "distinct (occurrenceCounts cur)" using occurrenceCounts(1) by (simp add: distinct_map)
  then have "length (filter (crosses prev 2) (occurrenceCounts cur)) =
      card {p \<in> set (occurrenceCounts cur). crosses prev 2 p}"
    by (simp add: distinct_length_filter Int_def conj_commute)
  also have "{p \<in> set (occurrenceCounts cur). crosses prev 2 p} =
      (\<lambda>k. (k, count_list cur k)) ` {k \<in> set cur. unbroken k past < 2 \<and> unbroken k (cur # past) \<ge> 2}"
    using crosses_unbroken [OF tr] by (auto simp: set_occurrenceCounts)
  also have "card \<dots> = card {k \<in> set cur. unbroken k past < 2 \<and> unbroken k (cur # past) \<ge> 2}"
    by (intro card_image) (simp add: inj_on_def)
  finally have "length new = card {k \<in> set cur. unbroken k past < 2 \<and> unbroken k (cur # past) \<ge> 2}"
    using closed new(1) by simp
  moreover have "of_kind kind new = new" using new(2) by (simp add: of_kind_def)
  ultimately show "length (of_kind kind o1) = length (of_kind kind obs) +
       card {k \<in> set cur. unbroken k past < 2 \<and> unbroken k (cur # past) \<ge> 2}"
    using new(1) by (simp add: of_kind_def)
  show "set c1 = set c \<union> {kind'. kind' = kind \<and> isReminderSignalKind kind \<and> (\<exists>th. t = Some th \<and>
       (\<exists>k \<in> set cur. el k \<and> unbroken k past < th \<and> unbroken k (cur # past) \<ge> th))}"
    using closed crosses_unbroken [OF tr] by (auto simp: set_occurrenceCounts)
qed

section \<open>The other detectors\<close>

lemma observe_progress_view_extends:
  "extends {PollingRepeat, UnchangedProgressRepeat} (pa_sinks acc)
     (pa_sinks (observe_progress_view ctx prev t acc v)) \<and>
   set (pa_candidates (observe_progress_view ctx prev t acc v)) \<subseteq> set (pa_candidates acc) \<union> {UnchangedProgressRepeat}"
proof (cases v)
  case (ProgressObservation kind l k verified continuous eligible)
  obtain st obs where sk: "pa_sinks acc = (st, obs)" by (cases "pa_sinks acc")
  define signal where "signal = (if kind = Polling then PollingRepeat else UnchangedProgressRepeat)"
  have "extends {PollingRepeat, UnchangedProgressRepeat} (st, obs)
      (if c then emitObservation ctx signal 2 (recordMaxOccurrences signal n st, obs)
       else (recordMaxOccurrences signal n st, obs))" for c n
    by (auto simp: signal_def intro: extends_recordMax extends_trans [OF extends_recordMax extends_emit])
  then show ?thesis
    unfolding observe_progress_view_def ProgressObservation progress_view.case Let_def sk prod.case signal_def
    by (auto simp: extends_refl sk)
qed (auto simp: observe_progress_view_def extends_refl)

lemma foldl_progress_extends:
  "extends {PollingRepeat, UnchangedProgressRepeat} (pa_sinks acc)
     (pa_sinks (foldl (observe_progress_view ctx prev t) acc vs)) \<and>
   set (pa_candidates (foldl (observe_progress_view ctx prev t) acc vs)) \<subseteq> set (pa_candidates acc) \<union> {UnchangedProgressRepeat}"
proof (induction vs arbitrary: acc)
  case (Cons v vs)
  from Cons.IH [of "observe_progress_view ctx prev t acc v"] observe_progress_view_extends [of acc ctx prev t v]
  show ?case by (auto intro: extends_trans)
qed (auto simp: extends_refl)

lemma observeProgress_extends:
  assumes "observeProgress ctx vs t s c = (n1, s1, c1)"
  shows "extends {PollingRepeat, UnchangedProgressRepeat} s s1 \<and>
    set c1 \<subseteq> set c \<union> {UnchangedProgressRepeat, PollingRepeat}"
  using assms foldl_progress_extends [of "\<lparr>pa_next = keep_continuous (sh_progress (fst s)), pa_polling = [],
    pa_sinks = s, pa_candidates = c\<rparr>" ctx "sh_progress (fst s)" t vs]
  by (auto simp: observeProgress_def Let_def split: option.splits if_splits)

lemma progress_view_keeps:
  "set (pa_candidates acc) \<subseteq> set (pa_candidates (observe_progress_view ctx prev t acc v))"
  by (cases v) (auto simp: observe_progress_view_def Let_def split: prod.splits)

lemma foldl_progress_keeps:
  "set (pa_candidates acc) \<subseteq> set (pa_candidates (foldl (observe_progress_view ctx prev t) acc vs))"
proof (induction vs arbitrary: acc)
  case (Cons v vs)
  from Cons.IH [of "observe_progress_view ctx prev t acc v"] progress_view_keeps [of acc ctx prev t v]
  show ?case by auto
qed simp

lemma observeProgress_keeps:
  assumes "observeProgress ctx vs t s c = (n1, s1, c1)" "kind \<notin> {UnchangedProgressRepeat, PollingRepeat}"
  shows "kind \<in> set c1 \<longleftrightarrow> kind \<in> set c"
  using assms observeProgress_extends [OF assms(1)]
    foldl_progress_keeps [of "\<lparr>pa_next = keep_continuous (sh_progress (fst s)), pa_polling = [],
      pa_sinks = s, pa_candidates = c\<rparr>" ctx "sh_progress (fst s)" t vs]
  by (auto simp: observeProgress_def Let_def split: option.splits if_splits)

lemma observeAbab_keeps:
  "sh_detectActions (fst (observeAbab ctx b s)) = sh_detectActions (fst s)"
  "kind \<noteq> AbabActionCycle \<Longrightarrow> of_kind kind (snd (observeAbab ctx b s)) = of_kind kind (snd s)"
proof -
  obtain st obs where s: "s = (st, obs)" by (cases s)
  have *: "sh_detectActions (fst (observeAbab ctx b s)) = sh_detectActions (fst s) \<and>
    (kind \<noteq> AbabActionCycle \<longrightarrow> of_kind kind (snd (observeAbab ctx b s)) = of_kind kind (snd s))"
  proof (cases "truthy b")
    case (Some key)
    show ?thesis
    proof (cases "\<exists>x y z w. push_batch (sh_recentBatches st) key = [x, y, z, w]")
      case True
      have e: "fst (emitObservation ctx AbabActionCycle 2 (st', obs)) = st'\<lparr>sh_stats := f\<rparr> \<Longrightarrow> True" for st' f by simp
      show ?thesis using True
        by (auto simp: s observeAbab_def Some Let_def of_kind_def emitObservation_def recordMaxOccurrences_def)
    next
      case False
      then have "observeAbab ctx b s = (st\<lparr>sh_recentBatches := push_batch (sh_recentBatches st) key\<rparr>, obs)"
        by (auto simp: s observeAbab_def Some Let_def split: list.split)
      then show ?thesis by (simp add: s)
    qed
  qed (simp add: s observeAbab_def)
  then show "sh_detectActions (fst (observeAbab ctx b s)) = sh_detectActions (fst s)"
    "kind \<noteq> AbabActionCycle \<Longrightarrow> of_kind kind (snd (observeAbab ctx b s)) = of_kind kind (snd s)" by simp_all
qed

section \<open>A step\<close>

text \<open>The first detector, then the others, which keep what it left, then the check for alternation.\<close>

lemma observeStep_split:
  assumes step: "observeStep ctx v t s = (c, s')"
  obtains n1 s1 p1 c1 s0 where
    "observeRepeatedKeys ctx (sh_detectActions (fst s)) (sv_detectActions v) ExactActionRepeat t (\<lambda>_. True) s [] =
      (n1, (s1, p1), c1)"
    "sh_detectActions (fst s0) = n1" "of_kind ExactActionRepeat (snd s0) = of_kind ExactActionRepeat p1"
    "ExactActionRepeat \<in> set c \<longleftrightarrow> ExactActionRepeat \<in> set c1" "s' = observeAbab ctx (sv_batch v) s0"
    "sh_recentBatches (fst s0) = sh_recentBatches (fst s)" "sh_activeAbab (fst s0) = sh_activeAbab (fst s)"
    "of_kind AbabActionCycle (snd s0) = of_kind AbabActionCycle (snd s)"
proof -
  obtain st obs where s: "s = (st, obs)" by (cases s)
  obtain n1 s1 p1 c1 where 1: "observeRepeatedKeys ctx (sh_detectActions st) (sv_detectActions v) ExactActionRepeat t
      (\<lambda>_. True) (st, obs) [] = (n1, (s1, p1), c1)" by (metis prod_cases4 prod.collapse)
  let ?s1 = "s1\<lparr>sh_detectActions := n1\<rparr>"
  obtain n2 s2 p2 c2 where 2: "observeRepeatedKeys ctx (sh_pollingActions s1) (sv_pollingActions v) PollingRepeat t
      (\<lambda>_. False) (?s1, p1) c1 = (n2, (s2, p2), c2)" by (metis prod_cases4 prod.collapse)
  let ?s2 = "s2\<lparr>sh_pollingActions := n2\<rparr>"
  obtain n3 s3 p3 c3 where 3: "observeRepeatedKeys ctx (sh_detectResults s2) (sv_detectResults v) ExactResultRepeat t
      (\<lambda>_. False) (?s2, p2) c2 = (n3, (s3, p3), c3)" by (metis prod_cases4 prod.collapse)
  let ?s3 = "s3\<lparr>sh_detectResults := n3\<rparr>"
  obtain n4 s4 p4 c4 where 4: "observeRepeatedKeys ctx (sh_errorFamilies s3) (sv_errorFamilies v) SameErrorFamily t
      (\<lambda>k. k \<in> set (sv_remindableErrors v)) (?s3, p3) c3 = (n4, (s4, p4), c4)" by (metis prod_cases4 prod.collapse)
  let ?s4 = "s4\<lparr>sh_errorFamilies := n4\<rparr>"
  obtain n5 s5 p5 c5 where 5: "observeProgress ctx (sv_progress v) t (?s4, p4) c4 = (n5, (s5, p5), c5)"
    by (metis prod_cases4 prod.collapse)
  let ?s5 = "s5\<lparr>sh_progress := n5\<rparr>"
  have s': "s' = observeAbab ctx (sv_batch v) (?s5, p5)" and c: "c = c5"
    using step by (simp_all add: s observeStep_def Let_def 1 2 3 4 5)
  note o1 = observeRepeatedKeys_other [OF 1] and o2 = observeRepeatedKeys_other [OF 2]
    and o3 = observeRepeatedKeys_other [OF 3] and o4 = observeRepeatedKeys_other [OF 4]
    and o5 = observeProgress_extends [OF 5, THEN conjunct1]
  have frame: "sh_detectActions s5 = n1" "sh_recentBatches s5 = sh_recentBatches st" "sh_activeAbab s5 = sh_activeAbab st"
    using extends_frame [OF o1(1)] extends_frame [OF o2(1)] extends_frame [OF o3(1)] extends_frame [OF o4(1)]
      extends_frame [OF o5] by simp_all
  have keep: "of_kind kind p5 = of_kind kind p1"
    if "kind \<notin> {PollingRepeat, ExactResultRepeat, SameErrorFamily, UnchangedProgressRepeat}" for kind
    using that extends_of_kind [OF o2(1), of kind] extends_of_kind [OF o3(1), of kind]
      extends_of_kind [OF o4(1), of kind] extends_of_kind [OF o5, of kind] by simp
  have "ExactActionRepeat \<in> set c \<longleftrightarrow> ExactActionRepeat \<in> set c1"
    using o2(2) o3(2) o4(2) observeProgress_keeps [OF 5, of ExactActionRepeat] by (simp add: c)
  moreover have "of_kind AbabActionCycle p1 = of_kind AbabActionCycle obs"
    using extends_of_kind [OF o1(1), of AbabActionCycle] by simp
  ultimately show thesis
    using frame keep [of ExactActionRepeat] keep [of AbabActionCycle] 1 s'
    by (intro that [of n1 s1 p1 c1 "(?s5, p5)"]) (simp_all add: s)
qed

lemma observeStep_actions:
  assumes tr: "tracks (sh_detectActions (fst s)) past"
    and step: "observeStep ctx v t s = (c, s')"
  shows "tracks (sh_detectActions (fst s')) (sv_detectActions v # past)"
    "length (of_kind ExactActionRepeat (snd s')) = length (of_kind ExactActionRepeat (snd s)) +
       card {k \<in> set (sv_detectActions v). unbroken k past < 2 \<and> unbroken k (sv_detectActions v # past) \<ge> 2}"
    "ExactActionRepeat \<in> set c \<longleftrightarrow> (\<exists>th. t = Some th \<and> (\<exists>k \<in> set (sv_detectActions v).
       unbroken k past < th \<and> unbroken k (sv_detectActions v # past) \<ge> th))"
proof -
  obtain n1 s1 p1 c1 s0 where
    1: "observeRepeatedKeys ctx (sh_detectActions (fst s)) (sv_detectActions v) ExactActionRepeat t (\<lambda>_. True) s [] =
      (n1, (s1, p1), c1)"
    and o: "sh_detectActions (fst s0) = n1" "of_kind ExactActionRepeat (snd s0) = of_kind ExactActionRepeat p1"
      "ExactActionRepeat \<in> set c \<longleftrightarrow> ExactActionRepeat \<in> set c1" "s' = observeAbab ctx (sv_batch v) s0"
    using observeStep_split [OF step] by metis
  obtain st obs where s: "s = (st, obs)" by (cases s)
  note first = observeRepeatedKeys_exact [OF tr [unfolded s] 1 [unfolded s]]
  show "tracks (sh_detectActions (fst s')) (sv_detectActions v # past)"
    using first(1) o(1) by (simp add: o(4) observeAbab_keeps(1))
  show "length (of_kind ExactActionRepeat (snd s')) = length (of_kind ExactActionRepeat (snd s)) +
       card {k \<in> set (sv_detectActions v). unbroken k past < 2 \<and> unbroken k (sv_detectActions v # past) \<ge> 2}"
    using first(3) o(2) by (simp add: s o(4) observeAbab_keeps(2))
  show "ExactActionRepeat \<in> set c \<longleftrightarrow> (\<exists>th. t = Some th \<and> (\<exists>k \<in> set (sv_detectActions v).
       unbroken k past < th \<and> unbroken k (sv_detectActions v # past) \<ge> th))"
    using first(4) o(3) by (auto simp: isReminderSignalKind_def)
qed

text \<open>A run of the detectors over the views of a Turn.\<close>

definition views_run :: "run_identity \<Rightarrow> (step_view \<times> nat option) list \<Rightarrow> 's sinks \<Rightarrow> 's sinks" where
  "views_run ctx vs s = foldl (\<lambda>s (v, t). snd (observeStep ctx v t s)) s vs"

definition actions_of :: "(step_view \<times> nat option) list \<Rightarrow> string list list" where
  "actions_of vs = rev (map (\<lambda>(v, _). sv_detectActions v) vs)"

lemma views_run_tracks:
  "tracks (sh_detectActions (fst s)) past \<Longrightarrow>
   tracks (sh_detectActions (fst (views_run ctx vs s))) (actions_of vs @ past)"
proof (induction vs arbitrary: s past)
  case (Cons vt vs)
  obtain v t where vt: "vt = (v, t)" by (cases vt)
  obtain c s' where st: "observeStep ctx v t s = (c, s')" by (metis surj_pair)
  from Cons.IH [OF observeStep_actions(1) [OF Cons.prems st]] show ?case
    by (simp add: vt st views_run_def actions_of_def)
qed (simp add: views_run_def actions_of_def)

lemma new_state_tracks: "tracks (sh_detectActions (newShadowState secret)) []"
  by (simp add: tracks_def newShadowState_def count_of_def)

text \<open>C12: A repetition is signalled exactly when it is one. After any steps of a Turn, the next step yields one
  observation of a repeated action for each action whose unbroken run, its occurrences in the latest steps
  that all contain it, reaches two with this step, and it proposes a reminder exactly when some run reaches
  the reminder's bound with this step.\<close>

theorem repeat_signalled_exactly:
  assumes "views_run ctx vs (newShadowState secret, []) = s" "observeStep ctx v t s = (cands, s')"
    and "past = actions_of vs" "now = sv_detectActions v"
  shows "length (of_kind ExactActionRepeat (snd s')) = length (of_kind ExactActionRepeat (snd s)) +
      card {k \<in> set now. unbroken k past < 2 \<and> unbroken k (now # past) \<ge> 2} \<and>
    (ExactActionRepeat \<in> set cands \<longleftrightarrow>
      (\<exists>bound. t = Some bound \<and> (\<exists>k \<in> set now. unbroken k past < bound \<and> unbroken k (now # past) \<ge> bound)))"
proof -
  have "tracks (sh_detectActions (fst (newShadowState secret, []))) []" by (simp add: new_state_tracks)
  from views_run_tracks [OF this, of ctx vs] have "tracks (sh_detectActions (fst s)) past"
    using assms(1,3) by simp
  from observeStep_actions(2,3) [OF this assms(2)] show ?thesis by (simp add: assms(4))
qed

definition plain_view :: "string list \<Rightarrow> string option \<Rightarrow> step_view" where
  "plain_view actions batch =
     \<lparr>sv_detectActions = actions, sv_pollingActions = [], sv_detectResults = [], sv_errorFamilies = [],
      sv_remindableErrors = [], sv_progress = [], sv_batch = batch\<rparr>"

theorem repeat_signalled_exactly_witness:
  "\<exists>cands s'. observeStep demo_run (plain_view [''x''] None) (Some 3)
      (views_run demo_run [(plain_view [''x''] None, None), (plain_view [''x''] None, None)] (newShadowState ''k'', [])) =
      (cands, s') \<and> ExactActionRepeat \<in> set cands"
proof -
  let ?vs = "[(plain_view [''x''] None, None), (plain_view [''x''] None, None)] :: (step_view \<times> nat option) list"
  obtain cands s' where st: "observeStep demo_run (plain_view [''x''] None) (Some 3)
      (views_run demo_run ?vs (newShadowState ''k'', [])) = (cands, s')" by (metis surj_pair)
  from repeat_signalled_exactly [OF refl st refl refl]
  have "ExactActionRepeat \<in> set cands" by (simp add: actions_of_def plain_view_def)
  with st show ?thesis by blast
qed

section \<open>Alternating actions\<close>

definition alternate :: "string \<Rightarrow> string \<Rightarrow> nat \<Rightarrow> string" where
  "alternate a b i = (if even i then a else b)"

lemma alternate_step: "alternate a b (Suc (Suc i)) = alternate a b i"
  by (simp add: alternate_def)

lemma episode_differs:
  assumes "CHR 0x00 \<notin> set x" "CHR 0x00 \<notin> set y" "x @ CHR 0x00 # y = y @ CHR 0x00 # x"
  shows "x = y"
proof -
  have "takeWhile (\<lambda>c. c \<noteq> CHR 0x00) (x @ CHR 0x00 # z) = x" if "CHR 0x00 \<notin> set x" for x z
    using that by (induction x) auto
  then show ?thesis using assms by metis
qed

text \<open>The last four batches, and the episode the code remembers, after \<open>n\<close> alternating steps.\<close>

definition abab_at :: "string \<Rightarrow> string \<Rightarrow> nat \<Rightarrow> 's sinks \<Rightarrow> bool" where
  "abab_at a b n s \<longleftrightarrow> sh_recentBatches (fst s) = map (alternate a b) [n - 4..<n] \<and>
     sh_activeAbab (fst s) = (if n < 4 then None
       else Some (alternate a b (n - 4) @ CHR 0x00 # alternate a b (n - 3))) \<and>
     length (of_kind AbabActionCycle (snd s)) = n - 3"

lemma push_alternate:
  "push_batch (map (alternate a b) [n - 4..<n]) (alternate a b n) = map (alternate a b) [Suc n - 4..<Suc n]"
proof (cases "n < 4")
  case False
  then have "[n - 4..<n] = (n - 4) # [n - 3..<n]" by (simp add: upt_conv_Cons Suc_diff_le)
  then show ?thesis using False by (simp add: push_batch_def Suc_diff_le)
qed (simp add: push_batch_def)

lemma four_alternating: "3 \<le> n \<Longrightarrow> [Suc n - 4..<Suc n] = [n - 3, n - 2, n - 1, n]"
proof -
  assume "3 \<le> n"
  then obtain m where "n = m + 3" by (metis add.commute le_Suc_ex)
  then show ?thesis by (simp add: upt_conv_Cons)
qed

lemma abab_step:
  assumes ab: "a \<noteq> b" "a \<noteq> []" "b \<noteq> []" "CHR 0x00 \<notin> set a" "CHR 0x00 \<notin> set b" and at: "abab_at a b n s"
  shows "abab_at a b (Suc n) (observeAbab ctx (Some (alternate a b n)) s)"
proof -
  obtain st obs where s: "s = (st, obs)" by (cases s)
  have key: "truthy (Some (alternate a b n)) = Some (alternate a b n)" using ab by (simp add: alternate_def)
  have push: "push_batch (sh_recentBatches st) (alternate a b n) = map (alternate a b) [Suc n - 4..<Suc n]"
    using at push_alternate by (simp add: abab_at_def s)
  show ?thesis
  proof (cases "3 \<le> n")
    case True
    then obtain m where m: "n = m + 3" by (metis add.commute le_Suc_ex)
    have differs: "sh_activeAbab st \<noteq> Some (alternate a b m @ CHR 0x00 # alternate a b (Suc m))"
    proof (cases m)
      case 0
      then show ?thesis using at m by (simp add: abab_at_def s)
    next
      case (Suc k)
      have "alternate a b k @ CHR 0x00 # alternate a b (Suc k) \<noteq> alternate a b (Suc k) @ CHR 0x00 # alternate a b k"
        using episode_differs [of "alternate a b k" "alternate a b (Suc k)"] ab by (auto simp: alternate_def)
      then show ?thesis using at m Suc by (simp add: abab_at_def s alternate_step)
    qed
    have list: "push_batch (sh_recentBatches st) (alternate a b n) =
        [alternate a b m, alternate a b (Suc m), alternate a b m, alternate a b (Suc m)]"
      unfolding push four_alternating [OF True] using m by (simp add: alternate_step numeral_3_eq_3 numeral_2_eq_2)
    have ne: "alternate a b m \<noteq> []" "alternate a b (Suc m) \<noteq> []" "alternate a b m \<noteq> alternate a b (Suc m)"
      using ab by (auto simp: alternate_def)
    have "observeAbab ctx (Some (alternate a b n)) s =
        emitObservation ctx AbabActionCycle 2
          (st\<lparr>sh_recentBatches := map (alternate a b) [Suc n - 4..<Suc n],
              sh_activeAbab := Some (alternate a b m @ CHR 0x00 # alternate a b (Suc m))\<rparr>, obs)"
      using ne differs unfolding push [symmetric]
      by (simp add: observeAbab_def s key list Let_def del: truthy_Some)
    then show ?thesis using at m
      by (auto simp: abab_at_def s emitObservation_def recordMaxOccurrences_def Let_def of_kind_def
          simp del: upt_Suc)
  next
    case False
    have "length (push_batch (sh_recentBatches st) (alternate a b n)) \<noteq> 4"
      unfolding push using False by simp
    then have "\<nexists>x y z w. push_batch (sh_recentBatches st) (alternate a b n) = [x, y, z, w]" by auto
    then have "observeAbab ctx (Some (alternate a b n)) s =
        (st\<lparr>sh_recentBatches := map (alternate a b) [Suc n - 4..<Suc n]\<rparr>, obs)"
      unfolding push [symmetric]
      by (simp add: observeAbab_def s key Let_def not_four del: truthy_Some)
    then show ?thesis using at False by (simp add: abab_at_def s del: upt_Suc)
  qed
qed

lemma views_run_abab:
  assumes ab: "a \<noteq> b" "a \<noteq> []" "b \<noteq> []" "CHR 0x00 \<notin> set a" "CHR 0x00 \<notin> set b"
  shows "\<forall>i < length vs. sv_batch (fst (vs ! i)) = Some (alternate a b (n + i)) \<Longrightarrow> abab_at a b n s \<Longrightarrow>
    abab_at a b (n + length vs) (views_run ctx vs s)"
proof (induction vs arbitrary: n s)
  case (Cons vt vs)
  obtain v t where vt: "vt = (v, t)" by (cases vt)
  obtain c s' where st: "observeStep ctx v t s = (c, s')" by (metis surj_pair)
  have v: "sv_batch v = Some (alternate a b n)" using Cons.prems(1) by (auto simp: vt dest: spec [of _ 0])
  obtain s0 where "s' = observeAbab ctx (sv_batch v) s0" "sh_recentBatches (fst s0) = sh_recentBatches (fst s)"
    "sh_activeAbab (fst s0) = sh_activeAbab (fst s)" "of_kind AbabActionCycle (snd s0) = of_kind AbabActionCycle (snd s)"
    using observeStep_split [OF st] by metis
  then have "abab_at a b (Suc n) s'"
    using abab_step [OF ab, of n s0 ctx] Cons.prems(2) by (simp add: v abab_at_def)
  moreover have "\<forall>i < length vs. sv_batch (fst (vs ! i)) = Some (alternate a b (Suc n + i))"
    using Cons.prems(1) by (metis Suc_less_eq add_Suc_right add_Suc length_Cons nth_Cons_Suc)
  ultimately have "abab_at a b (Suc n + length vs) (views_run ctx vs s')" by (rule Cons.IH [rotated])
  then show ?case by (simp add: vt st views_run_def)
qed (simp add: views_run_def)

text \<open>The check that keeps an alternation from being signalled again never applies. While two different
  batches of actions alternate, every step from the fourth on yields one more observation of an alternating
  cycle, because the two halves of the remembered episode change places at each
  step.\<close>

theorem alternation_never_suppressed:
  assumes "a \<noteq> b" "a \<noteq> []" "b \<noteq> []" "CHR 0x00 \<notin> set a" "CHR 0x00 \<notin> set b"
    and "\<forall>i < length vs. sv_batch (fst (vs ! i)) = Some (if even i then a else b)"
  shows "length (of_kind AbabActionCycle (snd (views_run ctx vs (newShadowState secret, [])))) = length vs - 3"
proof -
  have "abab_at a b 0 (newShadowState secret, [])" by (simp add: abab_at_def newShadowState_def of_kind_def)
  from views_run_abab [OF assms(1-5) _ this, of vs ctx] assms(6)
  have "abab_at a b (length vs) (views_run ctx vs (newShadowState secret, []))" by (simp add: alternate_def)
  then show ?thesis by (simp add: abab_at_def)
qed

theorem alternation_never_suppressed_witness:
  "length (of_kind AbabActionCycle (snd (views_run demo_run
     (map (\<lambda>i. (plain_view [] (Some (if even i then ''a'' else ''b'')), None)) [0..<6]) (newShadowState ''k'', [])))) = 3"
  using alternation_never_suppressed [of "''a''" "''b''"
      "map (\<lambda>i. (plain_view [] (Some (if even i then ''a'' else ''b'')), None)) [0..<6]" demo_run "''k''"]
  by (simp add: plain_view_def nth_append)

end
