(* ===== verification/TaskStore.thy ===== *)
theory TaskStore
  imports JsonText "HOL-Library.AList"
begin

text \<open>
  Background tasks (\<open>agent-modules/background-task/src\<close>): the vocabulary of \<open>types.ts\<close>, the status machine
  of \<open>status.ts\<close>, the errors of \<open>errors.ts\<close> and the in-memory task store of \<open>in-memory-store.ts\<close>.

  Tasks are immutable records here, so the cloning the code does to keep its maps private needs no model. A
  \<open>Map\<close> is an association list in insertion order, an optional property an option.
\<close>

text \<open>The operator \<open>??\<close>.\<close>

definition default :: "'a \<Rightarrow> 'a option \<Rightarrow> 'a" where
  "default d x = (case x of None \<Rightarrow> d | Some y \<Rightarrow> y)"

lemma default_simps [simp]: "default d None = d" "default d (Some x) = x"
  by (simp_all add: default_def)

section \<open>Status\<close>

datatype task_kind = KindBash | KindSubagent | KindWorkflow | KindCustom

datatype task_status = Queued | Running | Stopping | Succeeded | Failed | Canceled | Lost

fun status_name :: "task_status \<Rightarrow> string" where
  "status_name Queued = ''queued''"
| "status_name Running = ''running''"
| "status_name Stopping = ''stopping''"
| "status_name Succeeded = ''succeeded''"
| "status_name Failed = ''failed''"
| "status_name Canceled = ''canceled''"
| "status_name Lost = ''lost''"

fun upper_name :: "task_status \<Rightarrow> string" where
  "upper_name Queued = ''QUEUED''"
| "upper_name Running = ''RUNNING''"
| "upper_name Stopping = ''STOPPING''"
| "upper_name Succeeded = ''SUCCEEDED''"
| "upper_name Failed = ''FAILED''"
| "upper_name Canceled = ''CANCELED''"
| "upper_name Lost = ''LOST''"

definition ACTIVE_TASK_STATUSES :: "task_status list" where
  "ACTIVE_TASK_STATUSES = [Queued, Running, Stopping]"

definition TERMINAL_TASK_STATUSES :: "task_status list" where
  "TERMINAL_TASK_STATUSES = [Succeeded, Failed, Canceled, Lost]"

definition isActiveTaskStatus :: "task_status \<Rightarrow> bool" where
  "isActiveTaskStatus s \<longleftrightarrow> s \<in> set ACTIVE_TASK_STATUSES"

definition isTerminalTaskStatus :: "task_status \<Rightarrow> bool" where
  "isTerminalTaskStatus s \<longleftrightarrow> s \<in> set TERMINAL_TASK_STATUSES"

definition canTransitionTaskStatus :: "task_status \<Rightarrow> task_status \<Rightarrow> bool" where
  "canTransitionTaskStatus from' to' \<longleftrightarrow>
     (if from' = to' then True
      else if isTerminalTaskStatus from' then False
      else case from' of
        Queued \<Rightarrow> to' \<in> {Running, Stopping, Succeeded, Failed, Canceled, Lost}
      | Running \<Rightarrow> to' \<in> {Stopping, Succeeded, Failed, Canceled, Lost}
      | Stopping \<Rightarrow> to' \<in> {Succeeded, Failed, Canceled, Lost}
      | _ \<Rightarrow> False)"

text \<open>The transitions the code allows are a partial order: a status only ever advances.\<close>

instantiation task_status :: order
begin

definition less_eq_task_status :: "task_status \<Rightarrow> task_status \<Rightarrow> bool" where
  "s \<le> s' \<longleftrightarrow> canTransitionTaskStatus s s'"

definition less_task_status :: "task_status \<Rightarrow> task_status \<Rightarrow> bool" where
  "s < s' \<longleftrightarrow> s \<le> s' \<and> s \<noteq> (s' :: task_status)"

instance
proof
  fix s t u :: task_status
  show "s \<le> s" by (simp add: less_eq_task_status_def canTransitionTaskStatus_def)
  show "s < t \<longleftrightarrow> s \<le> t \<and> \<not> t \<le> s"
    by (cases s; cases t) (simp_all add: less_task_status_def less_eq_task_status_def canTransitionTaskStatus_def
        isTerminalTaskStatus_def TERMINAL_TASK_STATUSES_def)
  show "s \<le> t \<Longrightarrow> t \<le> s \<Longrightarrow> s = t"
    by (cases s; cases t) (simp_all add: less_eq_task_status_def canTransitionTaskStatus_def
        isTerminalTaskStatus_def TERMINAL_TASK_STATUSES_def)
  show "s \<le> t \<Longrightarrow> t \<le> u \<Longrightarrow> s \<le> u"
    by (cases s; cases t; cases u) (simp_all add: less_eq_task_status_def canTransitionTaskStatus_def
        isTerminalTaskStatus_def TERMINAL_TASK_STATUSES_def)
qed

end

section \<open>Data\<close>

record task_failure =
  tx_message :: string
  tx_code :: "string option"
  tx_details :: "js_object option"

record task_usage =
  us_inputTokens :: "int option"
  us_outputTokens :: "int option"
  us_totalTokens :: "int option"
  us_costUsd :: "js option"
  us_metadata :: "js_object option"

datatype output_kind = OutputFile | OutputOss | OutputSandboxJob | OutputSessionTranscript | OutputMemory

record output_ref =
  or_taskId :: string
  or_kind :: output_kind
  or_uri :: string
  or_offset :: "int option"
  or_updatedAt :: "int option"
  or_metadata :: "js_object option"

text \<open>\<open>parentTaskId\<close> may be absent, \<open>null\<close> (\<open>Some None\<close>) or a task.\<close>

record background_task =
  bt_taskId :: string
  bt_kind :: task_kind
  bt_status :: task_status
  bt_ownerSessionId :: string
  bt_description :: "string option"
  bt_toolCallId :: "string option"
  bt_parentMessageId :: "string option"
  bt_parentTaskId :: "string option option"
  bt_createdAt :: int
  bt_updatedAt :: int
  bt_startedAt :: "int option"
  bt_endedAt :: "int option"
  bt_deliveredAt :: "int option"
  bt_outputRef :: "output_ref option"
  bt_lastError :: "task_failure option"
  bt_usage :: "task_usage option"
  bt_metadata :: "js_object option"

text \<open>
  A property of a patch is absent, has a value, or is present as \<open>undefined\<close>, which overwrites: \<open>pt_cleared\<close> lists the
  properties of the last kind. \<open>undefined\<close> metadata and times of update count as absent; an \<open>undefined\<close> status,
  which would leave a task without one, is outside the model.
\<close>

datatype patch_field =
    FieldDescription | FieldToolCallId | FieldParentMessageId | FieldParentTaskId | FieldStartedAt | FieldEndedAt
  | FieldDeliveredAt | FieldOutputRef | FieldLastError | FieldUsage

record task_patch =
  pt_status :: "task_status option"
  pt_description :: "string option"
  pt_toolCallId :: "string option"
  pt_parentMessageId :: "string option"
  pt_parentTaskId :: "string option option"
  pt_updatedAt :: "int option"
  pt_startedAt :: "int option"
  pt_endedAt :: "int option"
  pt_deliveredAt :: "int option"
  pt_outputRef :: "output_ref option"
  pt_lastError :: "task_failure option"
  pt_usage :: "task_usage option"
  pt_metadata :: "js_object option"
  pt_cleared :: "patch_field list"

definition empty_patch :: task_patch where
  "empty_patch =
     \<lparr>pt_status = None, pt_description = None, pt_toolCallId = None, pt_parentMessageId = None,
      pt_parentTaskId = None, pt_updatedAt = None, pt_startedAt = None, pt_endedAt = None, pt_deliveredAt = None,
      pt_outputRef = None, pt_lastError = None, pt_usage = None, pt_metadata = None,
      pt_cleared = []\<rparr>"

lemma pt_cleared_empty [simp]: "pt_cleared empty_patch = []"
  by (simp add: empty_patch_def)

datatype order_by = OrderCreatedAt | OrderUpdatedAt | OrderCompletedAt

text \<open>A number that may have a fraction: the whole number below it, and whether a fraction is left.\<close>

type_synonym fractional = "int \<times> bool"

record task_query =
  tq_taskIds :: "string list option"
  tq_ownerSessionId :: "string option"
  tq_parentTaskId :: "string option option"
  tq_kinds :: "task_kind list option"
  tq_statuses :: "task_status list option"
  tq_createdAfter :: "int option"
  tq_createdBefore :: "int option"
  tq_updatedAfter :: "int option"
  tq_updatedBefore :: "int option"
  tq_limit :: "fractional option"
  tq_cursor :: "string option"
  tq_orderBy :: "order_by option"
  tq_ascending :: "bool option"
  tq_includeArchived :: "bool option"
  tq_undeliveredOnly :: "bool option"

record task_page =
  pg_items :: "background_task list"
  pg_nextCursor :: "string option"

datatype event_type =
    EventCreated | EventStarted | EventOutputUpdated | EventStopRequested | EventStatusChanged | EventCompleted

record task_event =
  ev_eventId :: string
  ev_taskId :: string
  ev_ownerSessionId :: string
  ev_type :: event_type
  ev_timestamp :: int
  ev_sequence :: "nat option"
  ev_payload :: "js_object option"

section \<open>Errors\<close>

datatype task_error =
    TaskNotFound string
  | TaskAlreadyExists string
  | TaskRunnerNotFound task_kind
  | TaskRunnerAlreadyRegistered task_kind
  | InvalidTaskStatusTransition string task_status task_status

fun kind_name :: "task_kind \<Rightarrow> string" where
  "kind_name KindBash = ''bash''"
| "kind_name KindSubagent = ''subagent''"
| "kind_name KindWorkflow = ''workflow''"
| "kind_name KindCustom = ''custom''"

fun error_message :: "task_error \<Rightarrow> string" where
  "error_message (TaskNotFound i) = ''Background task not found: '' @ i"
| "error_message (TaskAlreadyExists i) = ''Background task already exists: '' @ i"
| "error_message (TaskRunnerNotFound k) = ''No background task runner registered for kind: '' @ kind_name k"
| "error_message (TaskRunnerAlreadyRegistered k) = ''Background task runner already registered for kind: '' @ kind_name k"
| "error_message (InvalidTaskStatusTransition i s t) =
     ''Invalid background task status transition for '' @ i @ '': '' @ status_name s @ '' -> '' @ status_name t"

fun error_code :: "task_error \<Rightarrow> string" where
  "error_code (TaskNotFound _) = ''TASK_NOT_FOUND''"
| "error_code (TaskAlreadyExists _) = ''TASK_ALREADY_EXISTS''"
| "error_code (TaskRunnerNotFound _) = ''TASK_RUNNER_NOT_FOUND''"
| "error_code (TaskRunnerAlreadyRegistered _) = ''TASK_RUNNER_EXISTS''"
| "error_code (InvalidTaskStatusTransition _ _ _) = ''INVALID_TASK_STATUS_TRANSITION''"

fun error_details :: "task_error \<Rightarrow> js_object" where
  "error_details (TaskNotFound i) = [(''taskId'', JStr i)]"
| "error_details (TaskAlreadyExists i) = [(''taskId'', JStr i)]"
| "error_details (TaskRunnerNotFound k) = [(''kind'', JStr (kind_name k))]"
| "error_details (TaskRunnerAlreadyRegistered k) = [(''kind'', JStr (kind_name k))]"
| "error_details (InvalidTaskStatusTransition i s t) =
     [(''taskId'', JStr i), (''from'', JStr (status_name s)), (''to'', JStr (status_name t))]"

text \<open>What a \<open>catch\<close> can see: an error of this package, another \<open>Error\<close>, or any other value by its \<open>String\<close>.\<close>

datatype thrown = ThrownTask task_error | ThrownError string "string option" | ThrownValue string

fun normalizeTaskError :: "thrown \<Rightarrow> string \<Rightarrow> task_failure" where
  "normalizeTaskError (ThrownTask e) fallback =
     \<lparr>tx_message = error_message e, tx_code = Some (error_code e), tx_details = Some (error_details e)\<rparr>"
| "normalizeTaskError (ThrownError message stack) fallback =
     \<lparr>tx_message = message, tx_code = Some fallback,
      tx_details = map_option (\<lambda>s. [(''stack'', JStr s)]) (truthy stack)\<rparr>"
| "normalizeTaskError (ThrownValue text) fallback =
     \<lparr>tx_message = text, tx_code = Some fallback, tx_details = None\<rparr>"

section \<open>The in-memory store\<close>

record memory_store =
  ms_tasks :: "(string \<times> background_task) list"
  ms_events :: "task_event list"

definition DEFAULT_TASK_LIST_LIMIT :: nat where "DEFAULT_TASK_LIST_LIMIT = 100"
definition MAX_TASK_LIST_LIMIT :: nat where "MAX_TASK_LIST_LIMIT = 500"

definition create_task :: "background_task \<Rightarrow> memory_store \<Rightarrow> task_error + (background_task \<times> memory_store)" where
  "create_task task st =
     (if map_of (ms_tasks st) (bt_taskId task) \<noteq> None then Inl (TaskAlreadyExists (bt_taskId task))
      else Inr (task, st\<lparr>ms_tasks := AList.update (bt_taskId task) task (ms_tasks st)\<rparr>))"

definition get_task :: "string \<Rightarrow> memory_store \<Rightarrow> background_task option" where
  "get_task i st = map_of (ms_tasks st) i"

definition matchesQuery :: "background_task \<Rightarrow> task_query \<Rightarrow> bool" where
  "matchesQuery t q \<longleftrightarrow>
     (case tq_taskIds q of None \<Rightarrow> True | Some is \<Rightarrow> bt_taskId t \<in> set is) \<and>
     (case truthy (tq_ownerSessionId q) of None \<Rightarrow> True | Some s \<Rightarrow> bt_ownerSessionId t = s) \<and>
     (case tq_parentTaskId q of None \<Rightarrow> True
      | Some p \<Rightarrow> (case bt_parentTaskId t of None \<Rightarrow> None | Some p' \<Rightarrow> p') = p) \<and>
     (case tq_kinds q of None \<Rightarrow> True | Some ks \<Rightarrow> bt_kind t \<in> set ks) \<and>
     (case tq_statuses q of None \<Rightarrow> True | Some ss \<Rightarrow> bt_status t \<in> set ss) \<and>
     (case tq_createdAfter q of None \<Rightarrow> True | Some n \<Rightarrow> \<not> bt_createdAt t < n) \<and>
     (case tq_createdBefore q of None \<Rightarrow> True | Some n \<Rightarrow> \<not> bt_createdAt t > n) \<and>
     (case tq_updatedAfter q of None \<Rightarrow> True | Some n \<Rightarrow> \<not> bt_updatedAt t < n) \<and>
     (case tq_updatedBefore q of None \<Rightarrow> True | Some n \<Rightarrow> \<not> bt_updatedAt t > n)"

definition getOrderValue :: "background_task \<Rightarrow> order_by \<Rightarrow> int" where
  "getOrderValue t orderBy =
     (case orderBy of OrderUpdatedAt \<Rightarrow> bt_updatedAt t
      | OrderCompletedAt \<Rightarrow> (case bt_endedAt t of None \<Rightarrow> 0 | Some n \<Rightarrow> n)
      | OrderCreatedAt \<Rightarrow> bt_createdAt t)"

text \<open>\<open>Number.parseInt(cursor, 10)\<close>: white space, a sign and the digits that follow; \<open>None\<close> is \<open>NaN\<close>.\<close>

definition parse_int :: "string \<Rightarrow> int option" where
  "parse_int s =
     (let t = dropWhile js_space s;
          (neg, u) = (if take 1 t = ''-'' then (True, tl t) else if take 1 t = ''+'' then (False, tl t) else (False, t));
          ds = takeWhile is_digit u
      in if ds = [] then None else Some (if neg then - int (digits_nat ds) else int (digits_nat ds)))"

definition parseCursor :: "string option \<Rightarrow> nat" where
  "parseCursor cursor =
     (case truthy cursor of None \<Rightarrow> 0
      | Some c \<Rightarrow> (case parse_int c of Some v \<Rightarrow> if v > 0 then nat v else 0 | None \<Rightarrow> 0))"

text \<open>
  A limit is any number but \<open>NaN\<close>. It is rounded down after the test, so that one between 0 and 1 becomes 0.
\<close>

definition clampLimit :: "fractional option \<Rightarrow> nat" where
  "clampLimit limit =
     (case limit of None \<Rightarrow> DEFAULT_TASK_LIST_LIMIT
      | Some (whole, fraction) \<Rightarrow>
          if whole < 0 \<or> whole = 0 \<and> \<not> fraction then DEFAULT_TASK_LIST_LIMIT else min (nat whole) MAX_TASK_LIST_LIMIT)"

definition sorted_items :: "task_query \<Rightarrow> background_task list \<Rightarrow> background_task list" where
  "sorted_items q items =
     (let orderBy = default OrderCreatedAt (tq_orderBy q)
      in if tq_ascending q = Some True then sort_key (\<lambda>t. getOrderValue t orderBy) items
         else sort_key (\<lambda>t. - getOrderValue t orderBy) items)"

definition page_of :: "task_query \<Rightarrow> background_task list \<Rightarrow> task_page" where
  "page_of q items =
     (let offset = parseCursor (tq_cursor q);
          limit = clampLimit (tq_limit q);
          page = take limit (drop offset items);
          nextOffset = offset + length page
      in \<lparr>pg_items = page,
          pg_nextCursor = (if nextOffset < length items then Some (json_int (int nextOffset)) else None)\<rparr>)"

definition list_tasks :: "task_query \<Rightarrow> memory_store \<Rightarrow> task_page" where
  "list_tasks q st =
     page_of q (sorted_items q (filter (\<lambda>t. matchesQuery t q) (map snd (ms_tasks st))))"

definition mergeRecord :: "js_object option \<Rightarrow> js_object option \<Rightarrow> js_object option" where
  "mergeRecord current patch =
     (if current = None \<and> patch = None then None
      else Some (foldl (\<lambda>fs (k, v). js_set fs k v) (case current of None \<Rightarrow> [] | Some fs \<Rightarrow> fs)
                  (case patch of None \<Rightarrow> [] | Some fs \<Rightarrow> fs)))"

text \<open>One property of \<open>{...current, ...patch}\<close>.\<close>

definition over :: "'a option \<Rightarrow> 'a option \<Rightarrow> 'a option" where
  "over old new = (case new of None \<Rightarrow> old | Some x \<Rightarrow> Some x)"

definition overwrite :: "task_patch \<Rightarrow> patch_field \<Rightarrow> 'a option \<Rightarrow> 'a option \<Rightarrow> 'a option" where
  "overwrite p f old new = (if f \<in> set (pt_cleared p) then None else over old new)"

definition apply_patch :: "background_task \<Rightarrow> task_patch \<Rightarrow> int \<Rightarrow> background_task" where
  "apply_patch t p now =
     t\<lparr>bt_status := (case pt_status p of None \<Rightarrow> bt_status t | Some s \<Rightarrow> s),
       bt_description := overwrite p FieldDescription (bt_description t) (pt_description p),
       bt_toolCallId := overwrite p FieldToolCallId (bt_toolCallId t) (pt_toolCallId p),
       bt_parentMessageId := overwrite p FieldParentMessageId (bt_parentMessageId t) (pt_parentMessageId p),
       bt_parentTaskId := overwrite p FieldParentTaskId (bt_parentTaskId t) (pt_parentTaskId p),
       bt_startedAt := overwrite p FieldStartedAt (bt_startedAt t) (pt_startedAt p),
       bt_endedAt := overwrite p FieldEndedAt (bt_endedAt t) (pt_endedAt p),
       bt_deliveredAt := overwrite p FieldDeliveredAt (bt_deliveredAt t) (pt_deliveredAt p),
       bt_outputRef := overwrite p FieldOutputRef (bt_outputRef t) (pt_outputRef p),
       bt_lastError := overwrite p FieldLastError (bt_lastError t) (pt_lastError p),
       bt_usage := overwrite p FieldUsage (bt_usage t) (pt_usage p),
       bt_metadata := mergeRecord (bt_metadata t) (pt_metadata p),
       bt_updatedAt := (case pt_updatedAt p of None \<Rightarrow> now | Some n \<Rightarrow> n)\<rparr>"

definition patch_task ::
  "string \<Rightarrow> task_patch \<Rightarrow> int \<Rightarrow> memory_store \<Rightarrow> task_error + (background_task \<times> memory_store)" where
  "patch_task i p now st =
     (case map_of (ms_tasks st) i of
        None \<Rightarrow> Inl (TaskNotFound i)
      | Some current \<Rightarrow>
          (case pt_status p of
             Some s \<Rightarrow>
               if \<not> canTransitionTaskStatus (bt_status current) s
               then Inl (InvalidTaskStatusTransition i (bt_status current) s)
               else Inr (apply_patch current p now,
                         st\<lparr>ms_tasks := AList.update i (apply_patch current p now) (ms_tasks st)\<rparr>)
           | None \<Rightarrow> Inr (apply_patch current p now,
                          st\<lparr>ms_tasks := AList.update i (apply_patch current p now) (ms_tasks st)\<rparr>)))"

definition update_status ::
  "string \<Rightarrow> task_status \<Rightarrow> string option \<Rightarrow> int \<Rightarrow> memory_store \<Rightarrow> task_error + (background_task \<times> memory_store)" where
  "update_status i s reason now st =
     patch_task i (empty_patch\<lparr>pt_status := Some s,
       pt_lastError := (case truthy reason of None \<Rightarrow> None
         | Some r \<Rightarrow> if s \<in> {Failed, Canceled, Lost}
                     then Some \<lparr>tx_message = r, tx_code = Some (upper_name s), tx_details = None\<rparr> else None)\<rparr>) now st"

definition append_event :: "task_event \<Rightarrow> memory_store \<Rightarrow> memory_store" where
  "append_event e st = st\<lparr>ms_events := ms_events st @ [e]\<rparr>"

definition list_events :: "string option \<Rightarrow> memory_store \<Rightarrow> task_event list" where
  "list_events i st = filter (\<lambda>e. case truthy i of None \<Rightarrow> True | Some t \<Rightarrow> ev_taskId e = t) (ms_events st)"

end
