(* ===== verification/TaskText.thy ===== *)
theory TaskText
  imports Prelude
begin

text \<open>
  UTF-8 as the task output stores use it: \<open>Buffer.from(text, 'utf8')\<close> and \<open>buffer.toString('utf8')\<close> of Node.

  A text is the list of its code points, as \<open>for (const c of text)\<close> yields them; a lone surrogate is
  written as U+FFFD. The decoder is the one of the Encoding Standard, which writes one U+FFFD for each
  malformed part. A buffer is a list of bytes, naturals below 256.
\<close>

type_synonym js_text = "nat list"
type_synonym bytes = "nat list"

section \<open>Writing\<close>

definition REPLACEMENT :: nat where "REPLACEMENT = 0xFFFD"

definition is_scalar :: "nat \<Rightarrow> bool" where
  "is_scalar c \<longleftrightarrow> c < 0xD800 \<or> (0xE000 \<le> c \<and> c < 0x110000)"

definition utf8_bytes :: "nat \<Rightarrow> bytes" where
  "utf8_bytes c =
     (if c < 0x80 then [c]
      else if c < 0x800 then [0xC0 + c div 64, 0x80 + c mod 64]
      else if c < 0x10000 then [0xE0 + c div 4096, 0x80 + c div 64 mod 64, 0x80 + c mod 64]
      else [0xF0 + c div 262144, 0x80 + c div 4096 mod 64, 0x80 + c div 64 mod 64, 0x80 + c mod 64])"

definition encode_char :: "nat \<Rightarrow> bytes" where
  "encode_char c = utf8_bytes (if is_scalar c then c else REPLACEMENT)"

definition encode :: "js_text \<Rightarrow> bytes" where
  "encode t = concat (map encode_char t)"

section \<open>Reading\<close>

definition is_cont :: "nat \<Rightarrow> bool" where
  "is_cont b \<longleftrightarrow> 0x80 \<le> b \<and> b \<le> 0xBF"

text \<open>A lead byte: the continuation bytes it needs, the range of the first of them and its own bits.\<close>

definition lead_byte :: "nat \<Rightarrow> (nat \<times> nat \<times> nat \<times> nat) option" where
  "lead_byte b =
     (if 0xC2 \<le> b \<and> b \<le> 0xDF then Some (1, 0x80, 0xBF, b - 0xC0)
      else if 0xE0 \<le> b \<and> b \<le> 0xEF
      then Some (2, if b = 0xE0 then 0xA0 else 0x80, if b = 0xED then 0x9F else 0xBF, b - 0xE0)
      else if 0xF0 \<le> b \<and> b \<le> 0xF4
      then Some (3, if b = 0xF0 then 0x90 else 0x80, if b = 0xF4 then 0x8F else 0xBF, b - 0xF0)
      else None)"

text \<open>The decoder within a sequence: bytes still needed, range of the next, bits so far; \<open>0\<close> is the start.\<close>

function decode_from :: "nat \<Rightarrow> nat \<Rightarrow> nat \<Rightarrow> nat \<Rightarrow> bytes \<Rightarrow> js_text" where
  "decode_from needed lo hi acc [] = (if needed = 0 then [] else [REPLACEMENT])"
| "decode_from needed lo hi acc (b # bs) =
     (if needed = 0 then
        (if b < 0x80 then b # decode_from 0 0 0 0 bs
         else case lead_byte b of
                None \<Rightarrow> REPLACEMENT # decode_from 0 0 0 0 bs
              | Some (n, l, h, a) \<Rightarrow> decode_from n l h a bs)
      else if lo \<le> b \<and> b \<le> hi then
        (let acc' = acc * 64 + (b - 0x80) in
         if needed = 1 then acc' # decode_from 0 0 0 0 bs
         else decode_from (needed - 1) 0x80 0xBF acc' bs)
      else REPLACEMENT # decode_from 0 0 0 0 (b # bs))"
  by pat_completeness auto

termination
  by (relation "measure (\<lambda>(needed, _, _, _, bs). 2 * length bs + (if needed = 0 then 0 else 1))")
    (auto split: prod.splits)

declare decode_from.simps [simp del]

definition decode :: "bytes \<Rightarrow> js_text" where
  "decode bs = decode_from 0 0 0 0 bs"

section \<open>Reading back what was written\<close>

named_theorems utf8_simps

lemma decode_Nil [simp]: "decode [] = []"
  by (simp add: decode_def decode_from.simps)

lemma encode_simps [simp]: "encode [] = []" "encode (c # t) = encode_char c @ encode t"
    "encode (s @ t) = encode s @ encode t"
  by (simp_all add: encode_def)

lemma encode_char_scalar: "is_scalar c \<Longrightarrow> encode_char c = utf8_bytes c"
  by (simp add: encode_char_def)

lemma decode_one: "c < 0x80 \<Longrightarrow> decode (c # bs) = c # decode bs"
  by (simp add: decode_def decode_from.simps)

lemma decode_two:
  assumes "0x80 \<le> c" "c < 0x800"
  shows "decode ((0xC0 + c div 64) # (0x80 + c mod 64) # bs) = c # decode bs"
proof -
  have "2 \<le> c div 64" "c div 64 \<le> 31" using assms by auto
  then have "lead_byte (0xC0 + c div 64) = Some (1, 0x80, 0xBF, c div 64)" by (simp add: lead_byte_def)
  moreover have "c mod 64 \<le> 63" using mod_less_divisor [of 64 c] by linarith
  ultimately show ?thesis by (simp add: decode_def decode_from.simps)
qed

text \<open>A code point as the digits of its bytes.\<close>

lemma split_64:
  obtains a m l where "c = 4096 * a + 64 * m + l" "m < 64" "l < (64 :: nat)"
    "c div 4096 = a" "c div 64 mod 64 = m" "c mod 64 = l"
proof
  show "c = 4096 * (c div 4096) + 64 * (c div 64 mod 64) + c mod 64"
  proof -
    have "c div 64 div 64 = c div 4096" by (simp add: div_mult2_eq [symmetric])
    then have "64 * (c div 4096) + c div 64 mod 64 = c div 64" using mult_div_mod_eq [of 64 "c div 64"] by simp
    moreover have "64 * (c div 64) + c mod 64 = c" by (rule mult_div_mod_eq)
    ultimately show ?thesis by linarith
  qed
qed simp_all

lemma decode_three:
  assumes "0x800 \<le> c" "c < 0x10000" "is_scalar c"
  shows "decode ((0xE0 + c div 4096) # (0x80 + c div 64 mod 64) # (0x80 + c mod 64) # bs) = c # decode bs"
proof -
  obtain a m l where c: "c = 4096 * a + 64 * m + l" "m < 64" "l < 64"
    "c div 4096 = a" "c div 64 mod 64 = m" "c mod 64 = l" by (rule split_64)
  have a: "a \<le> 15" using c(1) assms(2) by simp
  have "a = 0 \<Longrightarrow> 32 \<le> m" using c(1,3) assms(1) by simp
  moreover have "a = 13 \<Longrightarrow> m \<le> 31" using c(1-3) assms(3) by (auto simp: is_scalar_def)
  moreover have "lead_byte (0xE0 + a) =
      Some (2, if a = 0 then 0xA0 else 0x80, if a = 13 then 0x9F else 0xBF, a)"
    using a by (simp add: lead_byte_def)
  ultimately show ?thesis
    unfolding c(4-6) using c(2,3) a by (auto simp: decode_def decode_from.simps c(1))
qed

lemma decode_four:
  assumes "0x10000 \<le> c" "c < 0x110000"
  shows "decode ((0xF0 + c div 262144) # (0x80 + c div 4096 mod 64) # (0x80 + c div 64 mod 64) #
    (0x80 + c mod 64) # bs) = c # decode bs"
proof -
  obtain a m l where c: "c = 4096 * a + 64 * m + l" "m < 64" "l < 64"
    "c div 4096 = a" "c div 64 mod 64 = m" "c mod 64 = l" by (rule split_64)
  define h k where "h = a div 64" and "k = a mod 64"
  have hk: "a = 64 * h + k" "k < 64" by (simp_all add: h_def k_def)
  have top: "c div 262144 = h" using c(4) by (simp add: h_def div_mult2_eq [symmetric])
  have h: "h \<le> 4" using c(1) hk(1) assms(2) by simp
  have "h = 0 \<Longrightarrow> 16 \<le> k" using c hk assms(1) by simp
  moreover have "h = 4 \<Longrightarrow> k \<le> 15" using c(1) hk(1) assms(2) by simp
  moreover have "lead_byte (0xF0 + h) = Some (3, if h = 0 then 0x90 else 0x80, if h = 4 then 0x8F else 0xBF, h)"
    using h by (simp add: lead_byte_def)
  ultimately show ?thesis
    unfolding top c(4-6) k_def [symmetric] using c(2,3) hk(2) h
    by (auto simp: decode_def decode_from.simps c(1) hk(1))
qed

lemma decode_encode_char: "is_scalar c \<Longrightarrow> decode (encode_char c @ bs) = c # decode bs"
  by (auto simp: encode_char_scalar utf8_bytes_def decode_one decode_two decode_three decode_four is_scalar_def)

lemma decode_encode: "list_all is_scalar t \<Longrightarrow> decode (encode t @ bs) = t @ decode bs"
  by (induction t) (auto simp: decode_encode_char)

end
