(* ===== verification/TaskOutput.thy ===== *)
theory TaskOutput
  imports TaskStore TaskText
begin

text \<open>
  The two stores of task output: \<open>InMemoryTaskOutputStore\<close> of the background-task package
  (\<open>in-memory-output-store.ts\<close>) and \<open>FsLocalTaskOutputStore\<close> of the local runtime
  (\<open>local-runtime/src/background-task/store.ts\<close>), which keeps one log file per task.

  Offsets and limits are integers. The file system is a map from task ids to the bytes of the two files of a
  task; its times of modification and the running clock are arguments.
\<close>

section \<open>Vocabulary\<close>

datatype output_stream = Stdout | Stderr | Transcript | FinalResult

record output_chunk =
  oc_taskId :: string
  oc_stream :: "output_stream option"
  oc_content :: js_text
  oc_offset :: "int option"
  oc_timestamp :: "int option"
  oc_metadata :: "js_object option"

record read_options =
  ro_offset :: "int option"
  ro_limitBytes :: "int option"
  ro_stream :: "output_stream option"

record read_result =
  rr_content :: js_text
  rr_nextOffset :: "int option"
  rr_truncated :: "bool option"
  rr_summary :: "js_text option"
  rr_outputRef :: "output_ref option"

definition byte_count :: "js_text \<Rightarrow> int" where
  "byte_count t = int (length (encode t))"

section \<open>The in-memory store\<close>

text \<open>\<open>encodeURIComponent\<close> on code units below 256.\<close>

definition uri_unreserved :: "char \<Rightarrow> bool" where
  "uri_unreserved c \<longleftrightarrow> is_digit c \<or> (CHR ''a'' \<le> c \<and> c \<le> CHR ''z'') \<or> (CHR ''A'' \<le> c \<and> c \<le> CHR ''Z'') \<or>
     c \<in> set ''-_.!~*()'' \<or> c = CHR 0x27"

definition hex_upper :: "nat \<Rightarrow> char" where
  "hex_upper n = (if n < 10 then char_of (48 + n) else char_of (55 + n))"

definition encodeURIComponent :: "string \<Rightarrow> string" where
  "encodeURIComponent s =
     concat (map (\<lambda>c. if uri_unreserved c then [c]
       else concat (map (\<lambda>b. [CHR ''%'', hex_upper (b div 16), hex_upper (b mod 16)]) (encode_char (of_char c)))) s)"

record output_record =
  op_chunks :: "output_chunk list"
  op_summary :: "js_text option"
  op_outputRef :: "output_ref option"

record memory_output =
  mo_kind :: output_kind
  mo_uriPrefix :: string
  mo_outputs :: "(string \<times> output_record) list"

definition getOrCreate :: "string \<Rightarrow> memory_output \<Rightarrow> output_record" where
  "getOrCreate i st = default \<lparr>op_chunks = [], op_summary = None, op_outputRef = None\<rparr> (map_of (mo_outputs st) i)"

definition set_record :: "string \<Rightarrow> output_record \<Rightarrow> memory_output \<Rightarrow> memory_output" where
  "set_record i r st = st\<lparr>mo_outputs := AList.update i r (mo_outputs st)\<rparr>"

definition getContent :: "string \<Rightarrow> output_stream option \<Rightarrow> memory_output \<Rightarrow> js_text" where
  "getContent i stream st =
     (case map_of (mo_outputs st) i of
        None \<Rightarrow> []
      | Some r \<Rightarrow> concat (map oc_content (filter (\<lambda>c. case stream of None \<Rightarrow> True
          | Some s \<Rightarrow> default Stdout (oc_stream c) = s) (op_chunks r))))"

definition append_memory :: "output_chunk \<Rightarrow> int \<Rightarrow> memory_output \<Rightarrow> output_ref \<times> memory_output" where
  "append_memory chunk now st =
     (let i = oc_taskId chunk;
          stream = default Stdout (oc_stream chunk);
          offset = default (byte_count (getContent i (Some stream) st)) (oc_offset chunk);
          timestamp = default now (oc_timestamp chunk);
          stored = chunk\<lparr>oc_stream := Some stream, oc_offset := Some offset, oc_timestamp := Some timestamp\<rparr>;
          r = getOrCreate i st;
          oref = \<lparr>or_taskId = i, or_kind = mo_kind st, or_uri = mo_uriPrefix st @ encodeURIComponent i,
                 or_offset = Some (offset + byte_count (oc_content chunk)), or_updatedAt = Some timestamp,
                 or_metadata = None\<rparr>
      in (oref, set_record i (r\<lparr>op_chunks := op_chunks r @ [stored], op_outputRef := Some oref\<rparr>) st))"

text \<open>\<open>buffer.subarray(start, stop)\<close> for a start in range: a negative end counts from the end.\<close>

definition subarray :: "bytes \<Rightarrow> int \<Rightarrow> int \<Rightarrow> bytes" where
  "subarray bs start stop =
     (let stop' = (if stop < 0 then max 0 (int (length bs) + stop) else stop)
      in take (nat (stop' - start)) (drop (nat start) bs))"

definition sliceUtf8 :: "js_text \<Rightarrow> int \<Rightarrow> int option \<Rightarrow> js_text \<times> int \<times> bool" where
  "sliceUtf8 content offset limitBytes =
     (let buffer = encode content;
          size = int (length buffer);
          start = min offset size;
          stop = (case limitBytes of None \<Rightarrow> size | Some l \<Rightarrow> min size (start + l))
      in (decode (subarray buffer start stop), stop, stop < size))"

definition read_memory :: "string \<Rightarrow> read_options \<Rightarrow> memory_output \<Rightarrow> read_result" where
  "read_memory i options st =
     (case map_of (mo_outputs st) i of
        None \<Rightarrow> \<lparr>rr_content = [], rr_nextOffset = Some (default 0 (ro_offset options)), rr_truncated = None,
                 rr_summary = None, rr_outputRef = None\<rparr>
      | Some r \<Rightarrow>
          let (content, nextOffset, truncated) = sliceUtf8 (getContent i (ro_stream options) st)
                (max 0 (default 0 (ro_offset options))) (ro_limitBytes options)
          in \<lparr>rr_content = content, rr_nextOffset = Some nextOffset, rr_truncated = Some truncated,
              rr_summary = op_summary r, rr_outputRef = op_outputRef r\<rparr>)"

definition tail_memory :: "string \<Rightarrow> int option \<Rightarrow> memory_output \<Rightarrow> read_result" where
  "tail_memory i limitBytes st =
     (let limit = default 8192 limitBytes
      in read_memory i \<lparr>ro_offset = Some (max 0 (byte_count (getContent i None st) - limit)),
           ro_limitBytes = Some limit, ro_stream = None\<rparr> st)"

definition finalize_memory :: "string \<Rightarrow> js_text option \<Rightarrow> memory_output \<Rightarrow> memory_output" where
  "finalize_memory i summary st = set_record i ((getOrCreate i st)\<lparr>op_summary := summary\<rparr>) st"

section \<open>The file store\<close>

record file_output =
  fo_dataDir :: string
  fo_logs :: "string \<Rightarrow> bytes option"
  fo_summaries :: "string \<Rightarrow> bytes option"

definition DEFAULT_OUTPUT_READ_LIMIT_BYTES :: int where "DEFAULT_OUTPUT_READ_LIMIT_BYTES = 64 * 1024"
definition UTF8_RANGE_ALIGNMENT_BYTES :: nat where "UTF8_RANGE_ALIGNMENT_BYTES = 6"

definition valid_task_id :: "string \<Rightarrow> bool" where
  "valid_task_id i \<longleftrightarrow> i \<noteq> [] \<and>
     list_all (\<lambda>c. is_digit c \<or> (CHR ''a'' \<le> c \<and> c \<le> CHR ''z'') \<or> (CHR ''A'' \<le> c \<and> c \<le> CHR ''Z'') \<or> c \<in> set ''_-'') i"

definition taskDir :: "string \<Rightarrow> file_output \<Rightarrow> thrown + string" where
  "taskDir i st =
     (if valid_task_id i then Inr (fo_dataDir st @ ''/background-tasks/'' @ i)
      else Inl (ThrownError (''Invalid local background task id: '' @ i) None))"

definition outputFile :: "string \<Rightarrow> file_output \<Rightarrow> thrown + string" where
  "outputFile i st = rbind (taskDir i st) (\<lambda>d. Inr (d @ ''/output.log''))"

definition log_bytes :: "string \<Rightarrow> file_output \<Rightarrow> bytes" where
  "log_bytes i st = default [] (fo_logs st i)"

definition append_file :: "output_chunk \<Rightarrow> int \<Rightarrow> file_output \<Rightarrow> thrown + (output_ref \<times> file_output)" where
  "append_file chunk now st =
     (let i = oc_taskId chunk in
      rbind (outputFile i st) (\<lambda>file.
        let offset = default (int (length (log_bytes i st))) (oc_offset chunk)
        in Inr (\<lparr>or_taskId = i, or_kind = OutputFile, or_uri = file,
                 or_offset = Some (offset + byte_count (oc_content chunk)),
                 or_updatedAt = Some (default now (oc_timestamp chunk)), or_metadata = None\<rparr>,
                st\<lparr>fo_logs := (fo_logs st)(i \<mapsto> log_bytes i st @ encode (oc_content chunk))\<rparr>)))"

definition normalizeByteOffset :: "int option \<Rightarrow> nat" where
  "normalizeByteOffset offset = (case offset of None \<Rightarrow> 0 | Some n \<Rightarrow> nat n)"

text \<open>\<open>available[k] ?? 0\<close>.\<close>

definition byte_at :: "bytes \<Rightarrow> nat \<Rightarrow> nat" where
  "byte_at bs k = (if k < length bs then bs ! k else 0)"

definition skip_cont :: "bytes \<Rightarrow> nat \<Rightarrow> nat" where
  "skip_cont bs k = k + length (takeWhile is_cont (drop k bs))"

fun back_to_char :: "bytes \<Rightarrow> nat \<Rightarrow> nat \<Rightarrow> nat" where
  "back_to_char bs start 0 = 0"
| "back_to_char bs start (Suc k) =
     (if Suc k > start \<and> is_cont (byte_at bs (Suc k)) then back_to_char bs start k else Suc k)"

text \<open>Where the page stops: at the limit, back to the start of a character, or after one whole character.\<close>

definition range_stop :: "bytes \<Rightarrow> nat \<Rightarrow> nat \<Rightarrow> nat \<Rightarrow> nat \<Rightarrow> nat" where
  "range_stop available start limitBytes readOffset fileSize =
     (let stop = min (length available) (start + limitBytes);
          stop = (if readOffset + stop < fileSize then back_to_char available start stop else stop)
      in if stop = start \<and> start < length available \<and> limitBytes > 0
         then skip_cont available (stop + 1) else stop)"

definition readUtf8Range :: "bytes option \<Rightarrow> nat \<Rightarrow> nat \<Rightarrow> js_text \<times> nat \<times> bool" where
  "readUtf8Range file offset limitBytes =
     (case file of
        None \<Rightarrow> ([], 0, False)
      | Some content \<Rightarrow>
          let size = length content;
              readOffset = min offset size;
              available = take (min (size - readOffset) (limitBytes + UTF8_RANGE_ALIGNMENT_BYTES)) (drop readOffset content);
              start = skip_cont available 0;
              stop = range_stop available start limitBytes readOffset size
          in (decode (take (stop - start) (drop start available)), readOffset + stop, readOffset + stop < size))"

definition read_file :: "string \<Rightarrow> read_options \<Rightarrow> int option \<Rightarrow> file_output \<Rightarrow> thrown + read_result" where
  "read_file i options mtime st =
     rbind (outputFile i st) (\<lambda>file.
       let limit = nat (default DEFAULT_OUTPUT_READ_LIMIT_BYTES (ro_limitBytes options));
           (content, nextOffset, truncated) =
             readUtf8Range (fo_logs st i) (normalizeByteOffset (ro_offset options)) limit
       in Inr \<lparr>rr_content = content, rr_nextOffset = Some (int nextOffset), rr_truncated = Some truncated,
               rr_summary = None,
               rr_outputRef = Some \<lparr>or_taskId = i, or_kind = OutputFile, or_uri = file,
                 or_offset = Some (int nextOffset), or_updatedAt = mtime, or_metadata = None\<rparr>\<rparr>)"

definition tail_file :: "string \<Rightarrow> int option \<Rightarrow> int option \<Rightarrow> file_output \<Rightarrow> thrown + read_result" where
  "tail_file i limitBytes mtime st =
     (let limit = default 8192 limitBytes
      in rbind (outputFile i st) (\<lambda>_.
           read_file i \<lparr>ro_offset = Some (max 0 (int (length (log_bytes i st)) - limit)),
             ro_limitBytes = Some limit, ro_stream = None\<rparr> mtime st))"

definition finalize_file :: "string \<Rightarrow> js_text option \<Rightarrow> file_output \<Rightarrow> thrown + file_output" where
  "finalize_file i summary st =
     (case summary of
        None \<Rightarrow> Inr st
      | Some s \<Rightarrow> rbind (taskDir i st) (\<lambda>_. Inr (st\<lparr>fo_summaries := (fo_summaries st)(i \<mapsto> encode s)\<rparr>)))"

end
