(* ===== verification/TaskOutputProps.thy ===== *)
theory TaskOutputProps
  imports TaskOutput
begin

text \<open>
  Pages of task output: the file store never splits a character, so its pages put together are the
  whole text, while the in-memory store cuts at a byte.
\<close>

section \<open>Characters in a buffer\<close>

lemma encode_char_shape:
  obtains b cs where "encode_char c = b # cs" "\<not> is_cont b" "list_all is_cont cs" "length cs \<le> 3"
proof -
  have m: "x mod 64 \<le> 63" for x :: nat using mod_less_divisor [of 64 x] by linarith
  have "is_scalar d \<Longrightarrow> \<exists>b cs. utf8_bytes d = b # cs \<and> \<not> is_cont b \<and> list_all is_cont cs \<and> length cs \<le> 3" for d
    by (auto simp: utf8_bytes_def is_cont_def is_scalar_def m)
  moreover have "is_scalar (if is_scalar c then c else REPLACEMENT)" by (simp add: is_scalar_def REPLACEMENT_def)
  ultimately show ?thesis using that unfolding encode_char_def by blast
qed

lemma encode_char_pos: "0 < length (encode_char c)" "length (encode_char c) \<le> 4"
proof -
  obtain b cs where "encode_char c = b # cs" "length cs \<le> 3" by (rule encode_char_shape)
  then show "0 < length (encode_char c)" "length (encode_char c) \<le> 4" by simp_all
qed

lemma encode_length: "length t \<le> length (encode t)"
proof (induction t)
  case (Cons c t)
  then show ?case using encode_char_pos(1) [of c] by (simp del: length_greater_0_conv)
qed simp

lemma takeWhile_conts:
  assumes "list_all is_cont cs" "n \<ge> length cs"
  shows "takeWhile is_cont (take n (cs @ encode t)) = cs"
proof (cases t)
  case Nil
  then show ?thesis using assms by (simp add: takeWhile_eq_all_conv list_all_iff)
next
  case (Cons c u)
  obtain b ds where "encode_char c = b # ds" "\<not> is_cont b" by (rule encode_char_shape)
  then show ?thesis using assms Cons
    by (cases "n - length cs") (simp_all add: takeWhile_append2 list_all_iff)
qed

text \<open>From any offset, at most three continuation bytes lead to the next character.\<close>

lemma drop_encode:
  assumes "k \<le> length (encode t)"
  obtains pre cs post where "t = pre @ post" "drop k (encode t) = cs @ encode post" "list_all is_cont cs"
    "length cs \<le> 3" "k + length cs = length (encode pre)"
proof -
  have "\<exists>pre cs post. t = pre @ post \<and> drop k (encode t) = cs @ encode post \<and> list_all is_cont cs \<and>
      length cs \<le> 3 \<and> k + length cs = length (encode pre)"
    using assms
  proof (induction t arbitrary: k)
    case (Cons c t)
    obtain b ds where b: "encode_char c = b # ds" "\<not> is_cont b" "list_all is_cont ds" "length ds \<le> 3"
      by (rule encode_char_shape)
    consider "k = 0" | "0 < k" "k \<le> length ds" | "length ds < k" by linarith
    then show ?case
    proof cases
      case 1
      then show ?thesis by (intro exI [of _ "[]"] exI [of _ "[]"] exI [of _ "c # t"]) simp
    next
      case 2
      then obtain j where "k = Suc j" "j < length ds" by (cases k) auto
      then show ?thesis using b
        by (intro exI [of _ "[c]"] exI [of _ "drop j ds"] exI [of _ t]) (auto simp: list_all_iff dest: in_set_dropD)
    next
      case 3
      then have "k - length (encode_char c) \<le> length (encode t)" using Cons.prems b(1) by simp
      from Cons.IH [OF this] obtain pre cs post where
        "t = pre @ post" "drop (k - length (encode_char c)) (encode t) = cs @ encode post" "list_all is_cont cs"
        "length cs \<le> 3" "k - length (encode_char c) + length cs = length (encode pre)" by blast
      moreover have "drop k (encode_char c @ encode t) = drop (k - length (encode_char c)) (encode t)"
      proof -
        obtain j where "k = length (encode_char c) + j" using 3 b(1) le_Suc_ex [of "length (encode_char c)" k] by auto
        then show ?thesis by simp
      qed
      ultimately have "c # t = (c # pre) @ post \<and> drop k (encode (c # t)) = cs @ encode post \<and> list_all is_cont cs \<and>
          length cs \<le> 3 \<and> k + length cs = length (encode (c # pre))" using 3 b(1) by auto
      then show ?thesis by blast
    qed
  qed simp
  with that show ?thesis by blast
qed

lemma byte_at_drop: "drop k bs = b # ds \<Longrightarrow> byte_at bs k = b"
  by (metis byte_at_def drop_eq_Nil2 linorder_not_le list.discI nth_via_drop)

text \<open>The last character that ends within a limit.\<close>

lemma char_boundary:
  assumes "k \<le> length (encode t)" "\<not> is_cont (byte_at (encode t) k)"
  obtains mid post where "t = mid @ post" "length (encode mid) = k"
proof -
  obtain pre cs post where p: "t = pre @ post" "drop k (encode t) = cs @ encode post" "list_all is_cont cs"
    "k + length cs = length (encode pre)" using assms(1) by (rule drop_encode)
  have "cs = []" using p(2,3) assms(2) byte_at_drop [of k "encode t"] by (cases cs) auto
  then show ?thesis using p that by simp
qed

lemma boundary_not_cont: "\<not> is_cont (byte_at (encode (pre @ rest)) (length (encode pre)))"
proof (cases rest)
  case (Cons c u)
  obtain b ds where "encode_char c = b # ds" "\<not> is_cont b" by (rule encode_char_shape)
  then show ?thesis using Cons by (simp add: byte_at_def nth_append)
qed (simp add: byte_at_def is_cont_def)

lemma back_to_char:
  assumes "start \<le> k"
  shows "start \<le> back_to_char bs start k \<and> back_to_char bs start k \<le> k \<and>
    (back_to_char bs start k = start \<or> \<not> is_cont (byte_at bs (back_to_char bs start k)))"
  using assms by (induction k) (auto simp: le_Suc_eq)

lemma take_encode_whole: "list_all is_scalar mid \<Longrightarrow> decode (take (length (encode mid)) (encode mid @ bs)) = mid"
  using decode_encode [of mid "[]"] by simp

section \<open>One page\<close>

text \<open>Where a page stops, in a buffer that holds enough of the text for a whole character more than the limit.\<close>

lemma range_stop:
  fixes cs :: bytes and post :: js_text and lim m :: nat
  defines "A \<equiv> cs @ take m (encode post)" and "s \<equiv> length cs"
  defines "stop0 \<equiv> min (length A) (s + lim)"
  defines "stop1 \<equiv> if stop0 < s + length (encode post) then back_to_char A s stop0 else stop0"
  defines "stop2 \<equiv> if stop1 = s \<and> s < length A \<and> 0 < lim then skip_cont A (stop1 + 1) else stop1"
  assumes m: "lim + 3 \<le> m \<or> m = length (encode post)"
    and fileSize: "fileSize = k + length cs + length (encode post)"
  obtains mid post' where "post = mid @ post'" "range_stop A s lim k fileSize = s + length (encode mid)"
    "length (encode mid) \<le> lim \<or> (length mid = 1 \<and> 0 < lim)" "0 < lim \<Longrightarrow> mid = [] \<Longrightarrow> post' = []"
proof -
  have last: "k + x < fileSize \<longleftrightarrow> x < s + length (encode post)" for x by (auto simp: fileSize s_def)
  have "range_stop A s lim k fileSize = stop2"
    unfolding range_stop_def Let_def last stop2_def stop1_def stop0_def by (rule refl)
  moreover obtain mid post' where "post = mid @ post'" "stop2 = s + length (encode mid)"
    "length (encode mid) \<le> lim \<or> (length mid = 1 \<and> 0 < lim)" "0 < lim \<Longrightarrow> mid = [] \<Longrightarrow> post' = []"
  proof (cases "length (encode post) \<le> lim")
  case True
  then have "stop0 = s + length (encode post)" "length A = s + length (encode post)"
    using m by (auto simp: stop0_def A_def s_def)
  then have "stop2 = s + length (encode post)" by (auto simp: stop1_def stop2_def)
  then show ?thesis using True by (intro that [of post "[]"]) simp_all
next
  case False
  have lm: "lim < m" using m False by auto
  then have stop0: "stop0 = s + lim" using False by (simp add: stop0_def A_def s_def)
  have len: "lim < length A - s" using lm False by (simp add: A_def s_def)
  define e where "e = back_to_char A s (s + lim) - s"
  have "s \<le> back_to_char A s (s + lim)" "back_to_char A s (s + lim) \<le> s + lim"
    and e0: "back_to_char A s (s + lim) = s \<or> \<not> is_cont (byte_at A (back_to_char A s (s + lim)))"
    using back_to_char [of s "s + lim" A] by auto
  then have e: "back_to_char A s (s + lim) = s + e" "e \<le> lim" by (auto simp: e_def)
  then have stop1: "stop1 = s + e" using stop0 False by (simp add: stop1_def)
  show ?thesis
  proof (cases "e = 0 \<and> 0 < lim")
    case True
    obtain c u where post: "post = c # u" using False by (cases post) auto
    obtain b ds where b: "encode_char c = b # ds" "list_all is_cont ds" "length ds \<le> 3" by (rule encode_char_shape)
    have "drop (s + 1) A = take (m - 1) (ds @ encode u)"
      using lm by (simp add: A_def s_def post b(1) drop_take take_Cons')
    moreover have "length ds \<le> m - 1" using m True b(1,3) post by auto
    ultimately have "skip_cont A (s + 1) = s + 1 + length ds"
      unfolding skip_cont_def using takeWhile_conts [OF b(2), of "m - 1" u] by simp
    moreover have "s < length A" using len True by simp
    ultimately have "stop2 = s + length (encode [c])" using stop1 True b(1) by (simp add: stop2_def)
    then show ?thesis using post True by (intro that [of "[c]" u]) simp_all
  next
    case False2: False
    have "\<not> is_cont (byte_at (encode post) e)" if "e \<noteq> 0"
    proof -
      have "byte_at A (s + e) = byte_at (encode post) e"
        using e(2) lm False len by (simp add: byte_at_def A_def s_def nth_append)
      then show ?thesis using e0 e(1) that by simp
    qed
    moreover have "\<not> is_cont (byte_at (encode post) 0)" using boundary_not_cont [of "[]" post] by simp
    ultimately have "\<not> is_cont (byte_at (encode post) e)" by (cases "e = 0") auto
    moreover have "e \<le> length (encode post)" using e(2) False by simp
    ultimately obtain mid post' where mid: "post = mid @ post'" "length (encode mid) = e" using char_boundary by blast
    have "stop2 = s + e" using stop1 False2 by (auto simp: stop2_def)
    moreover have "mid = [] \<Longrightarrow> e = 0" using mid(2) by simp
    ultimately show ?thesis using mid e(2) False2 by (intro that [of mid post']) auto
  qed
  qed
  ultimately show thesis using that by simp
qed

text \<open>
  What a read at any offset yields: the characters from the first one that begins at or after the offset, and
  the offset of the character that follows them.
\<close>

lemma readUtf8Range_whole:
  assumes t: "list_all is_scalar t" and r: "readUtf8Range (Some (encode t)) off lim = (content, stop, trunc)"
  obtains pre post where "t = pre @ content @ post" "stop = length (encode (pre @ content))" "trunc \<longleftrightarrow> post \<noteq> []"
    "min off (length (encode t)) \<le> length (encode pre)"
    "is_cont (byte_at (encode t) (min off (length (encode t)))) \<or> length (encode pre) = min off (length (encode t))"
    "length (encode content) \<le> lim \<or> (length content = 1 \<and> 0 < lim)" "0 < lim \<Longrightarrow> content = [] \<Longrightarrow> post = []"
proof -
  define fileSize k where "fileSize = length (encode t)" and "k = min off fileSize"
  define A where "A = take (min (fileSize - k) (lim + 6)) (drop k (encode t))"
  have "k \<le> length (encode t)" by (simp add: k_def fileSize_def)
  then obtain pre cs post where p: "t = pre @ post" "drop k (encode t) = cs @ encode post" "list_all is_cont cs"
    "length cs \<le> 3" "k + length cs = length (encode pre)" by (rule drop_encode)
  have rest: "fileSize - k = length cs + length (encode post)" using p(2) by (metis length_append length_drop fileSize_def)
  have start: "skip_cont A 0 = length cs"
    unfolding A_def skip_cont_def p(2) using takeWhile_conts [OF p(3)] rest p(4) by simp
  define m where "m = min (fileSize - k) (lim + 6) - length cs"
  have A: "A = cs @ take m (encode post)" using rest p(4) by (simp add: A_def p(2) m_def)
  have m: "lim + 3 \<le> m \<or> m = length (encode post)" using rest p(4) by (auto simp: m_def)
  have fs: "fileSize = k + length cs + length (encode post)" using rest \<open>k \<le> length (encode t)\<close> fileSize_def by linarith
  obtain mid post' where mid: "post = mid @ post'" "range_stop A (length cs) lim k fileSize = length cs + length (encode mid)"
    "length (encode mid) \<le> lim \<or> (length mid = 1 \<and> 0 < lim)" "0 < lim \<Longrightarrow> mid = [] \<Longrightarrow> post' = []"
    using range_stop [OF m fs] unfolding A by blast
  have "readUtf8Range (Some (encode t)) off lim =
      (decode (take (range_stop A (length cs) lim k fileSize - length cs) (drop (length cs) A)),
       k + range_stop A (length cs) lim k fileSize, k + range_stop A (length cs) lim k fileSize < fileSize)"
    unfolding readUtf8Range_def option.case Let_def UTF8_RANGE_ALIGNMENT_BYTES_def
      fileSize_def [symmetric] k_def [symmetric] A_def [symmetric] start by (rule refl)
  moreover have "list_all is_scalar mid" using t p(1) mid(1) by simp
  moreover have "length (encode mid) \<le> m"
    using m mid(1,3) encode_char_pos(2) [of "hd mid"] by (cases mid) auto
  then have "take (length (encode mid)) (drop (length cs) A) = take (length (encode mid)) (encode mid @ [])"
    by (simp add: A mid(1))
  moreover have "encode post' = [] \<longleftrightarrow> post' = []" using encode_length [of post'] by (cases post') auto
  ultimately have "content = mid" "stop = k + length cs + length (encode mid)" "trunc \<longleftrightarrow> post' \<noteq> []"
    using r mid(1,2) fs take_encode_whole [of mid "[]"] by simp_all
  moreover have "is_cont (byte_at (encode t) k) \<or> cs = []"
    using p(2,3) byte_at_drop [of k "encode t"] by (cases cs) auto
  ultimately have res: "content = mid" "stop = k + length cs + length (encode mid)" "trunc \<longleftrightarrow> post' \<noteq> []"
    "is_cont (byte_at (encode t) k) \<or> cs = []" by auto
  show thesis
  proof (rule that [of pre post'])
    show "t = pre @ content @ post'" using p(1) mid(1) res(1) by simp
    show "stop = length (encode (pre @ content))" using res(1,2) p(5) by simp
    show "min off (length (encode t)) \<le> length (encode pre)"
      "is_cont (byte_at (encode t) (min off (length (encode t)))) \<or> length (encode pre) = min off (length (encode t))"
      using p(5) res(4) by (auto simp: k_def fileSize_def)
  qed (use res mid in auto)
qed

lemma encode_prefix_eq:
  assumes "pre @ s = pre' @ t" "length (encode pre) = length (encode pre')"
  shows "pre = pre'"
proof -
  have "xs = []" if "length (encode xs) = 0" for xs using encode_length [of xs] that by simp
  then show ?thesis using assms by (auto simp: append_eq_append_conv2)
qed

section \<open>All pages\<close>

text \<open>A reader that starts at an offset and follows \<open>nextOffset\<close> while the output is truncated, a page at a time.\<close>

fun read_pages :: "nat \<Rightarrow> string \<Rightarrow> int \<Rightarrow> int option \<Rightarrow> int option \<Rightarrow> file_output \<Rightarrow> js_text list option" where
  "read_pages 0 i lim mtime off st = None"
| "read_pages (Suc n) i lim mtime off st =
     (case read_file i \<lparr>ro_offset = off, ro_limitBytes = Some lim, ro_stream = None\<rparr> mtime st of
        Inl _ \<Rightarrow> None
      | Inr page \<Rightarrow>
          if rr_truncated page = Some True
          then map_option (Cons (rr_content page)) (read_pages n i lim mtime (rr_nextOffset page) st)
          else Some [rr_content page])"

lemma read_pages_whole:
  assumes "list_all is_scalar t" "t = pre @ rest" and log: "fo_logs st i = Some (encode t)" "valid_task_id i" and "0 < lim"
    and "length rest < n" "normalizeByteOffset off = length (encode pre)"
  shows "\<exists>pages. read_pages n i lim mtime off st = Some pages \<and> concat pages = rest \<and>
    (\<forall>page \<in> set pages. length (encode page) \<le> nat lim \<or> length page = 1)"
  using assms(2,6,7)
proof (induction n arbitrary: pre rest off)
  case (Suc n)
  obtain content stop trunc where r: "readUtf8Range (Some (encode t)) (length (encode pre)) (nat lim) = (content, stop, trunc)"
    by (cases "readUtf8Range (Some (encode t)) (length (encode pre)) (nat lim)") auto
  have off: "min (length (encode pre)) (length (encode t)) = length (encode pre)" using Suc.prems(1) by simp
  obtain pre' post where w: "t = pre' @ content @ post" "stop = length (encode (pre' @ content))" "trunc \<longleftrightarrow> post \<noteq> []"
    "length (encode pre) \<le> length (encode pre')"
    "is_cont (byte_at (encode t) (length (encode pre))) \<or> length (encode pre') = length (encode pre)"
    "length (encode content) \<le> nat lim \<or> length content = 1" "content = [] \<Longrightarrow> post = []"
    using readUtf8Range_whole [OF assms(1) r] \<open>0 < lim\<close> unfolding off by (metis zero_less_nat_eq)
  have "pre' = pre" using w(1,5) Suc.prems(1) boundary_not_cont [of pre rest] encode_prefix_eq by metis
  then have rest: "rest = content @ post" using w(1) Suc.prems(1) by simp
  show ?case
  proof (cases "post = []")
    case True
    then show ?thesis using r w(3,6) rest log Suc.prems(3)
      by (simp add: read_file_def outputFile_def taskDir_def)
  next
    case False
    then have "content \<noteq> []" using w(7) by blast
    then have "length post < n" using Suc.prems(2) rest by (cases content) auto
    from Suc.IH [of "pre @ content" post "Some (int stop)", OF _ this] obtain pages where pages:
      "read_pages n i lim mtime (Some (int stop)) st = Some pages" "concat pages = post"
      "\<forall>page \<in> set pages. length (encode page) \<le> nat lim \<or> length page = 1"
      using Suc.prems(1) rest w(2) \<open>pre' = pre\<close> by (auto simp: normalizeByteOffset_def [of "Some _"] nat_int_add)
    then have "read_pages (Suc n) i lim mtime off st = Some (content # pages)"
      using r w(3) log False Suc.prems(3) by (simp add: read_file_def outputFile_def taskDir_def)
    then show ?thesis using pages rest w(6) by (intro exI [of _ "content # pages"]) auto
  qed
qed simp

text \<open>A producer that appends its texts one after the other, at the time \<open>now\<close>.\<close>

fun write_all :: "string \<Rightarrow> int \<Rightarrow> js_text list \<Rightarrow> file_output \<Rightarrow> thrown + file_output" where
  "write_all i now [] st = Inr st"
| "write_all i now (t # ts) st =
     rbind (append_file \<lparr>oc_taskId = i, oc_stream = None, oc_content = t, oc_offset = None, oc_timestamp = None,
         oc_metadata = None\<rparr> now st) (\<lambda>(_, st'). write_all i now ts st')"

lemma write_all_log:
  "write_all i now ts st = Inr st' \<Longrightarrow>
   fo_logs st' i = (if ts = [] then fo_logs st i else Some (log_bytes i st @ encode (concat ts)))"
  by (induction ts arbitrary: st) (auto simp: append_file_def result_simps log_bytes_def Let_def)

lemma write_all_valid: "write_all i now ts st = Inr st' \<Longrightarrow> ts \<noteq> [] \<Longrightarrow> valid_task_id i"
  by (cases ts) (auto simp: append_file_def result_simps Let_def outputFile_def taskDir_def split: if_splits)

text \<open>A limit that is not positive counts as zero: the page is empty and the next one begins where it began.\<close>

lemma read_pages_stuck:
  assumes "list_all is_scalar t" "t \<noteq> []" and log: "fo_logs st i = Some (encode t)" "valid_task_id i" and "lim \<le> 0"
    and "normalizeByteOffset off = 0"
  shows "read_pages n i lim mtime off st = None"
  using assms(6)
proof (induction n arbitrary: off)
  case (Suc n)
  obtain content stop trunc where r: "readUtf8Range (Some (encode t)) 0 (nat lim) = (content, stop, trunc)"
    by (cases "readUtf8Range (Some (encode t)) 0 (nat lim)") auto
  have nat: "nat lim = 0" using \<open>lim \<le> 0\<close> by simp
  obtain pre post where w: "t = pre @ content @ post" "stop = length (encode (pre @ content))" "trunc \<longleftrightarrow> post \<noteq> []"
      "is_cont (byte_at (encode t) 0) \<or> length (encode pre) = 0" "length (encode content) = 0"
    using readUtf8Range_whole [OF assms(1) r] unfolding nat by (metis less_irrefl le_zero_eq min_0L)
  have "\<not> is_cont (byte_at (encode t) 0)"
    using boundary_not_cont [of "[]" t] by simp
  then have "pre = []" "content = []"
    using w(4,5) encode_length [of pre] encode_length [of content] by auto
  then have r': "readUtf8Range (Some (encode t)) 0 (nat lim) = ([], 0, True)"
    using r w(1-3) assms(2) by simp
  have "normalizeByteOffset (Some (int 0)) = 0" by (simp add: normalizeByteOffset_def)
  from Suc.IH [OF this] have "read_pages n i lim mtime (Some 0) st = None" by simp
  then show ?case
    using r' log Suc.prems by (simp add: read_file_def outputFile_def taskDir_def)
qed simp

text \<open>C13: The pages of a log put together are what was written. After any texts have been appended to a task
  that had no log, a reader that follows the offsets from the start, with any positive limit on the bytes of a
  page, reaches the end after at most one page per character and one more, and its pages put together are the
  texts, to the character. A page is within the limit, or a single character. With a limit that is not positive,
  which the store accepts, the reader of a log that is not empty never reaches the end.\<close>

theorem file_pages_whole:
  assumes "write_all i now texts st = Inr st'" "fo_logs st i = None" "valid_task_id i"
    and "list_all (list_all is_scalar) texts"
  shows "if 0 < lim \<or> concat texts = []
    then \<exists>pages. read_pages (Suc (length (concat texts))) i lim mtime None st' = Some pages \<and>
      concat pages = concat texts \<and> (\<forall>page \<in> set pages. length (encode page) \<le> nat lim \<or> length page = 1)
    else \<forall>n. read_pages n i lim mtime None st' = None"
proof (cases "concat texts = []")
  case True
  then have "encode (concat texts) = []" by (simp only: encode_simps)
  then have "fo_logs st' i = None \<or> fo_logs st' i = Some []"
    using write_all_log [OF assms(1)] assms(2) unfolding log_bytes_def by (simp split: if_splits)
  with True show ?thesis using assms(3)
    by (auto simp: read_file_def outputFile_def taskDir_def readUtf8Range_def range_stop_def skip_cont_def Let_def decode_def
        decode_from.simps normalizeByteOffset_def)
next
  case False
  then have "texts \<noteq> []" by auto
  then have log: "fo_logs st' i = Some (encode (concat texts))"
    using write_all_log [OF assms(1)] assms(2) by (simp add: log_bytes_def)
  have scalar: "list_all is_scalar (concat texts)" using assms(4) by (induction texts) auto
  show ?thesis
  proof (cases "0 < lim")
    case True
    then show ?thesis
      using read_pages_whole [of "concat texts" "[]" "concat texts" st' i lim "Suc (length (concat texts))" None]
        log scalar assms(3) by (simp add: normalizeByteOffset_def del: read_pages.simps)
  next
    case lim: False
    then have "read_pages n i lim mtime None st' = None" for n
      using scalar False log assms(3) by (intro read_pages_stuck) (simp_all add: normalizeByteOffset_def)
    with lim False show ?thesis
      by (simp del: read_pages.simps)
  qed
qed

theorem file_pages_whole_witness:
  "\<exists>st' pages. write_all ''t1'' 0 [[72, 0xE9], [0x1F600]] \<lparr>fo_dataDir = ''/d'', fo_logs = (\<lambda>_. None), fo_summaries = (\<lambda>_. None)\<rparr> = Inr st' \<and>
     read_pages 4 ''t1'' 2 None None st' = Some pages \<and> concat pages = [72, 0xE9, 0x1F600]"
proof -
  let ?st = "\<lparr>fo_dataDir = ''/d'', fo_logs = (\<lambda>_. None), fo_summaries = (\<lambda>_. None)\<rparr>"
  have valid: "valid_task_id ''t1''" by (simp add: valid_task_id_def is_digit_def less_eq_char_def)
  then obtain st' where w: "write_all ''t1'' 0 [[72, 0xE9], [0x1F600]] ?st = Inr st'"
    by (auto simp: append_file_def outputFile_def taskDir_def Let_def)
  have four: "Suc (length (concat [[72, 0xE9], [0x1F600 :: nat]])) = 4" by simp
  obtain pages where "read_pages 4 ''t1'' 2 None None st' = Some pages" "concat pages = [72, 0xE9, 0x1F600]"
    using file_pages_whole [of "''t1''" 0 "[[72, 0xE9], [0x1F600]]" ?st st' 2 None, OF w _ valid]
    unfolding four by (auto simp: is_scalar_def simp del: read_pages.simps)
  then show ?thesis using w by blast
qed

section \<open>Pages of the in-memory store\<close>

lemma decode_cut: "0x80 \<le> b \<Longrightarrow> decode [b] = [REPLACEMENT]"
  by (auto simp: decode_def decode_from.simps lead_byte_def)

lemma decode_conts: "list_all is_cont cs \<Longrightarrow> decode (cs @ bs) = replicate (length cs) REPLACEMENT @ decode bs"
  by (induction cs) (auto simp: decode_def decode_from.simps lead_byte_def is_cont_def)

lemma slice_first: "encode t = xs @ ys \<Longrightarrow> sliceUtf8 t 0 (Some (int (length xs))) = (decode xs, int (length xs), ys \<noteq> [])"
  by (cases ys) (simp_all add: sliceUtf8_def subarray_def Let_def)

lemma slice_rest: "encode t = xs @ ys \<Longrightarrow> sliceUtf8 t (int (length xs)) None = (decode ys, int (length (xs @ ys)), False)"
  by (simp add: sliceUtf8_def subarray_def Let_def)

text \<open>The in-memory store cuts characters in two. A page that ends within a character replaces its first
  bytes by U+FFFD and the next page replaces the rest, so the two pages put together are not the text: every byte of
  that character has become a replacement character.\<close>

theorem memory_pages_split:
  assumes "map_of (mo_outputs st) i \<noteq> None" "getContent i None st = pre @ c # post"
    and "list_all is_scalar (pre @ c # post)" "0x80 \<le> c" "lim = byte_count pre + 1"
    and first: "first = read_memory i \<lparr>ro_offset = None, ro_limitBytes = Some lim, ro_stream = None\<rparr> st"
    and second: "second = read_memory i \<lparr>ro_offset = rr_nextOffset first, ro_limitBytes = None, ro_stream = None\<rparr> st"
  shows "rr_truncated first = Some True \<and>
    rr_content first @ rr_content second = pre @ replicate (length (encode_char c)) REPLACEMENT @ post"
proof -
  have sc: "list_all is_scalar pre" "is_scalar c" "list_all is_scalar post" using assms(3) by simp_all
  obtain b cs where b: "encode_char c = b # cs" "list_all is_cont cs" by (rule encode_char_shape)
  have high: "0x80 \<le> b" "cs \<noteq> []"
    using b(1) \<open>0x80 \<le> c\<close> sc(2) by (auto simp: encode_char_scalar utf8_bytes_def split: if_splits)
  have buffer: "encode (pre @ c # post) = (encode pre @ [b]) @ cs @ encode post" using b(1) by simp
  have lim: "lim = int (length (encode pre @ [b]))" using assms(5) by (simp add: byte_count_def)
  obtain r where "map_of (mo_outputs st) i = Some r" using assms(1) by auto
  note reads = read_memory_def this assms(2) lim
  have "rr_content first = pre @ [REPLACEMENT]" "rr_nextOffset first = Some lim" "rr_truncated first = Some True"
    using high slice_first [OF buffer] decode_encode [OF sc(1), of "[b]"]
    by (simp_all add: first reads decode_cut del: length_append)
  moreover from this have "rr_content second = replicate (length cs) REPLACEMENT @ post"
    using slice_rest [OF buffer] decode_conts [OF b(2), of "encode post"] decode_encode [OF sc(3), of "[]"]
    by (simp add: second reads del: length_append)
  ultimately show ?thesis using b(1) by simp
qed

definition demo_output :: memory_output where
  "demo_output = snd (append_memory \<lparr>oc_taskId = ''t1'', oc_stream = None, oc_content = [104, 0xE9, 33], oc_offset = None,
     oc_timestamp = None, oc_metadata = None\<rparr> 0
     \<lparr>mo_kind = OutputMemory, mo_uriPrefix = ''memory://background-task/'', mo_outputs = []\<rparr>)"

theorem memory_pages_split_witness:
  "rr_content (read_memory ''t1'' \<lparr>ro_offset = None, ro_limitBytes = Some 2, ro_stream = None\<rparr> demo_output) @
   rr_content (read_memory ''t1'' \<lparr>ro_offset = rr_nextOffset (read_memory ''t1''
       \<lparr>ro_offset = None, ro_limitBytes = Some 2, ro_stream = None\<rparr> demo_output),
     ro_limitBytes = None, ro_stream = None\<rparr> demo_output) = [104, REPLACEMENT, REPLACEMENT, 33]"
proof -
  have found: "map_of (mo_outputs demo_output) ''t1'' \<noteq> None"
    by (simp add: demo_output_def append_memory_def set_record_def Let_def)
  have content: "getContent ''t1'' None demo_output = [104] @ 0xE9 # [33]"
    by (simp add: demo_output_def append_memory_def set_record_def getContent_def getOrCreate_def Let_def)
  have "encode_char 0xE9 = [195, 169]" "encode_char 104 = [104]"
    by (simp_all add: encode_char_scalar is_scalar_def utf8_bytes_def)
  then show ?thesis
    using memory_pages_split [OF found content _ _ _ refl refl, of 2] by (simp add: is_scalar_def byte_count_def)
qed

end
