(* ===== verification/TaskLocal.thy ===== *)
theory TaskLocal
  imports TaskStore "HOL-Library.Option_ord"
begin

text \<open>
  The task store of the local runtime (\<open>local-runtime/src/background-task\<close>: \<open>SqliteLocalBackgroundTaskStore\<close> of
  \<open>store.ts\<close> over the tables of \<open>schema.ts\<close>, and \<open>task-query.ts\<close>).

  A table is the list of its rows in the order of their rowids, the JSON column holds the parsed record or
  nothing where it does not parse. A \<open>SELECT\<close> without \<open>ORDER BY\<close> yields the rows in an order of the query
  plan, which is the argument \<open>plan\<close>.
\<close>

record task_row =
  tr_taskId :: string
  tr_ownerSessionId :: string
  tr_kind :: task_kind
  tr_status :: task_status
  tr_createdAt :: int
  tr_updatedAt :: int
  tr_endedAt :: "int option"
  tr_deliveredAt :: "int option"
  tr_record :: "background_task option"

record task_db =
  td_rows :: "task_row list"
  td_events :: "task_event list"

type_synonym query_plan = "task_row list \<Rightarrow> task_row list"

definition row_of :: "background_task \<Rightarrow> task_row" where
  "row_of t =
     \<lparr>tr_taskId = bt_taskId t, tr_ownerSessionId = bt_ownerSessionId t, tr_kind = bt_kind t, tr_status = bt_status t,
      tr_createdAt = bt_createdAt t, tr_updatedAt = bt_updatedAt t, tr_endedAt = bt_endedAt t,
      tr_deliveredAt = bt_deliveredAt t, tr_record = Some t\<rparr>"

section \<open>Queries\<close>

definition matchesQuery_local :: "background_task \<Rightarrow> task_query \<Rightarrow> bool" where
  "matchesQuery_local t q \<longleftrightarrow>
     (case tq_taskIds q of None \<Rightarrow> True | Some is \<Rightarrow> bt_taskId t \<in> set is) \<and>
     (case truthy (tq_ownerSessionId q) of None \<Rightarrow> True | Some s \<Rightarrow> bt_ownerSessionId t = s) \<and>
     (case tq_parentTaskId q of None \<Rightarrow> True
      | Some p \<Rightarrow> (case bt_parentTaskId t of None \<Rightarrow> None | Some p' \<Rightarrow> p') = p) \<and>
     (case tq_kinds q of None \<Rightarrow> True | Some ks \<Rightarrow> bt_kind t \<in> set ks) \<and>
     (case tq_statuses q of None \<Rightarrow> True | Some ss \<Rightarrow> bt_status t \<in> set ss) \<and>
     (case tq_createdAfter q of None \<Rightarrow> True | Some n \<Rightarrow> \<not> bt_createdAt t < n) \<and>
     (case tq_createdBefore q of None \<Rightarrow> True | Some n \<Rightarrow> \<not> bt_createdAt t > n) \<and>
     (case tq_updatedAfter q of None \<Rightarrow> True | Some n \<Rightarrow> \<not> bt_updatedAt t < n) \<and>
     (case tq_updatedBefore q of None \<Rightarrow> True | Some n \<Rightarrow> \<not> bt_updatedAt t > n) \<and>
     \<not> (tq_undeliveredOnly q = Some True \<and> (\<not> isTerminalTaskStatus (bt_status t) \<or> bt_deliveredAt t \<noteq> None))"

text \<open>The \<open>WHERE\<close> clause: an empty list of ids or statuses selects nothing.\<close>

definition buildListSelection :: "task_query \<Rightarrow> task_row \<Rightarrow> bool" where
  "buildListSelection q r \<longleftrightarrow>
     tq_taskIds q \<noteq> Some [] \<and> tq_statuses q \<noteq> Some [] \<and>
     (case tq_taskIds q of None \<Rightarrow> True | Some is \<Rightarrow> tr_taskId r \<in> set is) \<and>
     (case truthy (tq_ownerSessionId q) of None \<Rightarrow> True | Some s \<Rightarrow> tr_ownerSessionId r = s) \<and>
     (case tq_statuses q of None \<Rightarrow> True | Some ss \<Rightarrow> tr_status r \<in> set ss) \<and>
     (case tq_createdAfter q of None \<Rightarrow> True | Some n \<Rightarrow> tr_createdAt r \<ge> n) \<and>
     (case tq_createdBefore q of None \<Rightarrow> True | Some n \<Rightarrow> tr_createdAt r \<le> n) \<and>
     (case tq_updatedAfter q of None \<Rightarrow> True | Some n \<Rightarrow> tr_updatedAt r \<ge> n) \<and>
     (case tq_updatedBefore q of None \<Rightarrow> True | Some n \<Rightarrow> tr_updatedAt r \<le> n) \<and>
     (tq_undeliveredOnly q = Some True \<longrightarrow> tr_deliveredAt r = None)"

definition readMatchingInDb :: "query_plan \<Rightarrow> task_query \<Rightarrow> task_db \<Rightarrow> background_task list" where
  "readMatchingInDb plan q db =
     concat (map (\<lambda>r. case tr_record r of None \<Rightarrow> []
         | Some t \<Rightarrow> if matchesQuery_local t q then [t] else [])
       (plan (filter (buildListSelection q) (td_rows db))))"

section \<open>Operations\<close>

definition find_row :: "string \<Rightarrow> task_db \<Rightarrow> task_row option" where
  "find_row i db = List.find (\<lambda>r. tr_taskId r = i) (td_rows db)"

definition getInDb :: "string \<Rightarrow> task_db \<Rightarrow> background_task option" where
  "getInDb i db = Option.bind (find_row i db) tr_record"

definition create_db :: "background_task \<Rightarrow> task_db \<Rightarrow> thrown + (background_task \<times> task_db)" where
  "create_db task db =
     (if getInDb (bt_taskId task) db \<noteq> None then Inl (ThrownTask (TaskAlreadyExists (bt_taskId task)))
      else if find_row (bt_taskId task) db \<noteq> None
      then Inl (ThrownError ''UNIQUE constraint failed: local_runtime_background_tasks.task_id'' None)
      else Inr (task, db\<lparr>td_rows := td_rows db @ [row_of task]\<rparr>))"

definition list_db :: "query_plan \<Rightarrow> task_query \<Rightarrow> task_db \<Rightarrow> task_page" where
  "list_db plan q db = page_of q (sorted_items q (readMatchingInDb plan q db))"

definition query_all :: task_query where
  "query_all =
     \<lparr>tq_taskIds = None, tq_ownerSessionId = None, tq_parentTaskId = None, tq_kinds = None, tq_statuses = None,
      tq_createdAfter = None, tq_createdBefore = None, tq_updatedAfter = None, tq_updatedBefore = None,
      tq_limit = None, tq_cursor = None, tq_orderBy = None, tq_ascending = None, tq_includeArchived = None,
      tq_undeliveredOnly = None\<rparr>"

definition snapshotPending :: "query_plan \<Rightarrow> task_db \<Rightarrow> background_task list" where
  "snapshotPending plan db = readMatchingInDb plan (query_all\<lparr>tq_statuses := Some [Queued, Running, Stopping]\<rparr>) db"

record reminder_snapshot =
  rs_tasks :: "background_task list"
  rs_undeliveredTotal :: nat
  rs_terminalTotal :: nat

definition reminderSnapshot :: "string \<Rightarrow> int \<Rightarrow> task_db \<Rightarrow> reminder_snapshot" where
  "reminderSnapshot ownerSessionId limit db =
     (let terminal = filter (\<lambda>r. tr_ownerSessionId r = ownerSessionId \<and>
                       tr_status r \<in> {Succeeded, Failed, Canceled, Lost}) (td_rows db);
          undelivered = filter (\<lambda>r. tr_deliveredAt r = None) terminal;
          unread = take (nat limit) (sort_key tr_endedAt (sort_key tr_taskId undelivered))
      in \<lparr>rs_tasks = concat (map (\<lambda>r. case tr_record r of None \<Rightarrow> [] | Some t \<Rightarrow> [t]) unread),
          rs_undeliveredTotal = length undelivered, rs_terminalTotal = length terminal\<rparr>)"

definition upsertInDb :: "background_task \<Rightarrow> task_db \<Rightarrow> task_db" where
  "upsertInDb t db =
     (if find_row (bt_taskId t) db = None then db\<lparr>td_rows := td_rows db @ [row_of t]\<rparr>
      else db\<lparr>td_rows := map (\<lambda>r. if tr_taskId r = bt_taskId t then row_of t else r) (td_rows db)\<rparr>)"

definition patch_db :: "string \<Rightarrow> task_patch \<Rightarrow> int \<Rightarrow> task_db \<Rightarrow> thrown + (background_task \<times> task_db)" where
  "patch_db i p now db =
     (case getInDb i db of
        None \<Rightarrow> Inl (ThrownTask (TaskNotFound i))
      | Some current \<Rightarrow>
          (case pt_status p of
             Some s \<Rightarrow>
               if \<not> canTransitionTaskStatus (bt_status current) s
               then Inl (ThrownTask (InvalidTaskStatusTransition i (bt_status current) s))
               else Inr (apply_patch current p now, upsertInDb (apply_patch current p now) db)
           | None \<Rightarrow> Inr (apply_patch current p now, upsertInDb (apply_patch current p now) db)))"

definition updateStatus_db ::
  "string \<Rightarrow> task_status \<Rightarrow> string option \<Rightarrow> int \<Rightarrow> task_db \<Rightarrow> thrown + (background_task \<times> task_db)" where
  "updateStatus_db i s reason now db =
     patch_db i (empty_patch\<lparr>pt_status := Some s,
       pt_lastError := (case truthy reason of None \<Rightarrow> None
         | Some r \<Rightarrow> if s \<in> {Failed, Canceled, Lost}
                     then Some \<lparr>tx_message = r, tx_code = Some (upper_name s), tx_details = None\<rparr> else None)\<rparr>) now db"

definition appendEvent_db :: "task_event \<Rightarrow> task_db \<Rightarrow> task_db" where
  "appendEvent_db e db =
     (if list_ex (\<lambda>e'. ev_eventId e' = ev_eventId e) (td_events db) then db
      else db\<lparr>td_events := td_events db @ [e]\<rparr>)"

end
