(* ===== verification/TaskContract.thy ===== *)
theory TaskContract
  imports TaskLocal
begin

text \<open>
  The interface \<open>TaskStore\<close> of the task stores as a locale: what the manager and the service rely on, in terms of
  the map from ids to tasks that a store holds. The in-memory store and the store of the local runtime provide it.
\<close>

record 'st store_ops =
  so_create :: "background_task \<Rightarrow> 'st \<Rightarrow> thrown + (background_task \<times> 'st)"
  so_get :: "string \<Rightarrow> 'st \<Rightarrow> background_task option"
  so_patch :: "string \<Rightarrow> task_patch \<Rightarrow> int \<Rightarrow> 'st \<Rightarrow> thrown + (background_task \<times> 'st)"
  so_appendEvent :: "task_event \<Rightarrow> 'st \<Rightarrow> 'st"

definition patch_legal :: "background_task \<Rightarrow> task_patch \<Rightarrow> bool" where
  "patch_legal t p \<longleftrightarrow> (case pt_status p of None \<Rightarrow> True | Some s \<Rightarrow> bt_status t \<le> s)"

definition patch_error :: "string \<Rightarrow> background_task option \<Rightarrow> task_patch \<Rightarrow> thrown" where
  "patch_error i t p =
     (case t of None \<Rightarrow> ThrownTask (TaskNotFound i)
      | Some t \<Rightarrow> ThrownTask (InvalidTaskStatusTransition i (bt_status t) (the (pt_status p))))"

section \<open>What a patch keeps\<close>

definition identity :: "background_task \<Rightarrow> string \<times> task_kind \<times> string \<times> int" where
  "identity t = (bt_taskId t, bt_kind t, bt_ownerSessionId t, bt_createdAt t)"

text \<open>A task goes on: it stays the same task and its status only advances.\<close>

definition goes_on :: "background_task \<Rightarrow> background_task \<Rightarrow> bool" where
  "goes_on t t' \<longleftrightarrow> identity t' = identity t \<and> bt_status t \<le> bt_status t'"

lemma goes_on_refl [simp, intro]: "goes_on t t"
  by (simp add: goes_on_def)

lemma goes_on_trans [trans]: "goes_on t u \<Longrightarrow> goes_on u v \<Longrightarrow> goes_on t v"
  by (auto simp: goes_on_def)

lemma apply_patch_simps [simp]:
  "bt_taskId (apply_patch t p now) = bt_taskId t" "bt_kind (apply_patch t p now) = bt_kind t"
  "bt_ownerSessionId (apply_patch t p now) = bt_ownerSessionId t" "bt_createdAt (apply_patch t p now) = bt_createdAt t"
  "bt_status (apply_patch t p now) = default (bt_status t) (pt_status p)"
  "bt_deliveredAt (apply_patch t p now) = overwrite p FieldDeliveredAt (bt_deliveredAt t) (pt_deliveredAt p)"
  "bt_endedAt (apply_patch t p now) = overwrite p FieldEndedAt (bt_endedAt t) (pt_endedAt p)"
  "bt_lastError (apply_patch t p now) = overwrite p FieldLastError (bt_lastError t) (pt_lastError p)"
  "bt_outputRef (apply_patch t p now) = overwrite p FieldOutputRef (bt_outputRef t) (pt_outputRef p)"
  "bt_metadata (apply_patch t p now) = mergeRecord (bt_metadata t) (pt_metadata p)"
  "bt_updatedAt (apply_patch t p now) = default now (pt_updatedAt p)"
  by (simp_all add: apply_patch_def default_def)

lemma over_simps [simp]: "over x None = x" "over x (Some y) = Some y"
  by (simp_all add: over_def)

lemma overwrite_plain [simp]: "pt_cleared p = [] \<Longrightarrow> overwrite p f = over"
  by (intro ext) (simp add: overwrite_def)

lemma apply_patch_goes_on: "patch_legal t p \<Longrightarrow> goes_on t (apply_patch t p now)"
  by (auto simp: goes_on_def identity_def patch_legal_def default_def split: option.splits)

lemma terminal_final: "isTerminalTaskStatus s \<Longrightarrow> s \<le> s' \<longleftrightarrow> s' = s"
  by (auto simp: less_eq_task_status_def canTransitionTaskStatus_def)

lemma terminal_iff: "isTerminalTaskStatus s \<longleftrightarrow> s \<in> {Succeeded, Failed, Canceled, Lost}"
  by (auto simp: isTerminalTaskStatus_def TERMINAL_TASK_STATUSES_def)

lemma live_to_terminal: "\<not> isTerminalTaskStatus s \<Longrightarrow> isTerminalTaskStatus s' \<Longrightarrow> s \<le> s'"
  by (cases s; cases s') (simp_all add: terminal_iff less_eq_task_status_def canTransitionTaskStatus_def)

lemma live_to_stopping: "\<not> isTerminalTaskStatus s \<Longrightarrow> s \<le> Stopping"
  by (cases s) (simp_all add: terminal_iff less_eq_task_status_def canTransitionTaskStatus_def)

section \<open>The contract\<close>

definition no_task_lost :: "(string \<Rightarrow> background_task option) \<Rightarrow> (string \<Rightarrow> background_task option) \<Rightarrow> bool" where
  "no_task_lost m m' \<longleftrightarrow> (\<forall>i t. m i = Some t \<longrightarrow> (\<exists>t'. m' i = Some t' \<and> goes_on t t'))"

lemma no_task_lost_refl [simp, intro]: "no_task_lost m m"
  by (auto simp: no_task_lost_def)

lemma no_task_lost_trans [trans]: "no_task_lost m n \<Longrightarrow> no_task_lost n k \<Longrightarrow> no_task_lost m k"
  unfolding no_task_lost_def by (meson goes_on_trans)

lemma no_task_lostD: "no_task_lost m m' \<Longrightarrow> m i = Some t \<Longrightarrow> \<exists>t'. m' i = Some t' \<and> goes_on t t'"
  by (simp add: no_task_lost_def)

locale task_store =
  fixes ops :: "'st store_ops" and ok :: "'st \<Rightarrow> bool"
  assumes get_id: "ok st \<Longrightarrow> so_get ops i st = Some t \<Longrightarrow> bt_taskId t = i"
    and create_Inr: "ok st \<Longrightarrow> so_create ops t st = Inr (t', st') \<Longrightarrow>
      ok st' \<and> t' = t \<and> so_get ops (bt_taskId t) st = None \<and>
      (\<forall>i. so_get ops i st' = (if i = bt_taskId t then Some t else so_get ops i st))"
    and create_Inl: "ok st \<Longrightarrow> so_create ops t st = Inl e \<Longrightarrow>
      e = ThrownTask (TaskAlreadyExists (bt_taskId t)) \<and> so_get ops (bt_taskId t) st \<noteq> None"
    and patch_Inr: "ok st \<Longrightarrow> so_patch ops i p now st = Inr (t', st') \<Longrightarrow>
      ok st' \<and> (\<exists>t. so_get ops i st = Some t \<and> patch_legal t p \<and> t' = apply_patch t p now) \<and>
      (\<forall>j. so_get ops j st' = (if j = i then Some t' else so_get ops j st))"
    and patch_Inl: "ok st \<Longrightarrow> so_patch ops i p now st = Inl e \<Longrightarrow>
      e = patch_error i (so_get ops i st) p \<and> (\<forall>t. so_get ops i st = Some t \<longrightarrow> \<not> patch_legal t p)"
    and event: "ok st \<Longrightarrow> ok (so_appendEvent ops ev st) \<and> so_get ops i (so_appendEvent ops ev st) = so_get ops i st"
begin

lemma patch_goes_on:
  assumes "ok st" "so_patch ops i p now st = Inr (t', st')"
  shows "no_task_lost (\<lambda>i. so_get ops i st) (\<lambda>i. so_get ops i st')"
  using patch_Inr [OF assms] by (auto simp: no_task_lost_def apply_patch_goes_on)

lemma patch_total:
  assumes "ok st" "so_get ops i st = Some t" "patch_legal t p"
  obtains st' where "so_patch ops i p now st = Inr (apply_patch t p now, st')" "ok st'"
    "so_get ops i st' = Some (apply_patch t p now)" "\<And>j. j \<noteq> i \<Longrightarrow> so_get ops j st' = so_get ops j st"
proof (cases "so_patch ops i p now st")
  case (Inl e)
  then show ?thesis using patch_Inl [OF assms(1) Inl] assms(2,3) by auto
next
  case (Inr r)
  then obtain t' st' where r: "so_patch ops i p now st = Inr (t', st')" by (cases r) auto
  show ?thesis using patch_Inr [OF assms(1) r] assms(2) r that by auto
qed

lemma create_goes_on:
  assumes "ok st" "so_create ops t st = Inr (t', st')"
  shows "no_task_lost (\<lambda>i. so_get ops i st) (\<lambda>i. so_get ops i st')"
  using create_Inr [OF assms] by (auto simp: no_task_lost_def)

end

section \<open>The providers\<close>

definition memory_ops :: "memory_store store_ops" where
  "memory_ops =
     \<lparr>so_create = (\<lambda>t st. map_sum ThrownTask id (create_task t st)), so_get = get_task,
      so_patch = (\<lambda>i p now st. map_sum ThrownTask id (patch_task i p now st)), so_appendEvent = append_event\<rparr>"

definition memory_ok :: "memory_store \<Rightarrow> bool" where
  "memory_ok st \<longleftrightarrow> (\<forall>(i, t) \<in> set (ms_tasks st). bt_taskId t = i)"

definition db_ops :: "task_db store_ops" where
  "db_ops = \<lparr>so_create = create_db, so_get = getInDb, so_patch = patch_db, so_appendEvent = appendEvent_db\<rparr>"

text \<open>The columns of every row are those of its record, and a task has one row.\<close>

definition db_ok :: "task_db \<Rightarrow> bool" where
  "db_ok db \<longleftrightarrow> distinct (map tr_taskId (td_rows db)) \<and> (\<forall>r \<in> set (td_rows db). \<exists>t. r = row_of t)"

lemma row_of_simps [simp]:
  "tr_taskId (row_of t) = bt_taskId t" "tr_record (row_of t) = Some t" "tr_status (row_of t) = bt_status t"
  "tr_ownerSessionId (row_of t) = bt_ownerSessionId t" "tr_deliveredAt (row_of t) = bt_deliveredAt t"
  "tr_endedAt (row_of t) = bt_endedAt t" "tr_createdAt (row_of t) = bt_createdAt t"
  "tr_updatedAt (row_of t) = bt_updatedAt t"
  by (simp_all add: row_of_def)

definition db_tasks :: "task_db \<Rightarrow> background_task list" where
  "db_tasks db = concat (map (\<lambda>r. case tr_record r of None \<Rightarrow> [] | Some t \<Rightarrow> [t]) (td_rows db))"

definition abs_db :: "task_db \<Rightarrow> memory_store" where
  "abs_db db = \<lparr>ms_tasks = map (\<lambda>t. (bt_taskId t, t)) (db_tasks db), ms_events = td_events db\<rparr>"

lemma db_ok_rows:
  assumes "db_ok db"
  shows "td_rows db = map row_of (db_tasks db)" "distinct (map bt_taskId (db_tasks db))"
proof -
  have "rows = map row_of (concat (map (\<lambda>r. case tr_record r of None \<Rightarrow> [] | Some t \<Rightarrow> [t]) rows))"
    if "\<forall>r \<in> set rows. \<exists>t. r = row_of t" for rows
    using that by (induction rows) auto
  then show r: "td_rows db = map row_of (db_tasks db)" using assms by (simp add: db_ok_def db_tasks_def)
  have "map tr_taskId (td_rows db) = map bt_taskId (db_tasks db)" unfolding r by (simp add: comp_def)
  then show "distinct (map bt_taskId (db_tasks db))" using assms by (simp add: db_ok_def)
qed

lemma map_of_tasks: "map_of (map (\<lambda>t. (bt_taskId t, t)) ts) i = List.find (\<lambda>t. bt_taskId t = i) ts"
  by (induction ts) auto

lemma find_row_of: "List.find (\<lambda>r. tr_taskId r = i) (map row_of ts) = map_option row_of (List.find (\<lambda>t. bt_taskId t = i) ts)"
  by (induction ts) auto

lemma find_row_ok:
  assumes "db_ok db"
  shows "find_row i db = map_option row_of (get_task i (abs_db db))" "getInDb i db = get_task i (abs_db db)"
proof -
  show *: "find_row i db = map_option row_of (get_task i (abs_db db))"
    unfolding find_row_def db_ok_rows(1) [OF assms] find_row_of by (simp add: get_task_def abs_db_def map_of_tasks)
  show "getInDb i db = get_task i (abs_db db)" unfolding getInDb_def * by (simp add: bind_map_option comp_def)
qed

lemma update_tasks:
  assumes "distinct (map bt_taskId ts)" "List.find (\<lambda>t. bt_taskId t = bt_taskId u) ts \<noteq> None"
  shows "AList.update (bt_taskId u) u (map (\<lambda>t. (bt_taskId t, t)) ts) =
    map (\<lambda>t. (bt_taskId t, t)) (map (\<lambda>t. if bt_taskId t = bt_taskId u then u else t) ts)"
  using assms by (induction ts) (auto simp: image_iff intro!: map_idI [symmetric])

lemma db_tasks_rows: "td_rows db = map row_of ts \<Longrightarrow> db_tasks db = ts"
  by (simp add: db_tasks_def comp_def)

lemma db_okI: "td_rows db = map row_of ts \<Longrightarrow> distinct (map bt_taskId ts) \<Longrightarrow> db_ok db"
  by (auto simp: db_ok_def comp_def)

lemma abs_update:
  assumes "db_ok db" "get_task (bt_taskId u) (abs_db db) \<noteq> None"
  shows "db_ok (upsertInDb u db)" "abs_db (upsertInDb u db) = (abs_db db)\<lparr>ms_tasks := AList.update (bt_taskId u) u (ms_tasks (abs_db db))\<rparr>"
proof -
  let ?ts = "map (\<lambda>t. if bt_taskId t = bt_taskId u then u else t) (db_tasks db)"
  have found: "List.find (\<lambda>t. bt_taskId t = bt_taskId u) (db_tasks db) \<noteq> None"
    using assms(2) by (simp add: get_task_def abs_db_def map_of_tasks)
  have rows: "td_rows (upsertInDb u db) = map row_of ?ts" "td_events (upsertInDb u db) = td_events db"
    using find_row_ok(1) [OF assms(1)] assms(2) db_ok_rows(1) [OF assms(1)]
    by (simp_all add: upsertInDb_def)
  have "map bt_taskId ?ts = map bt_taskId (db_tasks db)" by simp
  then show "db_ok (upsertInDb u db)" using db_okI [OF rows(1)] db_ok_rows(2) [OF assms(1)] by metis
  show "abs_db (upsertInDb u db) = (abs_db db)\<lparr>ms_tasks := AList.update (bt_taskId u) u (ms_tasks (abs_db db))\<rparr>"
    using update_tasks [OF db_ok_rows(2) [OF assms(1)] found] db_tasks_rows [OF rows(1)] rows(2) by (simp add: abs_db_def)
qed

lemma abs_append:
  assumes "db_ok db" "get_task (bt_taskId u) (abs_db db) = None"
  shows "db_ok (db\<lparr>td_rows := td_rows db @ [row_of u]\<rparr>)"
    "abs_db (db\<lparr>td_rows := td_rows db @ [row_of u]\<rparr>) =
      (abs_db db)\<lparr>ms_tasks := AList.update (bt_taskId u) u (ms_tasks (abs_db db))\<rparr>"
proof -
  have rows: "td_rows (db\<lparr>td_rows := td_rows db @ [row_of u]\<rparr>) = map row_of (db_tasks db @ [u])"
    using db_ok_rows(1) [OF assms(1)] by simp
  have new: "bt_taskId u \<notin> bt_taskId ` set (db_tasks db)"
    using assms(2) by (auto simp: get_task_def abs_db_def map_of_tasks find_None_iff)
  then show "db_ok (db\<lparr>td_rows := td_rows db @ [row_of u]\<rparr>)"
    using db_okI [OF rows] db_ok_rows(2) [OF assms(1)] by simp
  have "AList.update (bt_taskId u) u (map (\<lambda>t. (bt_taskId t, t)) ts) = map (\<lambda>t. (bt_taskId t, t)) (ts @ [u])"
    if "bt_taskId u \<notin> bt_taskId ` set ts" for ts using that by (induction ts) auto
  from this [OF new] show "abs_db (db\<lparr>td_rows := td_rows db @ [row_of u]\<rparr>) =
      (abs_db db)\<lparr>ms_tasks := AList.update (bt_taskId u) u (ms_tasks (abs_db db))\<rparr>"
    using db_tasks_rows [OF rows] by (simp add: abs_db_def)
qed

text \<open>Each operation on the rows is the one on the map of tasks.\<close>

lemma create_db_memory:
  assumes "db_ok db"
  shows "map_sum id (\<lambda>(t, db'). (t, abs_db db')) (create_db t db) = map_sum ThrownTask id (create_task t (abs_db db))"
    "create_db t db = Inr (t', db') \<Longrightarrow> db_ok db'"
  using abs_append [OF assms] find_row_ok [OF assms]
  by (auto simp: create_db_def create_task_def get_task_def split: if_splits)

lemma patch_task_id: "memory_ok st \<Longrightarrow> get_task i st = Some t \<Longrightarrow> bt_taskId t = i"
  by (auto simp: memory_ok_def get_task_def dest!: map_of_SomeD)

lemma abs_memory_ok: "memory_ok (abs_db db)"
  by (auto simp: memory_ok_def abs_db_def)

lemma patch_db_memory:
  assumes "db_ok db"
  shows "map_sum id (\<lambda>(t, db'). (t, abs_db db')) (patch_db i p now db) = map_sum ThrownTask id (patch_task i p now (abs_db db))"
    "patch_db i p now db = Inr (t', db') \<Longrightarrow> db_ok db'"
proof -
  have upd: "get_task i (abs_db db) = Some t \<Longrightarrow> db_ok (upsertInDb (apply_patch t p now) db) \<and>
      abs_db (upsertInDb (apply_patch t p now) db) =
        (abs_db db)\<lparr>ms_tasks := AList.update i (apply_patch t p now) (ms_tasks (abs_db db))\<rparr>" for t
    using abs_update [OF assms, of "apply_patch t p now"] patch_task_id [OF abs_memory_ok, of i db t] by simp
  show "map_sum id (\<lambda>(t, db'). (t, abs_db db')) (patch_db i p now db) = map_sum ThrownTask id (patch_task i p now (abs_db db))"
    "patch_db i p now db = Inr (t', db') \<Longrightarrow> db_ok db'"
    using upd find_row_ok(2) [OF assms, of i]
    by (auto simp: patch_db_def patch_task_def get_task_def split: option.splits if_splits)
qed

lemma set_updateD: "x \<in> set (AList.update k v al) \<Longrightarrow> x = (k, v) \<or> x \<in> set al"
  by (induction al) (auto split: if_splits)

lemma memory_ok_update: "memory_ok st \<Longrightarrow> memory_ok (st\<lparr>ms_tasks := AList.update (bt_taskId t) t (ms_tasks st)\<rparr>)"
  by (auto simp: memory_ok_def dest!: set_updateD)

lemma memory_create_cases:
  "so_create memory_ops t st =
    (if get_task (bt_taskId t) st \<noteq> None then Inl (ThrownTask (TaskAlreadyExists (bt_taskId t)))
     else Inr (t, st\<lparr>ms_tasks := AList.update (bt_taskId t) t (ms_tasks st)\<rparr>))"
  by (auto simp: memory_ops_def create_task_def get_task_def)

lemma memory_patch_cases:
  "so_patch memory_ops i p now st =
    (case get_task i st of None \<Rightarrow> Inl (patch_error i None p)
     | Some t \<Rightarrow> if patch_legal t p
         then Inr (apply_patch t p now, st\<lparr>ms_tasks := AList.update i (apply_patch t p now) (ms_tasks st)\<rparr>)
         else Inl (patch_error i (Some t) p))"
  by (auto simp: memory_ops_def patch_task_def get_task_def patch_legal_def patch_error_def less_eq_task_status_def
      split: option.splits)

interpretation mem: task_store memory_ops memory_ok
proof
  fix st st' :: memory_store and t t' i p now e ev
  assume ok: "memory_ok st"
  show "so_get memory_ops i st = Some t \<Longrightarrow> bt_taskId t = i"
    using patch_task_id [OF ok] by (simp add: memory_ops_def)
  show "so_create memory_ops t st = Inr (t', st') \<Longrightarrow>
      memory_ok st' \<and> t' = t \<and> so_get memory_ops (bt_taskId t) st = None \<and>
      (\<forall>i. so_get memory_ops i st' = (if i = bt_taskId t then Some t else so_get memory_ops i st))"
    unfolding memory_create_cases using memory_ok_update [OF ok, of t]
    by (auto simp: memory_ops_def get_task_def update_conv' split: if_splits)
  show "so_create memory_ops t st = Inl e \<Longrightarrow>
      e = ThrownTask (TaskAlreadyExists (bt_taskId t)) \<and> so_get memory_ops (bt_taskId t) st \<noteq> None"
    unfolding memory_create_cases by (simp add: memory_ops_def split: if_splits)
  show "so_patch memory_ops i p now st = Inr (t', st') \<Longrightarrow>
      memory_ok st' \<and> (\<exists>t. so_get memory_ops i st = Some t \<and> patch_legal t p \<and> t' = apply_patch t p now) \<and>
      (\<forall>j. so_get memory_ops j st' = (if j = i then Some t' else so_get memory_ops j st))"
    unfolding memory_patch_cases using memory_ok_update [OF ok, of "apply_patch _ p now"] patch_task_id [OF ok]
    by (auto simp: memory_ops_def get_task_def update_conv' split: option.splits if_splits)
  show "so_patch memory_ops i p now st = Inl e \<Longrightarrow>
      e = patch_error i (so_get memory_ops i st) p \<and> (\<forall>t. so_get memory_ops i st = Some t \<longrightarrow> \<not> patch_legal t p)"
    unfolding memory_patch_cases by (auto simp: memory_ops_def split: option.splits if_splits)
  show "memory_ok (so_appendEvent memory_ops ev st) \<and>
      so_get memory_ops i (so_appendEvent memory_ops ev st) = so_get memory_ops i st"
    using ok by (simp add: memory_ops_def append_event_def memory_ok_def get_task_def)
qed

text \<open>The store of the local runtime inherits the contract through the abstraction.\<close>

lemma db_get: "db_ok db \<Longrightarrow> so_get db_ops i db = so_get memory_ops i (abs_db db)"
  by (simp add: db_ops_def memory_ops_def find_row_ok)

lemma db_create_memory:
  assumes "db_ok db"
  shows "so_create db_ops t db = Inr (t', db') \<Longrightarrow> db_ok db' \<and> so_create memory_ops t (abs_db db) = Inr (t', abs_db db')"
    "so_create db_ops t db = Inl e \<Longrightarrow> so_create memory_ops t (abs_db db) = Inl e"
  using create_db_memory [OF assms, of t]
  by (auto simp: db_ops_def memory_ops_def simp flip: create_db_memory(1) [OF assms])

lemma db_patch_memory:
  assumes "db_ok db"
  shows "so_patch db_ops i p now db = Inr (t', db') \<Longrightarrow> db_ok db' \<and> so_patch memory_ops i p now (abs_db db) = Inr (t', abs_db db')"
    "so_patch db_ops i p now db = Inl e \<Longrightarrow> so_patch memory_ops i p now (abs_db db) = Inl e"
  using patch_db_memory [OF assms, of i p now]
  by (auto simp: db_ops_def memory_ops_def simp flip: patch_db_memory(1) [OF assms])

lemma db_event:
  assumes "db_ok db"
  shows "db_ok (appendEvent_db ev db)" "get_task i (abs_db (appendEvent_db ev db)) = get_task i (abs_db db)"
  using assms by (simp_all add: appendEvent_db_def db_ok_def abs_db_def db_tasks_def get_task_def)

interpretation db: task_store db_ops db_ok
proof
  fix st st' :: task_db and t t' i p now e ev
  assume ok: "db_ok st"
  note get = db_get [OF ok]
  show "so_get db_ops i st = Some t \<Longrightarrow> bt_taskId t = i"
    using mem.get_id [OF abs_memory_ok] by (simp add: get)
  show "so_create db_ops t st = Inr (t', st') \<Longrightarrow>
      db_ok st' \<and> t' = t \<and> so_get db_ops (bt_taskId t) st = None \<and>
      (\<forall>i. so_get db_ops i st' = (if i = bt_taskId t then Some t else so_get db_ops i st))"
    using db_create_memory(1) [OF ok] mem.create_Inr [OF abs_memory_ok] by (fastforce simp: get db_get)
  show "so_create db_ops t st = Inl e \<Longrightarrow>
      e = ThrownTask (TaskAlreadyExists (bt_taskId t)) \<and> so_get db_ops (bt_taskId t) st \<noteq> None"
    using db_create_memory(2) [OF ok] mem.create_Inl [OF abs_memory_ok] by (fastforce simp: get)
  show "so_patch db_ops i p now st = Inr (t', st') \<Longrightarrow>
      db_ok st' \<and> (\<exists>t. so_get db_ops i st = Some t \<and> patch_legal t p \<and> t' = apply_patch t p now) \<and>
      (\<forall>j. so_get db_ops j st' = (if j = i then Some t' else so_get db_ops j st))"
    using db_patch_memory(1) [OF ok] mem.patch_Inr [OF abs_memory_ok] by (fastforce simp: get db_get)
  show "so_patch db_ops i p now st = Inl e \<Longrightarrow>
      e = patch_error i (so_get db_ops i st) p \<and> (\<forall>t. so_get db_ops i st = Some t \<longrightarrow> \<not> patch_legal t p)"
    using db_patch_memory(2) [OF ok] mem.patch_Inl [OF abs_memory_ok] by (fastforce simp: get)
  show "db_ok (so_appendEvent db_ops ev st) \<and> so_get db_ops i (so_appendEvent db_ops ev st) = so_get db_ops i st"
    using db_event [OF ok]
    by (simp add: db_ops_def find_row_ok(2) [OF ok] find_row_ok(2) [OF db_event(1) [OF ok]])
qed

end
