(* ===== verification/TaskService.thy ===== *)
theory TaskService
  imports TaskContract TaskOutput
begin

text \<open>
  The background task service of the local runtime (\<open>local-runtime/src/background-task/service.ts\<close>), over any task
  store and the file store of outputs, and the writer of the terminal state of a subagent task (\<open>terminal.ts\<close>).

  An operation is a function on the world that may throw. The world counts the readings of the clock and the
  ids drawn, and records what the service sends out: the terminal notifications, the waiters it wakes and the
  deliveries it schedules. Operations interleave where they wait for the outside: the runtime that \<open>stop\<close> calls is
  any operation on the world.
\<close>

section \<open>World and operations\<close>

record startup_recovery =
  sr_watched :: "(string \<times> string list) list"
  sr_createdBefore :: "int option"
  sr_recoveredTurns :: "string list"

record 'st task_world =
  tw_store :: 'st
  tw_output :: file_output
  tw_ticks :: nat
  tw_terminal :: "(string \<times> string \<times> task_status) list"
  tw_woken :: "string list"
  tw_stopping :: "string list"
  tw_scheduled :: "string list"
  tw_recovery :: startup_recovery

record runtime_owner =
  rw_ownerId :: string
  rw_isOwnerAlive :: "string \<Rightarrow> bool option"

record 'st task_env =
  te_ops :: "'st store_ops"
  te_snapshotPending :: "'st \<Rightarrow> background_task list"
  te_now :: "nat \<Rightarrow> int"
  te_eventId :: "nat \<Rightarrow> string"
  te_owner :: "runtime_owner option"

type_synonym ('st, 'a) task_m = "'st task_world \<Rightarrow> (thrown + 'a) \<times> 'st task_world"

definition ret :: "'a \<Rightarrow> ('st, 'a) task_m" where
  "ret x w = (Inr x, w)"

definition throw :: "thrown \<Rightarrow> ('st, 'a) task_m" where
  "throw e w = (Inl e, w)"

definition andThen :: "('st, 'a) task_m \<Rightarrow> ('a \<Rightarrow> ('st, 'b) task_m) \<Rightarrow> ('st, 'b) task_m" where
  "andThen m f w = (case m w of (Inl e, w') \<Rightarrow> (Inl e, w') | (Inr x, w') \<Rightarrow> f x w')"

definition tryCatch :: "('st, 'a) task_m \<Rightarrow> (thrown \<Rightarrow> ('st, 'a) task_m) \<Rightarrow> ('st, 'a) task_m" where
  "tryCatch m h w = (case m w of (Inl e, w') \<Rightarrow> h e w' | (Inr x, w') \<Rightarrow> (Inr x, w'))"

definition nowMs :: "'st task_env \<Rightarrow> ('st, int) task_m" where
  "nowMs env w = (Inr (te_now env (tw_ticks w)), w\<lparr>tw_ticks := tw_ticks w + 1\<rparr>)"

definition store_get :: "'st task_env \<Rightarrow> string \<Rightarrow> ('st, background_task option) task_m" where
  "store_get env i w = (Inr (so_get (te_ops env) i (tw_store w)), w)"

definition store_patch :: "'st task_env \<Rightarrow> string \<Rightarrow> task_patch \<Rightarrow> ('st, background_task) task_m" where
  "store_patch env i p =
     andThen (nowMs env) (\<lambda>now w.
       case so_patch (te_ops env) i p now (tw_store w) of
         Inl e \<Rightarrow> (Inl e, w)
       | Inr (t, st) \<Rightarrow> (Inr t, w\<lparr>tw_store := st\<rparr>))"

section \<open>Events\<close>

definition notifyTerminal :: "background_task \<Rightarrow> 'st task_world \<Rightarrow> 'st task_world" where
  "notifyTerminal t w =
     w\<lparr>tw_terminal := tw_terminal w @ [(bt_taskId t, bt_ownerSessionId t, bt_status t)]\<rparr>"

definition emit :: "'st task_env \<Rightarrow> background_task \<Rightarrow> event_type \<Rightarrow> js_object option \<Rightarrow> ('st, unit) task_m" where
  "emit env t typ payload w =
     (let ev = \<lparr>ev_eventId = te_eventId env (tw_ticks w), ev_taskId = bt_taskId t,
                ev_ownerSessionId = bt_ownerSessionId t, ev_type = typ, ev_timestamp = te_now env (tw_ticks w),
                ev_sequence = None, ev_payload = payload\<rparr>;
          w1 = w\<lparr>tw_store := so_appendEvent (te_ops env) ev (tw_store w), tw_ticks := tw_ticks w + 1,
                 tw_woken := tw_woken w @ [bt_taskId t, ''session:'' @ bt_ownerSessionId t]\<rparr>
      in (Inr (), if typ = EventCompleted \<and> isTerminalTaskStatus (bt_status t) then notifyTerminal t w1 else w1))"

definition status_payload :: "task_status \<Rightarrow> js_object" where
  "status_payload s = [(''status'', JStr (status_name s))]"

definition reason_js :: "string option \<Rightarrow> js" where
  "reason_js reason = (case reason of None \<Rightarrow> JUndef | Some r \<Rightarrow> JStr r)"

section \<open>Operations\<close>

definition isVisibleToContext :: "background_task option \<Rightarrow> string option \<Rightarrow> bool" where
  "isVisibleToContext t ctx \<longleftrightarrow>
     (case t of None \<Rightarrow> False | Some t \<Rightarrow> (case ctx of None \<Rightarrow> True | Some s \<Rightarrow> bt_ownerSessionId t = s))"

definition create_sv :: "'st task_env \<Rightarrow> background_task \<Rightarrow> ('st, background_task) task_m" where
  "create_sv env task w =
     (let task' = (case te_owner env of None \<Rightarrow> task
         | Some owner \<Rightarrow> task\<lparr>bt_metadata := Some (js_set (default [] (bt_metadata task)) ''runtimeOwnerId'' (JStr (rw_ownerId owner)))\<rparr>)
      in case so_create (te_ops env) task' (tw_store w) of
           Inl e \<Rightarrow> (Inl e, w)
         | Inr (t, st) \<Rightarrow> andThen (emit env t EventCreated None) (\<lambda>_. ret t) (w\<lparr>tw_store := st\<rparr>))"

definition get_sv :: "'st task_env \<Rightarrow> string option \<Rightarrow> string \<Rightarrow> ('st, background_task option) task_m" where
  "get_sv env ctx i =
     (if i = [] then ret None
      else andThen (store_get env i) (\<lambda>t. ret (if isVisibleToContext t ctx then t else None)))"

definition patch_sv :: "'st task_env \<Rightarrow> string \<Rightarrow> task_patch \<Rightarrow> ('st, background_task) task_m" where
  "patch_sv env i p =
     andThen (store_patch env i p) (\<lambda>t.
       case pt_status p of
         None \<Rightarrow> ret t
       | Some s \<Rightarrow> andThen (emit env t (if isTerminalTaskStatus s then EventCompleted else EventStatusChanged)
                       (Some (status_payload s))) (\<lambda>_. ret t))"

definition is_invalid_transition :: "thrown \<Rightarrow> bool" where
  "is_invalid_transition e = (case e of ThrownTask (InvalidTaskStatusTransition _ _ _) \<Rightarrow> True | _ \<Rightarrow> False)"

definition getTerminalAfterInvalidTransition ::
  "'st task_env \<Rightarrow> string \<Rightarrow> thrown \<Rightarrow> ('st, background_task option) task_m" where
  "getTerminalAfterInvalidTransition env i e =
     (if \<not> is_invalid_transition e then ret None
      else andThen (store_get env i) (\<lambda>t. ret (case t of None \<Rightarrow> None
        | Some t \<Rightarrow> if isTerminalTaskStatus (bt_status t) then Some t else None)))"

text \<open>The shape of the two guarded writers: the task and whether it was patched.\<close>

definition ifNotTerminal ::
  "'st task_env \<Rightarrow> string \<Rightarrow> ('st, background_task) task_m \<Rightarrow> ('st, background_task \<times> bool) task_m" where
  "ifNotTerminal env i m =
     tryCatch (andThen m (\<lambda>t. ret (t, True)))
       (\<lambda>e. andThen (getTerminalAfterInvalidTransition env i e) (\<lambda>terminal.
          case terminal of Some t \<Rightarrow> ret (t, False) | None \<Rightarrow> throw e))"

definition patchIfNotTerminal :: "'st task_env \<Rightarrow> string \<Rightarrow> task_patch \<Rightarrow> ('st, background_task \<times> bool) task_m" where
  "patchIfNotTerminal env i p = ifNotTerminal env i (patch_sv env i p)"

definition patchStatusIfNotTerminal ::
  "'st task_env \<Rightarrow> background_task \<Rightarrow> task_status \<Rightarrow> task_patch \<Rightarrow> ('st, background_task \<times> bool) task_m" where
  "patchStatusIfNotTerminal env t s p =
     ifNotTerminal env (bt_taskId t) (store_patch env (bt_taskId t) (p\<lparr>pt_status := Some s\<rparr>))"

fun markDelivered_loop ::
  "'st task_env \<Rightarrow> string \<Rightarrow> int \<Rightarrow> string list \<Rightarrow> background_task list \<Rightarrow> ('st, background_task list) task_m" where
  "markDelivered_loop env owner deliveredAt [] delivered = ret delivered"
| "markDelivered_loop env owner deliveredAt (i # is) delivered =
     andThen (store_get env i) (\<lambda>t.
       case t of
         None \<Rightarrow> markDelivered_loop env owner deliveredAt is delivered
       | Some t \<Rightarrow>
           if bt_ownerSessionId t \<noteq> owner \<or> \<not> isTerminalTaskStatus (bt_status t)
           then markDelivered_loop env owner deliveredAt is delivered
           else if bt_deliveredAt t \<noteq> None
           then markDelivered_loop env owner deliveredAt is (delivered @ [t])
           else andThen (store_patch env i (empty_patch\<lparr>pt_deliveredAt := Some deliveredAt, pt_updatedAt := Some deliveredAt\<rparr>))
                  (\<lambda>t'. markDelivered_loop env owner deliveredAt is (delivered @ [t'])))"

definition markDelivered :: "'st task_env \<Rightarrow> string \<Rightarrow> string list \<Rightarrow> ('st, background_task list) task_m" where
  "markDelivered env owner is = andThen (nowMs env) (\<lambda>now. markDelivered_loop env owner now is [])"

text \<open>The JavaScript object of an output reference, as an event carries it.\<close>

fun output_kind_name :: "output_kind \<Rightarrow> string" where
  "output_kind_name OutputFile = ''file''"
| "output_kind_name OutputOss = ''oss''"
| "output_kind_name OutputSandboxJob = ''sandbox_job''"
| "output_kind_name OutputSessionTranscript = ''session_transcript''"
| "output_kind_name OutputMemory = ''memory''"

definition int_field :: "string \<Rightarrow> int option \<Rightarrow> js_object" where
  "int_field k v = (case v of None \<Rightarrow> [] | Some n \<Rightarrow> [(k, JNum (Fin n))])"

definition output_ref_js :: "output_ref \<Rightarrow> js" where
  "output_ref_js r =
     JObj ([(''taskId'', JStr (or_taskId r)), (''kind'', JStr (output_kind_name (or_kind r))), (''uri'', JStr (or_uri r))] @
       int_field ''offset'' (or_offset r) @ int_field ''updatedAt'' (or_updatedAt r) @
       (case or_metadata r of None \<Rightarrow> [] | Some m \<Rightarrow> [(''metadata'', JObj m)]))"

definition appendOutput :: "'st task_env \<Rightarrow> output_chunk \<Rightarrow> ('st, output_ref) task_m" where
  "appendOutput env chunk =
     andThen (nowMs env) (\<lambda>clock w.
       case append_file chunk clock (tw_output w) of
         Inl e \<Rightarrow> (Inl e, w)
       | Inr (oref, out) \<Rightarrow>
           andThen (nowMs env) (\<lambda>now.
           andThen (store_patch env (oc_taskId chunk) (empty_patch\<lparr>pt_outputRef := Some oref,
               pt_updatedAt := Some (default now (oc_timestamp chunk))\<rparr>)) (\<lambda>t.
           andThen (emit env t EventOutputUpdated (Some [(''outputRef'', output_ref_js oref)])) (\<lambda>_.
           ret oref))) (w\<lparr>tw_output := out\<rparr>))"

definition finalizeOutput :: "'st task_env \<Rightarrow> string \<Rightarrow> js_text option \<Rightarrow> ('st, unit) task_m" where
  "finalizeOutput env i summary w =
     (case finalize_file i summary (tw_output w) of
        Inl e \<Rightarrow> (Inl e, w) | Inr out \<Rightarrow> (Inr (), w\<lparr>tw_output := out\<rparr>))"

end
