(* ===== verification/TaskLifecycle.thy ===== *)
theory TaskLifecycle
  imports TaskService
begin

text \<open>
  How a task of the local runtime ends: \<open>stop\<close> of the service (\<open>service.ts\<close>), the writer of the terminal state of a
  subagent task (\<open>terminal.ts\<close>) and the recovery of tasks lost with their process (\<open>startup-recovery.ts\<close>).
\<close>

section \<open>Stopping\<close>

text \<open>A caller sees no task, a task, or shares the stop that is under way.\<close>

datatype stop_result = NotVisible | Stopped background_task | SharedStop

text \<open>What both branches do once the runtime has stopped or failed: a task that is terminal by now wins.\<close>

definition terminal_task :: "background_task option \<Rightarrow> background_task option" where
  "terminal_task t = (case t of None \<Rightarrow> None | Some t \<Rightarrow> if isTerminalTaskStatus (bt_status t) then Some t else None)"

definition cancel_after_stop ::
  "'st task_env \<Rightarrow> background_task \<Rightarrow> task_failure option \<Rightarrow> js_object \<Rightarrow> ('st, background_task) task_m" where
  "cancel_after_stop env stopping lastError payload =
     andThen (store_get env (bt_taskId stopping)) (\<lambda>settled.
       case terminal_task settled of
         Some t \<Rightarrow> ret t
       | None \<Rightarrow>
           andThen (nowMs env) (\<lambda>endedAt.
           andThen (patchStatusIfNotTerminal env stopping Canceled
               (empty_patch\<lparr>pt_endedAt := Some endedAt, pt_lastError := lastError\<rparr>)) (\<lambda>(canceled, patched).
             if \<not> patched then ret canceled
             else andThen (emit env canceled EventCompleted (Some payload)) (\<lambda>_. ret canceled))))"

definition reason_failure :: "string option \<Rightarrow> string \<Rightarrow> task_failure option" where
  "reason_failure reason code =
     map_option (\<lambda>r. \<lparr>tx_message = r, tx_code = Some code, tx_details = None\<rparr>) (truthy reason)"

definition performStop ::
  "'st task_env \<Rightarrow> (background_task \<Rightarrow> string option \<Rightarrow> ('st, unit) task_m) option \<Rightarrow> background_task \<Rightarrow>
   string option \<Rightarrow> ('st, background_task) task_m" where
  "performStop env stopRuntime task reason =
     andThen (nowMs env) (\<lambda>now.
     andThen (patchStatusIfNotTerminal env task Stopping (empty_patch\<lparr>pt_updatedAt := Some now,
         pt_lastError := reason_failure reason ''TASK_STOP_REQUESTED''\<rparr>)) (\<lambda>(stopping, patched).
       if \<not> patched then ret stopping
       else andThen (emit env stopping EventStopRequested (Some [(''reason'', reason_js reason)])) (\<lambda>_.
         tryCatch
           (andThen (case stopRuntime of None \<Rightarrow> ret () | Some runtime \<Rightarrow> runtime stopping reason) (\<lambda>_.
            cancel_after_stop env stopping (reason_failure reason ''TASK_CANCELED'') (status_payload Canceled)))
           (\<lambda>e. cancel_after_stop env stopping (Some (normalizeTaskError e ''TASK_STOP_FAILED''))
              (status_payload Canceled @ [(''stopFailed'', JBool True)])))))"

definition stop_sv ::
  "'st task_env \<Rightarrow> (background_task \<Rightarrow> string option \<Rightarrow> ('st, unit) task_m) option \<Rightarrow> string option \<Rightarrow>
   string \<Rightarrow> string option \<Rightarrow> ('st, stop_result) task_m" where
  "stop_sv env stopRuntime ctx i reason =
     andThen (get_sv env ctx i) (\<lambda>t.
       case t of
         None \<Rightarrow> ret NotVisible
       | Some task \<Rightarrow>
           if isTerminalTaskStatus (bt_status task) then ret (Stopped task)
           else (\<lambda>w.
             if i \<in> set (tw_stopping w) then (Inr SharedStop, w)
             else case andThen (performStop env stopRuntime task reason) (\<lambda>t. ret (Stopped t))
                         (w\<lparr>tw_stopping := i # tw_stopping w\<rparr>) of
               (r, w') \<Rightarrow> (r, w'\<lparr>tw_stopping := removeAll i (tw_stopping w')\<rparr>)))"

section \<open>The terminal writer of subagent tasks\<close>

datatype run_status = RunSucceeded | RunFailed | RunAborted

record run_result =
  rn_status :: run_status
  rn_finalText :: "js_text option"
  rn_errorMessage :: "string option"

datatype task_outcome = RunResult run_result | RunFailure thrown

datatype task_delivery = AlreadyDelivered | Schedule

fun run_status_name :: "run_status \<Rightarrow> string" where
  "run_status_name RunSucceeded = ''succeeded''"
| "run_status_name RunFailed = ''failed''"
| "run_status_name RunAborted = ''aborted''"

fun terminalStatus :: "run_status \<Rightarrow> task_status" where
  "terminalStatus RunSucceeded = Succeeded"
| "terminalStatus RunAborted = Canceled"
| "terminalStatus RunFailed = Failed"

record terminal_projection =
  tj_status :: task_status
  tj_outputText :: js_text
  tj_summary :: "js_text option"
  tj_lastError :: "task_failure option"

definition code_points :: "string \<Rightarrow> js_text" where
  "code_points s = map of_char s"

definition failureMessage :: "thrown \<Rightarrow> string" where
  "failureMessage e = (case e of ThrownTask t \<Rightarrow> error_message t | ThrownError m _ \<Rightarrow> m | ThrownValue s \<Rightarrow> s)"

definition toTerminalProjection :: "task_outcome \<Rightarrow> terminal_projection" where
  "toTerminalProjection outcome =
     (case outcome of
        RunFailure e \<Rightarrow>
          \<lparr>tj_status = Failed, tj_outputText = code_points (''Background task failed: '' @ failureMessage e),
           tj_summary = None, tj_lastError = Some (normalizeTaskError e ''TASK_FAILED'')\<rparr>
      | RunResult r \<Rightarrow>
          let status = terminalStatus (rn_status r);
              failureText = (if rn_status r = RunSucceeded then []
                else code_points ([CHR 0x0A, CHR 0x0A] @ ''['' @ run_status_name (rn_status r) @ ''] '' @
                       default ''Local background task did not complete.'' (rn_errorMessage r)))
          in \<lparr>tj_status = status, tj_outputText = default [] (rn_finalText r) @ failureText, tj_summary = rn_finalText r,
              tj_lastError = (if rn_status r = RunSucceeded then None
                else Some \<lparr>tx_message = default (run_status_name (rn_status r)) (rn_errorMessage r),
                           tx_code = Some (if status = Canceled then ''TASK_CANCELED'' else ''TASK_FAILED''),
                           tx_details = None\<rparr>)\<rparr>)"

definition patchTerminalTaskOutput ::
  "'st task_env \<Rightarrow> string \<Rightarrow> output_ref \<Rightarrow> task_delivery \<Rightarrow> int \<Rightarrow> ('st, background_task option) task_m" where
  "patchTerminalTaskOutput env i oref delivery now =
     andThen (get_sv env None i) (\<lambda>t.
       case t of
         None \<Rightarrow> ret None
       | Some existing \<Rightarrow>
           if \<not> isTerminalTaskStatus (bt_status existing) then ret None
           else andThen (patch_sv env i (empty_patch\<lparr>pt_outputRef := Some oref,
                  pt_endedAt := Some (default now (bt_endedAt existing)),
                  pt_deliveredAt := (if delivery = AlreadyDelivered \<and> bt_deliveredAt existing = None
                                     then Some now else None)\<rparr>)) (\<lambda>t. ret (Some t)))"

definition scheduleDelivery :: "string \<Rightarrow> ('st, unit) task_m" where
  "scheduleDelivery i w = (Inr (), w\<lparr>tw_scheduled := tw_scheduled w @ [i]\<rparr>)"

definition persistLocalSubagentTaskTerminal ::
  "'st task_env \<Rightarrow> string \<Rightarrow> task_outcome \<Rightarrow> task_delivery \<Rightarrow> ('st, background_task) task_m" where
  "persistLocalSubagentTaskTerminal env i outcome delivery =
     (let terminal = toTerminalProjection outcome in
      andThen (nowMs env) (\<lambda>now.
      andThen (appendOutput env \<lparr>oc_taskId = i, oc_stream = Some FinalResult, oc_content = tj_outputText terminal,
          oc_offset = None, oc_timestamp = Some now, oc_metadata = None\<rparr>) (\<lambda>oref.
      andThen (patchIfNotTerminal env i (empty_patch\<lparr>pt_status := Some (tj_status terminal), pt_endedAt := Some now,
          pt_outputRef := Some oref, pt_lastError := tj_lastError terminal,
          pt_deliveredAt := (if delivery = AlreadyDelivered then Some now else None)\<rparr>)) (\<lambda>(completed, patched).
      andThen (if patched then ret completed
               else andThen (patchTerminalTaskOutput env i oref delivery now) (\<lambda>t. ret (default completed t))) (\<lambda>task.
      andThen (tryCatch (finalizeOutput env i (tj_summary terminal)) (\<lambda>_. ret ())) (\<lambda>_.
      andThen (if delivery = Schedule then scheduleDelivery (bt_taskId task) else ret ()) (\<lambda>_.
      ret task)))))))"

section \<open>Tasks lost with their process\<close>

text \<open>The truthiness of a value read from JSON, where no number is \<open>NaN\<close>.\<close>

definition js_truthy :: "js \<Rightarrow> bool" where
  "js_truthy v = (case v of JUndef \<Rightarrow> False | JNull \<Rightarrow> False | JBool b \<Rightarrow> b | JStr s \<Rightarrow> s \<noteq> []
     | JNum n \<Rightarrow> n \<noteq> Fin 0 | _ \<Rightarrow> True)"

definition meta :: "background_task \<Rightarrow> string \<Rightarrow> js" where
  "meta t k = (case bt_metadata t of None \<Rightarrow> JUndef | Some m \<Rightarrow> js_get m k)"

definition recorded_owner :: "background_task \<Rightarrow> string option" where
  "recorded_owner t = (case meta t ''runtimeOwnerId'' of JStr s \<Rightarrow> Some s | _ \<Rightarrow> None)"

definition isLostRuntimeTask :: "background_task \<Rightarrow> runtime_owner \<Rightarrow> string list \<Rightarrow> bool" where
  "isLostRuntimeTask t owner recoveredTurns \<longleftrightarrow>
     (case recorded_owner t of
        Some o' \<Rightarrow> rw_isOwnerAlive owner o' = Some False
      | None \<Rightarrow>
          (case (if bt_kind t = KindSubagent then meta t ''subTurnId'' else meta t ''turnId'') of
             JStr turn \<Rightarrow> turn \<in> set recoveredTurns | _ \<Rightarrow> False) \<or>
          (\<not> js_truthy (meta t ''childSessionId'') \<and>
           (case meta t ''parentTurnId'' of JStr turn \<Rightarrow> turn \<in> set recoveredTurns | _ \<Rightarrow> False)))"

definition watch :: "string \<Rightarrow> string \<Rightarrow> (string \<times> string list) list \<Rightarrow> (string \<times> string list) list" where
  "watch o' i watched = AList.update o' (List.insert i (default [] (map_of watched o'))) watched"

definition before_cutoff :: "startup_recovery \<Rightarrow> background_task \<Rightarrow> bool" where
  "before_cutoff r t \<longleftrightarrow> (case sr_createdBefore r of None \<Rightarrow> True | Some n \<Rightarrow> bt_createdAt t < n)"

text \<open>Which of the pending tasks are lost; tasks of other owners are watched.\<close>

fun select_lost ::
  "runtime_owner option \<Rightarrow> background_task list \<Rightarrow> startup_recovery \<Rightarrow> background_task list \<times> startup_recovery" where
  "select_lost owner [] r = ([], r)"
| "select_lost owner (t # ts) r =
     (if \<not> before_cutoff r t then select_lost owner ts r
      else
        let r' = (case (owner, recorded_owner t) of
               (Some me, Some o') \<Rightarrow> if o' \<noteq> rw_ownerId me
                 then r\<lparr>sr_watched := watch o' (bt_taskId t) (sr_watched r)\<rparr> else r
             | _ \<Rightarrow> r);
            lost = (case owner of None \<Rightarrow> True | Some me \<Rightarrow> isLostRuntimeTask t me (sr_recoveredTurns r));
            (rest, r'') = select_lost owner ts r'
        in (if lost then t # rest else rest, r''))"

definition collect_lost :: "'st task_env \<Rightarrow> int option \<Rightarrow> string list \<Rightarrow> ('st, background_task list) task_m" where
  "collect_lost env createdBefore recoveredTurns w =
     (let (lost, r) = select_lost (te_owner env) (te_snapshotPending env (tw_store w))
            \<lparr>sr_watched = [], sr_createdBefore = createdBefore, sr_recoveredTurns = recoveredTurns\<rparr>
      in (Inr lost, w\<lparr>tw_recovery := r\<rparr>))"

definition unwatch :: "background_task \<Rightarrow> startup_recovery \<Rightarrow> startup_recovery" where
  "unwatch t r =
     (case recorded_owner t of
        None \<Rightarrow> r
      | Some o' \<Rightarrow>
          (case map_of (sr_watched r) o' of
             None \<Rightarrow> r
           | Some ids \<Rightarrow>
               let ids' = removeAll (bt_taskId t) ids
               in r\<lparr>sr_watched := (if ids' = [] then AList.delete o' (sr_watched r)
                                   else AList.update o' ids' (sr_watched r))\<rparr>))"

definition settle_one ::
  "'st task_env \<Rightarrow> string \<Rightarrow> background_task \<Rightarrow> ('st, background_task option) task_m" where
  "settle_one env reason t =
     andThen (nowMs env) (\<lambda>now.
     andThen (patchStatusIfNotTerminal env t Lost (empty_patch\<lparr>pt_updatedAt := Some now, pt_endedAt := Some now,
         pt_lastError := Some \<lparr>tx_message = reason, tx_code = Some ''TASK_LOST_ON_STARTUP'', tx_details = None\<rparr>\<rparr>))
       (\<lambda>(t', patched) w.
         let w' = w\<lparr>tw_recovery := unwatch t' (tw_recovery w)\<rparr>
         in if \<not> patched then (Inr None, w')
            else andThen (emit env t' EventCompleted (Some (status_payload Lost @ [(''reason'', JStr reason)])))
                   (\<lambda>_. ret (Some t')) w'))"

fun settle_lost :: "'st task_env \<Rightarrow> string \<Rightarrow> background_task list \<Rightarrow> ('st, background_task list) task_m" where
  "settle_lost env reason [] = ret []"
| "settle_lost env reason (t # ts) =
     andThen (settle_one env reason t) (\<lambda>one.
     andThen (settle_lost env reason ts) (\<lambda>rest.
       ret (case one of None \<Rightarrow> rest | Some t' \<Rightarrow> t' # rest)))"

definition startup_reason :: string where
  "startup_reason = ''Local runtime restarted before task completed''"

definition reconcileStartupLostTasks ::
  "'st task_env \<Rightarrow> string option \<Rightarrow> int option \<Rightarrow> string list \<Rightarrow> ('st, background_task list) task_m" where
  "reconcileStartupLostTasks env reason createdBefore recoveredTurns =
     andThen (collect_lost env createdBefore recoveredTurns) (settle_lost env (default startup_reason reason))"

text \<open>One watched owner: whether it must be looked at again, and the ids that are still pending.\<close>

definition poll_owner ::
  "'st task_env \<Rightarrow> runtime_owner \<Rightarrow> 'st \<Rightarrow> string \<times> string list \<Rightarrow> bool \<times> string list" where
  "poll_owner env me st entry =
     (let (o', ids) = entry in
      if rw_isOwnerAlive me o' = Some False then (True, ids)
      else
        let pending = filter (\<lambda>i. case so_get (te_ops env) i st of None \<Rightarrow> False
              | Some t \<Rightarrow> \<not> isTerminalTaskStatus (bt_status t) \<and> recorded_owner t = Some o') ids
        in (pending = [], pending))"

definition poll_lost :: "'st task_env \<Rightarrow> runtime_owner \<Rightarrow> ('st, background_task list) task_m" where
  "poll_lost env me w =
     (let r = tw_recovery w;
          looked = map (\<lambda>(o', ids). (o', poll_owner env me (tw_store w) (o', ids))) (sr_watched r);
          refresh = map fst (filter (\<lambda>(_, again, _). again) looked);
          watched = map (\<lambda>(o', _, ids). (o', ids)) looked;
          r1 = r\<lparr>sr_watched := watched\<rparr>
      in if refresh = [] then (Inr [], w\<lparr>tw_recovery := r1\<rparr>)
         else
           let pending = filter (\<lambda>t. case recorded_owner t of None \<Rightarrow> False | Some o' \<Rightarrow> o' \<in> set refresh)
                 (te_snapshotPending env (tw_store w));
               r2 = r1\<lparr>sr_watched := filter (\<lambda>(o', _). o' \<notin> set refresh) watched\<rparr>;
               (lost, r3) = select_lost (Some me) pending r2
           in (Inr lost, w\<lparr>tw_recovery := r3\<rparr>))"

definition pollStartupLostTasks :: "'st task_env \<Rightarrow> ('st, bool) task_m" where
  "pollStartupLostTasks env w =
     (case te_owner env of
        None \<Rightarrow> (Inr False, w)
      | Some me \<Rightarrow>
          if sr_watched (tw_recovery w) = [] then (Inr False, w)
          else andThen (andThen (poll_lost env me) (settle_lost env startup_reason))
                 (\<lambda>_ w'. (Inr (sr_watched (tw_recovery w') \<noteq> []), w')) w)"

end
