(* ===== verification/TaskAdvance.thy ===== *)
theory TaskAdvance
  imports TaskLifecycle
begin

text \<open>
  Every operation of the service keeps the store well formed and only advances its tasks: the facts on the task
  store hold for any provider of the contract.
\<close>

named_theorems advance_intros

definition held :: "'st task_env \<Rightarrow> 'st task_world \<Rightarrow> string \<Rightarrow> background_task option" where
  "held env w i = so_get (te_ops env) i (tw_store w)"

lemma held_cong: "tw_store w' = tw_store w \<Longrightarrow> held env w' = held env w"
  by (rule ext) (simp add: held_def)

text \<open>A task that was live and is terminal afterwards has been announced to \<open>onTerminal\<close> in between.\<close>

definition wakes :: "'st task_env \<Rightarrow> 'st task_world \<Rightarrow> 'st task_world \<Rightarrow> bool" where
  "wakes env w w' \<longleftrightarrow> (\<exists>sent. tw_terminal w' = tw_terminal w @ sent \<and>
     (\<forall>i t t'. held env w i = Some t \<and> \<not> isTerminalTaskStatus (bt_status t) \<and>
        held env w' i = Some t' \<and> isTerminalTaskStatus (bt_status t') \<longrightarrow>
        (i, bt_ownerSessionId t', bt_status t') \<in> set sent))"

definition progress :: "'st task_env \<Rightarrow> 'st task_world \<Rightarrow> 'st task_world \<Rightarrow> bool" where
  "progress env w w' \<longleftrightarrow> no_task_lost (held env w) (held env w') \<and> wakes env w w'"

lemma progress_beside:
  assumes "held env w' = held env w" "tw_terminal w' = tw_terminal w @ sent"
  shows "progress env w w'"
  using assms by (auto simp: progress_def wakes_def)

lemma progress_refl [simp]: "progress env w w"
  using progress_beside [of env w w "[]"] by simp

lemma goes_on_terminal: "goes_on t u \<Longrightarrow> isTerminalTaskStatus (bt_status t) \<Longrightarrow> bt_status u = bt_status t"
  by (simp add: goes_on_def terminal_final)

lemma goes_on_owner: "goes_on t u \<Longrightarrow> bt_ownerSessionId u = bt_ownerSessionId t"
  by (simp add: goes_on_def identity_def)

lemma wakes_trans:
  assumes one: "no_task_lost (held env u) (held env v)" "wakes env u v"
    and two: "no_task_lost (held env v) (held env w)" "wakes env v w"
  shows "wakes env u w"
proof -
  obtain s1 where s1: "tw_terminal v = tw_terminal u @ s1" "\<And>i t t'. held env u i = Some t \<Longrightarrow>
      \<not> isTerminalTaskStatus (bt_status t) \<Longrightarrow> held env v i = Some t' \<Longrightarrow> isTerminalTaskStatus (bt_status t') \<Longrightarrow>
      (i, bt_ownerSessionId t', bt_status t') \<in> set s1"
    using one(2) unfolding wakes_def by blast
  obtain s2 where s2: "tw_terminal w = tw_terminal v @ s2" "\<And>i t t'. held env v i = Some t \<Longrightarrow>
      \<not> isTerminalTaskStatus (bt_status t) \<Longrightarrow> held env w i = Some t' \<Longrightarrow> isTerminalTaskStatus (bt_status t') \<Longrightarrow>
      (i, bt_ownerSessionId t', bt_status t') \<in> set s2"
    using two(2) unfolding wakes_def by blast
  have "(i, bt_ownerSessionId t', bt_status t') \<in> set (s1 @ s2)"
    if t: "held env u i = Some t" "\<not> isTerminalTaskStatus (bt_status t)"
      and t': "held env w i = Some t'" "isTerminalTaskStatus (bt_status t')" for i t t'
  proof -
    obtain x where x: "held env v i = Some x" using no_task_lostD [OF one(1) t(1)] by blast
    have on: "goes_on x t'" using no_task_lostD [OF two(1) x] t'(1) by auto
    show ?thesis
    proof (cases "isTerminalTaskStatus (bt_status x)")
      case True
      with s1(2) [OF t x] goes_on_terminal [OF on] goes_on_owner [OF on] show ?thesis by simp
    next
      case False
      with s2(2) [OF x _ t'] show ?thesis by simp
    qed
  qed
  then show ?thesis unfolding wakes_def using s1(1) s2(1) by (intro exI [of _ "s1 @ s2"]) simp
qed

lemma progress_trans: "progress env u v \<Longrightarrow> progress env v w \<Longrightarrow> progress env u w"
  unfolding progress_def using no_task_lost_trans wakes_trans by blast

definition advances :: "'st task_env \<Rightarrow> ('st \<Rightarrow> bool) \<Rightarrow> ('st, 'a) task_m \<Rightarrow> bool" where
  "advances env ok m \<longleftrightarrow>
     (\<forall>w. ok (tw_store w) \<longrightarrow> ok (tw_store (snd (m w))) \<and> progress env w (snd (m w)))"

lemma advancesI:
  assumes "\<And>w r w'. ok (tw_store w) \<Longrightarrow> m w = (r, w') \<Longrightarrow> ok (tw_store w') \<and> progress env w w'"
  shows "advances env ok m"
  unfolding advances_def using assms by (metis prod.collapse)

lemma advancesD:
  assumes "advances env ok m" "ok (tw_store w)" "m w = (r, w')"
  shows "ok (tw_store w')" "progress env w w'"
  using assms(1) [unfolded advances_def, rule_format, OF assms(2)] assms(3) by simp_all

lemma advances_beside:
  assumes "\<And>w. tw_store (snd (m w)) = tw_store w" "\<And>w. tw_terminal (snd (m w)) = tw_terminal w"
  shows "advances env ok m"
proof -
  have "progress env w (snd (m w))" for w
    using progress_beside [OF held_cong] assms by (metis append_Nil2)
  then show ?thesis by (simp add: advances_def assms)
qed

lemma advances_ret [advance_intros]: "advances env ok (ret x)"
  by (rule advances_beside) (simp_all add: ret_def)

lemma advances_throw [advance_intros]: "advances env ok (throw e)"
  by (rule advances_beside) (simp_all add: throw_def)

lemma advances_get [advance_intros]: "advances env ok (store_get env i)"
  by (rule advances_beside) (simp_all add: store_get_def)

lemma advances_now [advance_intros]: "advances env ok (nowMs env)"
  by (rule advances_beside) (simp_all add: nowMs_def)

lemma advances_andThen [advance_intros]:
  assumes "advances env ok m" "\<And>x. advances env ok (f x)"
  shows "advances env ok (andThen m f)"
proof (rule advancesI)
  fix w r w'
  assume ok: "ok (tw_store w)" and run: "andThen m f w = (r, w')"
  obtain r1 w1 where m: "m w = (r1, w1)" by (cases "m w")
  note s1 = advancesD [OF assms(1) ok m]
  show "ok (tw_store w') \<and> progress env w w'"
  proof (cases r1)
    case (Inl e)
    then show ?thesis using run m s1 by (simp add: andThen_def)
  next
    case (Inr x)
    then have "f x w1 = (r, w')" using run m by (simp add: andThen_def)
    from advancesD [OF assms(2) s1(1) this] show ?thesis using s1(2) progress_trans by blast
  qed
qed

lemma advances_tryCatch [advance_intros]:
  assumes "advances env ok m" "\<And>e. advances env ok (h e)"
  shows "advances env ok (tryCatch m h)"
proof (rule advancesI)
  fix w r w'
  assume ok: "ok (tw_store w)" and run: "tryCatch m h w = (r, w')"
  obtain r1 w1 where m: "m w = (r1, w1)" by (cases "m w")
  note s1 = advancesD [OF assms(1) ok m]
  show "ok (tw_store w') \<and> progress env w w'"
  proof (cases r1)
    case (Inr x)
    then show ?thesis using run m s1 by (simp add: tryCatch_def)
  next
    case (Inl e)
    then have "h e w1 = (r, w')" using run m by (simp add: tryCatch_def)
    from advancesD [OF assms(2) s1(1) this] show ?thesis using s1(2) progress_trans by blast
  qed
qed

text \<open>Changes of the world beside the store.\<close>

lemma advances_finalize [advance_intros]: "advances env ok (finalizeOutput env i summary)"
  by (rule advances_beside) (simp_all add: finalizeOutput_def split: sum.split)

lemma advances_schedule [advance_intros]: "advances env ok (scheduleDelivery i)"
  by (rule advances_beside) (simp_all add: scheduleDelivery_def)

lemma advances_collect [advance_intros]: "advances env ok (collect_lost env c ts)"
  by (rule advances_beside) (simp_all add: collect_lost_def split: prod.split)

lemma advances_poll [advance_intros]: "advances env ok (poll_lost env me)"
  by (rule advances_beside) (simp_all add: poll_lost_def Let_def split: prod.split)

text \<open>Changes of the world before and after an operation.\<close>

lemma progress_cong:
  assumes "tw_store u = tw_store w" "tw_terminal u = tw_terminal w" "tw_store u' = tw_store w'" "tw_terminal u' = tw_terminal w'"
  shows "progress env u u' \<longleftrightarrow> progress env w w'"
  unfolding progress_def wakes_def held_cong [OF assms(1)] held_cong [OF assms(3)] assms(2,4) by (rule refl)

lemma advances_after:
  fixes m :: "('st, 'a) task_m"
  assumes "advances env ok m" "\<And>w. tw_store (f w) = tw_store w" "\<And>w. tw_terminal (f w) = tw_terminal w"
  shows "advances env ok (\<lambda>w. m (f w))"
proof -
  have "progress env (f w) w' \<longleftrightarrow> progress env w w'" for w w' by (rule progress_cong) (simp_all add: assms)
  then show ?thesis using assms(1,2) unfolding advances_def by metis
qed

lemma advances_before:
  fixes m :: "('st, 'a) task_m"
  assumes "advances env ok m" "\<And>r w. tw_store (snd (g r w)) = tw_store w" "\<And>r w. tw_terminal (snd (g r w)) = tw_terminal w"
  shows "advances env ok (\<lambda>w. case m w of (r, w') \<Rightarrow> g r w')"
proof -
  have "progress env w (snd (case m w of (r, w') \<Rightarrow> g r w')) \<longleftrightarrow> progress env w (snd (m w))" for w
    by (rule progress_cong) (simp_all add: assms(2,3) split: prod.split)
  then show ?thesis using assms(1,2) by (simp add: advances_def split: prod.split) (metis snd_conv)
qed

lemma advances_if [advance_intros]:
  "advances env ok m \<Longrightarrow> advances env ok n \<Longrightarrow> advances env ok (if b then m else n)"
  by simp

lemma advances_option [advance_intros]:
  "advances env ok m \<Longrightarrow> (\<And>x. advances env ok (f x)) \<Longrightarrow> advances env ok (case y of None \<Rightarrow> m | Some x \<Rightarrow> f x)"
  by (simp split: option.split)

lemma advances_pair [advance_intros]:
  "(\<And>x y. advances env ok (f x y)) \<Longrightarrow> advances env ok (case p of (x, y) \<Rightarrow> f x y)"
  by (simp split: prod.split)

definition live_patch :: "task_patch \<Rightarrow> bool" where
  "live_patch p \<longleftrightarrow> (case pt_status p of None \<Rightarrow> True | Some s \<Rightarrow> \<not> isTerminalTaskStatus s)"

lemma live_patch_simps [simp]:
  "live_patch empty_patch"
  "live_patch (p\<lparr>pt_status := Some s\<rparr>) \<longleftrightarrow> \<not> isTerminalTaskStatus s"
  "live_patch (p\<lparr>pt_updatedAt := u\<rparr>) = live_patch p" "live_patch (p\<lparr>pt_endedAt := e\<rparr>) = live_patch p"
  "live_patch (p\<lparr>pt_deliveredAt := d\<rparr>) = live_patch p" "live_patch (p\<lparr>pt_outputRef := r\<rparr>) = live_patch p"
  "live_patch (p\<lparr>pt_lastError := f\<rparr>) = live_patch p"
  by (simp_all add: live_patch_def empty_patch_def)

text \<open>What follows a patch to a terminal status: it leaves the tasks alone and announces the task.\<close>

definition announces :: "'st task_env \<Rightarrow> ('st \<Rightarrow> bool) \<Rightarrow> background_task \<Rightarrow> ('st, 'a) task_m \<Rightarrow> bool" where
  "announces env ok c m \<longleftrightarrow>
     (\<forall>w. ok (tw_store w) \<longrightarrow> ok (tw_store (snd (m w))) \<and> held env (snd (m w)) = held env w \<and>
        tw_terminal (snd (m w)) = tw_terminal w @ [(bt_taskId c, bt_ownerSessionId c, bt_status c)])"

lemma announces_andThen:
  assumes "announces env ok c m"
  shows "announces env ok c (andThen m (\<lambda>_. ret x))"
  using assms by (auto simp: announces_def andThen_def ret_def split: prod.split sum.split)

lemma announces_before:
  assumes "announces env ok c m" "\<And>w. tw_store (f w) = tw_store w" "\<And>w. tw_terminal (f w) = tw_terminal w"
  shows "announces env ok c (\<lambda>w. m (f w))"
proof -
  have "held env (f w) = held env w" for w by (rule held_cong) (rule assms(2))
  then show ?thesis using assms by (simp add: announces_def)
qed

context task_store
begin

lemma patch_advances:
  fixes env :: "'st task_env" and w :: "'st task_world"
  assumes ops: "te_ops env = ops" and ok: "ok (tw_store w)" and run: "store_patch env i p w = (r, w')"
  shows "ok (tw_store w')" "tw_terminal w' = tw_terminal w" "no_task_lost (held env w) (held env w')"
    "r = Inr c \<Longrightarrow> \<exists>t now. held env w i = Some t \<and> patch_legal t p \<and> c = apply_patch t p now \<and>
       bt_taskId c = i \<and> held env w' = (held env w)(i \<mapsto> c)"
    "r = Inl e \<Longrightarrow> held env w' = held env w \<and> e = patch_error i (held env w i) p \<and>
       (\<forall>t. held env w i = Some t \<longrightarrow> \<not> patch_legal t p)"
proof -
  let ?now = "te_now env (tw_ticks w)"
  have h: "held env = (\<lambda>w i. so_get ops i (tw_store w))" by (simp add: held_def [abs_def] ops)
  have "ok (tw_store w') \<and> tw_terminal w' = tw_terminal w \<and> no_task_lost (held env w) (held env w') \<and>
      (\<forall>c. r = Inr c \<longrightarrow> (\<exists>t now. held env w i = Some t \<and> patch_legal t p \<and> c = apply_patch t p now \<and>
         bt_taskId c = i \<and> held env w' = (held env w)(i \<mapsto> c))) \<and>
      (\<forall>e. r = Inl e \<longrightarrow> held env w' = held env w \<and> e = patch_error i (held env w i) p \<and>
       (\<forall>t. held env w i = Some t \<longrightarrow> \<not> patch_legal t p))"
  proof (cases "so_patch ops i p ?now (tw_store w)")
    case (Inl e)
    then show ?thesis using run ok patch_Inl [OF ok Inl]
      by (auto simp: store_patch_def andThen_def nowMs_def ops h)
  next
    case (Inr q)
    then obtain c' st' where q: "so_patch ops i p ?now (tw_store w) = Inr (c', st')" by (cases q) auto
    then have rw: "r = Inr c'" "w' = w\<lparr>tw_ticks := tw_ticks w + 1, tw_store := st'\<rparr>"
      using run by (auto simp: store_patch_def andThen_def nowMs_def ops)
    have ids: "so_get ops i (tw_store w) = Some t \<Longrightarrow> bt_taskId t = i" for t by (rule get_id [OF ok])
    have "held env w' = (held env w)(i \<mapsto> c')" using patch_Inr [OF ok q] by (auto simp: h rw)
    then show ?thesis using patch_Inr [OF ok q] patch_goes_on [OF ok q] ids by (auto simp: rw h)
  qed
  then show "ok (tw_store w')" "tw_terminal w' = tw_terminal w" "no_task_lost (held env w) (held env w')"
    "r = Inr c \<Longrightarrow> \<exists>t now. held env w i = Some t \<and> patch_legal t p \<and> c = apply_patch t p now \<and>
       bt_taskId c = i \<and> held env w' = (held env w)(i \<mapsto> c)"
    "r = Inl e \<Longrightarrow> held env w' = held env w \<and> e = patch_error i (held env w i) p \<and>
       (\<forall>t. held env w i = Some t \<longrightarrow> \<not> patch_legal t p)"
    by blast+
qed

lemma advances_patch [advance_intros]:
  fixes env :: "'st task_env"
  assumes ops: "te_ops env = ops" and live: "live_patch p"
  shows "advances env ok (store_patch env i p)"
proof (rule advancesI)
  fix r and w w' :: "'st task_world"
  assume ok: "ok (tw_store w)" and run: "store_patch env i p w = (r, w')"
  note pa = patch_advances [OF ops ok run]
  have "wakes env w w'"
  proof (cases r)
    case (Inl e)
    then show ?thesis using pa(2) pa(5) by (auto simp: wakes_def)
  next
    case (Inr c)
    show ?thesis using pa(2) pa(4) [OF Inr] live
      by (auto simp: wakes_def live_patch_def default_def split: if_splits option.splits)
  qed
  then show "ok (tw_store w') \<and> progress env w w'" using pa by (simp add: progress_def)
qed

lemma announces_emit:
  fixes env :: "'st task_env"
  assumes "te_ops env = ops" "isTerminalTaskStatus (bt_status c)"
  shows "announces env ok c (emit env c EventCompleted payload)"
  unfolding announces_def emit_def using event assms by (simp add: held_def [abs_def] notifyTerminal_def Let_def)

lemma advances_emit [advance_intros]:
  fixes env :: "'st task_env"
  assumes "te_ops env = ops"
  shows "advances env ok (emit env t typ payload)"
proof (rule advancesI)
  fix r and w w' :: "'st task_world"
  assume ok: "ok (tw_store w)" and run: "emit env t typ payload w = (r, w')"
  have "held env w' = held env w" "ok (tw_store w')" "\<exists>sent. tw_terminal w' = tw_terminal w @ sent"
    using run event [OF ok] by (auto simp: emit_def Let_def held_def [abs_def] assms notifyTerminal_def split: if_splits)
  then show "ok (tw_store w') \<and> progress env w w'" using progress_beside by blast
qed

text \<open>A patch to a terminal status followed by its announcement.\<close>

lemma patched_and_announced:
  fixes env :: "'st task_env" and w :: "'st task_world"
  assumes ops: "te_ops env = ops" and ok: "ok (tw_store w)" and run: "store_patch env i p w = (Inr c, w1)"
    and ann: "announces env ok c m" and m: "m w1 = (r, w')"
  shows "ok (tw_store w') \<and> progress env w w'"
proof -
  note pa = patch_advances [OF ops ok run]
  have after: "ok (tw_store w')" "held env w' = held env w1"
    "tw_terminal w' = tw_terminal w @ [(bt_taskId c, bt_ownerSessionId c, bt_status c)]"
    using ann [unfolded announces_def, rule_format, OF pa(1)] m pa(2) by simp_all
  have "wakes env w w'"
    unfolding wakes_def after(2,3) using pa(4) [OF refl] by (auto split: if_splits)
  then show ?thesis using after(1,2) pa(3) by (simp add: progress_def)
qed

lemma advances_create [advance_intros]:
  fixes env :: "'st task_env"
  assumes "te_ops env = ops"
  shows "advances env ok (create_sv env t)"
proof (rule advancesI)
  fix r and w w' :: "'st task_world"
  assume ok: "ok (tw_store w)" and run: "create_sv env t w = (r, w')"
  obtain u where run: "(case so_create ops u (tw_store w) of Inl e \<Rightarrow> (Inl e, w)
      | Inr (t, st) \<Rightarrow> andThen (emit env t EventCreated None) (\<lambda>_. ret t) (w\<lparr>tw_store := st\<rparr>)) = (r, w')"
    using run unfolding create_sv_def Let_def assms by blast
  show "ok (tw_store w') \<and> progress env w w'"
  proof (cases "so_create ops u (tw_store w)")
    case (Inl e)
    then show ?thesis using run ok progress_beside [of env w w "[]"] by simp
  next
    case (Inr p)
    then obtain t' st where c: "so_create ops u (tw_store w) = Inr (t', st)" by (cases p) auto
    let ?w1 = "w\<lparr>tw_store := st\<rparr>"
    have held: "held env w i = Some x \<Longrightarrow> held env ?w1 i = Some x" for i x
      using create_Inr [OF ok c] by (auto simp: held_def assms split: if_splits)
    have "wakes env w ?w1" unfolding wakes_def by (rule exI [of _ "[]"]) (auto dest!: held)
    moreover have "no_task_lost (held env w) (held env ?w1)" using held by (auto simp: no_task_lost_def)
    ultimately have one: "progress env w ?w1" by (simp add: progress_def)
    have step: "advances env ok (andThen (emit env t' EventCreated None) (\<lambda>_. ret t'))"
      by (intro advance_intros advances_emit assms)
    have "andThen (emit env t' EventCreated None) (\<lambda>_. ret t') ?w1 = (r, w')" using run c by simp
    from advancesD [OF step _ this] create_Inr [OF ok c] one progress_trans show ?thesis by auto
  qed
qed

lemma advances_patch_sv [advance_intros]:
  fixes env :: "'st task_env"
  assumes ops: "te_ops env = ops"
  shows "advances env ok (patch_sv env i p)"
proof (cases "live_patch p")
  case True
  show ?thesis unfolding patch_sv_def by (intro advance_intros ops True)
next
  case False
  then obtain s where s: "pt_status p = Some s" "isTerminalTaskStatus s" by (auto simp: live_patch_def split: option.splits)
  show ?thesis
  proof (rule advancesI)
    fix r and w w' :: "'st task_world"
    assume ok: "ok (tw_store w)" and run: "patch_sv env i p w = (r, w')"
    obtain r1 w1 where one: "store_patch env i p w = (r1, w1)" by (cases "store_patch env i p w")
    note pa = patch_advances [OF ops ok one]
    show "ok (tw_store w') \<and> progress env w w'"
    proof (cases r1)
      case (Inl e)
      then show ?thesis using run one pa(1,2) pa(5) [OF Inl] progress_beside [of env w1 w "[]"]
        by (simp add: patch_sv_def andThen_def)
    next
      case (Inr c)
      have "isTerminalTaskStatus (bt_status c)" using pa(4) [OF Inr] s by (auto simp: default_def)
      from announces_andThen [OF announces_emit [OF ops this]]
      have "announces env ok c (andThen (emit env c EventCompleted (Some (status_payload s))) (\<lambda>_. ret c))" .
      moreover have "andThen (emit env c EventCompleted (Some (status_payload s))) (\<lambda>_. ret c) w1 = (r, w')"
        using run one s Inr by (simp add: patch_sv_def andThen_def)
      ultimately show ?thesis using patched_and_announced [OF ops ok] one Inr by blast
    qed
  qed
qed

lemma advances_ifNotTerminal [advance_intros]: "advances env ok m \<Longrightarrow> advances env ok (ifNotTerminal env i m)"
  unfolding ifNotTerminal_def getTerminalAfterInvalidTransition_def by (intro advance_intros)

lemma advances_patchIfNotTerminal [advance_intros]: "te_ops env = ops \<Longrightarrow> advances env ok (patchIfNotTerminal env i p)"
  unfolding patchIfNotTerminal_def by (intro advance_intros)

lemma advances_patchStatus:
  "te_ops env = ops \<Longrightarrow> \<not> isTerminalTaskStatus s \<Longrightarrow> advances env ok (patchStatusIfNotTerminal env t s p)"
  unfolding patchStatusIfNotTerminal_def by (intro advance_intros) simp_all

text \<open>The guarded writer of a terminal status, followed by the announcement if it patched.\<close>

lemma advances_settling:
  fixes env :: "'st task_env"
  assumes ops: "te_ops env = ops" and s: "isTerminalTaskStatus s"
    and patched: "\<And>c. isTerminalTaskStatus (bt_status c) \<Longrightarrow> announces env ok c (f c True)"
    and kept: "\<And>c. advances env ok (f c False)"
  shows "advances env ok (andThen (patchStatusIfNotTerminal env t s p) (\<lambda>(c, b). f c b))"
proof (rule advancesI)
  fix r and w w' :: "'st task_world"
  let ?p = "p\<lparr>pt_status := Some s\<rparr>" and ?i = "bt_taskId t"
  assume ok: "ok (tw_store w)" and run: "andThen (patchStatusIfNotTerminal env t s p) (\<lambda>(c, b). f c b) w = (r, w')"
  obtain r1 w1 where one: "store_patch env ?i ?p w = (r1, w1)" by (cases "store_patch env ?i ?p w")
  note pa = patch_advances [OF ops ok one]
  show "ok (tw_store w') \<and> progress env w w'"
  proof (cases r1)
    case (Inr c)
    have "isTerminalTaskStatus (bt_status c)" using pa(4) [OF Inr] s by (auto simp: default_def)
    moreover have "f c True w1 = (r, w')"
      using run one Inr by (simp add: patchStatusIfNotTerminal_def ifNotTerminal_def tryCatch_def andThen_def ret_def)
    ultimately show ?thesis using patched_and_announced [OF ops ok] one Inr patched by blast
  next
    case (Inl e)
    have unchanged: "progress env w w1" using pa(2) pa(5) [OF Inl] progress_beside [of env w1 w "[]"] by simp
    have "(r, w') = (case getTerminalAfterInvalidTransition env ?i e w1 of (Inl e', w2) \<Rightarrow> (Inl e', w2)
        | (Inr None, w2) \<Rightarrow> (Inl e, w2) | (Inr (Some c), w2) \<Rightarrow> f c False w2)"
      using run one Inl
      by (simp add: patchStatusIfNotTerminal_def ifNotTerminal_def tryCatch_def andThen_def ret_def throw_def
          split: prod.splits sum.splits option.splits)
    moreover have "snd (getTerminalAfterInvalidTransition env ?i e w1) = w1"
      by (simp add: getTerminalAfterInvalidTransition_def andThen_def store_get_def ret_def)
    ultimately have "w' = w1 \<or> (\<exists>c. f c False w1 = (r, w'))" by (auto split: prod.splits sum.splits option.splits)
    then show ?thesis using unchanged pa(1) advancesD [OF kept pa(1)] progress_trans by blast
  qed
qed

lemma advances_get_sv [advance_intros]: "advances env ok (get_sv env ctx i)"
  unfolding get_sv_def by (intro advance_intros)

lemma advances_markDelivered_loop: "te_ops env = ops \<Longrightarrow> advances env ok (markDelivered_loop env owner at is d)"
proof (induction "is" arbitrary: d)
  case Nil
  show ?case unfolding markDelivered_loop.simps by (intro advance_intros)
next
  case (Cons i "is")
  show ?case unfolding markDelivered_loop.simps by (intro advance_intros Cons) simp_all
qed

lemma advances_markDelivered [advance_intros]: "te_ops env = ops \<Longrightarrow> advances env ok (markDelivered env owner is)"
  unfolding markDelivered_def by (intro advance_intros advances_markDelivered_loop)

lemma advances_appendOutput [advance_intros]:
  assumes "te_ops env = ops"
  shows "advances env ok (appendOutput env chunk)"
proof -
  have rest: "advances env ok (andThen (nowMs env) (\<lambda>now.
      andThen (store_patch env (oc_taskId chunk) (empty_patch\<lparr>pt_outputRef := Some oref,
          pt_updatedAt := Some (default now (oc_timestamp chunk))\<rparr>)) (\<lambda>t.
      andThen (emit env t EventOutputUpdated (Some [(''outputRef'', output_ref_js oref)])) (\<lambda>_. ret oref))))" for oref
    by (intro advance_intros assms) simp_all
  have "advances env ok (\<lambda>w. case append_file chunk clock (tw_output w) of
      Inl e \<Rightarrow> (Inl e, w)
    | Inr (oref, out) \<Rightarrow>
        andThen (nowMs env) (\<lambda>now.
        andThen (store_patch env (oc_taskId chunk) (empty_patch\<lparr>pt_outputRef := Some oref,
            pt_updatedAt := Some (default now (oc_timestamp chunk))\<rparr>)) (\<lambda>t.
        andThen (emit env t EventOutputUpdated (Some [(''outputRef'', output_ref_js oref)])) (\<lambda>_. ret oref)))
      (w\<lparr>tw_output := out\<rparr>))" for clock
    using advances_after [OF rest, of "\<lambda>w. w\<lparr>tw_output := _\<rparr>"]
    by (auto simp: advances_def split: sum.split)
  then show ?thesis unfolding appendOutput_def by (intro advance_intros)
qed

lemma advances_cancel [advance_intros]:
  fixes env :: "'st task_env"
  assumes ops: "te_ops env = ops"
  shows "advances env ok (cancel_after_stop env t le pl)"
proof -
  have "advances env ok (andThen (patchStatusIfNotTerminal env t Canceled p) (\<lambda>(c, b).
      if \<not> b then ret c else andThen (emit env c EventCompleted (Some pl)) (\<lambda>_. ret c)))" for p
    by (rule advances_settling [OF ops])
      (simp_all add: terminal_iff advances_ret announces_andThen announces_emit [OF ops])
  then show ?thesis unfolding cancel_after_stop_def
    by (intro advances_andThen [OF advances_get] advances_andThen [OF advances_now] advances_option advances_ret)
qed

definition runtime_advances ::
  "'st task_env \<Rightarrow> (background_task \<Rightarrow> string option \<Rightarrow> ('st, unit) task_m) option \<Rightarrow> bool" where
  "runtime_advances env rt \<longleftrightarrow> (\<forall>runtime t reason. rt = Some runtime \<longrightarrow> advances env ok (runtime t reason))"

lemma advances_performStop [advance_intros]:
  assumes "te_ops env = ops" "runtime_advances env rt"
  shows "advances env ok (performStop env rt t reason)"
proof (cases rt)
  case None
  show ?thesis unfolding performStop_def None option.case
    by (intro advance_intros advances_patchStatus assms(1)) (simp add: terminal_iff)
next
  case (Some runtime)
  have "advances env ok (runtime u reason)" for u using assms(2) Some by (simp add: runtime_advances_def)
  then show ?thesis unfolding performStop_def Some option.case
    by (intro advance_intros advances_patchStatus assms(1)) (simp_all add: terminal_iff)
qed

lemma advances_stop [advance_intros]:
  assumes "te_ops env = ops" "runtime_advances env rt"
  shows "advances env ok (stop_sv env rt ctx i reason)"
proof -
  have inner: "advances env ok (andThen (performStop env rt t reason) (\<lambda>t. ret (Stopped t)))" for t
    by (intro advance_intros assms)
  have run: "advances env ok (\<lambda>w. case (andThen (performStop env rt t reason) (\<lambda>t. ret (Stopped t)))
        (w\<lparr>tw_stopping := i # tw_stopping w\<rparr>) of
      (r, w') \<Rightarrow> (r, w'\<lparr>tw_stopping := removeAll i (tw_stopping w')\<rparr>))" for t
    by (rule advances_before [OF advances_after [OF inner]]) simp_all
  have "advances env ok (\<lambda>w. if i \<in> set (tw_stopping w) then (Inr SharedStop, w)
      else case (andThen (performStop env rt t reason) (\<lambda>t. ret (Stopped t)))
        (w\<lparr>tw_stopping := i # tw_stopping w\<rparr>) of
      (r, w') \<Rightarrow> (r, w'\<lparr>tw_stopping := removeAll i (tw_stopping w')\<rparr>))" for t
    using run [of t] unfolding advances_def by simp
  then show ?thesis unfolding stop_sv_def by (intro advance_intros)
qed

lemma advances_terminal [advance_intros]:
  "te_ops env = ops \<Longrightarrow> advances env ok (persistLocalSubagentTaskTerminal env i outcome delivery)"
  unfolding persistLocalSubagentTaskTerminal_def patchTerminalTaskOutput_def Let_def by (intro advance_intros)

lemma advances_settle_one [advance_intros]:
  fixes env :: "'st task_env"
  assumes ops: "te_ops env = ops"
  shows "advances env ok (settle_one env reason t)"
proof -
  let ?f = "\<lambda>t' patched w. let w' = w\<lparr>tw_recovery := unwatch t' (tw_recovery w)\<rparr>
      in if \<not> patched then (Inr None, w')
         else andThen (emit env t' EventCompleted (Some (status_payload Lost @ [(''reason'', JStr reason)])))
                (\<lambda>_. ret (Some t')) w'"
  have "announces env ok c (?f c True)" if "isTerminalTaskStatus (bt_status c)" for c
    using announces_before [OF announces_andThen [OF announces_emit [OF ops that]],
        of "\<lambda>w. w\<lparr>tw_recovery := unwatch c (tw_recovery w)\<rparr>"] by simp
  moreover have "advances env ok (?f c False)" for c
    by (rule advances_beside) simp_all
  ultimately have "advances env ok (andThen (patchStatusIfNotTerminal env t Lost p) (\<lambda>(c, b). ?f c b))" for p
    by (intro advances_settling [OF ops]) (simp_all add: terminal_iff)
  then show ?thesis unfolding settle_one_def by (intro advances_andThen [OF advances_now])
qed

lemma advances_settle [advance_intros]: "te_ops env = ops \<Longrightarrow> advances env ok (settle_lost env reason ts)"
  by (induction ts) (simp_all, intro advance_intros; simp)+

lemma advances_reconcile [advance_intros]:
  "te_ops env = ops \<Longrightarrow> advances env ok (reconcileStartupLostTasks env reason c turns)"
  unfolding reconcileStartupLostTasks_def by (intro advance_intros)

lemma advances_poll_startup [advance_intros]:
  assumes "te_ops env = ops"
  shows "advances env ok (pollStartupLostTasks env)"
proof (cases "te_owner env")
  case None
  then show ?thesis by (intro advances_beside) (simp_all add: pollStartupLostTasks_def)
next
  case (Some me)
  have last: "advances env ok (\<lambda>w'. (Inr (sr_watched (tw_recovery w') \<noteq> []), w'))"
    by (rule advances_beside) simp_all
  have "advances env ok (andThen (andThen (poll_lost env me) (settle_lost env startup_reason))
      (\<lambda>_ w'. (Inr (sr_watched (tw_recovery w') \<noteq> []), w')))"
    by (intro advance_intros assms last)
  then show ?thesis unfolding advances_def pollStartupLostTasks_def by (simp add: Some)
qed

end

end
