(* ===== verification/TaskSystem.thy ===== *)
theory TaskSystem
  imports TaskAdvance
begin

text \<open>
  The calls that the rest of the runtime makes on the task service, in any order. While \<open>stop\<close> waits for the
  runtime of a task, any further calls may happen, and the runtime may throw in the end.
\<close>

datatype service_call =
  CallCreate background_task
| CallPatch string task_patch
| CallPatchIfNotTerminal string task_patch
| CallMarkDelivered string "string list"
| CallAppendOutput output_chunk
| CallFinalizeOutput string "js_text option"
| CallStop "string option" string "string option" "service_call list" "thrown option"
| CallTerminal string task_outcome task_delivery
| CallReconcile "string option" "int option" "string list"
| CallPoll

definition discard :: "('st, 'a) task_m \<Rightarrow> 'st task_world \<Rightarrow> 'st task_world" where
  "discard m w = snd (m w)"

definition runtime_of ::
  "('st task_world \<Rightarrow> 'st task_world) \<Rightarrow> thrown option \<Rightarrow> background_task \<Rightarrow> string option \<Rightarrow> ('st, unit) task_m" where
  "runtime_of f failure t reason w = ((case failure of None \<Rightarrow> Inr () | Some e \<Rightarrow> Inl e), f w)"

fun run_call :: "'st task_env \<Rightarrow> service_call \<Rightarrow> 'st task_world \<Rightarrow> 'st task_world"
  and run_calls :: "'st task_env \<Rightarrow> service_call list \<Rightarrow> 'st task_world \<Rightarrow> 'st task_world" where
  "run_call env (CallCreate t) w = discard (create_sv env t) w"
| "run_call env (CallPatch i p) w = discard (patch_sv env i p) w"
| "run_call env (CallPatchIfNotTerminal i p) w = discard (patchIfNotTerminal env i p) w"
| "run_call env (CallMarkDelivered owner is) w = discard (markDelivered env owner is) w"
| "run_call env (CallAppendOutput chunk) w = discard (appendOutput env chunk) w"
| "run_call env (CallFinalizeOutput i summary) w = discard (finalizeOutput env i summary) w"
| "run_call env (CallStop ctx i reason during failure) w =
     discard (stop_sv env (Some (runtime_of (\<lambda>w. run_calls env during w) failure)) ctx i reason) w"
| "run_call env (CallTerminal i outcome delivery) w = discard (persistLocalSubagentTaskTerminal env i outcome delivery) w"
| "run_call env (CallReconcile reason cutoff turns) w = discard (reconcileStartupLostTasks env reason cutoff turns) w"
| "run_call env CallPoll w = discard (pollStartupLostTasks env) w"
| "run_calls env [] w = w"
| "run_calls env (c # cs) w = run_calls env cs (run_call env c w)"

context task_store
begin

definition keeps :: "'st task_env \<Rightarrow> ('st task_world \<Rightarrow> 'st task_world) \<Rightarrow> bool" where
  "keeps env f \<longleftrightarrow> (\<forall>w. ok (tw_store w) \<longrightarrow> ok (tw_store (f w)) \<and> progress env w (f w))"

lemma keeps_discard: "advances env ok m \<Longrightarrow> keeps env (discard m)"
  by (simp add: keeps_def advances_def discard_def)

lemma kept_discard:
  assumes "te_ops env = ops \<Longrightarrow> advances env ok m"
  shows "te_ops env = ops \<longrightarrow> ok (tw_store w) \<longrightarrow> ok (tw_store (discard m w)) \<and> progress env w (discard m w)"
  using assms by (simp add: advances_def discard_def)

lemma runtime_keeps: "keeps env f \<Longrightarrow> runtime_advances env (Some (runtime_of f failure))"
  by (simp add: runtime_advances_def advances_def runtime_of_def keeps_def)

lemma run_kept:
  fixes env :: "'st task_env"
  shows "te_ops env = ops \<longrightarrow> ok (tw_store w) \<longrightarrow> ok (tw_store (run_call env c w)) \<and> progress env w (run_call env c w)"
    and "te_ops env = ops \<longrightarrow> ok (tw_store w) \<longrightarrow> ok (tw_store (run_calls env cs w)) \<and> progress env w (run_calls env cs w)"
proof (induction env c w and env cs w rule: run_call_run_calls.induct)
  case (7 env ctx i reason during failure w)
  show ?case
  proof (intro impI)
    assume ops: "te_ops env = ops" and ok: "ok (tw_store w)"
    have "keeps env (\<lambda>w. run_calls env during w)" using 7 ops by (simp add: keeps_def)
    from keeps_discard [OF advances_stop [OF ops runtime_keeps [OF this]]]
    show "ok (tw_store (run_call env (CallStop ctx i reason during failure) w)) \<and>
        progress env w (run_call env (CallStop ctx i reason during failure) w)"
      unfolding run_call.simps keeps_def using ok by blast
  qed
next
  case (12 env c cs w)
  then show ?case by (auto intro: progress_trans)
next
  case (11 env w)
  show ?case by simp
qed (unfold run_call.simps, (rule kept_discard, intro advance_intros, assumption?)+)

lemma run_keeps: "te_ops env = ops \<Longrightarrow> keeps env (run_calls env cs)"
  using run_kept(2) by (simp add: keeps_def)

end

end
