(* ===== verification/TaskListing.thy ===== *)
theory TaskListing
  imports TaskContract "HOL-Library.Multiset"
begin

text \<open>
  Properties of the task stores: the store of the local runtime refines the in-memory store, and a reader
  that follows the cursors sees every task once.
\<close>

section \<open>Refinement\<close>


lemma selection_necessary: "matchesQuery_local t q \<Longrightarrow> buildListSelection q (row_of t)"
proof -
  assume m: "matchesQuery_local t q"
  then have "tq_taskIds q \<noteq> Some []" "tq_statuses q \<noteq> Some []" by (auto simp: matchesQuery_local_def)
  then show ?thesis using m unfolding matchesQuery_local_def buildListSelection_def not_less row_of_simps
    by (elim conjE, intro conjI) (assumption | simp)+
qed

text \<open>The rows the query plan puts in some order, and the tasks they hold.\<close>

lemma readMatching_tasks:
  assumes "db_ok db" "\<And>rows. mset (plan rows) = mset rows"
  shows "mset (readMatchingInDb plan q db) = mset (filter (\<lambda>t. matchesQuery_local t q) (db_tasks db))"
proof -
  let ?f = "\<lambda>r. case tr_record r of None \<Rightarrow> [] | Some t \<Rightarrow> if matchesQuery_local t q then [t] else []"
  have perm: "mset (concat (map ?f xs)) = mset (concat (map ?f ys))" if "mset xs = mset ys" for xs ys
    using that by (simp add: mset_concat flip: sum_mset_sum_list)
  have "concat (map ?f (filter (buildListSelection q) (map row_of ts))) = filter (\<lambda>t. matchesQuery_local t q) ts" for ts
    by (induction ts) (auto simp: selection_necessary)
  then show ?thesis
    unfolding readMatchingInDb_def db_ok_rows(1) [OF assms(1)] using perm [OF assms(2)] by simp
qed


text \<open>Two tasks to try things on.\<close>

definition demo_task :: "string \<Rightarrow> task_status \<Rightarrow> int \<Rightarrow> background_task" where
  "demo_task i s created =
     \<lparr>bt_taskId = i, bt_kind = KindSubagent, bt_status = s, bt_ownerSessionId = ''owner'', bt_description = None,
      bt_toolCallId = None, bt_parentMessageId = None, bt_parentTaskId = None, bt_createdAt = created,
      bt_updatedAt = created, bt_startedAt = None, bt_endedAt = None, bt_deliveredAt = None, bt_outputRef = None,
      bt_lastError = None, bt_usage = None, bt_metadata = None\<rparr>"

definition demo_db :: task_db where
  "demo_db = \<lparr>td_rows = map row_of [demo_task ''a'' Running 1, demo_task ''b'' Canceled 2], td_events = []\<rparr>"

lemma demo_db_ok: "db_ok demo_db"
  by (rule db_okI [of _ "[demo_task ''a'' Running 1, demo_task ''b'' Canceled 2]"]) (simp_all add: demo_db_def demo_task_def)

lemma demo_db_tasks: "db_tasks demo_db = [demo_task ''a'' Running 1, demo_task ''b'' Canceled 2]"
  by (rule db_tasks_rows) (simp add: demo_db_def)








section \<open>Pages\<close>

lemma digit_not_space: "is_digit c \<Longrightarrow> \<not> js_space c \<and> c \<noteq> CHR ''-'' \<and> c \<noteq> CHR ''+''"
  by (auto simp: is_digit_def js_space_def less_eq_char_def)

lemma parse_int_json: "parse_int (json_int (int n)) = Some (int n)"
proof -
  obtain c s where cs: "nat_digits n = c # s" using nat_digits_not_Nil by (meson neq_Nil_conv)
  then have "is_digit c" using nat_digits_digits by (metis list.set_intros(1))
  then have c: "\<not> js_space c" "c \<noteq> CHR ''-''" "c \<noteq> CHR ''+''" using digit_not_space by auto
  have "takeWhile is_digit (nat_digits n) = nat_digits n" using takeWhile_digits [of "[]" n] by (simp add: no_digit_next_def)
  then show ?thesis
    using c digits_nat_digits [of n] by (simp add: parse_int_def json_int_def cs Let_def split: if_splits)
qed

lemma parseCursor_json: "parseCursor (Some (json_int (int n))) = n"
proof -
  have "json_int (int n) \<noteq> []" by (simp add: json_int_def)
  then show ?thesis by (simp add: parseCursor_def parse_int_json)
qed

text \<open>A reader that lists while there is a cursor (\<open>do ... while (cursor)\<close>); the fuel counts the pages.\<close>

fun all_pages :: "nat \<Rightarrow> (string option \<Rightarrow> task_page) \<Rightarrow> string option \<Rightarrow> background_task list option" where
  "all_pages 0 list cursor = None"
| "all_pages (Suc n) list cursor =
     (let page = list cursor in
      case truthy (pg_nextCursor page) of
        None \<Rightarrow> Some (pg_items page)
      | Some c \<Rightarrow> map_option (\<lambda>rest. pg_items page @ rest) (all_pages n list (Some c)))"

text \<open>All limits but those between 0 and 1.\<close>

definition usable_limit :: "fractional option \<Rightarrow> bool" where
  "usable_limit limit \<longleftrightarrow> limit \<noteq> Some (0, True)"

lemma clampLimit_pos: "usable_limit limit \<Longrightarrow> 0 < clampLimit limit"
  by (cases limit) (auto simp: clampLimit_def usable_limit_def DEFAULT_TASK_LIST_LIMIT_def MAX_TASK_LIST_LIMIT_def split: prod.splits)

lemma all_pages_from:
  assumes "usable_limit (tq_limit q)" "parseCursor c = off" "length items - off < n"
  shows "all_pages n (\<lambda>c. page_of (q\<lparr>tq_cursor := c\<rparr>) items) c = Some (drop off items)"
  using assms(2,3)
proof (induction n arbitrary: c off)
  case (Suc n)
  let ?lim = "clampLimit (tq_limit q)"
  show ?case
  proof (cases "off + ?lim < length items")
    case True
    have json: "json_int (int (off + ?lim)) \<noteq> []" by (simp add: json_int_def)
    have "all_pages n (\<lambda>c. page_of (q\<lparr>tq_cursor := c\<rparr>) items) (Some (json_int (int (off + ?lim)))) = Some (drop (off + ?lim) items)"
      using True Suc.prems(2) clampLimit_pos [OF assms(1)] by (intro Suc.IH parseCursor_json) auto
    moreover have "min (length items - off) ?lim = ?lim" using True by simp
    ultimately show ?thesis
      using True json Suc.prems(1) append_take_drop_id [of ?lim "drop off items"]
      by (simp add: page_of_def Let_def add.commute)
  next
    case False
    then show ?thesis using Suc.prems(1) by (auto simp: page_of_def Let_def)
  qed
qed simp

lemma sorted_items_mset: "mset (sorted_items q items) = mset items"
  by (simp add: sorted_items_def Let_def)

lemma cursor_irrelevant:
  "buildListSelection (q\<lparr>tq_cursor := c\<rparr>) = buildListSelection q"
  "matchesQuery_local t (q\<lparr>tq_cursor := c\<rparr>) = matchesQuery_local t q"
  "sorted_items (q\<lparr>tq_cursor := c\<rparr>) items = sorted_items q items"
  by (rule ext, simp add: buildListSelection_def) (simp_all add: matchesQuery_local_def sorted_items_def)

text \<open>C40: Listing with cursors visits every matching task once and ends. Whatever order the database yields the rows in,
  whatever the order asked for and the limit of a page, be it no limit, not positive or at least one, a reader that
  starts without a cursor and follows the cursors gets an answer without one after at most as many pages as there are
  rows and one more, and the pages put together are the matching tasks, each once and all in the order asked
  for. (A limit between 0 and 1 is rounded down to pages of no task, whose cursor leads back to the same place.)\<close>

theorem listing_complete:
  assumes "db_ok db" "\<And>rows. mset (plan rows) = mset rows" "usable_limit (tq_limit q)"
  shows "\<exists>tasks. all_pages (Suc (length (td_rows db))) (\<lambda>cursor. list_db plan (q\<lparr>tq_cursor := cursor\<rparr>) db) None = Some tasks \<and>
    mset tasks = mset (filter (\<lambda>t. matchesQuery_local t q) (db_tasks db)) \<and> distinct (map bt_taskId tasks) \<and>
    sorted (map (\<lambda>t. (if tq_ascending q = Some True then 1 else - 1) * getOrderValue t (default OrderCreatedAt (tq_orderBy q))) tasks)"
proof -
  define items where "items = sorted_items q (readMatchingInDb plan q db)"
  have list: "list_db plan (q\<lparr>tq_cursor := c\<rparr>) db = page_of (q\<lparr>tq_cursor := c\<rparr>) items" for c
    unfolding list_db_def items_def readMatchingInDb_def cursor_irrelevant by (rule refl)
  have m: "mset items = mset (filter (\<lambda>t. matchesQuery_local t q) (db_tasks db))"
    using readMatching_tasks [OF assms(1,2)] by (simp add: items_def sorted_items_mset)
  then have "length items \<le> length (td_rows db)"
    by (metis db_ok_rows(1) [OF assms(1)] length_filter_le length_map mset_eq_length)
  then have "all_pages (Suc (length (td_rows db))) (\<lambda>c. page_of (q\<lparr>tq_cursor := c\<rparr>) items) None = Some items"
    using all_pages_from [OF assms(3), of None 0 items] by (simp add: parseCursor_def del: all_pages.simps)
  moreover have "distinct (map bt_taskId items)"
    using db_ok_rows(2) [OF assms(1)] m by (metis distinct_map_filter mset_eq_imp_distinct_iff mset_map)
  moreover have "sorted (map (\<lambda>t. (if tq_ascending q = Some True then 1 else - 1) *
      getOrderValue t (default OrderCreatedAt (tq_orderBy q))) items)"
    by (simp add: items_def sorted_items_def Let_def)
  ultimately show ?thesis using m unfolding list by blast
qed

theorem listing_complete_witness:
  "\<exists>tasks. all_pages 3 (\<lambda>cursor. list_db rev (query_all\<lparr>tq_limit := Some (1, False), tq_cursor := cursor\<rparr>) demo_db) None = Some tasks \<and>
    length tasks = 2"
proof -
  have "Suc (length (td_rows demo_db)) = 3" by (simp add: demo_db_def)
  moreover have "filter (\<lambda>t. matchesQuery_local t (query_all\<lparr>tq_limit := Some (1, False)\<rparr>)) (db_tasks demo_db) = db_tasks demo_db"
    by (simp add: demo_db_tasks matchesQuery_local_def query_all_def)
  ultimately obtain tasks where "all_pages 3 (\<lambda>cursor. list_db rev (query_all\<lparr>tq_limit := Some (1, False), tq_cursor := cursor\<rparr>) demo_db) None = Some tasks"
    "mset tasks = mset (db_tasks demo_db)"
    using listing_complete [OF demo_db_ok, of rev "query_all\<lparr>tq_limit := Some (1, False)\<rparr>"] by (auto simp: usable_limit_def simp del: all_pages.simps)
  moreover from this have "length tasks = 2" by (metis demo_db_tasks length_Cons list.size(3) mset_eq_length numeral_2_eq_2)
  ultimately show ?thesis by blast
qed

end
