(* ===== verification/TaskProps.thy ===== *)
theory TaskProps
  imports TaskSystem TaskListing
begin

text \<open>Properties of the task service of the local runtime, on the store with rows.\<close>

section \<open>Stopping settles\<close>

lemma andThen_Inr: "m w = (Inr x, w1) \<Longrightarrow> andThen m f w = f x w1"
  by (simp add: andThen_def)

lemma andThen_Inl: "m w = (Inl e, w1) \<Longrightarrow> andThen m f w = (Inl e, w1)"
  by (simp add: andThen_def)

lemma store_get_held: "store_get env i w = (Inr (held env w i), w)"
  by (simp add: store_get_def held_def)

lemma held_simps [simp]:
  "held env (w\<lparr>tw_ticks := n\<rparr>) = held env w" "held env (w\<lparr>tw_stopping := s\<rparr>) = held env w"
  "held env (w\<lparr>tw_recovery := r\<rparr>) = held env w" "held env (w\<lparr>tw_output := out\<rparr>) = held env w"
  by (rule held_cong, simp)+

lemma clock_read:
  obtains w1 where "nowMs env w = (Inr (te_now env (tw_ticks w)), w1)" "held env w1 = held env w"
    "tw_store w1 = tw_store w" "tw_stopping w1 = tw_stopping w" "tw_terminal w1 = tw_terminal w"
    "tw_output w1 = tw_output w"
  by (rule that [of "w\<lparr>tw_ticks := tw_ticks w + 1\<rparr>"]) (simp_all add: nowMs_def)

context task_store
begin

lemma emit_held:
  fixes env :: "'st task_env" and w :: "'st task_world"
  assumes "te_ops env = ops" "ok (tw_store w)"
  obtains w' where "emit env t typ pl w = (Inr (), w')" "held env w' = held env w" "ok (tw_store w')"
    "tw_stopping w' = tw_stopping w"
    "tw_terminal w' = tw_terminal w @ (if typ = EventCompleted \<and> isTerminalTaskStatus (bt_status t)
       then [(bt_taskId t, bt_ownerSessionId t, bt_status t)] else [])"
  using event [OF assms(2)] that
  by (force simp: emit_def Let_def held_def [abs_def] assms(1) notifyTerminal_def)

lemma patch_returns:
  fixes env :: "'st task_env" and w :: "'st task_world"
  assumes ops: "te_ops env = ops" and ok: "ok (tw_store w)" and t: "held env w i = Some t" "patch_legal t p"
  obtains w' where "store_patch env i p w = (Inr (apply_patch t p (te_now env (tw_ticks w))), w')"
    "held env w' = (held env w)(i \<mapsto> apply_patch t p (te_now env (tw_ticks w)))" "ok (tw_store w')"
    "tw_stopping w' = tw_stopping w" "tw_terminal w' = tw_terminal w" "tw_output w' = tw_output w"
proof -
  have "so_get ops i (tw_store w) = Some t" using t(1) by (simp add: held_def ops)
  from patch_total [OF ok this t(2), of "te_now env (tw_ticks w)"] obtain st' where
    st': "so_patch ops i p (te_now env (tw_ticks w)) (tw_store w) = Inr (apply_patch t p (te_now env (tw_ticks w)), st')"
      "ok st'" "so_get ops i st' = Some (apply_patch t p (te_now env (tw_ticks w)))"
      "\<And>j. j \<noteq> i \<Longrightarrow> so_get ops j st' = so_get ops j (tw_store w)" by blast
  have run: "store_patch env i p w = (Inr (apply_patch t p (te_now env (tw_ticks w))),
      w\<lparr>tw_ticks := tw_ticks w + 1, tw_store := st'\<rparr>)"
    using st'(1) by (simp add: store_patch_def andThen_def nowMs_def ops)
  show ?thesis
    by (rule that [OF run]) (use st' in \<open>auto simp: held_def ops fun_eq_iff\<close>)
qed

lemma status_patched:
  fixes env :: "'st task_env" and w :: "'st task_world"
  assumes "te_ops env = ops" "ok (tw_store w)" "held env w (bt_taskId t) = Some u" "bt_status u \<le> s"
  obtains c w' where "patchStatusIfNotTerminal env t s p w = (Inr (c, True), w')"
    "c = apply_patch u (p\<lparr>pt_status := Some s\<rparr>) (te_now env (tw_ticks w))"
    "held env w' = (held env w)(bt_taskId t \<mapsto> c)" "ok (tw_store w')" "tw_stopping w' = tw_stopping w"
    "tw_terminal w' = tw_terminal w"
proof -
  have "patch_legal u (p\<lparr>pt_status := Some s\<rparr>)" using assms(4) by (simp add: patch_legal_def)
  from patch_returns [OF assms(1-3) this] obtain w' where
    w': "store_patch env (bt_taskId t) (p\<lparr>pt_status := Some s\<rparr>) w =
        (Inr (apply_patch u (p\<lparr>pt_status := Some s\<rparr>) (te_now env (tw_ticks w))), w')"
      "held env w' = (held env w)(bt_taskId t \<mapsto> apply_patch u (p\<lparr>pt_status := Some s\<rparr>) (te_now env (tw_ticks w)))"
      "ok (tw_store w')" "tw_stopping w' = tw_stopping w" "tw_terminal w' = tw_terminal w" by blast
  have "patchStatusIfNotTerminal env t s p w =
      (Inr (apply_patch u (p\<lparr>pt_status := Some s\<rparr>) (te_now env (tw_ticks w)), True), w')"
    using w'(1) by (simp add: patchStatusIfNotTerminal_def ifNotTerminal_def tryCatch_def andThen_def ret_def)
  from that [OF this refl w'(2-5)] show ?thesis .
qed

lemma cancel_returns:
  fixes env :: "'st task_env" and w :: "'st task_world"
  assumes ops: "te_ops env = ops" and ok: "ok (tw_store w)" and u: "held env w (bt_taskId s) = Some u"
  obtains c w' where "cancel_after_stop env s le pl w = (Inr c, w')" "isTerminalTaskStatus (bt_status c)"
    "held env w' (bt_taskId s) = Some c" "ok (tw_store w')"
proof (cases "isTerminalTaskStatus (bt_status u)")
  case True
  show ?thesis
    by (rule that [of u w])
      (use True ok u in \<open>simp_all add: cancel_after_stop_def andThen_Inr [OF store_get_held] terminal_task_def ret_def\<close>)
next
  case False
  obtain w1 where n: "nowMs env w = (Inr (te_now env (tw_ticks w)), w1)" "held env w1 = held env w" "tw_store w1 = tw_store w"
    using clock_read by metis
  let ?p = "empty_patch\<lparr>pt_endedAt := Some (te_now env (tw_ticks w)), pt_lastError := le\<rparr>"
  have le: "bt_status u \<le> Canceled" by (rule live_to_terminal [OF False]) (simp add: terminal_iff)
  obtain c w2 where c: "patchStatusIfNotTerminal env s Canceled ?p w1 = (Inr (c, True), w2)"
      "c = apply_patch u (?p\<lparr>pt_status := Some Canceled\<rparr>) (te_now env (tw_ticks w1))"
      "held env w2 = (held env w1)(bt_taskId s \<mapsto> c)" "ok (tw_store w2)"
    by (rule status_patched [OF ops, of w1 s u Canceled ?p]) (use ok u le n in simp_all)
  obtain w3 where e: "emit env c EventCompleted (Some pl) w2 = (Inr (), w3)" "held env w3 = held env w2" "ok (tw_store w3)"
    using emit_held [OF ops c(4)] by metis
  have "cancel_after_stop env s le pl w = (Inr c, w3)"
    unfolding cancel_after_stop_def
    using u False by (simp add: andThen_def store_get_held terminal_task_def n(1) c(1) e(1) ret_def)
  from that [OF this] show ?thesis using c(2,3) e by (simp add: terminal_iff default_def)
qed

lemma stop_returns:
  fixes env :: "'st task_env" and w :: "'st task_world"
  assumes ops: "te_ops env = ops" and ok: "ok (tw_store w)" and t: "held env w i = Some t" "i \<noteq> []"
    and vis: "isVisibleToContext (Some t) ctx" and free: "i \<notin> set (tw_stopping w)" and rt: "runtime_advances env (Some runtime)"
  obtains c w' where "stop_sv env (Some runtime) ctx i reason w = (Inr (Stopped c), w')" "isTerminalTaskStatus (bt_status c)"
    "held env w' i = Some c" "goes_on t c" "ok (tw_store w')"
proof -
  have id: "bt_taskId t = i" using get_id [OF ok] t(1) by (simp add: held_def ops)
  have get: "get_sv env ctx i w = (Inr (Some t), w)"
    unfolding get_sv_def using t vis by (simp add: andThen_Inr [OF store_get_held] ret_def)
  show ?thesis
  proof (cases "isTerminalTaskStatus (bt_status t)")
    case True
    show ?thesis by (rule that [of t w]) (use True t ok in \<open>simp_all add: stop_sv_def andThen_Inr [where m = "get_sv env ctx i", OF get] ret_def\<close>)
  next
    case False
    let ?w0 = "w\<lparr>tw_stopping := i # tw_stopping w\<rparr>"
    let ?p = "empty_patch\<lparr>pt_updatedAt := Some (te_now env (tw_ticks ?w0)), pt_lastError := reason_failure reason ''TASK_STOP_REQUESTED''\<rparr>"
    obtain w1 where n: "nowMs env ?w0 = (Inr (te_now env (tw_ticks ?w0)), w1)" "held env w1 = held env ?w0" "tw_store w1 = tw_store ?w0"
      using clock_read by metis
    obtain s w2 where s': "patchStatusIfNotTerminal env t Stopping ?p w1 = (Inr (s, True), w2)"
        "s = apply_patch t (?p\<lparr>pt_status := Some Stopping\<rparr>) (te_now env (tw_ticks w1))"
        "held env w2 = (held env w1)(bt_taskId t \<mapsto> s)" "ok (tw_store w2)"
      by (rule status_patched [OF ops, of w1 t t Stopping ?p]) (use ok t id live_to_stopping [OF False] n in simp_all)
    have s: "patchStatusIfNotTerminal env t Stopping ?p w1 = (Inr (s, True), w2)" "bt_taskId s = i"
        "held env w2 i = Some s" "ok (tw_store w2)"
      using s' id by simp_all
    obtain w3 where e: "emit env s EventStopRequested (Some [(''reason'', reason_js reason)]) w2 = (Inr (), w3)"
        "held env w3 = held env w2" "ok (tw_store w3)"
      using emit_held [OF ops s(4)] by metis
    obtain r w4 where run: "runtime s reason w3 = (r, w4)" by (cases "runtime s reason w3")
    have "advances env ok (runtime s reason)" using rt by (simp add: runtime_advances_def)
    from advancesD [OF this e(3) run] obtain u where
      u: "ok (tw_store w4)" "held env w4 (bt_taskId s) = Some u"
      unfolding progress_def by (metis e(2) no_task_lostD s(2,3))
    define after where "after = (case r of
        Inr _ \<Rightarrow> cancel_after_stop env s (reason_failure reason ''TASK_CANCELED'') (status_payload Canceled)
      | Inl e \<Rightarrow> cancel_after_stop env s (Some (normalizeTaskError e ''TASK_STOP_FAILED''))
          (status_payload Canceled @ [(''stopFailed'', JBool True)]))"
    have "\<exists>le pl. after = cancel_after_stop env s le pl" unfolding after_def by (cases r) auto
    then obtain c w5 where c: "after w4 = (Inr c, w5)" "isTerminalTaskStatus (bt_status c)" "held env w5 i = Some c" "ok (tw_store w5)"
      using cancel_returns [OF ops u] s(2) by metis
    have inner: "tryCatch (andThen (runtime s reason) (\<lambda>_. cancel_after_stop env s (reason_failure reason ''TASK_CANCELED'') (status_payload Canceled)))
        (\<lambda>e. cancel_after_stop env s (Some (normalizeTaskError e ''TASK_STOP_FAILED''))
          (status_payload Canceled @ [(''stopFailed'', JBool True)])) w3 = (Inr c, w5)"
      using c(1) by (cases r) (simp_all add: after_def tryCatch_def andThen_def run)
    have "performStop env (Some runtime) t reason ?w0 = (Inr c, w5)"
      unfolding performStop_def using inner s(1) n(1) e(1) by (simp add: andThen_Inr)
    then have stop: "stop_sv env (Some runtime) ctx i reason w =
        (Inr (Stopped c), w5\<lparr>tw_stopping := removeAll i (tw_stopping w5)\<rparr>)"
      unfolding stop_sv_def using False free by (simp add: andThen_Inr [where m = "get_sv env ctx i", OF get] andThen_Inr ret_def)
    have "advances env ok (stop_sv env (Some runtime) ctx i reason)" by (rule advances_stop [OF ops rt])
    from advancesD(2) [OF this ok stop] c(3) t(1) have "goes_on t c"
      unfolding progress_def by (auto dest: no_task_lostD)
    then show ?thesis using that [OF stop c(2)] c(3,4) by simp
  qed
qed

end

section \<open>The service of the local runtime\<close>

definition local_env ::
  "query_plan \<Rightarrow> (nat \<Rightarrow> int) \<Rightarrow> (nat \<Rightarrow> string) \<Rightarrow> runtime_owner option \<Rightarrow> task_db task_env" where
  "local_env plan now eid owner =
     \<lparr>te_ops = db_ops, te_snapshotPending = snapshotPending plan, te_now = now, te_eventId = eid, te_owner = owner\<rparr>"

lemma local_env_simps [simp]:
  "te_ops (local_env plan now eid owner) = db_ops"
  "te_snapshotPending (local_env plan now eid owner) = snapshotPending plan"
  "te_now (local_env plan now eid owner) = now" "te_owner (local_env plan now eid owner) = owner"
  by (simp_all add: local_env_def)

lemma held_local: "held (local_env plan now eid owner) w i = getInDb i (tw_store w)"
  by (simp add: held_def db_ops_def)

lemma local_progress:
  assumes "db_ok (tw_store w)"
  shows "db_ok (tw_store (run_calls (local_env plan now eid owner) cs w))"
    "progress (local_env plan now eid owner) w (run_calls (local_env plan now eid owner) cs w)"
  using db.run_kept(2) [of "local_env plan now eid owner" w cs] assms by simp_all

definition demo_world :: "task_db task_world" where
  "demo_world = \<lparr>tw_store = demo_db, tw_output = \<lparr>fo_dataDir = ''d'', fo_logs = (\<lambda>_. None), fo_summaries = (\<lambda>_. None)\<rparr>,
     tw_ticks = 0, tw_terminal = [], tw_woken = [], tw_stopping = [], tw_scheduled = [],
     tw_recovery = \<lparr>sr_watched = [], sr_createdBefore = None, sr_recoveredTurns = []\<rparr>\<rparr>"

lemma demo_world_store [simp]: "tw_store demo_world = demo_db" "tw_stopping demo_world = []" "tw_terminal demo_world = []"
  by (simp_all add: demo_world_def)

lemma demo_tasks:
  "getInDb ''a'' demo_db = Some (demo_task ''a'' Running 1)" "getInDb ''b'' demo_db = Some (demo_task ''b'' Canceled 2)"
  by (simp_all add: find_row_ok(2) [OF demo_db_ok] get_task_def abs_db_def demo_db_tasks demo_task_def)

abbreviation demo_local :: "task_db task_env" where
  "demo_local \<equiv> local_env (\<lambda>rows. rows) int (\<lambda>_. ''event'') None"

text \<open>C4: Whatever calls reach the task service, with whatever calls nested in the runtimes that stops wait for, no
  task is lost: a task keeps its id, kind, owner and creation time, its status only moves along the
  transitions of the status table, and a task that is terminal keeps its status for good.\<close>

theorem tasks_only_advance:
  assumes "db_ok (tw_store w)" "getInDb i (tw_store w) = Some t"
  shows "\<exists>t'. getInDb i (tw_store (run_calls (local_env plan now eid owner) calls w)) = Some t' \<and>
    bt_taskId t' = bt_taskId t \<and> bt_kind t' = bt_kind t \<and> bt_ownerSessionId t' = bt_ownerSessionId t \<and>
    bt_createdAt t' = bt_createdAt t \<and> canTransitionTaskStatus (bt_status t) (bt_status t') \<and>
    (isTerminalTaskStatus (bt_status t) \<longrightarrow> bt_status t' = bt_status t)"
proof -
  obtain t' where t': "getInDb i (tw_store (run_calls (local_env plan now eid owner) calls w)) = Some t'" "goes_on t t'"
    using local_progress(2) [OF assms(1), of plan now eid owner calls] assms(2)
    by (auto simp: progress_def held_local dest: no_task_lostD)
  show ?thesis
    using t' terminal_final by (auto simp: goes_on_def identity_def less_eq_task_status_def)
qed

theorem tasks_only_advance_witness:
  "\<exists>t'. getInDb ''b'' (tw_store (run_calls demo_local
      [CallStop None ''a'' None [CallPatch ''b'' (empty_patch\<lparr>pt_status := Some Running\<rparr>)] None] demo_world)) = Some t' \<and>
    bt_status t' = Canceled"
proof -
  have "getInDb ''b'' (tw_store demo_world) = Some (demo_task ''b'' Canceled 2)" by (simp add: demo_tasks)
  from tasks_only_advance [OF _ this, of "\<lambda>rows. rows" int "\<lambda>_. ''event''" None
      "[CallStop None ''a'' None [CallPatch ''b'' (empty_patch\<lparr>pt_status := Some Running\<rparr>)] None]"]
  obtain t' where "getInDb ''b'' (tw_store (run_calls demo_local
      [CallStop None ''a'' None [CallPatch ''b'' (empty_patch\<lparr>pt_status := Some Running\<rparr>)] None] demo_world)) = Some t'"
    "isTerminalTaskStatus (bt_status (demo_task ''b'' Canceled 2)) \<longrightarrow> bt_status t' = bt_status (demo_task ''b'' Canceled 2)"
    using demo_db_ok by auto
  then show ?thesis by (simp add: demo_task_def terminal_iff)
qed

text \<open>C36: No terminal outcome skips the wake: whatever calls reach the service, a task that was live before them and is
  terminal after them has been handed to \<open>onTerminal\<close> in between with its owner and its final status, and
  notifications already sent are kept.\<close>

theorem terminal_outcome_wakes:
  assumes "db_ok (tw_store w)" "getInDb i (tw_store w) = Some t" "\<not> isTerminalTaskStatus (bt_status t)"
    and "getInDb i (tw_store (run_calls (local_env plan now eid owner) calls w)) = Some t'"
    and "isTerminalTaskStatus (bt_status t')"
  shows "\<exists>sent. tw_terminal (run_calls (local_env plan now eid owner) calls w) = tw_terminal w @ sent \<and>
    (i, bt_ownerSessionId t', bt_status t') \<in> set sent"
  using local_progress(2) [OF assms(1), of plan now eid owner calls] assms(2-)
  by (force simp: progress_def wakes_def held_local)

lemma demo_stop:
  obtains c where "getInDb ''a'' (tw_store (run_calls demo_local [CallStop None ''a'' None [] None] demo_world)) = Some c"
    "isTerminalTaskStatus (bt_status c)" "bt_ownerSessionId c = ''owner''"
proof -
  have rt: "db.runtime_advances demo_local (Some (runtime_of (run_calls demo_local []) None))"
    by (rule db.runtime_keeps, rule db.run_keeps) simp
  have held: "held demo_local v j = getInDb j (tw_store v)" for v j by (simp add: held_local)
  have a: "held demo_local demo_world ''a'' = Some (demo_task ''a'' Running 1)" by (simp add: held demo_tasks)
  obtain c w' where "stop_sv demo_local (Some (runtime_of (run_calls demo_local []) None)) None ''a'' None demo_world = (Inr (Stopped c), w')"
      "isTerminalTaskStatus (bt_status c)" "held demo_local w' ''a'' = Some c" "goes_on (demo_task ''a'' Running 1) c"
    by (rule db.stop_returns [OF _ _ a _ _ _ rt, of None None])
      (simp_all add: isVisibleToContext_def demo_db_ok)
  then show ?thesis using that by (simp add: discard_def held goes_on_def identity_def demo_task_def)
qed

theorem terminal_outcome_wakes_witness:
  "\<exists>s sent. tw_terminal (run_calls demo_local [CallStop None ''a'' None [] None] demo_world) = sent \<and>
     (''a'', ''owner'', s) \<in> set sent \<and> isTerminalTaskStatus s"
proof -
  obtain c where c: "getInDb ''a'' (tw_store (run_calls demo_local [CallStop None ''a'' None [] None] demo_world)) = Some c"
    "isTerminalTaskStatus (bt_status c)" "bt_ownerSessionId c = ''owner''" by (rule demo_stop)
  have "getInDb ''a'' (tw_store demo_world) = Some (demo_task ''a'' Running 1)" by (simp add: demo_tasks)
  from terminal_outcome_wakes [OF _ this _ c(1,2)] show ?thesis
    using c(2,3) demo_db_ok by (simp add: demo_task_def terminal_iff del: run_calls.simps) blast
qed

text \<open>C7: Stopping settles a task: the stop of a visible task that no other stop holds returns, whatever the runtime of
  the task does meanwhile through the service and whether it fails or not, and returns a terminal task that is
  the one stored, the same task as before; a task that was terminal is returned as it was.\<close>

theorem stop_settles:
  fixes plan now eid owner during failure
  defines "env \<equiv> local_env plan now eid owner"
  defines "runtime \<equiv> runtime_of (run_calls env during) failure"
  assumes "db_ok (tw_store w)" "getInDb i (tw_store w) = Some t" "i \<noteq> []" "isVisibleToContext (Some t) ctx"
    and "i \<notin> set (tw_stopping w)"
  shows "\<exists>t' w'. stop_sv env (Some runtime) ctx i reason w = (Inr (Stopped t'), w') \<and>
    isTerminalTaskStatus (bt_status t') \<and> getInDb i (tw_store w') = Some t' \<and> identity t' = identity t \<and>
    (isTerminalTaskStatus (bt_status t) \<longrightarrow> t' = t)"
proof -
  have ops: "te_ops env = db_ops" by (simp add: env_def)
  have held: "held env v j = getInDb j (tw_store v)" for v j by (simp add: env_def held_local)
  have rt: "db.runtime_advances env (Some runtime)"
    unfolding runtime_def by (rule db.runtime_keeps, rule db.run_keeps [OF ops])
  have t: "held env w i = Some t" using assms(4) by (simp add: held)
  obtain t' w' where *: "stop_sv env (Some runtime) ctx i reason w = (Inr (Stopped t'), w')"
      "isTerminalTaskStatus (bt_status t')" "held env w' i = Some t'" "goes_on t t'"
    using db.stop_returns [OF ops assms(3) t assms(5-7) rt] by metis
  have "t' = t" if "isTerminalTaskStatus (bt_status t)"
    using *(1) that assms(5,6) t by (simp add: stop_sv_def get_sv_def andThen_def store_get_held ret_def split: if_splits)
  then show ?thesis using * by (auto simp: held goes_on_def)
qed

theorem stop_settles_witness:
  "\<exists>t' w'. stop_sv demo_local (Some (runtime_of (run_calls demo_local
        [CallTerminal ''a'' (RunResult \<lparr>rn_status = RunSucceeded, rn_finalText = None, rn_errorMessage = None\<rparr>) Schedule])
        (Some (ThrownError ''gone'' None)))) None ''a'' (Some ''user'') demo_world = (Inr (Stopped t'), w') \<and>
     isTerminalTaskStatus (bt_status t') \<and> getInDb ''a'' (tw_store w') = Some t'"
proof -
  have "getInDb ''a'' (tw_store demo_world) = Some (demo_task ''a'' Running 1)" by (simp add: demo_tasks)
  from stop_settles [OF _ this, of None "\<lambda>rows. rows" int "\<lambda>_. ''event''" None
      "[CallTerminal ''a'' (RunResult \<lparr>rn_status = RunSucceeded, rn_finalText = None, rn_errorMessage = None\<rparr>) Schedule]"
      "Some (ThrownError ''gone'' None)" "Some ''user''"]
  show ?thesis using demo_db_ok by (auto simp: isVisibleToContext_def)
qed

end
