(* ===== verification/TaskResults.thy ===== *)
theory TaskResults
  imports TaskProps
begin

text \<open>
  Results of tasks: a late result of a task that has already ended, and the delivery latch.
\<close>

section \<open>How the operations return\<close>

text \<open>What a patch that sets neither status, end nor error keeps of a task.\<close>

definition same_outcome :: "background_task \<Rightarrow> background_task \<Rightarrow> bool" where
  "same_outcome t u \<longleftrightarrow> identity u = identity t \<and> bt_status u = bt_status t \<and> bt_endedAt u = bt_endedAt t \<and>
     bt_lastError u = bt_lastError t \<and> bt_deliveredAt u = bt_deliveredAt t"

definition announcement :: "string \<Rightarrow> background_task \<Rightarrow> task_status option \<Rightarrow> (string \<times> string \<times> task_status) list" where
  "announcement i t s = (case s of Some s \<Rightarrow> if isTerminalTaskStatus s then [(i, bt_ownerSessionId t, s)] else [] | None \<Rightarrow> [])"

context task_store
begin

lemma patch_sv_returns:
  fixes env :: "'st task_env" and w :: "'st task_world"
  assumes ops: "te_ops env = ops" and ok: "ok (tw_store w)" and t: "held env w i = Some t" and legal: "patch_legal t p"
  obtains n w' where "patch_sv env i p w = (Inr (apply_patch t p n), w')" "held env w' = (held env w)(i \<mapsto> apply_patch t p n)"
    "ok (tw_store w')" "tw_terminal w' = tw_terminal w @ announcement i t (pt_status p)"
proof -
  have id: "bt_taskId t = i" using get_id [OF ok] t by (simp add: held_def ops)
  define n where "n = te_now env (tw_ticks w)"
  define c where "c = apply_patch t p n"
  obtain w1 where w1: "store_patch env i p w = (Inr c, w1)" "held env w1 = (held env w)(i \<mapsto> c)" "ok (tw_store w1)"
      "tw_terminal w1 = tw_terminal w"
    using patch_returns [OF ops ok t legal] unfolding c_def n_def by metis
  show ?thesis
  proof (cases "pt_status p")
    case None
    show ?thesis
      by (rule that [of n w1]) (use w1 None in \<open>simp_all add: patch_sv_def andThen_def ret_def announcement_def c_def\<close>)
  next
    case (Some s)
    let ?kind = "if isTerminalTaskStatus s then EventCompleted else EventStatusChanged"
    obtain w2 where w2: "emit env c ?kind (Some (status_payload s)) w1 = (Inr (), w2)" "held env w2 = held env w1"
        "ok (tw_store w2)" "tw_terminal w2 = tw_terminal w1 @ (if ?kind = EventCompleted \<and> isTerminalTaskStatus (bt_status c)
          then [(bt_taskId c, bt_ownerSessionId c, bt_status c)] else [])"
      by (rule emit_held [OF ops w1(3)])
    have run: "patch_sv env i p w = (Inr c, w2)"
      unfolding patch_sv_def by (simp add: andThen_def ret_def w1(1) Some w2(1))
    have "bt_status c = s" "bt_taskId c = i" "bt_ownerSessionId c = bt_ownerSessionId t"
      by (simp_all add: c_def Some default_def id)
    then have "tw_terminal w2 = tw_terminal w @ announcement i t (pt_status p)"
      unfolding w2(4) w1(4) by (simp add: announcement_def Some)
    with run w1(2) w2(2,3) show ?thesis using that [of n w2] unfolding c_def by simp
  qed
qed

lemma patch_sv_refused:
  fixes env :: "'st task_env" and w :: "'st task_world"
  assumes ops: "te_ops env = ops" and ok: "ok (tw_store w)" and t: "held env w i = Some t" and illegal: "\<not> patch_legal t p"
  obtains w' where "patch_sv env i p w = (Inl (patch_error i (Some t) p), w')" "held env w' = held env w"
    "ok (tw_store w')" "tw_terminal w' = tw_terminal w"
proof -
  obtain r w1 where one: "store_patch env i p w = (r, w1)" by (cases "store_patch env i p w")
  note pa = patch_advances [OF ops ok one]
  show ?thesis
  proof (cases r)
    case (Inl e)
    show ?thesis
      by (rule that [of w1]) (use one pa pa(5) [OF Inl] t Inl in \<open>simp_all add: patch_sv_def andThen_def\<close>)
  next
    case (Inr c)
    then show ?thesis using pa(4) [OF Inr] t illegal by auto
  qed
qed

lemma patchIfNotTerminal_done:
  fixes env :: "'st task_env" and w :: "'st task_world"
  assumes ops: "te_ops env = ops" and ok: "ok (tw_store w)" and t: "held env w i = Some t" and legal: "patch_legal t p"
  obtains n w' where "patchIfNotTerminal env i p w = (Inr (apply_patch t p n, True), w')"
    "held env w' = (held env w)(i \<mapsto> apply_patch t p n)"
    "ok (tw_store w')" "tw_terminal w' = tw_terminal w @ announcement i t (pt_status p)"
proof -
  obtain n w' where "patch_sv env i p w = (Inr (apply_patch t p n), w')" "held env w' = (held env w)(i \<mapsto> apply_patch t p n)"
    "ok (tw_store w')" "tw_terminal w' = tw_terminal w @ announcement i t (pt_status p)"
    using patch_sv_returns [OF ops ok t legal] by metis
  then show ?thesis
    by (intro that) (simp_all add: patchIfNotTerminal_def ifNotTerminal_def tryCatch_def andThen_def ret_def)
qed

lemma patchIfNotTerminal_kept:
  fixes env :: "'st task_env" and w :: "'st task_world"
  assumes ops: "te_ops env = ops" and ok: "ok (tw_store w)" and t: "held env w i = Some t"
    and illegal: "\<not> patch_legal t p" and terminal: "isTerminalTaskStatus (bt_status t)"
  obtains w' where "patchIfNotTerminal env i p w = (Inr (t, False), w')" "held env w' = held env w"
    "ok (tw_store w')" "tw_terminal w' = tw_terminal w"
proof -
  obtain w' where w': "patch_sv env i p w = (Inl (patch_error i (Some t) p), w')" "held env w' = held env w"
    "ok (tw_store w')" "tw_terminal w' = tw_terminal w"
    using patch_sv_refused [OF ops ok t illegal] by metis
  show ?thesis
    by (rule that [OF _ w'(2-4)])
      (use w' t terminal in \<open>simp add: patchIfNotTerminal_def ifNotTerminal_def tryCatch_def andThen_def ret_def
        getTerminalAfterInvalidTransition_def is_invalid_transition_def patch_error_def store_get_held\<close>)
qed

lemma append_returns:
  fixes env :: "'st task_env" and w :: "'st task_world"
  assumes ops: "te_ops env = ops" and ok: "ok (tw_store w)" and t: "held env w (oc_taskId chunk) = Some t"
    and valid: "valid_task_id (oc_taskId chunk)"
  obtains oref u w' where "appendOutput env chunk w = (Inr oref, w')" "held env w' = (held env w)(oc_taskId chunk \<mapsto> u)"
    "same_outcome t u" "ok (tw_store w')" "tw_terminal w' = tw_terminal w"
proof -
  let ?i = "oc_taskId chunk"
  obtain w1 where w1: "nowMs env w = (Inr (te_now env (tw_ticks w)), w1)" "held env w1 = held env w" "tw_store w1 = tw_store w"
      "tw_terminal w1 = tw_terminal w" "tw_output w1 = tw_output w" using clock_read by metis
  obtain oref out where out: "append_file chunk (te_now env (tw_ticks w)) (tw_output w1) = Inr (oref, out)"
    using valid by (simp add: append_file_def outputFile_def taskDir_def Let_def rbind_def)
  define w2 where "w2 = w1\<lparr>tw_output := out\<rparr>"
  obtain n w3 where w3: "nowMs env w2 = (Inr n, w3)" "held env w3 = held env w2" "tw_store w3 = tw_store w2"
      "tw_terminal w3 = tw_terminal w2" using clock_read by metis
  define p where "p = empty_patch\<lparr>pt_outputRef := Some oref, pt_updatedAt := Some (default n (oc_timestamp chunk))\<rparr>"
  have legal: "patch_legal t p" by (simp add: p_def patch_legal_def empty_patch_def)
  have at3: "held env w3 ?i = Some t" "ok (tw_store w3)" using t ok w1 w3 by (simp_all add: w2_def)
  define u where "u = apply_patch t p (te_now env (tw_ticks w3))"
  obtain w4 where w4: "store_patch env ?i p w3 = (Inr u, w4)" "held env w4 = (held env w3)(?i \<mapsto> u)" "ok (tw_store w4)"
      "tw_terminal w4 = tw_terminal w3"
    unfolding u_def using patch_returns [OF ops at3(2,1) legal] by metis
  obtain w5 where w5: "emit env u EventOutputUpdated (Some [(''outputRef'', output_ref_js oref)]) w4 = (Inr (), w5)"
      "held env w5 = held env w4" "ok (tw_store w5)" "tw_terminal w5 = tw_terminal w4"
    by (rule emit_held [OF ops w4(3), of u EventOutputUpdated]) simp
  have "appendOutput env chunk w = (Inr oref, w5)"
    unfolding appendOutput_def
    by (simp add: andThen_def w1(1) out w2_def [symmetric] w3(1) p_def [symmetric] w4(1) w5(1) ret_def)
  moreover have "same_outcome t u" by (simp add: same_outcome_def u_def p_def identity_def empty_patch_def default_def)
  ultimately show ?thesis using that w1 w3 w4 w5 by (simp add: w2_def)
qed

text \<open>After the status is settled, the output is sealed and the delivery scheduled; neither fails nor touches a task.\<close>

lemma tail_run:
  obtains w' where "andThen (tryCatch (finalizeOutput env i summary) (\<lambda>_. ret ())) (\<lambda>_.
      andThen (if delivery = Schedule then scheduleDelivery j else ret ()) (\<lambda>_. ret c)) w = (Inr c, w')"
    "held env w' = held env w" "tw_store w' = tw_store w" "tw_terminal w' = tw_terminal w"
proof -
  obtain w1 where w1: "tryCatch (finalizeOutput env i summary) (\<lambda>_. ret ()) w = (Inr (), w1)"
      "tw_store w1 = tw_store w" "tw_terminal w1 = tw_terminal w"
    by (cases "finalize_file i summary (tw_output w)") (auto simp: tryCatch_def finalizeOutput_def ret_def)
  obtain w2 where w2: "(if delivery = Schedule then scheduleDelivery j else ret ()) w1 = (Inr (), w2)"
      "tw_store w2 = tw_store w1" "tw_terminal w2 = tw_terminal w1"
    by (cases "delivery = Schedule") (auto simp: scheduleDelivery_def ret_def)
  show ?thesis
  proof (rule that)
    show "andThen (tryCatch (finalizeOutput env i summary) (\<lambda>_. ret ())) (\<lambda>_.
        andThen (if delivery = Schedule then scheduleDelivery j else ret ()) (\<lambda>_. ret c)) w = (Inr c, w2)"
      using w1(1) w2(1) by (simp add: andThen_def ret_def)
    show "tw_store w2 = tw_store w" "tw_terminal w2 = tw_terminal w" using w1 w2 by simp_all
    then show "held env w2 = held env w" by (intro held_cong)
  qed
qed

lemma late_result:
  fixes env :: "'st task_env" and w :: "'st task_world"
  assumes ops: "te_ops env = ops" and ok: "ok (tw_store w)" and t: "held env w i = Some t"
    and terminal: "isTerminalTaskStatus (bt_status t)" and valid: "valid_task_id i"
  obtains c w' where "persistLocalSubagentTaskTerminal env i outcome delivery w = (Inr c, w')" "held env w' i = Some c"
    "identity c = identity t" "bt_status c = bt_status t"
    "if tj_status (toTerminalProjection outcome) = bt_status t
     then bt_endedAt c = Some (te_now env (tw_ticks w)) \<and>
       bt_lastError c = over (bt_lastError t) (tj_lastError (toTerminalProjection outcome)) \<and>
       tw_terminal w' = tw_terminal w @ [(i, bt_ownerSessionId t, bt_status t)]
     else bt_endedAt c = Some (default (te_now env (tw_ticks w)) (bt_endedAt t)) \<and> bt_lastError c = bt_lastError t \<and>
       tw_terminal w' = tw_terminal w"
proof -
  let ?n = "te_now env (tw_ticks w)" and ?tj = "toTerminalProjection outcome"
  let ?s = "tj_status ?tj"
  obtain w1 where w1: "nowMs env w = (Inr ?n, w1)" "held env w1 = held env w" "tw_store w1 = tw_store w"
      "tw_terminal w1 = tw_terminal w" using clock_read by metis
  let ?chunk = "\<lparr>oc_taskId = i, oc_stream = Some FinalResult, oc_content = tj_outputText ?tj, oc_offset = None,
      oc_timestamp = Some ?n, oc_metadata = None\<rparr>"
  obtain oref u w2 where w2: "appendOutput env ?chunk w1 = (Inr oref, w2)" "held env w2 = (held env w1)(i \<mapsto> u)"
      "same_outcome t u" "ok (tw_store w2)" "tw_terminal w2 = tw_terminal w1"
    by (rule append_returns [OF ops, of w1 ?chunk t]) (use ok w1 t valid in simp_all)
  have u: "held env w2 i = Some u" "isTerminalTaskStatus (bt_status u)" "bt_status u = bt_status t"
      "identity u = identity t" "bt_endedAt u = bt_endedAt t" "bt_lastError u = bt_lastError t"
      "bt_ownerSessionId u = bt_ownerSessionId t"
    using w2(2,3) terminal by (simp_all add: same_outcome_def identity_def)
  define p where "p = empty_patch\<lparr>pt_status := Some ?s, pt_endedAt := Some ?n, pt_outputRef := Some oref,
      pt_lastError := tj_lastError ?tj, pt_deliveredAt := (if delivery = AlreadyDelivered then Some ?n else None)\<rparr>"
  have p: "pt_status p = Some ?s" "pt_endedAt p = Some ?n" "pt_lastError p = tj_lastError ?tj" "pt_cleared p = []" by (simp_all add: p_def)
  note run = persistLocalSubagentTaskTerminal_def [of env i outcome delivery, unfolded Let_def]
  show ?thesis
  proof (cases "?s = bt_status t")
    case True
    have legal: "patch_legal u p" using True u(3) by (simp add: patch_legal_def p)
    obtain m w3 where w3: "patchIfNotTerminal env i p w2 = (Inr (apply_patch u p m, True), w3)"
        "held env w3 = (held env w2)(i \<mapsto> apply_patch u p m)" "ok (tw_store w3)"
        "tw_terminal w3 = tw_terminal w2 @ announcement i u (pt_status p)"
      by (rule patchIfNotTerminal_done [OF ops w2(4) u(1) legal])
    obtain w4 where w4: "andThen (tryCatch (finalizeOutput env i (tj_summary ?tj)) (\<lambda>_. ret ())) (\<lambda>_.
        andThen (if delivery = Schedule then scheduleDelivery (bt_taskId (apply_patch u p m)) else ret ())
          (\<lambda>_. ret (apply_patch u p m))) w3 = (Inr (apply_patch u p m), w4)"
        "held env w4 = held env w3" "tw_terminal w4 = tw_terminal w3"
      by (rule tail_run)
    have "persistLocalSubagentTaskTerminal env i outcome delivery w = (Inr (apply_patch u p m), w4)"
      unfolding run andThen_Inr [where m = "nowMs env", OF w1(1)] andThen_Inr [where m = "appendOutput env ?chunk", OF w2(1)] p_def [symmetric] andThen_Inr [where m = "patchIfNotTerminal env i p", OF w3(1)]
      using w4(1) by (simp add: andThen_Inr [where m = "ret _", OF ret_def])
    then show ?thesis
      by (rule that) (use w1 w2 w3 w4 u p True terminal in \<open>simp_all add: announcement_def identity_def default_def\<close>)
  next
    case False
    have illegal: "\<not> patch_legal u p" using False terminal_final [OF u(2)] u(3) by (simp add: patch_legal_def p)
    obtain w3 where w3: "patchIfNotTerminal env i p w2 = (Inr (u, False), w3)" "held env w3 = held env w2" "ok (tw_store w3)"
        "tw_terminal w3 = tw_terminal w2"
      by (rule patchIfNotTerminal_kept [OF ops w2(4) u(1) illegal u(2)])
    define q where "q = empty_patch\<lparr>pt_outputRef := Some oref, pt_endedAt := Some (default ?n (bt_endedAt u)),
        pt_deliveredAt := (if delivery = AlreadyDelivered \<and> bt_deliveredAt u = None then Some ?n else None)\<rparr>"
    have q: "pt_status q = None" "pt_endedAt q = Some (default ?n (bt_endedAt u))" "pt_lastError q = None" "pt_cleared q = []"
      by (simp_all add: q_def empty_patch_def)
    have u3: "held env w3 i = Some u" using u(1) w3(2) by simp
    have i: "i \<noteq> []" using valid by (simp add: valid_task_id_def)
    have legal: "patch_legal u q" by (simp add: patch_legal_def q)
    obtain m w4 where w4: "patch_sv env i q w3 = (Inr (apply_patch u q m), w4)"
        "held env w4 = (held env w3)(i \<mapsto> apply_patch u q m)" "tw_terminal w4 = tw_terminal w3 @ announcement i u (pt_status q)"
      by (rule patch_sv_returns [OF ops w3(3) u3 legal])
    have get: "get_sv env None i w3 = (Inr (Some u), w3)"
      unfolding get_sv_def using i u3 by (simp add: andThen_Inr [OF store_get_held] ret_def isVisibleToContext_def)
    have fill: "patchTerminalTaskOutput env i oref delivery ?n w3 = (Inr (Some (apply_patch u q m)), w4)"
      unfolding patchTerminalTaskOutput_def andThen_Inr [where m = "get_sv env None i", OF get]
      using w4(1) u(2) by (simp add: q_def [symmetric] andThen_def ret_def)
    obtain w5 where w5: "andThen (tryCatch (finalizeOutput env i (tj_summary ?tj)) (\<lambda>_. ret ())) (\<lambda>_.
        andThen (if delivery = Schedule then scheduleDelivery (bt_taskId (apply_patch u q m)) else ret ())
          (\<lambda>_. ret (apply_patch u q m))) w4 = (Inr (apply_patch u q m), w5)"
        "held env w5 = held env w4" "tw_terminal w5 = tw_terminal w4"
      by (rule tail_run)
    have filled: "andThen (patchTerminalTaskOutput env i oref delivery ?n) (\<lambda>t. ret (default u t)) w3 = (Inr (apply_patch u q m), w4)"
      using fill by (simp add: andThen_def ret_def default_def)
    have "persistLocalSubagentTaskTerminal env i outcome delivery w = (Inr (apply_patch u q m), w5)"
      unfolding run andThen_Inr [where m = "nowMs env", OF w1(1)] andThen_Inr [where m = "appendOutput env ?chunk", OF w2(1)] p_def [symmetric] andThen_Inr [where m = "patchIfNotTerminal env i p", OF w3(1)]
      using w5(1) filled by (simp add: andThen_Inr)
    then show ?thesis
      by (rule that) (use w1 w2 w3 w4 w5 u q False in \<open>simp_all add: announcement_def identity_def default_def\<close>)
  qed
qed

end

section \<open>A late result\<close>

text \<open>C38: A late result of a task that has already ended keeps its status. A result with another status only fills in
  the output and a missing end, but one with the same status, such as the abort that a stop has caused,
  passes as a transition to itself: it replaces the end and the error of the stop and
  announces the task a second time.\<close>

theorem late_result_same_status_overwrites:
  fixes plan now eid owner outcome
  defines "env \<equiv> local_env plan now eid owner"
  defines "late \<equiv> toTerminalProjection outcome"
  assumes "db_ok (tw_store w)" "getInDb i (tw_store w) = Some t" "isTerminalTaskStatus (bt_status t)" "valid_task_id i"
  shows "\<exists>t' w'. persistLocalSubagentTaskTerminal env i outcome delivery w = (Inr t', w') \<and>
    getInDb i (tw_store w') = Some t' \<and> identity t' = identity t \<and> bt_status t' = bt_status t \<and>
    (if tj_status late = bt_status t
     then bt_endedAt t' = Some (now (tw_ticks w)) \<and> bt_lastError t' = over (bt_lastError t) (tj_lastError late) \<and>
       tw_terminal w' = tw_terminal w @ [(i, bt_ownerSessionId t, bt_status t)]
     else bt_endedAt t' = Some (default (now (tw_ticks w)) (bt_endedAt t)) \<and> bt_lastError t' = bt_lastError t \<and>
       tw_terminal w' = tw_terminal w)"
proof -
  have ops: "te_ops env = db_ops" and now: "te_now env = now" by (simp_all add: env_def)
  have t: "held env w i = Some t" using assms(4) by (simp add: env_def held_local)
  obtain c w' where "persistLocalSubagentTaskTerminal env i outcome delivery w = (Inr c, w')" "held env w' i = Some c"
    "identity c = identity t" "bt_status c = bt_status t"
    "if tj_status late = bt_status t
     then bt_endedAt c = Some (now (tw_ticks w)) \<and> bt_lastError c = over (bt_lastError t) (tj_lastError late) \<and>
       tw_terminal w' = tw_terminal w @ [(i, bt_ownerSessionId t, bt_status t)]
     else bt_endedAt c = Some (default (now (tw_ticks w)) (bt_endedAt t)) \<and> bt_lastError c = bt_lastError t \<and>
       tw_terminal w' = tw_terminal w"
    by (rule db.late_result [OF ops assms(3) t assms(5,6), of outcome delivery, folded late_def, unfolded now])
  then show ?thesis by (auto simp: env_def held_local)
qed

definition stopped_world :: "task_db task_world" where
  "stopped_world = demo_world\<lparr>tw_terminal := [(''b'', ''owner'', Canceled)]\<rparr>"

theorem late_result_same_status_overwrites_witness:
  "\<exists>t' w'. persistLocalSubagentTaskTerminal demo_local ''b''
       (RunResult \<lparr>rn_status = RunAborted, rn_finalText = None, rn_errorMessage = None\<rparr>) AlreadyDelivered stopped_world =
         (Inr t', w') \<and>
     bt_lastError t' = Some \<lparr>tx_message = ''aborted'', tx_code = Some ''TASK_CANCELED'', tx_details = None\<rparr> \<and>
     tw_terminal w' = [(''b'', ''owner'', Canceled), (''b'', ''owner'', Canceled)]"
proof -
  have "getInDb ''b'' (tw_store stopped_world) = Some (demo_task ''b'' Canceled 2)" "db_ok (tw_store stopped_world)"
    by (simp_all add: demo_tasks stopped_world_def demo_db_ok)
  from late_result_same_status_overwrites [OF this(2,1), of "\<lambda>rows. rows" int "\<lambda>_. ''event''" None
      "RunResult \<lparr>rn_status = RunAborted, rn_finalText = None, rn_errorMessage = None\<rparr>" AlreadyDelivered]
  show ?thesis
    by (auto simp: demo_task_def terminal_iff valid_task_id_def toTerminalProjection_def Let_def default_def stopped_world_def
        less_eq_char_def is_digit_def)
qed

section \<open>The delivery latch\<close>

definition deliverable :: "string \<Rightarrow> background_task \<Rightarrow> bool" where
  "deliverable owner t \<longleftrightarrow> bt_ownerSessionId t = owner \<and> isTerminalTaskStatus (bt_status t)"

definition latched :: "int \<Rightarrow> background_task \<Rightarrow> background_task" where
  "latched at t = (if bt_deliveredAt t = None then t\<lparr>bt_deliveredAt := Some at, bt_updatedAt := at\<rparr> else t)"

lemma mergeRecord_None [simp]: "mergeRecord x None = x"
  by (cases x) (simp_all add: mergeRecord_def)

lemma latch_patch:
  "bt_deliveredAt t = None \<Longrightarrow>
   apply_patch t (empty_patch\<lparr>pt_deliveredAt := Some at, pt_updatedAt := Some at\<rparr>) n = latched at t"
  by (simp add: apply_patch_def empty_patch_def latched_def)

text \<open>The tasks that a call latches, in the map of tasks.\<close>

definition latch_all :: "string \<Rightarrow> int \<Rightarrow> string list \<Rightarrow> (string \<Rightarrow> background_task option) \<Rightarrow> string \<Rightarrow> background_task option" where
  "latch_all owner at is m i =
     (if i \<in> set is then map_option (\<lambda>t. if deliverable owner t then latched at t else t) (m i) else m i)"

definition delivered_of :: "string \<Rightarrow> string list \<Rightarrow> (string \<Rightarrow> background_task option) \<Rightarrow> background_task list" where
  "delivered_of owner is m = concat (map (\<lambda>i. case m i of Some t \<Rightarrow> if deliverable owner t then [t] else [] | None \<Rightarrow> []) is)"

lemma latched_twice [simp]: "latched a (latched b t) = latched b t"
  by (simp add: latched_def)

lemma deliverable_latched [simp]: "deliverable owner (latched at t) = deliverable owner t"
  by (simp add: deliverable_def latched_def)

lemma latch_all_simps [simp]:
  "latch_all owner at [] m = m"
  "m i = None \<Longrightarrow> latch_all owner at (i # is) m = latch_all owner at is m"
  "m i = Some t \<Longrightarrow> \<not> deliverable owner t \<Longrightarrow> latch_all owner at (i # is) m = latch_all owner at is m"
  "m i = Some t \<Longrightarrow> deliverable owner t \<Longrightarrow> latch_all owner at (i # is) m = latch_all owner at is (m(i \<mapsto> latched at t))"
  by (auto simp: latch_all_def fun_eq_iff)

lemma latch_all_at: "m i = Some t \<Longrightarrow> deliverable owner t \<Longrightarrow> latch_all owner at (i # is) m i = Some (latched at t)"
  by (simp add: latch_all_def)

lemma latch_all_twice: "latch_all owner a is (latch_all owner b is m) = latch_all owner b is m"
  by (auto simp: latch_all_def fun_eq_iff option.map_comp comp_def intro!: option.map_cong)

lemma delivered_of_Cons:
  "delivered_of owner (i # is) m =
     (case m i of Some t \<Rightarrow> if deliverable owner t then [t] else [] | None \<Rightarrow> []) @ delivered_of owner is m"
  by (simp add: delivered_of_def)

lemma not_deliverable_later: "m i = Some t \<Longrightarrow> \<not> deliverable owner t \<Longrightarrow> latch_all owner at is m i = Some t"
  by (simp add: latch_all_def)

context task_store
begin

lemma markDelivered_run:
  fixes env :: "'st task_env" and w :: "'st task_world"
  assumes ops: "te_ops env = ops" and ok: "ok (tw_store w)"
  shows "\<exists>w'. markDelivered_loop env owner at is d w = (Inr (d @ delivered_of owner is (held env w')), w') \<and>
    held env w' = latch_all owner at is (held env w) \<and> ok (tw_store w')"
  using ok
proof (induction "is" arbitrary: d w)
  case Nil
  then show ?case by (auto simp: ret_def delivered_of_def)
next
  case (Cons i "is")
  let ?p = "empty_patch\<lparr>pt_deliveredAt := Some at, pt_updatedAt := Some at\<rparr>"
  have step: "markDelivered_loop env owner at (i # is) d w = (case held env w i of
      None \<Rightarrow> markDelivered_loop env owner at is d w
    | Some t \<Rightarrow> if \<not> deliverable owner t then markDelivered_loop env owner at is d w
        else if bt_deliveredAt t \<noteq> None then markDelivered_loop env owner at is (d @ [t]) w
        else andThen (store_patch env i ?p) (\<lambda>t'. markDelivered_loop env owner at is (d @ [t'])) w)"
    by (simp add: andThen_Inr [OF store_get_held] deliverable_def split: option.split)
  show ?case
  proof (cases "held env w i")
    case None
    obtain w' where "markDelivered_loop env owner at is d w = (Inr (d @ delivered_of owner is (held env w')), w')"
      "held env w' = latch_all owner at is (held env w)" "ok (tw_store w')" using Cons.IH [OF Cons.prems] by blast
    moreover from this None have "held env w' i = None" by (simp add: latch_all_def)
    ultimately show ?thesis unfolding step None option.case latch_all_simps(2) [where m = "held env w", OF None]
      by (simp add: delivered_of_Cons)
  next
    case (Some t)
    consider (other) "\<not> deliverable owner t" | (before) "deliverable owner t" "bt_deliveredAt t \<noteq> None"
      | (latch) "deliverable owner t" "bt_deliveredAt t = None" by blast
    then show ?thesis
    proof cases
      case other
      obtain w' where "markDelivered_loop env owner at is d w = (Inr (d @ delivered_of owner is (held env w')), w')"
        "held env w' = latch_all owner at is (held env w)" "ok (tw_store w')" using Cons.IH [OF Cons.prems] by blast
      then show ?thesis using Some other step by (simp add: delivered_of_Cons not_deliverable_later)
    next
      case before
      then have [simp]: "latched at t = t" by (auto simp: latched_def)
      obtain w' where "markDelivered_loop env owner at is (d @ [t]) w =
          (Inr ((d @ [t]) @ delivered_of owner is (held env w')), w')"
        "held env w' = latch_all owner at is (held env w)" "ok (tw_store w')" using Cons.IH [OF Cons.prems] by blast
      moreover have "(held env w)(i \<mapsto> t) = held env w" using Some by auto
      ultimately show ?thesis using Some before step latch_all_at [of "held env w" i t owner "at" "is"]
        by (simp add: delivered_of_Cons)
    next
      case latch
      have legal: "patch_legal t ?p" by (simp add: patch_legal_def empty_patch_def)
      obtain w1 where w1: "store_patch env i ?p w = (Inr (latched at t), w1)"
          "held env w1 = (held env w)(i \<mapsto> latched at t)" "ok (tw_store w1)"
        using patch_returns [OF ops Cons.prems Some legal] unfolding latch_patch [OF latch(2)] by metis
      obtain w' where w': "markDelivered_loop env owner at is (d @ [latched at t]) w1 =
          (Inr ((d @ [latched at t]) @ delivered_of owner is (held env w')), w')"
        "held env w' = latch_all owner at is (held env w1)" "ok (tw_store w')" using Cons.IH [OF w1(3)] by blast
      have m: "held env w' = latch_all owner at (i # is) (held env w)" using w'(2) w1(2) Some latch by simp
      then have "held env w' i = Some (latched at t)" using latch_all_at [where m = "held env w", OF Some latch(1)] by simp
      moreover have "markDelivered_loop env owner at (i # is) d w = markDelivered_loop env owner at is (d @ [latched at t]) w1"
        using step Some latch w1(1) by (simp add: andThen_def)
      ultimately show ?thesis using w' m latch(1) by (simp add: delivered_of_Cons)
    qed
  qed
qed

end

text \<open>Marking tasks delivered latches exactly the listed tasks that belong to the Session, are terminal and were not
  delivered: those get the time of the call, every other task is untouched and no latch ever moves. The call
  returns the listed terminal tasks of the Session in the order asked, and a second call returns the same
  tasks and changes none.\<close>

theorem delivery_latches_once:
  fixes plan now eid rt
  defines "env \<equiv> local_env plan now eid rt"
  assumes "db_ok (tw_store w)"
  shows "\<exists>w'. markDelivered env owner is w = (Inr (delivered_of owner is (\<lambda>i. getInDb i (tw_store w'))), w') \<and>
    (\<forall>i. getInDb i (tw_store w') = latch_all owner (now (tw_ticks w)) is (\<lambda>i. getInDb i (tw_store w)) i) \<and>
    (\<exists>w''. markDelivered env owner is w' = (Inr (delivered_of owner is (\<lambda>i. getInDb i (tw_store w'))), w'') \<and>
       (\<forall>i. getInDb i (tw_store w'') = getInDb i (tw_store w')))"
proof -
  have ops: "te_ops env = db_ops" by (simp add: env_def)
  have held: "held env v = (\<lambda>j. getInDb j (tw_store v))" for v by (simp add: env_def held_local fun_eq_iff)
  have one: "\<exists>v'. markDelivered env owner is v = (Inr (delivered_of owner is (held env v')), v') \<and>
      held env v' = latch_all owner (now (tw_ticks v)) is (held env v) \<and> db_ok (tw_store v')"
    if ok: "db_ok (tw_store v)" for v
  proof -
    obtain v1 where v1: "nowMs env v = (Inr (now (tw_ticks v)), v1)" "held env v1 = held env v" "tw_store v1 = tw_store v"
      using clock_read [of env v] by (metis env_def local_env_simps(3))
    with ok db.markDelivered_run [OF ops, of v1 owner "now (tw_ticks v)" "is" "[]"] show ?thesis
      by (simp add: markDelivered_def andThen_Inr [where m = "nowMs env", OF v1(1)])
  qed
  obtain w' where w': "markDelivered env owner is w = (Inr (delivered_of owner is (held env w')), w')"
    "held env w' = latch_all owner (now (tw_ticks w)) is (held env w)" "db_ok (tw_store w')" using one [OF assms(2)] by blast
  obtain w'' where w'': "markDelivered env owner is w' = (Inr (delivered_of owner is (held env w'')), w'')"
    "held env w'' = latch_all owner (now (tw_ticks w')) is (held env w')" using one [OF w'(3)] by blast
  have "held env w'' = held env w'" using w''(2) w'(2) latch_all_twice by metis
  then show ?thesis using w' w'' by (auto simp: held fun_eq_iff)
qed

theorem delivery_latches_once_witness:
  "\<exists>w'. markDelivered demo_local ''owner'' [''a'', ''b'', ''c''] demo_world =
       (Inr [latched 0 (demo_task ''b'' Canceled 2)], w')"
proof -
  have c: "getInDb ''c'' demo_db = None"
    by (simp add: find_row_ok(2) [OF demo_db_ok] get_task_def abs_db_def demo_db_tasks demo_task_def)
  have "db_ok (tw_store demo_world)" by (simp add: demo_db_ok)
  from delivery_latches_once [OF this, of "\<lambda>rows. rows" int "\<lambda>_. ''event''" None "''owner''" "[''a'', ''b'', ''c'']"]
  obtain w' where w': "markDelivered demo_local ''owner'' [''a'', ''b'', ''c''] demo_world =
      (Inr (delivered_of ''owner'' [''a'', ''b'', ''c''] (\<lambda>i. getInDb i (tw_store w'))), w')"
    "\<And>i. getInDb i (tw_store w') = latch_all ''owner'' (int (tw_ticks demo_world)) [''a'', ''b'', ''c'']
      (\<lambda>i. getInDb i (tw_store demo_world)) i" by blast
  have "tw_ticks demo_world = 0" by (simp add: demo_world_def)
  then have "delivered_of ''owner'' [''a'', ''b'', ''c''] (\<lambda>i. getInDb i (tw_store w')) = [latched 0 (demo_task ''b'' Canceled 2)]"
    unfolding delivered_of_def w'(2)
    by (simp add: latch_all_def demo_tasks c) (simp add: deliverable_def demo_task_def terminal_iff)
  with w'(1) show ?thesis by auto
qed

end
