(* ===== verification/TaskRecovery.thy ===== *)
theory TaskRecovery
  imports TaskResults
begin

text \<open>The recovery at startup settles exactly the tasks that were lost with their process.\<close>

definition lost_for :: "runtime_owner option \<Rightarrow> string list \<Rightarrow> background_task \<Rightarrow> bool" where
  "lost_for owner turns t \<longleftrightarrow> (case owner of None \<Rightarrow> True | Some me \<Rightarrow> isLostRuntimeTask t me turns)"

definition lost_now :: "runtime_owner option \<Rightarrow> int option \<Rightarrow> string list \<Rightarrow> background_task \<Rightarrow> bool" where
  "lost_now owner cutoff turns t \<longleftrightarrow>
     \<not> isTerminalTaskStatus (bt_status t) \<and> (case cutoff of None \<Rightarrow> True | Some n \<Rightarrow> bt_createdAt t < n) \<and> lost_for owner turns t"

lemma select_lost_filter:
  "fst (select_lost owner ts r) = filter (\<lambda>t. before_cutoff r t \<and> lost_for owner (sr_recoveredTurns r) t) ts"
proof (induction ts arbitrary: r)
  case (Cons t ts)
  let ?lost = "lost_for owner (sr_recoveredTurns r) t"
  obtain w where w: "select_lost owner (t # ts) r =
      (if \<not> before_cutoff r t then select_lost owner ts r
       else (case select_lost owner ts (r\<lparr>sr_watched := w\<rparr>) of (rest, r'') \<Rightarrow> (if ?lost then t # rest else rest, r'')))"
  proof -
    let ?r = "case (owner, recorded_owner t) of
        (Some me, Some o') \<Rightarrow> if o' \<noteq> rw_ownerId me then r\<lparr>sr_watched := watch o' (bt_taskId t) (sr_watched r)\<rparr> else r
      | _ \<Rightarrow> r"
    have "\<exists>w. ?r = r\<lparr>sr_watched := w\<rparr>"
      by (cases owner; cases "recorded_owner t") (auto intro: exI [of _ "sr_watched r"])
    then obtain w where w: "?r = r\<lparr>sr_watched := w\<rparr>" by blast
    show ?thesis by (rule that [of w]) (unfold select_lost.simps Let_def w lost_for_def, rule refl)
  qed
  have cut: "before_cutoff (r\<lparr>sr_watched := w\<rparr>) = before_cutoff r" by (simp add: before_cutoff_def fun_eq_iff)
  obtain a b where ab: "select_lost owner ts (r\<lparr>sr_watched := w\<rparr>) = (a, b)"
    by (cases "select_lost owner ts (r\<lparr>sr_watched := w\<rparr>)")
  show ?case unfolding w ab using Cons.IH [of r] Cons.IH [of "r\<lparr>sr_watched := w\<rparr>"] by (simp add: cut ab)
qed simp

lemma pending_tasks:
  assumes "db_ok db" "\<And>rows. mset (plan rows) = mset rows"
  shows "set (snapshotPending plan db) = {t. getInDb (bt_taskId t) db = Some t \<and> \<not> isTerminalTaskStatus (bt_status t)}"
    "distinct (map bt_taskId (snapshotPending plan db))"
proof -
  let ?q = "query_all\<lparr>tq_statuses := Some [Queued, Running, Stopping]\<rparr>"
  have m: "mset (snapshotPending plan db) = mset (filter (\<lambda>t. matchesQuery_local t ?q) (db_tasks db))"
    unfolding snapshotPending_def by (rule readMatching_tasks [OF assms])
  have match: "matchesQuery_local t ?q \<longleftrightarrow> \<not> isTerminalTaskStatus (bt_status t)" for t
    by (cases "bt_status t") (simp_all add: matchesQuery_local_def query_all_def terminal_iff truthy_def)
  have stored: "getInDb (bt_taskId t) db = Some t \<longleftrightarrow> t \<in> set (db_tasks db)" for t
  proof -
    have "getInDb (bt_taskId t) db = map_of (map (\<lambda>t. (bt_taskId t, t)) (db_tasks db)) (bt_taskId t)"
      by (simp add: find_row_ok(2) [OF assms(1)] get_task_def abs_db_def)
    moreover have "distinct (map fst (map (\<lambda>t. (bt_taskId t, t)) (db_tasks db)))"
      using db_ok_rows(2) [OF assms(1)] by (simp add: comp_def)
    ultimately show ?thesis by (auto simp: map_of_eq_Some_iff)
  qed
  show "set (snapshotPending plan db) = {t. getInDb (bt_taskId t) db = Some t \<and> \<not> isTerminalTaskStatus (bt_status t)}"
    using mset_eq_setD [OF m] by (auto simp: match stored)
  show "distinct (map bt_taskId (snapshotPending plan db))"
    using m db_ok_rows(2) [OF assms(1)] by (metis distinct_map_filter mset_eq_imp_distinct_iff mset_map)
qed

text \<open>A task settled as lost.\<close>

definition settled_as_lost :: "string \<Rightarrow> background_task \<Rightarrow> background_task \<Rightarrow> bool" where
  "settled_as_lost reason t u \<longleftrightarrow> identity u = identity t \<and> bt_status u = Lost \<and> bt_endedAt u \<noteq> None \<and>
     bt_deliveredAt u = bt_deliveredAt t \<and>
     bt_lastError u = Some \<lparr>tx_message = reason, tx_code = Some ''TASK_LOST_ON_STARTUP'', tx_details = None\<rparr>"

context task_store
begin

lemma settle_one_run:
  fixes env :: "'st task_env" and w :: "'st task_world"
  assumes ops: "te_ops env = ops" and ok: "ok (tw_store w)" and t: "held env w (bt_taskId t) = Some t"
    and live: "\<not> isTerminalTaskStatus (bt_status t)"
  obtains u w' where "settle_one env reason t w = (Inr (Some u), w')" "settled_as_lost reason t u" "ok (tw_store w')"
    "held env w' = (held env w)(bt_taskId t \<mapsto> u)"
    "tw_terminal w' = tw_terminal w @ [(bt_taskId t, bt_ownerSessionId t, Lost)]"
proof -
  obtain n w1 where w1: "nowMs env w = (Inr n, w1)" "held env w1 = held env w" "tw_store w1 = tw_store w"
      "tw_terminal w1 = tw_terminal w" using clock_read by metis
  define p where "p = empty_patch\<lparr>pt_updatedAt := Some n, pt_endedAt := Some n,
      pt_lastError := Some \<lparr>tx_message = reason, tx_code = Some ''TASK_LOST_ON_STARTUP'', tx_details = None\<rparr>\<rparr>"
  have le: "bt_status t \<le> Lost" by (rule live_to_terminal [OF live]) (simp add: terminal_iff)
  have at1: "ok (tw_store w1)" "held env w1 (bt_taskId t) = Some t" using ok t w1 by simp_all
  obtain u w2 where w2: "patchStatusIfNotTerminal env t Lost p w1 = (Inr (u, True), w2)"
      "u = apply_patch t (p\<lparr>pt_status := Some Lost\<rparr>) (te_now env (tw_ticks w1))"
      "held env w2 = (held env w1)(bt_taskId t \<mapsto> u)" "ok (tw_store w2)" "tw_terminal w2 = tw_terminal w1"
    by (rule status_patched [OF ops at1 le])
  define w3 where "w3 = w2\<lparr>tw_recovery := unwatch u (tw_recovery w2)\<rparr>"
  have w3: "ok (tw_store w3)" "held env w3 = held env w2" "tw_terminal w3 = tw_terminal w2"
    using w2(4) by (simp_all add: w3_def)
  have u: "bt_status u = Lost" "bt_taskId u = bt_taskId t" "bt_ownerSessionId u = bt_ownerSessionId t"
    by (simp_all add: w2(2) default_def)
  obtain w4 where w4: "emit env u EventCompleted (Some (status_payload Lost @ [(''reason'', JStr reason)])) w3 = (Inr (), w4)"
      "held env w4 = held env w3" "ok (tw_store w4)"
      "tw_terminal w4 = tw_terminal w3 @ (if EventCompleted = EventCompleted \<and> isTerminalTaskStatus (bt_status u)
        then [(bt_taskId u, bt_ownerSessionId u, bt_status u)] else [])"
    by (rule emit_held [OF ops w3(1)])
  have "settle_one env reason t w = (Inr (Some u), w4)"
    unfolding settle_one_def
    by (simp add: andThen_def w1(1) p_def [symmetric] w2(1) Let_def w3_def [symmetric] w4(1) ret_def)
  moreover have "settled_as_lost reason t u"
    by (simp add: settled_as_lost_def w2(2) identity_def default_def p_def empty_patch_def)
  moreover have "tw_terminal w4 = tw_terminal w @ [(bt_taskId t, bt_ownerSessionId t, Lost)]"
    using w4(4) w3(3) w2(5) w1(4) by (simp add: u terminal_iff)
  ultimately show ?thesis using that w4(2,3) w3(2) w2(3) w1(2) by simp
qed

lemma settle_lost_run:
  fixes env :: "'st task_env" and w :: "'st task_world"
  assumes ops: "te_ops env = ops" and ok: "ok (tw_store w)" and ids: "distinct (map bt_taskId ts)"
    and ts: "\<And>t. t \<in> set ts \<Longrightarrow> held env w (bt_taskId t) = Some t \<and> \<not> isTerminalTaskStatus (bt_status t)"
  shows "\<exists>us w'. settle_lost env reason ts w = (Inr us, w') \<and> list_all2 (settled_as_lost reason) ts us \<and>
    held env w' = (held env w) ++ map_of (zip (map bt_taskId ts) us) \<and>
    tw_terminal w' = tw_terminal w @ map (\<lambda>t. (bt_taskId t, bt_ownerSessionId t, Lost)) ts"
  using ok ids ts
proof (induction ts arbitrary: w)
  case Nil
  then show ?case by (simp add: ret_def)
next
  case (Cons t ts)
  obtain u w1 where w1: "settle_one env reason t w = (Inr (Some u), w1)" "settled_as_lost reason t u" "ok (tw_store w1)"
      "held env w1 = (held env w)(bt_taskId t \<mapsto> u)"
      "tw_terminal w1 = tw_terminal w @ [(bt_taskId t, bt_ownerSessionId t, Lost)]"
    by (rule settle_one_run [OF ops Cons.prems(1), of t]) (use Cons.prems(3) [of t] in auto)
  have new: "bt_taskId t \<notin> bt_taskId ` set ts" and dist: "distinct (map bt_taskId ts)" using Cons.prems(2) by simp_all
  have "held env w1 (bt_taskId v) = Some v \<and> \<not> isTerminalTaskStatus (bt_status v)" if "v \<in> set ts" for v
    using Cons.prems(3) [of v] that new by (auto simp: w1(4) image_iff)
  from Cons.IH [OF w1(3) dist this] obtain us w' where w': "settle_lost env reason ts w1 = (Inr us, w')"
      "list_all2 (settled_as_lost reason) ts us" "held env w' = (held env w1) ++ map_of (zip (map bt_taskId ts) us)"
      "tw_terminal w' = tw_terminal w1 @ map (\<lambda>t. (bt_taskId t, bt_ownerSessionId t, Lost)) ts" by blast
  have "dom (map_of (zip (map bt_taskId ts) us)) = bt_taskId ` set ts"
    using list_all2_lengthD [OF w'(2)] by simp
  then have "held env w' = (held env w) ++ map_of (zip (map bt_taskId (t # ts)) (u # us))"
    using w'(3) w1(4) new by (simp add: map_add_upd_left)
  moreover have "settle_lost env reason (t # ts) w = (Inr (u # us), w')"
    using w1(1) w'(1) by (simp add: andThen_def ret_def)
  ultimately show ?case using w1 w' by auto
qed

end

text \<open>C37: The recovery at startup settles exactly the lost tasks. Without a runtime owner every pending task created before
  the cutoff is lost; with one, a task is lost when its recorded owner is known to be dead, or, for a task
  without one, when it belongs to a Turn that was recovered. Each lost task ends as \<open>lost\<close> with the reason,
  stays undelivered if it was, is returned and announced once; every other task is left as it
  was.\<close>

theorem startup_settles_lost:
  fixes plan now eid owner
  defines "env \<equiv> local_env plan now eid owner"
  assumes "db_ok (tw_store w)" "\<And>rows. mset (plan rows) = mset rows"
  shows "\<exists>us w'. reconcileStartupLostTasks env reason cutoff turns w = (Inr us, w') \<and>
    (\<forall>i. case getInDb i (tw_store w) of
        None \<Rightarrow> getInDb i (tw_store w') = None
      | Some t \<Rightarrow>
          if lost_now owner cutoff turns t
          then \<exists>u \<in> set us. getInDb i (tw_store w') = Some u \<and> settled_as_lost (default startup_reason reason) t u \<and>
            (i, bt_ownerSessionId t, Lost) \<in> set (drop (length (tw_terminal w)) (tw_terminal w'))
          else getInDb i (tw_store w') = Some t) \<and>
    length (tw_terminal w') = length (tw_terminal w) + length us \<and>
    (\<forall>u \<in> set us. \<exists>t. getInDb (bt_taskId u) (tw_store w) = Some t \<and> lost_now owner cutoff turns t)"
proof -
  have ops: "te_ops env = db_ops" by (simp add: env_def)
  have held: "held env v = (\<lambda>j. getInDb j (tw_store v))" for v by (simp add: env_def held_local fun_eq_iff)
  let ?pending = "snapshotPending plan (tw_store w)" and ?reason = "default startup_reason reason"
  obtain ts r where sel: "select_lost owner ?pending \<lparr>sr_watched = [], sr_createdBefore = cutoff, sr_recoveredTurns = turns\<rparr> = (ts, r)"
    by (cases "select_lost owner ?pending \<lparr>sr_watched = [], sr_createdBefore = cutoff, sr_recoveredTurns = turns\<rparr>")
  have ts: "ts = filter (\<lambda>t. (case cutoff of None \<Rightarrow> True | Some n \<Rightarrow> bt_createdAt t < n) \<and>
      lost_for owner turns t) ?pending"
    using select_lost_filter [of owner ?pending "\<lparr>sr_watched = [], sr_createdBefore = cutoff, sr_recoveredTurns = turns\<rparr>"] sel
    by (simp add: before_cutoff_def)
  have set_ts: "set ts = {t. getInDb (bt_taskId t) (tw_store w) = Some t \<and> lost_now owner cutoff turns t}"
    unfolding ts by (auto simp: pending_tasks(1) [OF assms(2,3)] lost_now_def)
  have dist: "distinct (map bt_taskId ts)"
    unfolding ts using pending_tasks(2) [OF assms(2,3)] by (simp add: distinct_map_filter)
  let ?w1 = "w\<lparr>tw_recovery := r\<rparr>"
  have "db_ok (tw_store ?w1)" using assms(2) by simp
  from db.settle_lost_run [OF ops this dist, of ?reason] set_ts obtain us w' where
    w': "settle_lost env ?reason ts ?w1 = (Inr us, w')" "list_all2 (settled_as_lost ?reason) ts us"
      "held env w' = (held env w) ++ map_of (zip (map bt_taskId ts) us)"
      "tw_terminal w' = tw_terminal w @ map (\<lambda>t. (bt_taskId t, bt_ownerSessionId t, Lost)) ts"
    by (auto simp: held lost_now_def)
  have run: "reconcileStartupLostTasks env reason cutoff turns w = (Inr us, w')"
    using w'(1) sel by (simp add: reconcileStartupLostTasks_def andThen_def collect_lost_def env_def)
  have len: "length ts = length us" using w'(2) by (rule list_all2_lengthD)
  have at: "case getInDb i (tw_store w) of
        None \<Rightarrow> getInDb i (tw_store w') = None
      | Some t \<Rightarrow>
          if lost_now owner cutoff turns t
          then \<exists>u \<in> set us. getInDb i (tw_store w') = Some u \<and> settled_as_lost ?reason t u \<and>
            (i, bt_ownerSessionId t, Lost) \<in> set (drop (length (tw_terminal w)) (tw_terminal w'))
          else getInDb i (tw_store w') = Some t" for i
  proof (cases "getInDb i (tw_store w)")
    case None
    then have "i \<notin> bt_taskId ` set ts" using set_ts by auto
    then have "map_of (zip (map bt_taskId ts) us) i = None" using len by (simp add: map_of_zip_is_None)
    then show ?thesis using None fun_cong [OF w'(3), of i] by (simp add: held map_add_def)
  next
    case (Some t)
    have id: "bt_taskId t = i" using db.get_id [OF assms(2), of i t] Some by (simp add: db_ops_def)
    show ?thesis
    proof (cases "lost_now owner cutoff turns t")
      case True
      then have "t \<in> set ts" using set_ts Some id by simp
      then obtain k where k: "k < length ts" "ts ! k = t" by (auto simp: in_set_conv_nth)
      have "map_of (zip (map bt_taskId ts) us) (map bt_taskId ts ! k) = Some (us ! k)"
        using dist k(1) len by (intro map_of_zip_nth) simp_all
      then have "getInDb i (tw_store w') = Some (us ! k)"
        using k id fun_cong [OF w'(3), of i] by (simp add: held map_add_def)
      moreover have "settled_as_lost ?reason t (us ! k)" using list_all2_nthD [OF w'(2) k(1)] k(2) by simp
      moreover have "us ! k \<in> set us" using k(1) len by simp
      ultimately show ?thesis using Some True w'(4) \<open>t \<in> set ts\<close> id by auto
    next
      case False
      have "i \<notin> bt_taskId ` set ts"
      proof
        assume "i \<in> bt_taskId ` set ts"
        then obtain v where v: "v \<in> set ts" "i = bt_taskId v" by blast
        then have "getInDb i (tw_store w) = Some v" "lost_now owner cutoff turns v" unfolding set_ts by simp_all
        with Some False show False by simp
      qed
      then have "map_of (zip (map bt_taskId ts) us) i = None" using len by (simp add: map_of_zip_is_None)
      then show ?thesis using Some False fun_cong [OF w'(3), of i] by (simp add: held map_add_def)
    qed
  qed
  have sound: "\<exists>t. getInDb (bt_taskId u) (tw_store w) = Some t \<and> lost_now owner cutoff turns t" if u: "u \<in> set us" for u
  proof -
    obtain k where k: "k < length us" "us ! k = u" using \<open>u \<in> set us\<close> by (meson in_set_conv_nth)
    then have "settled_as_lost ?reason (ts ! k) u" using list_all2_nthD2 [OF w'(2)] by auto
    then have "bt_taskId u = bt_taskId (ts ! k)" by (simp add: settled_as_lost_def identity_def)
    moreover have "ts ! k \<in> set ts" using k len by simp
    ultimately show ?thesis using set_ts by auto
  qed
  have "length (tw_terminal w') = length (tw_terminal w) + length us" using w'(4) len by simp
  show ?thesis
  proof (intro exI conjI allI)
    show "reconcileStartupLostTasks env reason cutoff turns w = (Inr us, w')" by (rule run)
  qed (rule at, fact, intro ballI, rule sound)
qed

theorem startup_settles_lost_witness:
  "\<exists>us w' u. reconcileStartupLostTasks demo_local None None [] demo_world = (Inr us, w') \<and>
     getInDb ''a'' (tw_store w') = Some u \<and> bt_status u = Lost \<and>
     getInDb ''b'' (tw_store w') = Some (demo_task ''b'' Canceled 2)"
proof -
  have "db_ok (tw_store demo_world)" by (simp add: demo_db_ok)
  from startup_settles_lost [OF this, of "\<lambda>rows. rows" int "\<lambda>_. ''event''" None None None "[]"] obtain us w' where
    run: "reconcileStartupLostTasks demo_local None None [] demo_world = (Inr us, w')"
    and at: "\<And>i. case getInDb i demo_db of
        None \<Rightarrow> getInDb i (tw_store w') = None
      | Some t \<Rightarrow>
          if lost_now None None [] t
          then \<exists>u \<in> set us. getInDb i (tw_store w') = Some u \<and> settled_as_lost (default startup_reason None) t u \<and>
            (i, bt_ownerSessionId t, Lost) \<in> set (drop (length (tw_terminal demo_world)) (tw_terminal w'))
          else getInDb i (tw_store w') = Some t" by auto
  have "\<exists>u. getInDb ''a'' (tw_store w') = Some u \<and> bt_status u = Lost"
    using at [of "''a''"] by (auto simp: demo_tasks lost_now_def lost_for_def demo_task_def terminal_iff settled_as_lost_def)
  moreover have "getInDb ''b'' (tw_store w') = Some (demo_task ''b'' Canceled 2)"
    using at [of "''b''"] unfolding demo_tasks by (simp add: lost_now_def) (simp add: demo_task_def terminal_iff)
  ultimately show ?thesis using run by blast
qed

end
