(* ===== verification/McpNames.thy ===== *)
theory McpNames
  imports JsonText "HOL-Library.List_Lexorder"
begin

text \<open>
  The public names of MCP servers and tools: the candidates (\<open>agent-modules/mcp/src/runtime/tool-name.ts\<close>) and the
  registry that resolves their collisions and keeps what it assigned (\<open>name-registry.ts\<close>).

  The file of the registry is the JSON value its text stands for, without the properties the program does not know;
  the lock, the temporary file and the rename only make its replacement atomic. \<open>JSON.parse\<close> of a key is an
  argument, \<open>None\<close> where it throws.
\<close>

section \<open>Candidates\<close>

datatype name_kind = ServerName | ToolName

fun kind_text :: "name_kind \<Rightarrow> string" where
  "kind_text ServerName = ''server''"
| "kind_text ToolName = ''tool''"

definition MCP_RUNTIME_TOOL_NAME_MAX_LENGTH :: nat where "MCP_RUNTIME_TOOL_NAME_MAX_LENGTH = 80"

definition MCP_RUNTIME_SERVER_SEGMENT_MAX_LENGTH :: nat where "MCP_RUNTIME_SERVER_SEGMENT_MAX_LENGTH = 48"

text \<open>Control and format characters among the code units below 256 (there are no surrogates there).\<close>

definition hidden_char :: "char \<Rightarrow> bool" where
  "hidden_char c \<longleftrightarrow> (let n = of_char c :: nat in n < 32 \<or> 127 \<le> n \<and> n \<le> 159 \<or> n = 173)"

definition alnum :: "char \<Rightarrow> bool" where
  "alnum c \<longleftrightarrow> (let n = of_char c :: nat in 48 \<le> n \<and> n \<le> 57 \<or> 65 \<le> n \<and> n \<le> 90 \<or> 97 \<le> n \<and> n \<le> 122)"

definition seg_char :: "char \<Rightarrow> bool" where
  "seg_char c \<longleftrightarrow> alnum c \<or> c = CHR ''-''"

definition underscore :: "char \<Rightarrow> bool" where
  "underscore c \<longleftrightarrow> c = CHR ''_''"

text \<open>\<open>text.replace(/p+/g, '_')\<close>: each longest run of \<open>p\<close> becomes one underscore.\<close>

fun replace_runs :: "(char \<Rightarrow> bool) \<Rightarrow> string \<Rightarrow> string" where
  "replace_runs p [] = []"
| "replace_runs p (c # s) =
     (if \<not> p c then c # replace_runs p s
      else if s \<noteq> [] \<and> p (hd s) then replace_runs p s
      else CHR ''_'' # replace_runs p s)"

definition normalizeMcpNameSegment :: "string \<Rightarrow> name_kind \<Rightarrow> string + string" where
  "normalizeMcpNameSegment value kind =
     (if value = [] \<or> list_ex hidden_char value then Inl (''Invalid MCP '' @ kind_text kind @ '' name'')
      else let segment = trim_with underscore (replace_runs underscore
                 (replace_runs (\<lambda>c. \<not> (seg_char c \<or> underscore c)) value))
           in Inr (if list_ex alnum segment then segment else kind_text kind))"

definition strip_end :: "string \<Rightarrow> string" where
  "strip_end s = rev (dropWhile underscore (rev s))"

definition shortenMcpNameSegment :: "string \<Rightarrow> int \<Rightarrow> name_kind \<Rightarrow> string + string" where
  "shortenMcpNameSegment segment room kind =
     (if room < 1 then Inl (''MCP '' @ kind_text kind @ '' name has no room for a readable prefix'')
      else let prefix = strip_end (take (nat room) segment)
           in Inr (if list_ex alnum prefix then prefix else take (nat room) (kind_text kind)))"

definition buildMcpServerRuntimeName :: "string \<Rightarrow> string + string" where
  "buildMcpServerRuntimeName serverName =
     rbind (normalizeMcpNameSegment serverName ServerName) (\<lambda>normal.
     rbind (shortenMcpNameSegment normal (int MCP_RUNTIME_SERVER_SEGMENT_MAX_LENGTH) ServerName) (\<lambda>segment.
       Inr (''mcp__'' @ segment)))"

definition buildMcpToolRuntimeName :: "string \<Rightarrow> string \<Rightarrow> string + string" where
  "buildMcpToolRuntimeName serverName toolName =
     rbind (buildMcpServerRuntimeName serverName) (\<lambda>server.
     rbind (normalizeMcpNameSegment toolName ToolName) (\<lambda>normal.
     rbind (shortenMcpNameSegment normal (int MCP_RUNTIME_TOOL_NAME_MAX_LENGTH - int (length server) - 2) ToolName) (\<lambda>tool.
       Inr (server @ ''__'' @ tool))))"

section \<open>The state of the registry\<close>

record tool_assignment =
  ta_raw :: string
  ta_segment :: string

record server_assignment =
  sa_key :: string
  sa_raw :: string
  sa_segment :: string
  sa_tools :: "tool_assignment list"

type_synonym name_state = "server_assignment list"

record name_candidate =
  nc_key :: string
  nc_name :: string

text \<open>A \<open>Map\<close> is its entries in insertion order.\<close>

record name_assignments =
  na_names :: "(string \<times> string) list"
  na_errors :: "(string \<times> string) list"

text \<open>The regular expression \<open>^[A-Za-z0-9-]+(?:_[A-Za-z0-9-]+)*$\<close> and a letter or digit.\<close>

fun segment_rest :: "string \<Rightarrow> bool" where
  "segment_rest [] = True"
| "segment_rest [c] = seg_char c"
| "segment_rest (c # d # s) = (if seg_char c then segment_rest (d # s) else underscore c \<and> seg_char d \<and> segment_rest s)"

definition validSegment :: "string \<Rightarrow> bool" where
  "validSegment s \<longleftrightarrow> (case s of [] \<Rightarrow> False | c # s' \<Rightarrow> seg_char c \<and> segment_rest s') \<and> list_ex alnum s"

section \<open>Allocation\<close>

definition sourcePriority :: "(string \<Rightarrow> js option) \<Rightarrow> string \<Rightarrow> nat" where
  "sourcePriority parse key =
     (case parse key of
        Some (JArr (x # rest)) \<Rightarrow>
          if x = JStr ''configured'' then 0
          else if x = JStr ''plugin'' \<and> (case rest of y # _ \<Rightarrow> y = JStr ''OFFICIAL'' | [] \<Rightarrow> False) then 1 else 2
      | _ \<Rightarrow> 2)"

fun map_put :: "('k \<times> 'v) list \<Rightarrow> 'k \<Rightarrow> 'v \<Rightarrow> ('k \<times> 'v) list" where
  "map_put [] k v = [(k, v)]"
| "map_put ((k', v') # m) k v = (if k' = k then (k, v) # m else (k', v') # map_put m k v)"

definition js_map :: "('k \<times> 'v) list \<Rightarrow> ('k \<times> 'v) list" where
  "js_map entries = foldl (\<lambda>m (k, v). map_put m k v) [] entries"

definition unique_candidates :: "name_candidate list \<Rightarrow> name_candidate list" where
  "unique_candidates cs = sort_key nc_key (map snd (js_map (map (\<lambda>c. (nc_key c, c)) cs)))"

record pending_name =
  pn_key :: string
  pn_base :: string
  pn_natural :: bool

definition candidate_base :: "name_kind \<Rightarrow> int \<Rightarrow> string \<Rightarrow> string + string" where
  "candidate_base kind room name = rbind (normalizeMcpNameSegment name kind) (\<lambda>s. shortenMcpNameSegment s room kind)"

text \<open>The first loop: what was assigned before, what cannot be named, and what is pending.\<close>

fun sort_out ::
  "(string \<times> string) list \<Rightarrow> name_kind \<Rightarrow> int \<Rightarrow> name_candidate list \<Rightarrow>
   (string \<times> string) list \<times> (string \<times> string) list \<times> pending_name list" where
  "sort_out existing kind room [] = ([], [], [])"
| "sort_out existing kind room (c # cs) =
     (let (names, errors, pending) = sort_out existing kind room cs in
      case truthy (map_of existing (nc_key c)) of
        Some saved \<Rightarrow> ((nc_key c, saved) # names, errors, pending)
      | None \<Rightarrow>
          (case candidate_base kind room (nc_name c) of
             Inl message \<Rightarrow> (names, (nc_key c, message) # errors, pending)
           | Inr base \<Rightarrow> (names, errors, \<lparr>pn_key = nc_key c, pn_base = base, pn_natural = (base = nc_name c)\<rparr> # pending)))"

definition pending_order :: "(string \<Rightarrow> js option) \<Rightarrow> pending_name list \<Rightarrow> pending_name list" where
  "pending_order parse ps = sort_key (\<lambda>p. \<not> pn_natural p) (sort_key (\<lambda>p. sourcePriority parse (pn_key p)) (sort_key pn_key ps))"

text \<open>The second loop: the first of equal bases gets it.\<close>

fun grant_bases :: "pending_name list \<Rightarrow> string list \<Rightarrow> (string \<times> string) list \<times> pending_name list \<times> string list" where
  "grant_bases [] used = ([], [], used)"
| "grant_bases (p # ps) used =
     (if pn_base p \<in> set used
      then (let (names, conflicts, used') = grant_bases ps used in (names, p # conflicts, used'))
      else (let (names, conflicts, used') = grant_bases ps (pn_base p # used)
            in ((pn_key p, pn_base p) # names, conflicts, used')))"

text \<open>The inner loop over the numbers; \<open>None\<close> is no room for the suffix.\<close>

definition suffix_of :: "nat \<Rightarrow> string" where
  "suffix_of number = CHR ''_'' # nat_digits number"

lemma nat_digits_bound: "n < 10 ^ length (nat_digits n)"
proof (induction n rule: nat_digits.induct)
  case (1 n)
  then show ?case
    by (cases "n < 10") (simp_all add: nat_digits.simps [of n])
qed

function numbered_name ::
  "name_kind \<Rightarrow> nat \<Rightarrow> string \<Rightarrow> string list \<Rightarrow> nat \<Rightarrow> string + string option" where
  "numbered_name kind room base used number =
     (let suffix = suffix_of number in
      if length suffix \<ge> room then Inr None
      else case shortenMcpNameSegment base (int room - int (length suffix)) kind of
        Inl e \<Rightarrow> Inl e
      | Inr short \<Rightarrow>
          if short @ suffix \<notin> set used then Inr (Some (short @ suffix))
          else numbered_name kind room base used (number + 1))"
  by pat_completeness auto
termination
proof (relation "measure (\<lambda>(kind, room, base, used, number). 10 ^ room - number)")
  fix kind :: name_kind and room number :: nat and base short suffix :: string and used :: "string list"
  assume "suffix = suffix_of number" "\<not> room \<le> length suffix"
  then have "length (nat_digits number) \<le> room"
    by (simp add: suffix_of_def)
  then have "(10::nat) ^ length (nat_digits number) \<le> 10 ^ room"
    by (intro power_increasing) simp_all
  with nat_digits_bound [of number] have "number < 10 ^ room"
    by linarith
  then show "((kind, room, base, used, number + 1), kind, room, base, used, number)
      \<in> measure (\<lambda>(kind, room, base, used, number). 10 ^ room - number)"
    by simp
qed simp

fun resolve_conflicts ::
  "name_kind \<Rightarrow> nat \<Rightarrow> pending_name list \<Rightarrow> string list \<Rightarrow>
   string + (string \<times> string) list \<times> (string \<times> string) list" where
  "resolve_conflicts kind room [] used = Inr ([], [])"
| "resolve_conflicts kind room (p # ps) used =
     rbind (numbered_name kind room (pn_base p) used 2) (\<lambda>found.
       case found of
         None \<Rightarrow> rbind (resolve_conflicts kind room ps used) (\<lambda>(names, errors).
           Inr (names, (pn_key p, ''MCP '' @ kind_text kind @ '' name has no room for a collision suffix'') # errors))
       | Some name \<Rightarrow> rbind (resolve_conflicts kind room ps (name # used)) (\<lambda>(names, errors).
           Inr ((pn_key p, name) # names, errors)))"

definition allocate ::
  "(string \<Rightarrow> js option) \<Rightarrow> name_candidate list \<Rightarrow> (string \<times> string) list \<Rightarrow> name_kind \<Rightarrow> nat \<Rightarrow> string + name_assignments" where
  "allocate parse candidates existing kind room =
     (let (names, errors, pending) = sort_out existing kind (int room) (unique_candidates candidates);
          (granted, conflicts, used) = grant_bases (pending_order parse pending) (map snd existing)
      in rbind (resolve_conflicts kind room conflicts used) (\<lambda>(numbered, failed).
           Inr \<lparr>na_names = names @ granted @ numbered, na_errors = errors @ failed\<rparr>))"

section \<open>The registry\<close>

datatype registry_error =
  InvalidRegistry
| InvalidServerAssignment
| InvalidToolAssignment
| NotAllocated
| Unassignable string

definition tool_js :: "tool_assignment \<Rightarrow> js" where
  "tool_js t = JObj [(''raw'', JStr (ta_raw t)), (''segment'', JStr (ta_segment t))]"

definition server_js :: "server_assignment \<Rightarrow> js" where
  "server_js a = JObj [(''key'', JStr (sa_key a)), (''raw'', JStr (sa_raw a)), (''segment'', JStr (sa_segment a)),
     (''tools'', JArr (map tool_js (sa_tools a)))]"

definition state_js :: "name_state \<Rightarrow> js" where
  "state_js st = JObj [(''version'', JNum (Fin 1)), (''servers'', JArr (map server_js st))]"

text \<open>Property access on any value: what is not an object has no such property.\<close>

definition js_field :: "js \<Rightarrow> string \<Rightarrow> js" where
  "js_field v k = (case v of JObj obj \<Rightarrow> js_get obj k | _ \<Rightarrow> JUndef)"

text \<open>\<open>keys\<close> and the others hold what was seen before; the checks are made in this order.\<close>

fun parse_tools :: "nat \<Rightarrow> js list \<Rightarrow> string list \<Rightarrow> string list \<Rightarrow> registry_error + tool_assignment list" where
  "parse_tools len [] raws tools = Inr []"
| "parse_tools len (v # vs) raws tools =
     (case (js_field v ''raw'', js_field v ''segment'') of
        (JStr raw, JStr segment) \<Rightarrow>
          if \<not> validSegment segment \<or> length segment + len + 7 > MCP_RUNTIME_TOOL_NAME_MAX_LENGTH \<or>
             raw \<in> set raws \<or> segment \<in> set tools
          then Inl InvalidToolAssignment
          else rbind (parse_tools len vs (raw # raws) (segment # tools)) (\<lambda>rest.
                 Inr (\<lparr>ta_raw = raw, ta_segment = segment\<rparr> # rest))
      | _ \<Rightarrow> Inl InvalidToolAssignment)"

fun parse_servers :: "js list \<Rightarrow> string list \<Rightarrow> string list \<Rightarrow> registry_error + name_state" where
  "parse_servers [] keys servers = Inr []"
| "parse_servers (v # vs) keys servers =
     (case (js_field v ''key'', js_field v ''raw'', js_field v ''segment'', js_field v ''tools'') of
        (JStr key, JStr raw, JStr segment, JArr tools) \<Rightarrow>
          if \<not> validSegment segment \<or> length segment > MCP_RUNTIME_SERVER_SEGMENT_MAX_LENGTH \<or>
             key \<in> set keys \<or> segment \<in> set servers
          then Inl InvalidServerAssignment
          else rbind (parse_tools (length segment) tools [] []) (\<lambda>assigned.
               rbind (parse_servers vs (key # keys) (segment # servers)) (\<lambda>rest.
                 Inr (\<lparr>sa_key = key, sa_raw = raw, sa_segment = segment, sa_tools = assigned\<rparr> # rest)))
      | _ \<Rightarrow> Inl InvalidServerAssignment)"

definition parseState :: "js \<Rightarrow> registry_error + name_state" where
  "parseState v =
     (case (js_field v ''version'', js_field v ''servers'') of
        (JNum (Fin n), JArr servers) \<Rightarrow> if n = 1 then parse_servers servers [] [] else Inl InvalidRegistry
      | _ \<Rightarrow> Inl InvalidRegistry)"

text \<open>A registry without a file keeps its state in memory only.\<close>

record name_registry =
  nr_state :: name_state
  nr_onDisk :: bool
  nr_file :: "js option"

definition load_state :: "name_registry \<Rightarrow> registry_error + name_state" where
  "load_state rg =
     (if nr_onDisk rg then (case nr_file rg of None \<Rightarrow> Inr [] | Some v \<Rightarrow> parseState v) else Inr (nr_state rg))"

definition name_transaction :: "(name_state \<Rightarrow> registry_error + 'r \<times> name_state) \<Rightarrow> name_registry \<Rightarrow> (registry_error + 'r) \<times> name_registry" where
  "name_transaction run rg =
     (case load_state rg of
        Inl e \<Rightarrow> (Inl e, rg)
      | Inr st \<Rightarrow>
          (case run st of
             Inl e \<Rightarrow> (Inl e, rg\<lparr>nr_state := st\<rparr>)
           | Inr (r, st') \<Rightarrow>
               (Inr r, rg\<lparr>nr_state := st',
                  nr_file := (if nr_onDisk rg \<and> st' \<noteq> st then Some (state_js st') else nr_file rg)\<rparr>)))"

definition unassignable :: "string + 'a \<Rightarrow> registry_error + 'a" where
  "unassignable r = (case r of Inl message \<Rightarrow> Inl (Unassignable message) | Inr x \<Rightarrow> Inr x)"

fun add_servers :: "(string \<times> string) list \<Rightarrow> name_candidate list \<Rightarrow> name_state \<Rightarrow> name_state" where
  "add_servers names [] st = st"
| "add_servers names (c # cs) st =
     add_servers names cs
       (case truthy (map_of names (nc_key c)) of
          Some segment \<Rightarrow>
            if nc_key c \<in> set (map sa_key st) then st
            else st @ [\<lparr>sa_key = nc_key c, sa_raw = nc_name c, sa_segment = segment, sa_tools = []\<rparr>]
        | None \<Rightarrow> st)"

fun add_tools :: "(string \<times> string) list \<Rightarrow> string list \<Rightarrow> tool_assignment list \<Rightarrow> tool_assignment list" where
  "add_tools names [] tools = tools"
| "add_tools names (raw # raws) tools =
     add_tools names raws
       (case truthy (map_of names raw) of
          Some segment \<Rightarrow>
            if raw \<in> set (map ta_raw tools) then tools else tools @ [\<lparr>ta_raw = raw, ta_segment = segment\<rparr>]
        | None \<Rightarrow> tools)"

text \<open>The functions the two operations run as a transaction.\<close>

definition assign_servers :: "(string \<Rightarrow> js option) \<Rightarrow> name_candidate list \<Rightarrow> name_state \<Rightarrow> registry_error + name_assignments \<times> name_state" where
  "assign_servers parse candidates st =
     rbind (unassignable (allocate parse candidates (js_map (map (\<lambda>a. (sa_key a, sa_segment a)) st)) ServerName
              MCP_RUNTIME_SERVER_SEGMENT_MAX_LENGTH)) (\<lambda>result.
       Inr (result, add_servers (na_names result) candidates st))"

definition assignServers ::
  "(string \<Rightarrow> js option) \<Rightarrow> name_candidate list \<Rightarrow> name_registry \<Rightarrow> (registry_error + name_assignments) \<times> name_registry" where
  "assignServers parse candidates = name_transaction (assign_servers parse candidates)"

fun update_server :: "string \<Rightarrow> (server_assignment \<Rightarrow> server_assignment) \<Rightarrow> name_state \<Rightarrow> name_state" where
  "update_server key f [] = []"
| "update_server key f (a # st) = (if sa_key a = key then f a # st else a # update_server key f st)"

definition tool_runtime_name :: "string \<Rightarrow> string \<Rightarrow> string" where
  "tool_runtime_name server segment = ''mcp__'' @ server @ ''__'' @ segment"

definition public_names :: "string \<Rightarrow> name_assignments \<Rightarrow> name_assignments" where
  "public_names server r = r\<lparr>na_names := map (\<lambda>(raw, segment). (raw, tool_runtime_name server segment)) (na_names r)\<rparr>"

definition assign_tools ::
  "(string \<Rightarrow> js option) \<Rightarrow> string \<Rightarrow> string list \<Rightarrow> name_state \<Rightarrow> registry_error + name_assignments \<times> name_state" where
  "assign_tools parse serverKey rawNames st =
     (case List.find (\<lambda>a. sa_key a = serverKey) st of
        None \<Rightarrow> Inl NotAllocated
      | Some server \<Rightarrow>
          rbind (unassignable (allocate parse (map (\<lambda>name. \<lparr>nc_key = name, nc_name = name\<rparr>) rawNames)
                   (js_map (map (\<lambda>t. (ta_raw t, ta_segment t)) (sa_tools server))) ToolName
                   (MCP_RUNTIME_TOOL_NAME_MAX_LENGTH - 7 - length (sa_segment server)))) (\<lambda>result.
            Inr (public_names (sa_segment server) result,
                 update_server serverKey (\<lambda>a. a\<lparr>sa_tools := add_tools (na_names result) rawNames (sa_tools a)\<rparr>) st)))"

definition assignTools ::
  "(string \<Rightarrow> js option) \<Rightarrow> string \<Rightarrow> string list \<Rightarrow> name_registry \<Rightarrow> (registry_error + name_assignments) \<times> name_registry" where
  "assignTools parse serverKey rawNames = name_transaction (assign_tools parse serverKey rawNames)"

definition empty_registry :: "bool \<Rightarrow> name_registry" where
  "empty_registry onDisk = \<lparr>nr_state = [], nr_onDisk = onDisk, nr_file = None\<rparr>"

end
