(* ===== verification/McpSegments.thy ===== *)
theory McpSegments
  imports McpNames
begin

text \<open>
  Segments of MCP names: what is normalised, shortened or numbered is a valid segment that fits.
\<close>

section \<open>Valid segments\<close>

definition single :: "char \<Rightarrow> char \<Rightarrow> bool" where
  "single a b \<longleftrightarrow> \<not> (underscore a \<and> underscore b)"

definition plain :: "string \<Rightarrow> bool" where
  "plain s \<longleftrightarrow> s \<noteq> [] \<and> \<not> underscore (hd s) \<and> \<not> underscore (last s) \<and>
     (\<forall>c\<in>set s. seg_char c \<or> underscore c) \<and> successively single s"

lemma seg_char_not_underscore: "seg_char c \<Longrightarrow> \<not> underscore c"
  by (auto simp: seg_char_def alnum_def underscore_def Let_def)

lemma alnum_not_underscore: "alnum c \<Longrightarrow> \<not> underscore c"
  by (auto simp: alnum_def underscore_def Let_def)

lemma segment_rest_iff:
  "segment_rest s \<longleftrightarrow> (s \<noteq> [] \<longrightarrow> \<not> underscore (last s)) \<and> (\<forall>c\<in>set s. seg_char c \<or> underscore c) \<and> successively single s"
proof (induction s rule: segment_rest.induct)
  case (2 c)
  then show ?case
    using seg_char_not_underscore by auto
next
  case (3 c d s)
  show ?case
  proof (cases "seg_char c")
    case True
    with 3(1) show ?thesis
      using seg_char_not_underscore [OF True] by (auto simp: single_def)
  next
    case False
    with 3(2) show ?thesis
      using seg_char_not_underscore [of d]
      by (cases s) (auto simp: single_def)
  qed
qed simp

lemma validSegment_iff: "validSegment s \<longleftrightarrow> plain s \<and> list_ex alnum s"
  using seg_char_not_underscore by (cases s) (auto simp: validSegment_def segment_rest_iff plain_def successively_Cons single_def)

section \<open>Normalising\<close>

lemma replace_runs_chars: "c \<in> set (replace_runs p s) \<Longrightarrow> c = CHR ''_'' \<or> c \<in> set s \<and> \<not> p c"
  by (induction p s rule: replace_runs.induct) (auto split: if_splits)

lemma replace_runs_hd:
  "s \<noteq> [] \<Longrightarrow> replace_runs underscore s \<noteq> [] \<and> hd (replace_runs underscore s) = hd s"
  by (induction s) (auto simp: underscore_def)

lemma replace_runs_single: "successively single (replace_runs underscore s)"
proof (induction s)
  case (Cons c s)
  then show ?case
    using replace_runs_hd [of s] by (cases s) (auto simp: successively_Cons single_def underscore_def)
qed simp

lemma strip_end_append: "\<exists>t. s = strip_end s @ t \<and> (\<forall>c\<in>set t. underscore c)"
proof -
  have "rev s = takeWhile underscore (rev s) @ dropWhile underscore (rev s)"
    by simp
  then have "s = strip_end s @ rev (takeWhile underscore (rev s))"
    unfolding strip_end_def by (metis rev_append rev_rev_ident)
  then show ?thesis
    using set_takeWhileD by (metis set_rev)
qed

lemma strip_end_last: "strip_end s \<noteq> [] \<Longrightarrow> \<not> underscore (last (strip_end s))"
  unfolding strip_end_def by (metis hd_dropWhile last_rev rev.simps(1) rev_rev_ident)

lemma trim_strip: "trim_with underscore s = strip_end (dropWhile underscore s)"
  by (simp add: trim_with_def strip_end_def)

lemma successively_part: "successively P (a @ b @ c) \<Longrightarrow> successively P b"
  by (auto simp: successively_append_iff)

lemma plain_strip:
  assumes "\<forall>c\<in>set s. seg_char c \<or> underscore c" and "successively single s" and "s \<noteq> [] \<Longrightarrow> \<not> underscore (hd s)"
    and "list_ex alnum (strip_end s)"
  shows "plain (strip_end s)"
proof -
  obtain t where t: "s = strip_end s @ t"
    using strip_end_append by blast
  have ne: "strip_end s \<noteq> []"
    using assms(4) by auto
  then have "s \<noteq> []" "hd s = hd (strip_end s)"
    using t by (metis append_is_Nil_conv, metis hd_append2)
  with ne show ?thesis
    using assms(1,2,3) t strip_end_last [OF ne] unfolding plain_def
    by (metis Un_iff set_append successively_append_iff)
qed

lemma kind_valid: "0 < n \<Longrightarrow> validSegment (take n (kind_text kind))"
proof -
  assume n: "0 < n"
  have all: "\<forall>c\<in>set (kind_text kind). alnum c"
    by (cases kind) (simp_all add: alnum_def Let_def)
  have ne: "take n (kind_text kind) \<noteq> []"
    using n by (cases kind) auto
  have t: "\<forall>c\<in>set (take n (kind_text kind)). alnum c"
    using all set_take_subset by fastforce
  have "successively single (take n (kind_text kind))"
    using t alnum_not_underscore by (intro successively_mono [OF successively_if_sorted_wrt [OF sorted_wrt_true]])
      (auto simp: single_def)
  moreover have "alnum (hd (take n (kind_text kind)))" "alnum (last (take n (kind_text kind)))"
    using t hd_in_set [OF ne] last_in_set [OF ne] by blast+
  ultimately show ?thesis
    using t ne alnum_not_underscore hd_in_set [OF ne] unfolding validSegment_iff plain_def list_ex_iff seg_char_def
    by blast
qed

lemma normalize_valid:
  assumes "normalizeMcpNameSegment value kind = Inr n"
  shows "validSegment n"
proof -
  let ?clean = "replace_runs underscore (replace_runs (\<lambda>c. \<not> (seg_char c \<or> underscore c)) value)"
  let ?seg = "trim_with underscore ?clean"
  have n: "n = (if list_ex alnum ?seg then ?seg else kind_text kind)"
    using assms by (simp add: normalizeMcpNameSegment_def Let_def split: if_splits)
  show ?thesis
  proof (cases "list_ex alnum ?seg")
    case True
    have chars: "\<forall>c\<in>set (dropWhile underscore ?clean). seg_char c \<or> underscore c"
    proof
      fix c
      assume "c \<in> set (dropWhile underscore ?clean)"
      then have "c \<in> set ?clean"
        by (rule set_dropWhileD)
      from replace_runs_chars [OF this] show "seg_char c \<or> underscore c"
        using replace_runs_chars by (auto simp: underscore_def)
    qed
    have "successively single (takeWhile underscore ?clean @ dropWhile underscore ?clean)"
      using replace_runs_single by simp
    then have "successively single (dropWhile underscore ?clean)"
      by (simp only: successively_append_iff)
    with chars True have "plain (strip_end (dropWhile underscore ?clean))"
      by (intro plain_strip) (simp_all add: trim_strip hd_dropWhile)
    with True n show ?thesis
      by (simp add: validSegment_iff trim_strip)
  next
    case False
    with n kind_valid [of "length (kind_text kind)" kind] show ?thesis
      by (cases kind) simp_all
  qed
qed

section \<open>Shortening and numbering\<close>

lemma shorten_cases:
  "1 \<le> room \<Longrightarrow> \<exists>p. shortenMcpNameSegment s room kind = Inr p"
  "room < 1 \<Longrightarrow> \<exists>e. shortenMcpNameSegment s room kind = Inl e"
  by (simp_all add: shortenMcpNameSegment_def Let_def)

lemma shorten_valid:
  assumes "validSegment s" and "shortenMcpNameSegment s room kind = Inr p"
  shows "validSegment p \<and> int (length p) \<le> room"
proof -
  let ?cut = "take (nat room) s"
  have room: "1 \<le> room" and p: "p = (if list_ex alnum (strip_end ?cut) then strip_end ?cut else take (nat room) (kind_text kind))"
    using assms(2) by (auto simp: shortenMcpNameSegment_def Let_def split: if_splits)
  have plain: "plain s"
    using assms(1) by (simp add: validSegment_iff)
  show ?thesis
  proof (cases "list_ex alnum (strip_end ?cut)")
    case True
    have "plain (strip_end ?cut)"
    proof (rule plain_strip)
      show "\<forall>c\<in>set ?cut. seg_char c \<or> underscore c"
        using plain set_take_subset unfolding plain_def by fastforce
      show "successively single ?cut"
        using plain unfolding plain_def by (metis append_take_drop_id successively_append_iff)
      show "?cut \<noteq> [] \<Longrightarrow> \<not> underscore (hd ?cut)"
        using plain unfolding plain_def by simp
    qed (rule True)
    moreover have "length (strip_end ?cut) \<le> length ?cut"
      using strip_end_append [of ?cut] by (metis le_add1 length_append)
    ultimately have "plain p" "list_ex alnum p" "length p \<le> nat room"
      using True p by simp_all
    then show ?thesis
      using room by (simp add: validSegment_iff)
  next
    case False
    with p room kind_valid [of "nat room" kind] show ?thesis
      by simp
  qed
qed

lemma candidate_base_valid:
  assumes "candidate_base kind room name = Inr b"
  shows "validSegment b \<and> int (length b) \<le> room"
  using assms normalize_valid shorten_valid by (fastforce simp: candidate_base_def rbind_eq_Inr)

lemma digits_alnum: "c \<in> set (nat_digits n) \<Longrightarrow> alnum c"
proof (induction n rule: nat_digits.induct)
  case (1 n)
  have digit: "m < 10 \<Longrightarrow> alnum (digit_char m)" for m
    by (simp add: alnum_def of_digit_char)
  show ?case
    using 1 digit by (cases "n < 10") (auto simp: nat_digits.simps [of n])
qed

lemma numbered_valid:
  assumes "validSegment s"
  shows "validSegment (s @ suffix_of n)"
proof -
  have d: "\<forall>c\<in>set (nat_digits n). alnum c"
    using digits_alnum by blast
  have "successively single (nat_digits n)"
    using d alnum_not_underscore by (intro successively_mono [OF successively_if_sorted_wrt [OF sorted_wrt_true]])
      (auto simp: single_def)
  moreover have "\<not> underscore (hd (nat_digits n))" "\<not> underscore (last (nat_digits n))"
    using d alnum_not_underscore nat_digits_not_Nil hd_in_set last_in_set by metis+
  ultimately show ?thesis
    using assms d unfolding validSegment_iff plain_def suffix_of_def
    by (auto simp: successively_append_iff successively_Cons single_def underscore_def seg_char_def)
qed

lemma numbered_name_result:
  assumes "validSegment base"
  shows "case numbered_name kind room base used number of
           Inl _ \<Rightarrow> False
         | Inr None \<Rightarrow> True
         | Inr (Some n) \<Rightarrow> validSegment n \<and> length n \<le> room \<and> n \<notin> set used"
  using assms
proof (induction kind room base used number rule: numbered_name.induct)
  case (1 kind room base used number)
  let ?suffix = "suffix_of number"
  show ?case
  proof (cases "room \<le> length ?suffix")
    case True
    then show ?thesis
      by (simp add: numbered_name.simps [of _ _ _ _ number])
  next
    case False
    then obtain short where short: "shortenMcpNameSegment base (int room - int (length ?suffix)) kind = Inr short"
      using shorten_cases(1) [of "int room - int (length ?suffix)" base kind] by auto
    with shorten_valid [OF 1(2) short] have "validSegment (short @ ?suffix)" "length (short @ ?suffix) \<le> room"
      using False numbered_valid by auto
    with False short 1 show ?thesis
      by (auto simp: numbered_name.simps [of _ _ _ _ number] Let_def)
  qed
qed

end
