(* ===== verification/McpAllocate.thy ===== *)
theory McpAllocate
  imports McpSegments "HOL-Library.Multiset"
begin

text \<open>
  What an allocation returns: every candidate has a name or an error, old names stay, new ones are valid, fit and
  differ from all others.
\<close>

section \<open>Maps\<close>

lemma map_put_keys: "set (map fst (map_put m k v)) = insert k (set (map fst m))"
  by (induction m k v rule: map_put.induct) auto

lemma map_put_distinct: "distinct (map fst m) \<Longrightarrow> distinct (map fst (map_put m k v))"
  by (induction m k v rule: map_put.induct) (auto simp: map_put_keys [simplified])

lemma map_put_other: "k' \<noteq> k \<Longrightarrow> (k', v') \<in> set (map_put m k v) \<longleftrightarrow> (k', v') \<in> set m"
  by (induction m k v rule: map_put.induct) auto

lemma map_put_values: "(k', v') \<in> set (map_put m k v) \<Longrightarrow> (k', v') = (k, v) \<or> (k', v') \<in> set m"
  by (induction m k v rule: map_put.induct) (auto split: if_splits)

lemma map_put_fresh: "k \<notin> set (map fst m) \<Longrightarrow> map_put m k v = m @ [(k, v)]"
  by (induction m k v rule: map_put.induct) auto

lemma js_map_step: "js_map (es @ [(k, v)]) = map_put (js_map es) k v"
  by (simp add: js_map_def)

lemma js_map_facts: "distinct (map fst (js_map es)) \<and> set (map fst (js_map es)) = set (map fst es) \<and> set (js_map es) \<subseteq> set es"
proof (induction es rule: rev_induct)
  case (snoc e es)
  obtain k v where e: "e = (k, v)"
    by fastforce
  have "set (map_put (js_map es) k v) \<subseteq> insert (k, v) (set (js_map es))"
    using map_put_values by fast
  with snoc map_put_keys [of "js_map es" k v] map_put_distinct [of "js_map es" k v] show ?case
    unfolding e js_map_step by auto
qed (simp add: js_map_def)

lemma js_map_distinct: "distinct (map fst es) \<Longrightarrow> js_map es = es"
proof (induction es rule: rev_induct)
  case (snoc e es)
  then show ?case
    by (cases e) (simp add: js_map_step map_put_fresh)
qed (simp add: js_map_def)

lemma unique_candidate_keys:
  "distinct (map nc_key (unique_candidates cs)) \<and> set (map nc_key (unique_candidates cs)) = set (map nc_key cs)"
proof -
  let ?m = "js_map (map (\<lambda>c. (nc_key c, c)) cs)"
  have "map nc_key (map snd ?m) = map fst ?m"
    using js_map_facts [of "map (\<lambda>c. (nc_key c, c)) cs"] by fastforce
  moreover have "set (map nc_key (unique_candidates cs)) = set (map nc_key (map snd ?m))"
    by (simp only: unique_candidates_def set_map set_sort)
  moreover have "distinct (map nc_key (unique_candidates cs)) \<longleftrightarrow> distinct (map nc_key (map snd ?m))"
    
    unfolding unique_candidates_def by (intro mset_eq_imp_distinct_iff) (simp add: image_mset.compositionality)
  moreover have "set (map fst ?m) = set (map nc_key cs)" "distinct (map fst ?m)"
    using js_map_facts [of "map (\<lambda>c. (nc_key c, c)) cs"] by (simp_all add: image_image)
  ultimately show ?thesis
    by (simp only:)
qed

lemma unique_candidates_subset: "set (unique_candidates cs) \<subseteq> set cs"
  using js_map_facts [of "map (\<lambda>c. (nc_key c, c)) cs"] by (auto simp: unique_candidates_def)

section \<open>The loops\<close>

lemma sort_out_facts:
  assumes "sort_out existing kind room cs = (names, errors, pending)"
  shows "mset (map nc_key cs) = mset (map fst names) + mset (map fst errors) + mset (map pn_key pending) \<and>
    (\<forall>(k, v)\<in>set names. map_of existing k = Some v) \<and>
    (\<forall>p\<in>set pending. truthy (map_of existing (pn_key p)) = None \<and> validSegment (pn_base p) \<and> int (length (pn_base p)) \<le> room) \<and>
    (\<forall>x\<in>set errors. truthy (map_of existing (fst x)) = None \<and>
       (\<exists>c\<in>set cs. nc_key c = fst x \<and> candidate_base kind room (nc_name c) = Inl (snd x)))"
  using assms
proof (induction existing kind room cs arbitrary: names errors pending rule: sort_out.induct)
  case (2 existing kind room c cs)
  obtain n e p where rest: "sort_out existing kind room cs = (n, e, p)"
    using prod_cases3 by blast
  note IH = 2(1) [OF rest]
  show ?case
  proof (cases "truthy (map_of existing (nc_key c))")
    case (Some saved)
    with 2(2) rest IH show ?thesis
      by auto
  next
    case none: None
    show ?thesis
    proof (cases "candidate_base kind room (nc_name c)")
      case (Inl message)
      with none 2(2) rest have "errors = (nc_key c, message) # e" "names = n" "pending = p"
        by auto
      with Inl IH none show ?thesis
        by auto
    next
      case (Inr base)
      with none 2(2) rest IH candidate_base_valid [OF Inr] show ?thesis
        by auto
    qed
  qed
qed simp

lemma grant_bases_facts:
  assumes "grant_bases ps used = (names, conflicts, used')"
  shows "mset (map pn_key ps) = mset (map fst names) + mset (map pn_key conflicts) \<and>
    set conflicts \<subseteq> set ps \<and> set used' = set used \<union> set (map snd names) \<and>
    distinct (map snd names) \<and> set (map snd names) \<inter> set used = {} \<and> set (map snd names) \<subseteq> pn_base ` set ps"
  using assms
proof (induction ps used arbitrary: names conflicts used' rule: grant_bases.induct)
  case (2 p ps used)
  show ?case
  proof (cases "pn_base p \<in> set used")
    case True
    obtain n c u where rest: "grant_bases ps used = (n, c, u)"
      using prod_cases3 by blast
    with True 2(3) have "names = n" "conflicts = p # c" "used' = u"
      by simp_all
    with 2(1) [OF True rest] show ?thesis
      by auto
  next
    case False
    obtain n c u where rest: "grant_bases ps (pn_base p # used) = (n, c, u)"
      using prod_cases3 by blast
    with False 2(3) have "names = (pn_key p, pn_base p) # n" "conflicts = c" "used' = u"
      by simp_all
    with 2(2) [OF False rest] False show ?thesis
      by auto
  qed
qed simp

definition no_room :: "name_kind \<Rightarrow> string" where
  "no_room kind = ''MCP '' @ kind_text kind @ '' name has no room for a collision suffix''"

lemma resolve_conflicts_facts:
  assumes "\<forall>p\<in>set ps. validSegment (pn_base p)"
  shows "\<exists>names errors. resolve_conflicts kind room ps used = Inr (names, errors) \<and>
    mset (map pn_key ps) = mset (map fst names) + mset (map fst errors) \<and>
    distinct (map snd names) \<and> set (map snd names) \<inter> set used = {} \<and>
    (\<forall>v\<in>set (map snd names). validSegment v \<and> length v \<le> room) \<and> (\<forall>x\<in>set errors. snd x = no_room kind)"
  using assms
proof (induction ps arbitrary: used)
  case (Cons p ps)
  from Cons(2) have "validSegment (pn_base p)"
    by simp
  note found = numbered_name_result [OF this, where kind = kind and room = room and used = used and number = 2]
  from Cons(2) have valid: "\<forall>p\<in>set ps. validSegment (pn_base p)"
    by simp
  show ?case
  proof (cases "numbered_name kind room (pn_base p) used 2")
    case (Inl e)
    with found show ?thesis
      by simp
  next
    case (Inr result)
    show ?thesis
    proof (cases result)
      case None
      with Inr Cons(1) [OF valid, of used] show ?thesis
        by (auto simp: no_room_def)
    next
      case (Some name)
      with Inr found Cons(1) [OF valid, of "name # used"] show ?thesis
        by auto
    qed
  qed
qed simp

definition new_value :: "(string \<times> string) list \<Rightarrow> nat \<Rightarrow> string \<Rightarrow> bool" where
  "new_value existing room v \<longleftrightarrow> v \<notin> snd ` set existing \<and> validSegment v \<and> length v \<le> room"

lemma allocate_facts:
  assumes "\<forall>v\<in>snd ` set existing. v \<noteq> []" and "distinct (map fst existing)"
  shows "\<exists>r old fresh. allocate parse cs existing kind room = Inr r \<and> na_names r = old @ fresh \<and>
    distinct (map fst (na_names r @ na_errors r)) \<and> set (map fst (na_names r @ na_errors r)) = set (map nc_key cs) \<and>
    (\<forall>(k, v)\<in>set old. map_of existing k = Some v) \<and>
    (\<forall>(k, v)\<in>set fresh. map_of existing k = None \<and> new_value existing room v) \<and> distinct (map snd fresh) \<and>
    (\<forall>x\<in>set (na_errors r). map_of existing (fst x) = None \<and>
       (snd x = no_room kind \<or> (\<exists>c\<in>set cs. nc_key c = fst x \<and> candidate_base kind (int room) (nc_name c) = Inl (snd x))))"
proof -
  obtain names errors pending where one: "sort_out existing kind (int room) (unique_candidates cs) = (names, errors, pending)"
    using prod_cases3 by blast
  note s = sort_out_facts [OF one]
  obtain granted conflicts used where two: "grant_bases (pending_order parse pending) (map snd existing) = (granted, conflicts, used)"
    using prod_cases3 by blast
  note g = grant_bases_facts [OF two]
  have perm: "mset (map pn_key (pending_order parse pending)) = mset (map pn_key pending)" "set (pending_order parse pending) = set pending"
    by (simp_all add: pending_order_def)
  have "\<forall>p\<in>set conflicts. validSegment (pn_base p)"
    using g s perm(2) by blast
  from resolve_conflicts_facts [OF this, of kind room used] obtain numbered failed where
    three: "resolve_conflicts kind room conflicts used = Inr (numbered, failed)"
      "mset (map pn_key conflicts) = mset (map fst numbered) + mset (map fst failed)"
      "distinct (map snd numbered)" "set (map snd numbered) \<inter> set used = {}"
      "\<forall>v\<in>set (map snd numbered). validSegment v \<and> length v \<le> room" "\<forall>x\<in>set failed. snd x = no_room kind"
    by blast
  let ?r = "\<lparr>na_names = names @ granted @ numbered, na_errors = errors @ failed\<rparr>"
  have keys: "mset (map fst (na_names ?r @ na_errors ?r)) = mset (map nc_key (unique_candidates cs))"
    using s g three(2) perm(1) by simp
  have "distinct (map fst (na_names ?r @ na_errors ?r)) \<and> set (map fst (na_names ?r @ na_errors ?r)) = set (map nc_key cs)"
    using unique_candidate_keys [of cs] mset_eq_imp_distinct_iff [OF keys] mset_eq_setD [OF keys] by simp
  moreover have "allocate parse cs existing kind room = Inr ?r"
    by (simp add: allocate_def one two three(1))
  moreover have unassigned: "map_of existing k = None" if "k \<in> set (map fst (granted @ numbered @ errors @ failed))" for k
  proof -
    have "mset (map pn_key pending) = mset (map fst granted) + (mset (map fst numbered) + mset (map fst failed))"
      using g three(2) perm(1) by simp
    moreover have "k \<in># mset (map fst granted) + (mset (map fst numbered) + mset (map fst failed)) \<or> k \<in> set (map fst errors)"
      using that by auto
    ultimately have "k \<in> set (map pn_key pending) \<or> k \<in> set (map fst errors)"
      by (metis set_mset_mset)
    then have "truthy (map_of existing k) = None"
      using s by auto
    then show ?thesis
      using assms(1) map_of_SomeD by (fastforce simp: truthy_eq_None)
  qed
  moreover have "\<forall>x\<in>set (errors @ failed). map_of existing (fst x) = None \<and>
      (snd x = no_room kind \<or> (\<exists>c\<in>set cs. nc_key c = fst x \<and> candidate_base kind (int room) (nc_name c) = Inl (snd x)))"
  proof
    fix x
    assume x: "x \<in> set (errors @ failed)"
    then have "map_of existing (fst x) = None"
      by (intro unassigned) auto
    moreover have "snd x = no_room kind \<or> (\<exists>c\<in>set cs. nc_key c = fst x \<and> candidate_base kind (int room) (nc_name c) = Inl (snd x))"
      using x s three(6) unique_candidates_subset by (simp, blast)
    ultimately show "map_of existing (fst x) = None \<and>
      (snd x = no_room kind \<or> (\<exists>c\<in>set cs. nc_key c = fst x \<and> candidate_base kind (int room) (nc_name c) = Inl (snd x)))" ..
  qed
  moreover have "\<forall>(k, v)\<in>set (granted @ numbered). map_of existing k = None \<and> new_value existing room v"
  proof (clarify, intro conjI)
    fix k v
    assume kv: "(k, v) \<in> set (granted @ numbered)"
    then show "map_of existing k = None"
      by (intro unassigned) force
    show "new_value existing room v"
      using kv
    proof (simp, elim disjE)
      assume "(k, v) \<in> set granted"
      then have v: "v \<in> set (map snd granted)"
        by force
      then obtain p where "p \<in> set pending" "v = pn_base p"
        using g perm(2) by blast
      with v g s show ?thesis
        by (auto simp: new_value_def)
    next
      assume "(k, v) \<in> set numbered"
      then have "v \<in> set (map snd numbered)"
        by force
      with three(4,5) g show ?thesis
        by (auto simp: new_value_def)
    qed
  qed
  moreover have "distinct (map snd (granted @ numbered))"
    using g three(3,4) by auto
  ultimately show ?thesis
    using s by (intro exI [of _ ?r] exI [of _ names] exI [of _ "granted @ numbered"]) simp
qed

end
