(* ===== verification/McpRegistry.thy ===== *)
theory McpRegistry
  imports McpAllocate
begin

text \<open>
  The invariant of the registry, the round trip of its file, and what the two operations do to the state.
\<close>

section \<open>Valid states\<close>

definition valid_tools :: "nat \<Rightarrow> tool_assignment list \<Rightarrow> bool" where
  "valid_tools len ts \<longleftrightarrow> distinct (map ta_raw ts) \<and> distinct (map ta_segment ts) \<and>
     (\<forall>t\<in>set ts. validSegment (ta_segment t) \<and> length (ta_segment t) + len + 7 \<le> MCP_RUNTIME_TOOL_NAME_MAX_LENGTH)"

definition valid_state :: "name_state \<Rightarrow> bool" where
  "valid_state st \<longleftrightarrow> distinct (map sa_key st) \<and> distinct (map sa_segment st) \<and>
     (\<forall>a\<in>set st. validSegment (sa_segment a) \<and> length (sa_segment a) \<le> MCP_RUNTIME_SERVER_SEGMENT_MAX_LENGTH \<and>
        valid_tools (length (sa_segment a)) (sa_tools a))"

lemma js_field_simps [simp]:
  "js_field (tool_js t) ''raw'' = JStr (ta_raw t)" "js_field (tool_js t) ''segment'' = JStr (ta_segment t)"
  "js_field (server_js a) ''key'' = JStr (sa_key a)" "js_field (server_js a) ''raw'' = JStr (sa_raw a)"
  "js_field (server_js a) ''segment'' = JStr (sa_segment a)" "js_field (server_js a) ''tools'' = JArr (map tool_js (sa_tools a))"
  "js_field (state_js st) ''version'' = JNum (Fin 1)" "js_field (state_js st) ''servers'' = JArr (map server_js st)"
  by (simp_all add: js_field_def tool_js_def server_js_def state_js_def js_get_def)

lemma parse_tools_valid:
  assumes "parse_tools len vs raws segs = Inr ts"
  shows "valid_tools len ts \<and> set (map ta_raw ts) \<inter> set raws = {} \<and> set (map ta_segment ts) \<inter> set segs = {}"
  using assms
proof (induction len vs raws segs arbitrary: ts rule: parse_tools.induct)
  case (2 len v vs raws segs)
  from 2(2) obtain raw segment rest where v: "js_field v ''raw'' = JStr raw" "js_field v ''segment'' = JStr segment"
      "validSegment segment" "length segment + len + 7 \<le> MCP_RUNTIME_TOOL_NAME_MAX_LENGTH" "raw \<notin> set raws" "segment \<notin> set segs"
      "parse_tools len vs (raw # raws) (segment # segs) = Inr rest" "ts = \<lparr>ta_raw = raw, ta_segment = segment\<rparr> # rest"
    by (auto simp: rbind_eq_Inr split: js.splits if_splits)
  have "valid_tools len rest \<and> set (map ta_raw rest) \<inter> set (raw # raws) = {} \<and> set (map ta_segment rest) \<inter> set (segment # segs) = {}"
    by (rule 2(1)) (use v in auto)
  with v show ?case
    by (simp add: valid_tools_def)
qed (simp add: valid_tools_def)

lemma parse_tools_written:
  assumes "valid_tools len ts" and "set (map ta_raw ts) \<inter> set raws = {}" and "set (map ta_segment ts) \<inter> set segs = {}"
  shows "parse_tools len (map tool_js ts) raws segs = Inr ts"
  using assms
proof (induction ts arbitrary: raws segs)
  case (Cons t ts)
  then have "parse_tools len (map tool_js ts) (ta_raw t # raws) (ta_segment t # segs) = Inr ts"
    by (intro Cons(1)) (auto simp: valid_tools_def)
  with Cons(2-) show ?case
    by (auto simp: valid_tools_def)
qed simp

lemma parse_servers_valid:
  assumes "parse_servers vs keys segs = Inr st"
  shows "valid_state st \<and> set (map sa_key st) \<inter> set keys = {} \<and> set (map sa_segment st) \<inter> set segs = {}"
  using assms
proof (induction vs keys segs arbitrary: st rule: parse_servers.induct)
  case (2 v vs keys segs)
  from 2(2) obtain key raw segment tools ts rest where v: "js_field v ''key'' = JStr key" "js_field v ''raw'' = JStr raw"
      "js_field v ''segment'' = JStr segment" "js_field v ''tools'' = JArr tools" "validSegment segment"
      "length segment \<le> MCP_RUNTIME_SERVER_SEGMENT_MAX_LENGTH" "key \<notin> set keys" "segment \<notin> set segs"
      "parse_tools (length segment) tools [] [] = Inr ts" "parse_servers vs (key # keys) (segment # segs) = Inr rest"
      "st = \<lparr>sa_key = key, sa_raw = raw, sa_segment = segment, sa_tools = ts\<rparr> # rest"
    by (auto simp: rbind_eq_Inr split: js.splits if_splits)
  have "valid_state rest \<and> set (map sa_key rest) \<inter> set (key # keys) = {} \<and> set (map sa_segment rest) \<inter> set (segment # segs) = {}"
    by (rule 2(1)) (use v in auto)
  with v parse_tools_valid [OF v(9)] show ?case
    by (simp add: valid_state_def)
qed (simp add: valid_state_def)

lemma parse_servers_written:
  assumes "valid_state st" and "set (map sa_key st) \<inter> set keys = {}" and "set (map sa_segment st) \<inter> set segs = {}"
  shows "parse_servers (map server_js st) keys segs = Inr st"
  using assms
proof (induction st arbitrary: keys segs)
  case (Cons a st)
  then have "parse_servers (map server_js st) (sa_key a # keys) (sa_segment a # segs) = Inr st"
    by (intro Cons(1)) (auto simp: valid_state_def)
  moreover have "parse_tools (length (sa_segment a)) (map tool_js (sa_tools a)) [] [] = Inr (sa_tools a)"
    using Cons(2) by (intro parse_tools_written) (auto simp: valid_state_def)
  ultimately show ?case
    using Cons(2-) by (auto simp: valid_state_def)
qed simp

lemma parse_valid: "parseState v = Inr st \<Longrightarrow> valid_state st"
  by (auto simp: parseState_def dest: parse_servers_valid split: js.splits jsnum.splits if_splits)

lemma parse_written: "valid_state st \<Longrightarrow> parseState (state_js st) = Inr st"
  by (simp add: parseState_def parse_servers_written)

section \<open>What the operations add\<close>

text \<open>\<open>grown\<close>: the old assignments are all still there, in their places.\<close>

definition tools_grown :: "server_assignment \<Rightarrow> server_assignment \<Rightarrow> bool" where
  "tools_grown a a' \<longleftrightarrow> sa_key a' = sa_key a \<and> sa_raw a' = sa_raw a \<and> sa_segment a' = sa_segment a \<and>
     (\<exists>extra. sa_tools a' = sa_tools a @ extra)"

definition grown :: "name_state \<Rightarrow> name_state \<Rightarrow> bool" where
  "grown st st' \<longleftrightarrow> (\<exists>kept extra. st' = kept @ extra \<and> list_all2 tools_grown st kept)"

lemma tools_grown_refl [simp]: "tools_grown a a"
  by (simp add: tools_grown_def)

lemma grown_append [intro]: "grown st (st @ extra)"
  unfolding grown_def by (intro exI [of _ st] exI [of _ extra]) (simp add: list_all2_refl)

lemma grown_refl [simp]: "grown st st"
  using grown_append [of st "[]"] by simp

lemma tools_grown_trans: "tools_grown a b \<Longrightarrow> tools_grown b c \<Longrightarrow> tools_grown a c"
  by (auto simp: tools_grown_def)

lemma grown_trans:
  assumes "grown a b" and "grown b c"
  shows "grown a c"
proof -
  obtain k m where b: "b = k @ m" "list_all2 tools_grown a k"
    using assms(1) unfolding grown_def by blast
  obtain k' m' where c: "c = k' @ m'" "list_all2 tools_grown (k @ m) k'"
    using assms(2) b(1) unfolding grown_def by blast
  then obtain k1 k2 where k: "k' = k1 @ k2" "list_all2 tools_grown k k1"
    by (auto simp: list_all2_append1)
  have "list_all2 tools_grown a k1"
    by (rule list_all2_trans [OF _ b(2) k(2)]) (rule tools_grown_trans)
  with c(1) k(1) show ?thesis
    unfolding grown_def by auto
qed

lemma add_servers_facts:
  assumes "distinct (map sa_key st)"
  shows "\<exists>extra. add_servers names cs st = st @ extra \<and> distinct (map sa_key (st @ extra)) \<and>
    (\<forall>a\<in>set extra. map_of names (sa_key a) = Some (sa_segment a) \<and> sa_segment a \<noteq> [] \<and> sa_tools a = []) \<and>
    (\<forall>c\<in>set cs. truthy (map_of names (nc_key c)) \<noteq> None \<longrightarrow> nc_key c \<in> set (map sa_key (st @ extra)))"
  using assms
proof (induction names cs st rule: add_servers.induct)
  case (2 names c cs st)
  let ?st = "case truthy (map_of names (nc_key c)) of
      Some segment \<Rightarrow>
        if nc_key c \<in> set (map sa_key st) then st
        else st @ [\<lparr>sa_key = nc_key c, sa_raw = nc_name c, sa_segment = segment, sa_tools = []\<rparr>]
    | None \<Rightarrow> st"
  obtain here where here: "?st = st @ here" "distinct (map sa_key (st @ here))"
      "\<forall>a\<in>set here. map_of names (sa_key a) = Some (sa_segment a) \<and> sa_segment a \<noteq> [] \<and> sa_tools a = []"
      "truthy (map_of names (nc_key c)) \<noteq> None \<longrightarrow> nc_key c \<in> set (map sa_key (st @ here))"
  proof (cases "truthy (map_of names (nc_key c))")
    case None
    with 2(2) that [of "[]"] show ?thesis
      by simp
  next
    case (Some segment)
    with 2(2) that [of "if nc_key c \<in> set (map sa_key st) then [] else
        [\<lparr>sa_key = nc_key c, sa_raw = nc_name c, sa_segment = segment, sa_tools = []\<rparr>]"] show ?thesis
      by simp
  qed
  from 2(1) here(2) obtain extra where "add_servers names cs (st @ here) = (st @ here) @ extra"
      "distinct (map sa_key ((st @ here) @ extra))"
      "\<forall>a\<in>set extra. map_of names (sa_key a) = Some (sa_segment a) \<and> sa_segment a \<noteq> [] \<and> sa_tools a = []"
      "\<forall>c\<in>set cs. truthy (map_of names (nc_key c)) \<noteq> None \<longrightarrow> nc_key c \<in> set (map sa_key ((st @ here) @ extra))"
    unfolding here(1) by blast
  with here show ?case
    by (intro exI [of _ "here @ extra"]) auto
qed simp

lemma add_tools_facts:
  assumes "distinct (map ta_raw ts)"
  shows "\<exists>extra. add_tools names raws ts = ts @ extra \<and> distinct (map ta_raw (ts @ extra)) \<and>
    (\<forall>t\<in>set extra. map_of names (ta_raw t) = Some (ta_segment t) \<and> ta_segment t \<noteq> []) \<and>
    (\<forall>raw\<in>set raws. truthy (map_of names raw) \<noteq> None \<longrightarrow> raw \<in> set (map ta_raw (ts @ extra)))"
  using assms
proof (induction names raws ts rule: add_tools.induct)
  case (2 names raw raws ts)
  let ?ts = "case truthy (map_of names raw) of
      Some segment \<Rightarrow> if raw \<in> set (map ta_raw ts) then ts else ts @ [\<lparr>ta_raw = raw, ta_segment = segment\<rparr>]
    | None \<Rightarrow> ts"
  obtain here where here: "?ts = ts @ here" "distinct (map ta_raw (ts @ here))"
      "\<forall>t\<in>set here. map_of names (ta_raw t) = Some (ta_segment t) \<and> ta_segment t \<noteq> []"
      "truthy (map_of names raw) \<noteq> None \<longrightarrow> raw \<in> set (map ta_raw (ts @ here))"
  proof (cases "truthy (map_of names raw)")
    case None
    with 2(2) that [of "[]"] show ?thesis
      by simp
  next
    case (Some segment)
    with 2(2) that [of "if raw \<in> set (map ta_raw ts) then [] else [\<lparr>ta_raw = raw, ta_segment = segment\<rparr>]"] show ?thesis
      by simp
  qed
  from 2(1) here(2) obtain extra where "add_tools names raws (ts @ here) = (ts @ here) @ extra"
      "distinct (map ta_raw ((ts @ here) @ extra))"
      "\<forall>t\<in>set extra. map_of names (ta_raw t) = Some (ta_segment t) \<and> ta_segment t \<noteq> []"
      "\<forall>raw\<in>set raws. truthy (map_of names raw) \<noteq> None \<longrightarrow> raw \<in> set (map ta_raw ((ts @ here) @ extra))"
    unfolding here(1) by blast
  with here show ?case
    by (intro exI [of _ "here @ extra"]) auto
qed simp

text \<open>Values that were assigned before or are new and distinct stay distinct.\<close>

lemma distinct_values:
  assumes "distinct (map key (old @ extra))" and "distinct (map val old)"
    and "\<And>x. x \<in> set extra \<Longrightarrow> (key x, val x) \<in> set fresh \<and> val x \<notin> val ` set old" and "distinct (map snd fresh)"
  shows "distinct (map val (old @ extra))"
proof -
  have extra: "distinct extra" "inj_on key (set extra)"
    using assms(1) by (simp_all add: distinct_map)
  have fresh: "inj_on snd (set fresh)"
    using assms(4) by (simp add: distinct_map)
  have "inj_on val (set extra)"
  proof
    fix x y
    assume xy: "x \<in> set extra" "y \<in> set extra" "val x = val y"
    have x: "(key x, val x) \<in> set fresh" and y: "(key y, val y) \<in> set fresh"
      using assms(3) xy(1,2) by blast+
    have "(key x, val x) = (key y, val y)"
      by (rule inj_onD [OF fresh _ x y]) (simp add: xy(3))
    then have "key x = key y"
      by simp
    from inj_onD [OF extra(2) this xy(1,2)] show "x = y" .
  qed
  moreover have "val ` set old \<inter> val ` set extra = {}"
  proof (rule equals0I)
    fix v
    assume "v \<in> val ` set old \<inter> val ` set extra"
    then obtain x where x: "x \<in> set extra" "v = val x" and old: "v \<in> val ` set old"
      by blast
    from assms(3) [OF x(1)] old show False
      unfolding x(2) by (elim conjE notE)
  qed
  ultimately show ?thesis
    using assms(2) extra(1) by (simp add: distinct_map)
qed

end
