(* ===== verification/McpOps.thy ===== *)
theory McpOps
  imports McpRegistry
begin

text \<open>
  The two operations of the name registry on a valid state and on a registry: what they answer, and that they keep
  the state valid and only add to it.
\<close>

section \<open>The operations on a valid state\<close>

definition server_names :: "name_state \<Rightarrow> (string \<times> string) list" where
  "server_names st = map (\<lambda>a. (sa_key a, sa_segment a)) st"

definition tool_names :: "tool_assignment list \<Rightarrow> (string \<times> string) list" where
  "tool_names ts = map (\<lambda>t. (ta_raw t, ta_segment t)) ts"

lemma validSegment_ne: "validSegment s \<Longrightarrow> s \<noteq> []"
  by (auto simp: validSegment_def)

lemma names_keys: "map fst (server_names st) = map sa_key st" "map fst (tool_names ts) = map ta_raw ts"
  by (simp_all add: server_names_def tool_names_def o_def)

lemma valid_existing:
  assumes "valid_state st"
  shows "js_map (map (\<lambda>a. (sa_key a, sa_segment a)) st) = server_names st" "\<forall>v\<in>snd ` set (server_names st). v \<noteq> []"
    "distinct (map fst (server_names st))"
  using assms validSegment_ne
  by (auto simp: valid_state_def server_names_def o_def intro!: js_map_distinct)

lemma valid_tools_existing:
  assumes "valid_tools len ts"
  shows "js_map (map (\<lambda>t. (ta_raw t, ta_segment t)) ts) = tool_names ts" "\<forall>v\<in>snd ` set (tool_names ts). v \<noteq> []"
    "distinct (map fst (tool_names ts))"
  using assms validSegment_ne
  by (auto simp: valid_tools_def tool_names_def o_def intro!: js_map_distinct)

text \<open>What an allocation answers, over the assignments it found and those it left.\<close>

definition answers :: "string list \<Rightarrow> (string \<times> string) list \<Rightarrow> (string \<times> string) list \<Rightarrow> name_assignments \<Rightarrow> bool" where
  "answers keys before after r \<longleftrightarrow>
     distinct (map fst (na_names r @ na_errors r)) \<and> set (map fst (na_names r @ na_errors r)) = set keys \<and>
     set (na_names r) \<subseteq> set after \<and> (\<forall>k\<in>set keys. \<forall>v. (k, v) \<in> set before \<longrightarrow> (k, v) \<in> set (na_names r))"

text \<open>The part of an allocation both operations need.\<close>

lemma allocation:
  assumes "\<forall>v\<in>snd ` set existing. v \<noteq> []" and "distinct (map fst existing)"
  obtains r fresh where "allocate parse cs existing kind room = Inr r"
    "distinct (map fst (na_names r @ na_errors r))" "set (map fst (na_names r @ na_errors r)) = set (map nc_key cs)"
    "\<And>k v. (k, v) \<in> set (na_names r) \<Longrightarrow> (k, v) \<in> set existing \<or> map_of existing k = None \<and> (k, v) \<in> set fresh"
    "\<And>k v. (k, v) \<in> set fresh \<Longrightarrow> new_value existing room v" "distinct (map snd fresh)"
    "\<And>k v. k \<in> set (map nc_key cs) \<Longrightarrow> (k, v) \<in> set existing \<Longrightarrow> (k, v) \<in> set (na_names r)"
    "\<And>x. x \<in> set (na_errors r) \<Longrightarrow>
       snd x = no_room kind \<or> (\<exists>c\<in>set cs. nc_key c = fst x \<and> candidate_base kind (int room) (nc_name c) = Inl (snd x))"
proof -
  obtain r old fresh where r: "allocate parse cs existing kind room = Inr r" "na_names r = old @ fresh"
      "distinct (map fst (na_names r @ na_errors r))" "set (map fst (na_names r @ na_errors r)) = set (map nc_key cs)"
      "\<forall>(k, v)\<in>set old. map_of existing k = Some v"
      "\<forall>(k, v)\<in>set fresh. map_of existing k = None \<and> new_value existing room v" "distinct (map snd fresh)"
      "\<forall>x\<in>set (na_errors r). map_of existing (fst x) = None \<and>
         (snd x = no_room kind \<or> (\<exists>c\<in>set cs. nc_key c = fst x \<and> candidate_base kind (int room) (nc_name c) = Inl (snd x)))"
    using allocate_facts [OF assms, of parse cs kind room] by blast
  show ?thesis
  proof (rule that [OF r(1,3,4) _ _ r(7)])
    show "(k, v) \<in> set existing \<or> map_of existing k = None \<and> (k, v) \<in> set fresh" if "(k, v) \<in> set (na_names r)" for k v
      using that r(2,5,6) map_of_SomeD by fastforce
    show "new_value existing room v" if "(k, v) \<in> set fresh" for k v
      using that r(6) by blast
    show "(k, v) \<in> set (na_names r)" if "k \<in> set (map nc_key cs)" "(k, v) \<in> set existing" for k v
    proof -
      have e: "map_of existing k = Some v"
        using that(2) assms(2) by simp
      from that(1) r(4) have "k \<in> fst ` set (na_names r) \<or> k \<in> fst ` set (na_errors r)"
        by auto
      with r(8) e obtain w where w: "(k, w) \<in> set (na_names r)"
        by force
      with r(2,5,6) e have "w = v"
        by fastforce
      with w show ?thesis
        by simp
    qed
    show "snd x = no_room kind \<or> (\<exists>c\<in>set cs. nc_key c = fst x \<and> candidate_base kind (int room) (nc_name c) = Inl (snd x))"
      if "x \<in> set (na_errors r)" for x
      using that r(8) by blast
  qed
qed

lemma map_of_distinct: "distinct (map fst xs @ ys) \<Longrightarrow> map_of xs k = Some v \<longleftrightarrow> (k, v) \<in> set xs"
  by simp

lemma server_names_append: "server_names (st @ extra) = server_names st @ server_names extra"
  by (simp add: server_names_def)

lemma in_server_names: "(k, v) \<in> set (server_names st) \<longleftrightarrow> (\<exists>a\<in>set st. sa_key a = k \<and> sa_segment a = v)"
  by (auto simp: server_names_def)

lemma servers_step:
  assumes valid: "valid_state st"
  shows "\<exists>r st'. assign_servers parse cs st = Inr (r, st') \<and>
           valid_state st' \<and> grown st st' \<and> answers (map nc_key cs) (server_names st) (server_names st') r"
proof -
  let ?E = "server_names st"
  note E = valid_existing [OF valid]
  obtain r fresh where r: "allocate parse cs ?E ServerName MCP_RUNTIME_SERVER_SEGMENT_MAX_LENGTH = Inr r"
    "distinct (map fst (na_names r @ na_errors r))" "set (map fst (na_names r @ na_errors r)) = set (map nc_key cs)"
    "\<And>k v. (k, v) \<in> set (na_names r) \<Longrightarrow> (k, v) \<in> set ?E \<or> map_of ?E k = None \<and> (k, v) \<in> set fresh"
    "\<And>k v. (k, v) \<in> set fresh \<Longrightarrow> new_value ?E MCP_RUNTIME_SERVER_SEGMENT_MAX_LENGTH v" "distinct (map snd fresh)"
    "\<And>k v. k \<in> set (map nc_key cs) \<Longrightarrow> (k, v) \<in> set ?E \<Longrightarrow> (k, v) \<in> set (na_names r)"
    using allocation [OF E(2,3), of parse cs ServerName MCP_RUNTIME_SERVER_SEGMENT_MAX_LENGTH] by metis
  have st: "distinct (map sa_key st)" "distinct (map sa_segment st)"
    using valid by (simp_all add: valid_state_def)
  obtain extra where extra: "add_servers (na_names r) cs st = st @ extra" "distinct (map sa_key (st @ extra))"
      "\<forall>a\<in>set extra. map_of (na_names r) (sa_key a) = Some (sa_segment a) \<and> sa_segment a \<noteq> [] \<and> sa_tools a = []"
      "\<forall>c\<in>set cs. truthy (map_of (na_names r) (nc_key c)) \<noteq> None \<longrightarrow> nc_key c \<in> set (map sa_key (st @ extra))"
    using add_servers_facts [OF st(1), of "na_names r" cs] by blast
  have new: "(sa_key a, sa_segment a) \<in> set fresh" "new_value ?E MCP_RUNTIME_SERVER_SEGMENT_MAX_LENGTH (sa_segment a)"
    if a: "a \<in> set extra" for a
  proof -
    from a extra(3) have "(sa_key a, sa_segment a) \<in> set (na_names r)"
      by (simp add: map_of_SomeD)
    moreover have "sa_key a \<notin> sa_key ` set st"
      using extra(2) a by auto
    then have "(sa_key a, sa_segment a) \<notin> set ?E"
      unfolding in_server_names by (metis imageI)
    ultimately show "(sa_key a, sa_segment a) \<in> set fresh"
      using r(4) by blast
    then show "new_value ?E MCP_RUNTIME_SERVER_SEGMENT_MAX_LENGTH (sa_segment a)"
      by (rule r(5))
  qed
  have "snd ` set ?E = sa_segment ` set st"
    by (simp add: server_names_def image_image)
  with new have fresh: "(sa_key a, sa_segment a) \<in> set fresh \<and> sa_segment a \<notin> sa_segment ` set st" if "a \<in> set extra" for a
    using that by (auto simp: new_value_def)
  have "distinct (map sa_segment (st @ extra))"
    by (rule distinct_values [OF extra(2) st(2) fresh r(6)])
  moreover have "validSegment (sa_segment a) \<and> length (sa_segment a) \<le> MCP_RUNTIME_SERVER_SEGMENT_MAX_LENGTH \<and>
      valid_tools (length (sa_segment a)) (sa_tools a)" if "a \<in> set extra" for a
    using new(2) [OF that] extra(3) that by (auto simp: new_value_def valid_tools_def)
  ultimately have "valid_state (st @ extra)"
    using valid extra(2) unfolding valid_state_def set_append by blast
  moreover have "answers (map nc_key cs) ?E (server_names (st @ extra)) r"
    unfolding answers_def
  proof (intro conjI ballI allI impI)
    show "set (na_names r) \<subseteq> set (server_names (st @ extra))"
    proof
      fix x
      assume x: "x \<in> set (na_names r)"
      obtain k v where kv: "x = (k, v)"
        by fastforce
      have "(k, v) \<in> set ?E \<or> map_of ?E k = None \<and> (k, v) \<in> set fresh"
        using r(4) [of k v] x unfolding kv .
      then consider "(k, v) \<in> set ?E" | "map_of ?E k = None" "(k, v) \<in> set fresh"
        by (elim disjE conjE)
      then show "x \<in> set (server_names (st @ extra))"
      proof cases
        case 1
        with kv show ?thesis
          by (simp add: server_names_append)
      next
        case 2
        have name: "map_of (na_names r) k = Some v"
          using x kv r(2) by simp
        have "v \<noteq> []"
          using r(5) [OF 2(2)] validSegment_ne by (auto simp: new_value_def)
        moreover obtain c where "c \<in> set cs" "nc_key c = k"
          using r(3) x kv by force
        ultimately have "k \<in> set (map sa_key (st @ extra))"
          using extra(4) name by auto
        moreover have "k \<notin> set (map sa_key st)"
          using 2(1) by (simp add: map_of_eq_None_iff names_keys flip: set_map)
        ultimately obtain a where "a \<in> set extra" "sa_key a = k"
          by auto
        with extra(3) name kv show ?thesis
          by (auto simp: in_server_names)
      qed
    qed
  qed (use r(2,3,7) in auto)
  ultimately show ?thesis
    using r(1) extra(1) by (simp add: assign_servers_def E(1) unassignable_def grown_append)
qed


lemma update_server_split:
  "List.find (\<lambda>a. sa_key a = k) st = Some server \<Longrightarrow>
     \<exists>pre post. st = pre @ server # post \<and> sa_key server = k \<and> update_server k f st = pre @ f server # post"
proof (induction st)
  case (Cons a st)
  show ?case
  proof (cases "sa_key a = k")
    case True
    with Cons(2) have "a = server"
      by simp
    with True show ?thesis
      by (intro exI [of _ "[]"] exI [of _ st]) simp
  next
    case False
    with Cons obtain pre post where "st = pre @ server # post" "sa_key server = k" "update_server k f st = pre @ f server # post"
      by auto
    with False show ?thesis
      by (intro exI [of _ "a # pre"] exI [of _ post]) simp
  qed
qed simp

lemma in_tool_names: "(k, v) \<in> set (tool_names ts) \<longleftrightarrow> (\<exists>t\<in>set ts. ta_raw t = k \<and> ta_segment t = v)"
  by (auto simp: tool_names_def)

lemma tool_names_append: "tool_names (ts @ extra) = tool_names ts @ tool_names extra"
  by (simp add: tool_names_def)

definition tool_room :: "string \<Rightarrow> nat" where
  "tool_room segment = MCP_RUNTIME_TOOL_NAME_MAX_LENGTH - 7 - length segment"

lemma tools_added:
  assumes valid: "valid_tools (length segment) ts" and segment: "length segment \<le> MCP_RUNTIME_SERVER_SEGMENT_MAX_LENGTH"
  shows "\<exists>r ts'. allocate parse (map (\<lambda>name. \<lparr>nc_key = name, nc_name = name\<rparr>) raws)
             (js_map (map (\<lambda>t. (ta_raw t, ta_segment t)) ts)) ToolName (tool_room segment) = Inr r \<and>
           add_tools (na_names r) raws ts = ts @ ts' \<and> valid_tools (length segment) (ts @ ts') \<and>
           answers raws (tool_names ts) (tool_names (ts @ ts')) r"
proof -
  let ?E = "tool_names ts" and ?cs = "map (\<lambda>name. \<lparr>nc_key = name, nc_name = name\<rparr>) raws"
  note E = valid_tools_existing [OF valid]
  have keys: "set (map nc_key ?cs) = set raws"
    by (simp add: image_image)
  obtain r fresh where r: "allocate parse ?cs ?E ToolName (tool_room segment) = Inr r"
    "distinct (map fst (na_names r @ na_errors r))" "set (map fst (na_names r @ na_errors r)) = set raws"
    "\<And>k v. (k, v) \<in> set (na_names r) \<Longrightarrow> (k, v) \<in> set ?E \<or> map_of ?E k = None \<and> (k, v) \<in> set fresh"
    "\<And>k v. (k, v) \<in> set fresh \<Longrightarrow> new_value ?E (tool_room segment) v" "distinct (map snd fresh)"
    "\<And>k v. k \<in> set raws \<Longrightarrow> (k, v) \<in> set ?E \<Longrightarrow> (k, v) \<in> set (na_names r)"
    by (rule allocation [OF E(2,3), of parse ?cs ToolName "tool_room segment", unfolded keys]) (rule that; blast)
  have ts: "distinct (map ta_raw ts)" "distinct (map ta_segment ts)"
    using valid by (simp_all add: valid_tools_def)
  obtain extra where extra: "add_tools (na_names r) raws ts = ts @ extra" "distinct (map ta_raw (ts @ extra))"
      "\<forall>t\<in>set extra. map_of (na_names r) (ta_raw t) = Some (ta_segment t) \<and> ta_segment t \<noteq> []"
      "\<forall>raw\<in>set raws. truthy (map_of (na_names r) raw) \<noteq> None \<longrightarrow> raw \<in> set (map ta_raw (ts @ extra))"
    using add_tools_facts [OF ts(1), of "na_names r" raws] by blast
  have new: "(ta_raw t, ta_segment t) \<in> set fresh" "new_value ?E (tool_room segment) (ta_segment t)"
    if t: "t \<in> set extra" for t
  proof -
    from t extra(3) have "(ta_raw t, ta_segment t) \<in> set (na_names r)"
      by (simp add: map_of_SomeD)
    moreover have "ta_raw t \<notin> ta_raw ` set ts"
      using extra(2) t by auto
    then have "(ta_raw t, ta_segment t) \<notin> set ?E"
      unfolding in_tool_names by (metis imageI)
    ultimately show "(ta_raw t, ta_segment t) \<in> set fresh"
      using r(4) by blast
    then show "new_value ?E (tool_room segment) (ta_segment t)"
      by (rule r(5))
  qed
  have "snd ` set ?E = ta_segment ` set ts"
    by (simp add: tool_names_def image_image)
  with new have fresh: "(ta_raw t, ta_segment t) \<in> set fresh \<and> ta_segment t \<notin> ta_segment ` set ts" if "t \<in> set extra" for t
    using that by (auto simp: new_value_def)
  have "distinct (map ta_segment (ts @ extra))"
    by (rule distinct_values [OF extra(2) ts(2) fresh r(6)])
  moreover have "validSegment (ta_segment t) \<and> length (ta_segment t) + length segment + 7 \<le> MCP_RUNTIME_TOOL_NAME_MAX_LENGTH"
    if "t \<in> set extra" for t
    using new(2) [OF that] segment
    by (auto simp: new_value_def tool_room_def MCP_RUNTIME_TOOL_NAME_MAX_LENGTH_def MCP_RUNTIME_SERVER_SEGMENT_MAX_LENGTH_def)
  ultimately have "valid_tools (length segment) (ts @ extra)"
    using valid extra(2) unfolding valid_tools_def set_append by blast
  moreover have "answers raws ?E (tool_names (ts @ extra)) r"
    unfolding answers_def
  proof (intro conjI ballI allI impI)
    show "set (na_names r) \<subseteq> set (tool_names (ts @ extra))"
    proof
      fix x
      assume x: "x \<in> set (na_names r)"
      obtain k v where kv: "x = (k, v)"
        by fastforce
      have "(k, v) \<in> set ?E \<or> map_of ?E k = None \<and> (k, v) \<in> set fresh"
        using r(4) [of k v] x unfolding kv .
      then consider "(k, v) \<in> set ?E" | "map_of ?E k = None" "(k, v) \<in> set fresh"
        by (elim disjE conjE)
      then show "x \<in> set (tool_names (ts @ extra))"
      proof cases
        case 1
        with kv show ?thesis
          by (simp add: tool_names_append)
      next
        case 2
        have name: "map_of (na_names r) k = Some v"
          using x kv r(2) by simp
        have "v \<noteq> []"
          using r(5) [OF 2(2)] validSegment_ne by (auto simp: new_value_def)
        moreover have "k \<in> set raws"
          using r(3) x kv by force
        ultimately have "k \<in> set (map ta_raw (ts @ extra))"
          using extra(4) name by auto
        moreover have "k \<notin> set (map ta_raw ts)"
          using 2(1) by (simp add: map_of_eq_None_iff names_keys flip: set_map)
        ultimately obtain t where "t \<in> set extra" "ta_raw t = k"
          by auto
        with extra(3) name kv show ?thesis
          by (auto simp: in_tool_names)
      qed
    qed
  qed (use r(2,3,7) in auto)
  ultimately show ?thesis
    unfolding E(1) using r(1) extra(1) by blast
qed

section \<open>The registry\<close>

lemma transaction_stores:
  assumes "load_state rg = Inr st" and "run st = Inr (r, st')" and "valid_state st'"
  shows "\<exists>rg'. name_transaction run rg = (Inr r, rg') \<and> load_state rg' = Inr st' \<and> nr_onDisk rg' = nr_onDisk rg"
proof (cases "nr_onDisk rg \<and> st' \<noteq> st")
  case True
  with assms show ?thesis
    by (simp add: name_transaction_def load_state_def parse_written)
next
  case False
  with assms show ?thesis
    by (auto simp: name_transaction_def load_state_def split: option.splits)
qed

lemma transaction_refuses:
  assumes "load_state rg = Inr st" and "run st = Inl e"
  shows "\<exists>rg'. name_transaction run rg = (Inl e, rg') \<and> load_state rg' = Inr st \<and> nr_onDisk rg' = nr_onDisk rg"
  using assms by (auto simp: name_transaction_def load_state_def)

lemma assignServers_ok:
  assumes "load_state rg = Inr st" and "valid_state st"
  shows "\<exists>r rg' st'. assignServers parse cs rg = (Inr r, rg') \<and> load_state rg' = Inr st' \<and> valid_state st' \<and> grown st st' \<and>
    nr_onDisk rg' = nr_onDisk rg \<and> answers (map nc_key cs) (server_names st) (server_names st') r"
proof -
  obtain r st' where run: "assign_servers parse cs st = Inr (r, st')" "valid_state st'" "grown st st'"
      "answers (map nc_key cs) (server_names st) (server_names st') r"
    using servers_step [OF assms(2), of parse cs] by (elim exE conjE)
  from transaction_stores [where run = "assign_servers parse cs", OF assms(1) run(1,2)] run(2-4) show ?thesis
    unfolding assignServers_def by blast
qed

lemma assignTools_ok:
  assumes "load_state rg = Inr st" and "valid_state st"
  shows "case List.find (\<lambda>a. sa_key a = key) st of
      None \<Rightarrow> \<exists>rg'. assignTools parse key raws rg = (Inl NotAllocated, rg') \<and> load_state rg' = Inr st
    | Some server \<Rightarrow> \<exists>r rg' pre post ts'. assignTools parse key raws rg = (Inr (public_names (sa_segment server) r), rg') \<and>
        st = pre @ server # post \<and> sa_key server = key \<and>
        load_state rg' = Inr (pre @ server\<lparr>sa_tools := sa_tools server @ ts'\<rparr> # post) \<and>
        valid_state (pre @ server\<lparr>sa_tools := sa_tools server @ ts'\<rparr> # post) \<and>
        answers raws (tool_names (sa_tools server)) (tool_names (sa_tools server @ ts')) r"
proof (cases "List.find (\<lambda>a. sa_key a = key) st")
  case None
  then have "assign_tools parse key raws st = Inl NotAllocated"
    by (simp add: assign_tools_def)
  from transaction_refuses [where run = "assign_tools parse key raws", OF assms(1) this] None show ?thesis
    unfolding assignTools_def by auto
next
  case (Some server)
  then have "server \<in> set st"
    using find_SomeD by fastforce
  then have server: "valid_tools (length (sa_segment server)) (sa_tools server)"
      "length (sa_segment server) \<le> MCP_RUNTIME_SERVER_SEGMENT_MAX_LENGTH"
    using assms(2) by (simp_all add: valid_state_def)
  obtain r ts' where t: "allocate parse (map (\<lambda>name. \<lparr>nc_key = name, nc_name = name\<rparr>) raws)
      (js_map (map (\<lambda>t. (ta_raw t, ta_segment t)) (sa_tools server))) ToolName (tool_room (sa_segment server)) = Inr r"
      "add_tools (na_names r) raws (sa_tools server) = sa_tools server @ ts'"
      "valid_tools (length (sa_segment server)) (sa_tools server @ ts')"
      "answers raws (tool_names (sa_tools server)) (tool_names (sa_tools server @ ts')) r"
    using tools_added [OF server, of parse raws] by (elim exE conjE)
  let ?add = "\<lambda>a. a\<lparr>sa_tools := add_tools (na_names r) raws (sa_tools a)\<rparr>"
  obtain pre post where st: "st = pre @ server # post" "sa_key server = key" "update_server key ?add st = pre @ ?add server # post"
    using update_server_split [OF Some, of ?add] by blast
  have new: "valid_state (pre @ server\<lparr>sa_tools := sa_tools server @ ts'\<rparr> # post)"
    using assms(2) t(3) unfolding st(1) valid_state_def by auto
  from t(2) st(3) have upd: "update_server key ?add st = pre @ server\<lparr>sa_tools := sa_tools server @ ts'\<rparr> # post"
    by simp
  have run: "assign_tools parse key raws st = Inr (public_names (sa_segment server) r, pre @ server\<lparr>sa_tools := sa_tools server @ ts'\<rparr> # post)"
    using t(1) upd by (simp add: assign_tools_def Some unassignable_def tool_room_def)
  obtain rg' where "assignTools parse key raws rg = (Inr (public_names (sa_segment server) r), rg')"
      "load_state rg' = Inr (pre @ server\<lparr>sa_tools := sa_tools server @ ts'\<rparr> # post)"
    using transaction_stores [where run = "assign_tools parse key raws", OF assms(1) run new] unfolding assignTools_def
    by (elim exE conjE)
  with st t(4) new show ?thesis
    unfolding Some option.case by (intro exI conjI)
qed

end
