(* ===== verification/PermTypes.thy ===== *)
theory PermTypes
  imports Prelude
begin

text \<open>
  The types of the permission system (\<open>agent-modules/permission/src/types.ts\<close>) and the permission context
  (\<open>context.ts\<close>): rules, decisions and their reasons, the answers of a tool checker, the context a check reads
  and its updates. Freezing and logging have no effect on the values. A set of tool names is a list.
\<close>

section \<open>Rules\<close>

datatype permission_behavior = Allow | Deny | Ask

datatype permission_mode = ModeDefault | AcceptEdits | BypassPermissions | ModeAuto | DontAsk | ModeOff

datatype rule_action = ActRead | ActWrite | ActDelete | ActExecute | ActNetwork

datatype rule_matcher = MatchTool | MatchCommand string | MatchPath string "rule_action list option"

record rule_value =
  rv_toolName :: string
  rv_ruleContent :: "string option"
  rv_matcher :: "rule_matcher option"

datatype rule_source = SrcGlobal | SrcAgent | SrcSession

record permission_rule =
  pr_source :: rule_source
  pr_behavior :: permission_behavior
  pr_value :: rule_value

section \<open>Decisions\<close>

datatype decision_reason =
  ByRule permission_rule
| SafetyCheck string "bool option" "string option"
| WorkingDirectory string
| InternalWhitelist string
| TrustedExactWrite string
| TempDirectory string
| BySandbox
| ByMode permission_mode
| PathValidation string
| DangerousRemoval string
| SubcommandResults "(string \<times> permission_behavior \<times> decision_reason) list"
| RmRewrite string
| RecoverableDeleteRewrite "string list"

datatype scope_kind = ScopeNarrow | ScopeFirstWord | ScopeArgvPrefix2 | ScopeDomain | ScopeWholeTool

record candidate_scope =
  cs_kind :: scope_kind
  cs_ruleContent :: string
  cs_labelKey :: string
  cs_labelParams :: "(string \<times> string) list option"

record candidate_scope_group =
  cg_subjectDisplay :: string
  cg_candidates :: "candidate_scope list"

record permission_decision =
  pd_behavior :: permission_behavior
  pd_reason :: decision_reason
  pd_ruleContents :: "string list option"
  pd_ruleMatchers :: "rule_matcher list option"
  pd_candidateScopes :: "candidate_scope_group list option"
  pd_rewrittenInput :: "js_object option"
  pd_bypassImmune :: "bool option"
  pd_skipAutoClassifier :: "bool option"

definition decide :: "permission_behavior \<Rightarrow> decision_reason \<Rightarrow> permission_decision" where
  "decide b r =
     \<lparr>pd_behavior = b, pd_reason = r, pd_ruleContents = None, pd_ruleMatchers = None, pd_candidateScopes = None,
      pd_rewrittenInput = None, pd_bypassImmune = None, pd_skipAutoClassifier = None\<rparr>"

text \<open>What a tool checker answers; \<open>Passthrough\<close> is no opinion.\<close>

datatype check_behavior = Recommend permission_behavior | Passthrough

record tool_check_result =
  tc_behavior :: check_behavior
  tc_reason :: decision_reason
  tc_bypassImmune :: "bool option"
  tc_skipAutoClassifier :: "bool option"
  tc_ruleContents :: "string list option"
  tc_ruleMatchers :: "rule_matcher list option"
  tc_candidateScopes :: "candidate_scope_group list option"
  tc_rewrittenInput :: "js_object option"

section \<open>The context\<close>

datatype shell_family = Posix | Cmd | PowerShell | UnknownShell

record permission_context =
  cx_mode :: permission_mode
  cx_rules :: "permission_rule list"
  cx_sandboxEnabled :: bool
  cx_autoAllowBashIfSandboxed :: bool
  cx_platform :: string
  cx_shellFamily :: shell_family
  cx_workingDirectory :: string
  cx_allowedWorkingPaths :: "string list"
  cx_sandboxAllowPaths :: "string list"
  cx_trustedExactWritePaths :: "string list"
  cx_dataDir :: string
  cx_homeDir :: string
  cx_isFile :: "(string \<Rightarrow> bool) option"
  cx_agentName :: "string option"
  cx_sessionId :: "string option"
  cx_allowManagedPermissionRulesOnly :: bool
  cx_interactiveTools :: "string list"

record context_config =
  cc_mode :: "permission_mode option"
  cc_rules :: "permission_rule list option"
  cc_sandboxEnabled :: "bool option"
  cc_autoAllowBashIfSandboxed :: "bool option"
  cc_platform :: "string option"
  cc_shellFamily :: "shell_family option"
  cc_workingDirectory :: string
  cc_allowedWorkingPaths :: "string list option"
  cc_sandboxAllowPaths :: "string list option"
  cc_trustedExactWritePaths :: "string list option"
  cc_dataDir :: string
  cc_homeDir :: string
  cc_isFile :: "(string \<Rightarrow> bool) option"
  cc_agentName :: "string option"
  cc_sessionId :: "string option"
  cc_allowManagedPermissionRulesOnly :: "bool option"
  cc_interactiveTools :: "string list option"

text \<open>The operator \<open>??\<close>.\<close>

definition or_else :: "'a option \<Rightarrow> 'a \<Rightarrow> 'a" where
  "or_else x d = (case x of None \<Rightarrow> d | Some y \<Rightarrow> y)"

lemma or_else_simps [simp]: "or_else None d = d" "or_else (Some y) d = y"
  by (simp_all add: or_else_def)

definition createToolPermissionContext :: "string \<Rightarrow> context_config \<Rightarrow> permission_context" where
  "createToolPermissionContext processPlatform c =
     \<lparr>cx_mode = or_else (cc_mode c) ModeDefault,
      cx_rules = or_else (cc_rules c) [],
      cx_sandboxEnabled = or_else (cc_sandboxEnabled c) False,
      cx_autoAllowBashIfSandboxed = or_else (cc_autoAllowBashIfSandboxed c) False,
      cx_platform = or_else (cc_platform c) processPlatform,
      cx_shellFamily = or_else (cc_shellFamily c) UnknownShell,
      cx_workingDirectory = cc_workingDirectory c,
      cx_allowedWorkingPaths = or_else (cc_allowedWorkingPaths c) [],
      cx_sandboxAllowPaths = or_else (cc_sandboxAllowPaths c) [],
      cx_trustedExactWritePaths = or_else (cc_trustedExactWritePaths c) [],
      cx_dataDir = cc_dataDir c,
      cx_homeDir = cc_homeDir c,
      cx_isFile = cc_isFile c,
      cx_agentName = cc_agentName c,
      cx_sessionId = cc_sessionId c,
      cx_allowManagedPermissionRulesOnly = or_else (cc_allowManagedPermissionRulesOnly c) False,
      cx_interactiveTools = or_else (cc_interactiveTools c) [''question'']\<rparr>"

section \<open>Updates of the rules\<close>

datatype permission_update =
  AddRules rule_source string "rule_value list" permission_behavior
| ReplaceRules rule_source string "rule_value list" permission_behavior
| RemoveRules rule_source string "rule_value list" permission_behavior

text \<open>Two optional values compared with \<open>===\<close> where at least one may be missing: arrays are never identical.\<close>

definition actions_equal :: "rule_action list option \<Rightarrow> rule_action list option \<Rightarrow> bool" where
  "actions_equal a b =
     (case (a, b) of
        (Some xs, Some ys) \<Rightarrow> length xs = length ys \<and> list_all (\<lambda>x. x \<in> set ys) xs
      | (None, None) \<Rightarrow> True
      | _ \<Rightarrow> False)"

definition matchers_equal :: "rule_matcher \<Rightarrow> rule_matcher \<Rightarrow> bool" where
  "matchers_equal a b =
     (case (a, b) of
        (MatchTool, MatchTool) \<Rightarrow> True
      | (MatchCommand p, MatchCommand q) \<Rightarrow> p = q
      | (MatchPath p xs, MatchPath q ys) \<Rightarrow> p = q \<and> actions_equal xs ys
      | _ \<Rightarrow> False)"

definition ruleValueEquals :: "rule_value \<Rightarrow> rule_value \<Rightarrow> bool" where
  "ruleValueEquals a b \<longleftrightarrow>
     rv_toolName a = rv_toolName b \<and> or_else (rv_ruleContent a) [] = or_else (rv_ruleContent b) [] \<and>
     (case (rv_matcher a, rv_matcher b) of
        (Some m, Some n) \<Rightarrow> matchers_equal m n
      | (None, None) \<Rightarrow> True
      | _ \<Rightarrow> False)"

fun add_values ::
  "rule_source \<Rightarrow> permission_behavior \<Rightarrow> rule_value list \<Rightarrow> permission_rule list \<Rightarrow> permission_rule list" where
  "add_values source b [] existing = existing"
| "add_values source b (v # vs) existing =
     add_values source b vs
       (if list_ex (\<lambda>r. pr_source r = source \<and> pr_behavior r = b \<and> ruleValueEquals (pr_value r) v) existing then existing
        else existing @ [\<lparr>pr_source = source, pr_behavior = b, pr_value = v\<rparr>])"

definition addRules ::
  "permission_context \<Rightarrow> rule_source \<Rightarrow> rule_value list \<Rightarrow> permission_behavior \<Rightarrow> permission_context" where
  "addRules c source values b = c\<lparr>cx_rules := add_values source b values (cx_rules c)\<rparr>"

definition replaceRules ::
  "permission_context \<Rightarrow> rule_source \<Rightarrow> rule_value list \<Rightarrow> permission_behavior \<Rightarrow> permission_context" where
  "replaceRules c source values b =
     c\<lparr>cx_rules := filter (\<lambda>r. \<not> (pr_source r = source \<and> pr_behavior r = b)) (cx_rules c) @
       map (\<lambda>v. \<lparr>pr_source = source, pr_behavior = b, pr_value = v\<rparr>) values\<rparr>"

definition removeRules ::
  "permission_context \<Rightarrow> rule_source \<Rightarrow> rule_value list \<Rightarrow> permission_behavior \<Rightarrow> permission_context" where
  "removeRules c source values b =
     c\<lparr>cx_rules := filter (\<lambda>r. pr_source r \<noteq> source \<or> pr_behavior r \<noteq> b \<or>
       \<not> list_ex (\<lambda>v. ruleValueEquals (pr_value r) v) values) (cx_rules c)\<rparr>"

fun applyPermissionUpdate :: "permission_context \<Rightarrow> permission_update \<Rightarrow> permission_context" where
  "applyPermissionUpdate c (AddRules source _ values b) = addRules c source values b"
| "applyPermissionUpdate c (ReplaceRules source _ values b) = replaceRules c source values b"
| "applyPermissionUpdate c (RemoveRules source _ values b) = removeRules c source values b"

section \<open>Queries\<close>

definition hasWholeToolRule :: "permission_context \<Rightarrow> string \<Rightarrow> permission_behavior \<Rightarrow> permission_rule option" where
  "hasWholeToolRule c toolName b =
     List.find (\<lambda>r. rv_toolName (pr_value r) = toolName \<and> pr_behavior r = b \<and> truthy (rv_ruleContent (pr_value r)) = None)
       (cx_rules c)"

definition getContentRulesForTool :: "permission_context \<Rightarrow> string \<Rightarrow> permission_behavior \<Rightarrow> permission_rule list" where
  "getContentRulesForTool c toolName b =
     filter (\<lambda>r. rv_toolName (pr_value r) = toolName \<and> pr_behavior r = b \<and> rv_ruleContent (pr_value r) \<noteq> None) (cx_rules c)"

definition isBypassMode :: "permission_context \<Rightarrow> bool" where
  "isBypassMode c \<longleftrightarrow> cx_mode c = BypassPermissions"

definition isInteractiveTool :: "permission_context \<Rightarrow> string \<Rightarrow> bool" where
  "isInteractiveTool c toolName \<longleftrightarrow> toolName \<in> set (cx_interactiveTools c)"

end
