(* ===== verification/PermCore.thy ===== *)
theory PermCore
  imports PermTypes
begin

text \<open>
  The policy reducer of the permission core (\<open>permission-core.ts\<close>) and the names of MCP tools
  (\<open>mcp-runtime-name.ts\<close>).
\<close>

section \<open>Names of MCP tools\<close>

definition MCP_SEGMENT_SEPARATOR :: string where "MCP_SEGMENT_SEPARATOR = ''__''"

definition starts_with :: "string \<Rightarrow> string \<Rightarrow> bool" where
  "starts_with s p \<longleftrightarrow> take (length p) s = p"

text \<open>\<open>text.split('__')\<close>: the separators are found from the left and do not overlap.\<close>

fun split_mcp :: "string \<Rightarrow> string \<Rightarrow> string list" where
  "split_mcp [] part = [rev part]"
| "split_mcp [c] part = [rev (c # part)]"
| "split_mcp (c # d # s) part =
     (if c = CHR ''_'' \<and> d = CHR ''_'' then rev part # split_mcp s [] else split_mcp (d # s) (c # part))"

definition matchesMcpServerRuntimeName :: "string \<Rightarrow> string \<Rightarrow> bool" where
  "matchesMcpServerRuntimeName toolRuntimeName serverRuntimeName =
     (case (split_mcp toolRuntimeName [], split_mcp serverRuntimeName []) of
        ([a, server, tool], [b, server']) \<Rightarrow>
          a = ''mcp'' \<and> b = ''mcp'' \<and> server \<noteq> [] \<and> tool \<noteq> [] \<and> server = server'
      | _ \<Rightarrow> False)"

section \<open>What the rules are matched against\<close>

definition js_str :: "js \<Rightarrow> string option" where
  "js_str v = (case v of JStr s \<Rightarrow> Some s | _ \<Rightarrow> None)"

fun first_some :: "'a option list \<Rightarrow> 'a option" where
  "first_some [] = None"
| "first_some (x # xs) = (case x of None \<Rightarrow> first_some xs | Some y \<Rightarrow> Some y)"

definition extractToolInputContent :: "string \<Rightarrow> js_object \<Rightarrow> string option" where
  "extractToolInputContent toolName input =
     (if toolName = ''bash'' then js_str (js_get input ''command'')
      else if toolName \<in> set [''edit'', ''write'', ''read'', ''glob'']
      then first_some [js_str (js_get input ''filePath''), js_str (js_get input ''path''), js_str (js_get input ''pattern'')]
      else first_some [js_str (js_get input ''command''), js_str (js_get input ''url'')])"

text \<open>\<open>text.includes(part)\<close>.\<close>

fun js_includes :: "string \<Rightarrow> string \<Rightarrow> bool" where
  "js_includes [] part = (part = [])"
| "js_includes (c # s) part = (starts_with (c # s) part \<or> js_includes s part)"

definition matchesContentAskRule :: "string \<Rightarrow> js_object \<Rightarrow> permission_context \<Rightarrow> permission_rule option" where
  "matchesContentAskRule toolName input c =
     (case truthy (extractToolInputContent toolName input) of
        None \<Rightarrow> None
      | Some content \<Rightarrow>
          List.find (\<lambda>r. case truthy (rv_ruleContent (pr_value r)) of None \<Rightarrow> False | Some part \<Rightarrow> js_includes content part)
            (getContentRulesForTool c toolName Ask))"

definition findMcpServerRule :: "string \<Rightarrow> permission_context \<Rightarrow> permission_behavior \<Rightarrow> permission_rule option" where
  "findMcpServerRule toolName c b =
     (if \<not> starts_with toolName ''mcp__'' then None
      else List.find (\<lambda>r. pr_behavior r = b \<and> truthy (rv_ruleContent (pr_value r)) = None \<and>
             matchesMcpServerRuntimeName toolName (rv_toolName (pr_value r))) (cx_rules c))"

section \<open>What an ask card shows\<close>

text \<open>\<open>array?.length\<close> as a condition: the array is there and not empty.\<close>

definition non_empty_list :: "'a list option \<Rightarrow> bool" where
  "non_empty_list xs \<longleftrightarrow> (case xs of None \<Rightarrow> False | Some ys \<Rightarrow> ys \<noteq> [])"

definition checker_contents :: "tool_check_result option \<Rightarrow> string list option" where
  "checker_contents r = (case Option.bind r tc_ruleContents of Some (x # xs) \<Rightarrow> Some (x # xs) | _ \<Rightarrow> None)"

definition resolveRuleContents :: "string \<Rightarrow> js_object \<Rightarrow> tool_check_result option \<Rightarrow> string list option" where
  "resolveRuleContents toolName input r =
     (case checker_contents r of
        Some xs \<Rightarrow> Some xs
      | None \<Rightarrow> map_option (\<lambda>content. [content]) (truthy (extractToolInputContent toolName input)))"

definition resolveCandidateScopes :: "tool_check_result option \<Rightarrow> candidate_scope_group list option" where
  "resolveCandidateScopes r =
     (if checker_contents r = None then None
      else case Option.bind r tc_candidateScopes of Some (x # xs) \<Rightarrow> Some (x # xs) | _ \<Rightarrow> None)"

definition resolveRuleMatchers :: "tool_check_result option \<Rightarrow> rule_matcher list option" where
  "resolveRuleMatchers r =
     (case (checker_contents r, Option.bind r tc_ruleMatchers) of
        (Some contents, Some matchers) \<Rightarrow> if length matchers = length contents then Some matchers else None
      | _ \<Rightarrow> None)"

section \<open>The reducer\<close>

record core_input =
  ci_toolName :: string
  ci_input :: js_object
  ci_context :: permission_context
  ci_checkerRegistered :: bool
  ci_checkerResult :: "tool_check_result option"
  ci_checkerError :: "string option"

definition checker_says :: "permission_behavior \<Rightarrow> tool_check_result option \<Rightarrow> bool" where
  "checker_says b r \<longleftrightarrow> (case r of None \<Rightarrow> False | Some r \<Rightarrow> tc_behavior r = Recommend b)"

definition rewritten :: "tool_check_result option \<Rightarrow> js_object option" where
  "rewritten r = Option.bind r tc_rewrittenInput"

definition ask_with :: "decision_reason \<Rightarrow> string \<Rightarrow> js_object \<Rightarrow> tool_check_result option \<Rightarrow> permission_decision" where
  "ask_with reason toolName input r =
     (decide Ask reason)\<lparr>pd_ruleContents := resolveRuleContents toolName input r,
       pd_ruleMatchers := resolveRuleMatchers r, pd_candidateScopes := resolveCandidateScopes r\<rparr>"

definition sandboxBypassesAsk :: "string \<Rightarrow> permission_context \<Rightarrow> bool" where
  "sandboxBypassesAsk toolName c \<longleftrightarrow> toolName = ''bash'' \<and> cx_sandboxEnabled c \<and> cx_autoAllowBashIfSandboxed c"

definition or_rule :: "'a option \<Rightarrow> 'a option \<Rightarrow> 'a option" where
  "or_rule a b = (case a of None \<Rightarrow> b | Some x \<Rightarrow> Some x)"

definition is_true :: "bool option \<Rightarrow> bool" where
  "is_true b \<longleftrightarrow> b = Some True"

definition unregistered_text :: "string \<Rightarrow> string" where
  "unregistered_text toolName =
     ''No permission checker registered for tool \"'' @ toolName @ ''\", allowing by default''"

definition interactive_text :: "string \<Rightarrow> string" where
  "interactive_text toolName = ''Tool \"'' @ toolName @ ''\" requires user interaction''"

definition unmatched_text :: "string \<Rightarrow> string" where
  "unmatched_text toolName = ''No permission rule matched for tool \"'' @ toolName @ ''\"''"

text \<open>The tests in the order of the code; each \<open>else\<close> is an early return that was not taken.\<close>

definition reducePermissionDecision :: "core_input \<Rightarrow> permission_decision" where
  "reducePermissionDecision ci =
     (let toolName = ci_toolName ci; input = ci_input ci; c = ci_context ci; r = ci_checkerResult ci in
      case or_rule (hasWholeToolRule c toolName Deny) (findMcpServerRule toolName c Deny) of
        Some rule \<Rightarrow> decide Deny (ByRule rule)
      | None \<Rightarrow>
      if checker_says Deny r then decide Deny (tc_reason (the r))
      else case (if sandboxBypassesAsk toolName c then None else hasWholeToolRule c toolName Ask) of
        Some rule \<Rightarrow> (ask_with (ByRule rule) toolName input r)\<lparr>pd_rewrittenInput := rewritten r\<rparr>
      | None \<Rightarrow>
      case findMcpServerRule toolName c Ask of
        Some rule \<Rightarrow> (decide Ask (ByRule rule))\<lparr>pd_ruleContents := resolveRuleContents toolName input None\<rparr>
      | None \<Rightarrow>
      case truthy (ci_checkerError ci) of
        Some message \<Rightarrow>
          (decide Ask (SafetyCheck (''Tool checker error: '' @ message) None None))
            \<lparr>pd_ruleContents := resolveRuleContents toolName input None\<rparr>
      | None \<Rightarrow>
      if isInteractiveTool c toolName then ask_with (SafetyCheck (interactive_text toolName) None None) toolName input r
      else if checker_says Ask r \<and> is_true (tc_bypassImmune (the r))
      then (ask_with (tc_reason (the r)) toolName input r)
             \<lparr>pd_bypassImmune := Some True, pd_skipAutoClassifier := tc_skipAutoClassifier (the r)\<rparr>
      else case matchesContentAskRule toolName input c of
        Some rule \<Rightarrow> (ask_with (ByRule rule) toolName input r)\<lparr>pd_rewrittenInput := rewritten r\<rparr>
      | None \<Rightarrow>
      if checker_says Ask r \<and> \<not> isBypassMode c
      then (ask_with (tc_reason (the r)) toolName input r)
             \<lparr>pd_rewrittenInput := rewritten r, pd_skipAutoClassifier := tc_skipAutoClassifier (the r)\<rparr>
      else if isBypassMode c then (decide Allow (ByMode BypassPermissions))\<lparr>pd_rewrittenInput := rewritten r\<rparr>
      else case or_rule (hasWholeToolRule c toolName Allow) (findMcpServerRule toolName c Allow) of
        Some rule \<Rightarrow> (decide Allow (ByRule rule))\<lparr>pd_rewrittenInput := rewritten r\<rparr>
      | None \<Rightarrow>
      if checker_says Allow r then (decide Allow (tc_reason (the r)))\<lparr>pd_rewrittenInput := rewritten r\<rparr>
      else if \<not> ci_checkerRegistered ci then decide Allow (SafetyCheck (unregistered_text toolName) None None)
      else (ask_with (SafetyCheck (unmatched_text toolName) None None) toolName input r)\<lparr>pd_rewrittenInput := rewritten r\<rparr>)"

text \<open>A classifier refines an ask and nothing else.\<close>

definition reducePermissionClassifierDecision ::
  "permission_decision \<Rightarrow> permission_behavior \<Rightarrow> decision_reason \<Rightarrow> permission_decision" where
  "reducePermissionClassifierDecision d b reason =
     (if pd_behavior d \<noteq> Ask then d
      else case b of
        Deny \<Rightarrow> decide Deny reason
      | Allow \<Rightarrow> (decide Allow reason)\<lparr>pd_rewrittenInput := pd_rewrittenInput d\<rparr>
      | Ask \<Rightarrow> d\<lparr>pd_reason := reason\<rparr>)"

section \<open>Evidence\<close>

text \<open>The execution plan passes through the evaluation and is of any type.\<close>

datatype permission_evidence =
  HostDeny string
| UserRule permission_behavior "string option"
| PathCapability rule_action string bool
| BuiltInAllow string
| ClassifierEligible string
| ClassifierIneligible string
| ClassifierResult permission_behavior string
| LegacyReason decision_reason
| LegacyDeny string

datatype interaction = InteractAsk | NeverAsk | HeadlessFailClosed
datatype enforcement = Strict | EnforcementOff

record mode_profile =
  mp_interaction :: interaction
  mp_classifierAllowed :: bool
  mp_enforcement :: enforcement
  mp_bypassAllowed :: bool

record evaluation_context =
  ec_workingDirectory :: string
  ec_homeDir :: string
  ec_dataDir :: string
  ec_sessionId :: "string option"
  ec_agentName :: "string option"

record 'plan evaluation_input =
  ei_toolName :: string
  ei_input :: js_object
  ei_evidence :: "permission_evidence list"
  ei_executionPlan :: "'plan option"
  ei_mode :: mode_profile
  ei_context :: evaluation_context

record approval_request =
  ar_requestId :: string
  ar_sessionId :: string
  ar_agentName :: "string option"
  ar_toolName :: string
  ar_toolInput :: "string option"
  ar_reason :: string
  ar_ruleContents :: "string list"
  ar_allowAlwaysSupported :: bool

datatype 'plan permission_evaluation =
  AllowOutcome string "'plan option"
| AskOutcome approval_request "'plan option"
| DenyOutcome string

definition formatToolInput :: "js_object \<Rightarrow> string option" where
  "formatToolInput input =
     first_some [js_str (js_get input ''command''), js_str (js_get input ''filePath''),
       js_str (js_get input ''file_path''), js_str (js_get input ''path'')]"

definition buildApprovalRequest :: "'plan evaluation_input \<Rightarrow> string option \<Rightarrow> approval_request" where
  "buildApprovalRequest ei preferred =
     (let contents = concat (map (\<lambda>e. case e of
              UserRule _ content \<Rightarrow> (case truthy content of None \<Rightarrow> [] | Some s \<Rightarrow> [s]) | _ \<Rightarrow> []) (ei_evidence ei));
          contents' = (case truthy preferred of
              Some s \<Rightarrow> if s \<notin> set contents then s # contents else contents | None \<Rightarrow> contents)
      in \<lparr>ar_requestId = or_else (ec_sessionId (ei_context ei)) ''session'' @ '':'' @ ei_toolName ei,
          ar_sessionId = or_else (ec_sessionId (ei_context ei)) ''unknown'',
          ar_agentName = truthy (ec_agentName (ei_context ei)), ar_toolName = ei_toolName ei,
          ar_toolInput = formatToolInput (ei_input ei), ar_reason = ''permission requires approval'',
          ar_ruleContents = contents', ar_allowAlwaysSupported = True\<rparr>)"

definition is_allow :: "permission_evidence \<Rightarrow> bool" where
  "is_allow e = (case e of UserRule b _ \<Rightarrow> b = Allow | BuiltInAllow _ \<Rightarrow> True | ClassifierResult b _ \<Rightarrow> b = Allow | _ \<Rightarrow> False)"

definition hasAllow :: "permission_evidence list \<Rightarrow> bool" where
  "hasAllow evidence = list_ex is_allow evidence"

definition allow_reason :: "permission_evidence \<Rightarrow> string" where
  "allow_reason e =
     (case e of
        UserRule _ content \<Rightarrow> or_else content ''explicit user allow''
      | BuiltInAllow reason \<Rightarrow> reason
      | ClassifierResult _ reason \<Rightarrow> reason
      | _ \<Rightarrow> ''permission allowed'')"

definition is_user_rule :: "permission_behavior \<Rightarrow> permission_evidence \<Rightarrow> bool" where
  "is_user_rule b e = (case e of UserRule b' _ \<Rightarrow> b' = b | _ \<Rightarrow> False)"

definition is_classifier_result :: "permission_behavior \<Rightarrow> permission_evidence \<Rightarrow> bool" where
  "is_classifier_result b e = (case e of ClassifierResult b' _ \<Rightarrow> b' = b | _ \<Rightarrow> False)"

definition reason_of :: "permission_evidence \<Rightarrow> string" where
  "reason_of e = (case e of HostDeny r \<Rightarrow> r | LegacyDeny r \<Rightarrow> r | ClassifierResult _ r \<Rightarrow> r | _ \<Rightarrow> [])"

definition rule_content_of :: "permission_evidence \<Rightarrow> string option" where
  "rule_content_of e = (case e of UserRule _ content \<Rightarrow> content | _ \<Rightarrow> None)"

definition reducePermissionEvaluation :: "'plan evaluation_input \<Rightarrow> 'plan permission_evaluation" where
  "reducePermissionEvaluation ei =
     (let evidence = ei_evidence ei; interaction = mp_interaction (ei_mode ei) in
      case List.find (\<lambda>e. case e of HostDeny _ \<Rightarrow> True | _ \<Rightarrow> False) evidence of
        Some e \<Rightarrow> DenyOutcome (reason_of e)
      | None \<Rightarrow>
      case List.find (is_user_rule Deny) evidence of
        Some e \<Rightarrow> DenyOutcome (or_else (rule_content_of e) ''explicit user deny'')
      | None \<Rightarrow>
      case List.find (\<lambda>e. case e of LegacyDeny _ \<Rightarrow> True | _ \<Rightarrow> False) evidence of
        Some e \<Rightarrow> DenyOutcome (reason_of e)
      | None \<Rightarrow>
      case List.find (is_classifier_result Deny) evidence of
        Some e \<Rightarrow> DenyOutcome (reason_of e)
      | None \<Rightarrow>
        let ineligible = list_ex (\<lambda>e. case e of ClassifierIneligible _ \<Rightarrow> True | _ \<Rightarrow> False) evidence;
            explicitAsk = or_rule (List.find (is_user_rule Ask) evidence) (List.find (is_classifier_result Ask) evidence);
            classifierAllow = list_ex (is_classifier_result Allow) evidence;
            unbacked = \<not> classifierAllow \<and> \<not> hasAllow evidence
        in
        if interaction = HeadlessFailClosed \<and> (explicitAsk \<noteq> None \<or> ineligible \<or> unbacked)
        then DenyOutcome ''permission requires user confirmation but no approval channel is available''
        else if explicitAsk \<noteq> None \<or> ineligible \<or> (interaction \<noteq> NeverAsk \<and> unbacked)
        then AskOutcome (buildApprovalRequest ei (Option.bind explicitAsk rule_content_of)) (ei_executionPlan ei)
        else case List.find is_allow evidence of
          Some e \<Rightarrow> AllowOutcome (allow_reason e) (ei_executionPlan ei)
        | None \<Rightarrow>
          if interaction = NeverAsk \<and> mp_enforcement (ei_mode ei) = Strict
          then DenyOutcome ''permission interaction is disabled''
          else AskOutcome (buildApprovalRequest ei None) (ei_executionPlan ei))"

fun permissionModeToProfile :: "permission_mode \<Rightarrow> mode_profile" where
  "permissionModeToProfile BypassPermissions =
     \<lparr>mp_interaction = NeverAsk, mp_classifierAllowed = False, mp_enforcement = Strict, mp_bypassAllowed = True\<rparr>"
| "permissionModeToProfile ModeOff =
     \<lparr>mp_interaction = NeverAsk, mp_classifierAllowed = False, mp_enforcement = EnforcementOff, mp_bypassAllowed = True\<rparr>"
| "permissionModeToProfile ModeAuto =
     \<lparr>mp_interaction = InteractAsk, mp_classifierAllowed = True, mp_enforcement = Strict, mp_bypassAllowed = True\<rparr>"
| "permissionModeToProfile _ =
     \<lparr>mp_interaction = InteractAsk, mp_classifierAllowed = False, mp_enforcement = Strict, mp_bypassAllowed = False\<rparr>"

text \<open>The policy the facade reads off the mode (\<open>ask-policy.ts\<close>).\<close>

datatype ask_for_approval = OnRequest | OnRequestLlm | NeverInterrupt | DenyUnlessAllowed

fun modeToAskPolicy :: "permission_mode \<Rightarrow> ask_for_approval" where
  "modeToAskPolicy BypassPermissions = NeverInterrupt"
| "modeToAskPolicy ModeOff = NeverInterrupt"
| "modeToAskPolicy ModeAuto = OnRequestLlm"
| "modeToAskPolicy DontAsk = DenyUnlessAllowed"
| "modeToAskPolicy ModeDefault = OnRequest"
| "modeToAskPolicy AcceptEdits = OnRequest"

end
