(* ===== verification/PermEngine.thy ===== *)
theory PermEngine
  imports PermCore
begin

text \<open>
  The permission engine (\<open>engine.ts\<close>), which dispatches to the checker of a tool and decides either by the core
  reducer or by its own steps, and the adapter that evaluates a decision of the engine as evidence
  (\<open>legacy-permission-adapter.ts\<close>).

  A checker is any function of the tool name, the input and the context that may throw; the fallback for tools
  without one (\<open>tools/path-capability.ts\<close>) is an argument of the same type. What a checker throws is an error
  with a message, a value without one, or \<open>null\<close> or \<open>undefined\<close>, on which reading the message throws again.
\<close>

datatype checker_throw = CheckerError string | CheckerValue | CheckerNullish

type_synonym tool_checker =
  "string \<Rightarrow> js_object \<Rightarrow> permission_context \<Rightarrow> checker_throw + tool_check_result option"

record permission_engine =
  pe_checkers :: "string \<Rightarrow> tool_checker option"
  pe_fallback :: tool_checker

datatype policy_owner = OwnerEngine | OwnerCore | OwnerUnknown

datatype engine_error = UnknownPolicyOwner | MessageOfNullish

definition registerToolPermissionChecker :: "string \<Rightarrow> tool_checker \<Rightarrow> permission_engine \<Rightarrow> permission_engine" where
  "registerToolPermissionChecker toolName checker e = e\<lparr>pe_checkers := (pe_checkers e)(toolName \<mapsto> checker)\<rparr>"

definition unregisterToolPermissionChecker :: "string \<Rightarrow> permission_engine \<Rightarrow> permission_engine" where
  "unregisterToolPermissionChecker toolName e = e\<lparr>pe_checkers := (pe_checkers e)(toolName := None)\<rparr>"

text \<open>The checker's answer and the message of what it threw; neither after a value without a message.\<close>

definition run_checker ::
  "permission_engine \<Rightarrow> string \<Rightarrow> js_object \<Rightarrow> permission_context \<Rightarrow> engine_error + tool_check_result option \<times> string option" where
  "run_checker e toolName input c =
     (case or_else (pe_checkers e toolName) (pe_fallback e) toolName input c of
        Inr r \<Rightarrow> Inr (r, None)
      | Inl (CheckerError message) \<Rightarrow> Inr (None, Some message)
      | Inl CheckerValue \<Rightarrow> Inr (None, None)
      | Inl CheckerNullish \<Rightarrow> Inl MessageOfNullish)"

definition checkPermissionWithCore ::
  "permission_engine \<Rightarrow> string \<Rightarrow> js_object \<Rightarrow> permission_context \<Rightarrow> engine_error + permission_decision" where
  "checkPermissionWithCore e toolName input c =
     rbind (run_checker e toolName input c) (\<lambda>(r, err).
       Inr (reducePermissionDecision
         \<lparr>ci_toolName = toolName, ci_input = input, ci_context = c,
          ci_checkerRegistered = pe_checkers e toolName \<noteq> None, ci_checkerResult = r, ci_checkerError = truthy err\<rparr>))"

definition is_safety_check :: "decision_reason \<Rightarrow> bool" where
  "is_safety_check r \<longleftrightarrow> (case r of SafetyCheck _ _ _ \<Rightarrow> True | _ \<Rightarrow> False)"

text \<open>The steps after a whole-tool ask rule: 1b for MCP servers to the fallback.\<close>

definition engine_after_ask ::
  "bool \<Rightarrow> string \<Rightarrow> js_object \<Rightarrow> permission_context \<Rightarrow> tool_check_result option \<Rightarrow> string option \<Rightarrow> permission_decision" where
  "engine_after_ask registered toolName input c r err =
     (case findMcpServerRule toolName c Ask of
        Some rule \<Rightarrow>
          (decide Ask (ByRule rule))\<lparr>pd_ruleContents := resolveRuleContents toolName input None,
            pd_candidateScopes := resolveCandidateScopes None\<rparr>
      | None \<Rightarrow>
      case truthy err of
        Some message \<Rightarrow>
          (decide Ask (SafetyCheck (''Tool checker error: '' @ message) None None))
            \<lparr>pd_ruleContents := resolveRuleContents toolName input None\<rparr>
      | None \<Rightarrow>
      if isInteractiveTool c toolName then ask_with (SafetyCheck (interactive_text toolName) None None) toolName input r
      else if checker_says Ask r \<and> is_true (tc_bypassImmune (the r))
      then (ask_with (tc_reason (the r)) toolName input r)
             \<lparr>pd_bypassImmune := Some True, pd_skipAutoClassifier := tc_skipAutoClassifier (the r)\<rparr>
      else case matchesContentAskRule toolName input c of
        Some rule \<Rightarrow> (ask_with (ByRule rule) toolName input r)\<lparr>pd_rewrittenInput := rewritten r\<rparr>
      | None \<Rightarrow>
      if checker_says Ask r \<and> is_safety_check (tc_reason (the r)) \<and> \<not> isBypassMode c
      then (ask_with (tc_reason (the r)) toolName input r)
             \<lparr>pd_rewrittenInput := rewritten r, pd_skipAutoClassifier := tc_skipAutoClassifier (the r)\<rparr>
      else if checker_says Ask r \<and> \<not> isBypassMode c
      then (ask_with (tc_reason (the r)) toolName input r)
             \<lparr>pd_rewrittenInput := rewritten r, pd_skipAutoClassifier := tc_skipAutoClassifier (the r)\<rparr>
      else if isBypassMode c then (decide Allow (ByMode BypassPermissions))\<lparr>pd_rewrittenInput := rewritten r\<rparr>
      else case hasWholeToolRule c toolName Allow of
        Some rule \<Rightarrow> (decide Allow (ByRule rule))\<lparr>pd_rewrittenInput := rewritten r\<rparr>
      | None \<Rightarrow>
      case findMcpServerRule toolName c Allow of
        Some rule \<Rightarrow> (decide Allow (ByRule rule))\<lparr>pd_rewrittenInput := rewritten r\<rparr>
      | None \<Rightarrow>
      if checker_says Allow r then (decide Allow (tc_reason (the r)))\<lparr>pd_rewrittenInput := rewritten r\<rparr>
      else if \<not> registered then decide Allow (SafetyCheck (unregistered_text toolName) None None)
      else (ask_with (SafetyCheck (unmatched_text toolName) None (Some ''noMatchingPermissionRule'')) toolName input r)
             \<lparr>pd_rewrittenInput := rewritten r\<rparr>)"

text \<open>The steps after the checker has answered: 1d and 1b.\<close>

definition engine_after_checker ::
  "bool \<Rightarrow> string \<Rightarrow> js_object \<Rightarrow> permission_context \<Rightarrow> tool_check_result option \<Rightarrow> string option \<Rightarrow> permission_decision" where
  "engine_after_checker registered toolName input c r err =
     (if checker_says Deny r then decide Deny (tc_reason (the r))
      else case hasWholeToolRule c toolName Ask of
        Some rule \<Rightarrow>
          if toolName = ''bash'' \<and> cx_sandboxEnabled c \<and> cx_autoAllowBashIfSandboxed c
          then engine_after_ask registered toolName input c r err
          else (ask_with (ByRule rule) toolName input r)\<lparr>pd_rewrittenInput := rewritten r\<rparr>
      | None \<Rightarrow> engine_after_ask registered toolName input c r err)"

definition checkPermissionWithEngine ::
  "permission_engine \<Rightarrow> string \<Rightarrow> js_object \<Rightarrow> permission_context \<Rightarrow> engine_error + permission_decision" where
  "checkPermissionWithEngine e toolName input c =
     (case hasWholeToolRule c toolName Deny of
        Some rule \<Rightarrow> Inr (decide Deny (ByRule rule))
      | None \<Rightarrow>
      case findMcpServerRule toolName c Deny of
        Some rule \<Rightarrow> Inr (decide Deny (ByRule rule))
      | None \<Rightarrow>
        rbind (run_checker e toolName input c) (\<lambda>(r, err).
          Inr (engine_after_checker (pe_checkers e toolName \<noteq> None) toolName input c r err)))"

definition checkPermission ::
  "permission_engine \<Rightarrow> string \<Rightarrow> js_object \<Rightarrow> permission_context \<Rightarrow> policy_owner option \<Rightarrow> engine_error + permission_decision" where
  "checkPermission e toolName input c policyOwner =
     (case or_else policyOwner OwnerEngine of
        OwnerUnknown \<Rightarrow> Inl UnknownPolicyOwner
      | OwnerCore \<Rightarrow> checkPermissionWithCore e toolName input c
      | OwnerEngine \<Rightarrow> checkPermissionWithEngine e toolName input c)"

section \<open>A decision as evidence\<close>

fun source_text :: "rule_source \<Rightarrow> string" where
  "source_text SrcGlobal = ''global''"
| "source_text SrcAgent = ''agent''"
| "source_text SrcSession = ''session''"

fun reason_type :: "decision_reason \<Rightarrow> string" where
  "reason_type (ByRule _) = ''rule''"
| "reason_type (SafetyCheck _ _ _) = ''safetyCheck''"
| "reason_type (WorkingDirectory _) = ''workingDirectory''"
| "reason_type (InternalWhitelist _) = ''internalWhitelist''"
| "reason_type (TrustedExactWrite _) = ''trustedExactWrite''"
| "reason_type (TempDirectory _) = ''tempDirectory''"
| "reason_type BySandbox = ''sandbox''"
| "reason_type (ByMode _) = ''mode''"
| "reason_type (PathValidation _) = ''pathValidation''"
| "reason_type (DangerousRemoval _) = ''dangerousRemoval''"
| "reason_type (SubcommandResults _) = ''subcommandResults''"
| "reason_type (RmRewrite _) = ''rmRewrite''"
| "reason_type (RecoverableDeleteRewrite _) = ''recoverableDeleteRewrite''"

definition describeLegacyDeny :: "decision_reason \<Rightarrow> string" where
  "describeLegacyDeny reason =
     (case reason of
        SafetyCheck description _ _ \<Rightarrow> description
      | ByRule rule \<Rightarrow> ''Matched '' @ source_text (pr_source rule) @ '' deny rule.''
      | _ \<Rightarrow> ''Legacy permission decision '' @ reason_type reason @ '' denied the tool call.'')"

definition decisionEvidence :: "permission_decision \<Rightarrow> permission_evidence" where
  "decisionEvidence d =
     (case pd_behavior d of
        Deny \<Rightarrow> (case pd_reason d of
            SafetyCheck description _ _ \<Rightarrow> HostDeny description
          | _ \<Rightarrow> LegacyDeny (describeLegacyDeny (pd_reason d)))
      | Allow \<Rightarrow> (case pd_reason d of
            ByRule rule \<Rightarrow> UserRule Allow (rv_ruleContent (pr_value rule))
          | _ \<Rightarrow> BuiltInAllow (reason_type (pd_reason d)))
      | Ask \<Rightarrow> UserRule Ask (case pd_ruleContents d of Some (x # _) \<Rightarrow> Some x | _ \<Rightarrow> None))"

text \<open>The evidence of a decision; intents and the plan come from \<open>execution-plan.ts\<close> and only pass through.\<close>

definition legacy_evidence :: "permission_decision \<Rightarrow> permission_evidence list" where
  "legacy_evidence d =
     [decisionEvidence d] @
     (case pd_reason d of
        SafetyCheck description approvable _ \<Rightarrow>
          [if approvable = Some False then ClassifierIneligible description else ClassifierEligible description]
      | _ \<Rightarrow> []) @
     (case pd_reason d of RmRewrite _ \<Rightarrow> [LegacyReason (pd_reason d)] | _ \<Rightarrow> [])"

definition evaluateLegacyPermission ::
  "permission_decision \<Rightarrow> 'plan evaluation_input \<Rightarrow> 'plan permission_evaluation" where
  "evaluateLegacyPermission d ei = reducePermissionEvaluation (ei\<lparr>ei_evidence := legacy_evidence d\<rparr>)"

end
