(* ===== verification/PermVerdict.thy ===== *)
theory PermVerdict
  imports PermEngine
begin

text \<open>
  What the permission engine decides: the declarative verdict of the core reducer, and that the steps of the engine
  lead to the same decision.
\<close>

section \<open>The verdict\<close>

text \<open>A rule covers a tool when it has no content and names the tool, or the server of an MCP tool.\<close>

definition covers :: "permission_behavior \<Rightarrow> string \<Rightarrow> permission_rule \<Rightarrow> bool" where
  "covers b toolName r \<longleftrightarrow>
     pr_behavior r = b \<and> truthy (rv_ruleContent (pr_value r)) = None \<and>
     (rv_toolName (pr_value r) = toolName \<or>
      starts_with toolName ''mcp__'' \<and> matchesMcpServerRuntimeName toolName (rv_toolName (pr_value r)))"

definition covers_server :: "permission_behavior \<Rightarrow> string \<Rightarrow> permission_rule \<Rightarrow> bool" where
  "covers_server b toolName r \<longleftrightarrow>
     pr_behavior r = b \<and> truthy (rv_ruleContent (pr_value r)) = None \<and>
     starts_with toolName ''mcp__'' \<and> matchesMcpServerRuntimeName toolName (rv_toolName (pr_value r))"

text \<open>An ask rule about the content of the call.\<close>

definition asks_about :: "string \<Rightarrow> js_object \<Rightarrow> permission_rule \<Rightarrow> bool" where
  "asks_about toolName input r \<longleftrightarrow>
     pr_behavior r = Ask \<and> rv_toolName (pr_value r) = toolName \<and>
     (case (truthy (extractToolInputContent toolName input), truthy (rv_ruleContent (pr_value r))) of
        (Some content, Some part) \<Rightarrow> js_includes content part
      | _ \<Rightarrow> False)"

text \<open>
  How strict the answer of the checker is: \<open>4\<close> denies, \<open>3\<close> asks whatever the mode, \<open>2\<close> asks unless
  bypassed, \<open>1\<close> has no opinion and so asks unless an allow rule or the bypass mode allows, \<open>0\<close> allows.
\<close>

definition checker_rank :: "bool \<Rightarrow> tool_check_result option \<Rightarrow> string option \<Rightarrow> nat" where
  "checker_rank registered r err =
     (if checker_says Deny r then 4
      else if truthy err \<noteq> None \<or> (checker_says Ask r \<and> is_true (tc_bypassImmune (the r))) then 3
      else if checker_says Ask r then 2
      else if checker_says Allow r \<or> \<not> registered then 0
      else 1)"

definition verdict :: "string \<Rightarrow> js_object \<Rightarrow> permission_context \<Rightarrow> nat \<Rightarrow> permission_behavior" where
  "verdict toolName input c rank =
     (let rule = (\<lambda>p. \<exists>r\<in>set (cx_rules c). p r) in
      if rule (covers Deny toolName) \<or> rank = 4 then Deny
      else if (if sandboxBypassesAsk toolName c then rule (covers_server Ask toolName) else rule (covers Ask toolName)) \<or>
              rank = 3 \<or> isInteractiveTool c toolName \<or> rule (asks_about toolName input) then Ask
      else if isBypassMode c then Allow
      else if rank = 2 then Ask
      else if rule (covers Allow toolName) \<or> rank = 0 then Allow
      else Ask)"

lemma find_None_bex: "List.find p xs = None \<longleftrightarrow> (\<forall>x\<in>set xs. \<not> p x)"
  by (auto simp: find_None_iff)

lemma or_rule_None: "or_rule a b = None \<longleftrightarrow> a = None \<and> b = None"
  by (simp add: or_rule_def split: option.splits)

lemma whole_rule_found:
  "hasWholeToolRule c toolName b = None \<longleftrightarrow>
     (\<forall>r\<in>set (cx_rules c). \<not> (rv_toolName (pr_value r) = toolName \<and> pr_behavior r = b \<and>
        truthy (rv_ruleContent (pr_value r)) = None))"
  by (simp add: hasWholeToolRule_def find_None_bex)

lemma server_rule_found:
  "findMcpServerRule toolName c b = None \<longleftrightarrow> \<not> (\<exists>r\<in>set (cx_rules c). covers_server b toolName r)"
  by (simp add: findMcpServerRule_def find_None_bex covers_server_def)

lemma covers_cases:
  "covers b toolName r \<longleftrightarrow>
     rv_toolName (pr_value r) = toolName \<and> pr_behavior r = b \<and> truthy (rv_ruleContent (pr_value r)) = None \<or>
     covers_server b toolName r"
  unfolding covers_def covers_server_def by blast

lemma rule_found:
  "or_rule (hasWholeToolRule c toolName b) (findMcpServerRule toolName c b) = None \<longleftrightarrow>
     \<not> (\<exists>r\<in>set (cx_rules c). covers b toolName r)"
  unfolding or_rule_None whole_rule_found server_rule_found covers_cases by blast

lemma truthy_cases: "truthy s = Some t \<Longrightarrow> s = Some t \<and> t \<noteq> []"
  by (auto simp: truthy_def split: option.splits if_splits)

lemma content_rule_found:
  "matchesContentAskRule toolName input c = None \<longleftrightarrow> \<not> (\<exists>r\<in>set (cx_rules c). asks_about toolName input r)"
  by (auto simp: matchesContentAskRule_def getContentRulesForTool_def find_None_bex asks_about_def
      split: option.splits dest: truthy_cases)

lemma ask_with_behavior [simp]: "pd_behavior (ask_with reason toolName input r) = Ask"
  by (simp add: ask_with_def decide_def)

lemma decide_behavior [simp]: "pd_behavior (decide b reason) = b" "pd_reason (decide b reason) = reason"
  by (simp_all add: decide_def)

definition input_rank :: "core_input \<Rightarrow> nat" where
  "input_rank ci = checker_rank (ci_checkerRegistered ci) (ci_checkerResult ci) (ci_checkerError ci)"

lemma option_find_cases:
  assumes "(x = None) = (\<not> P)"
  shows "(case x of None \<Rightarrow> a | Some y \<Rightarrow> f y) = (if P then f (the x) else a)"
  using assms by (cases x) auto

lemma ask_rule_found:
  "(if b then None else hasWholeToolRule c toolName Ask) = None \<and> findMcpServerRule toolName c Ask = None \<longleftrightarrow>
     \<not> (if b then \<exists>r\<in>set (cx_rules c). covers_server Ask toolName r else \<exists>r\<in>set (cx_rules c). covers Ask toolName r)"
  using rule_found [of c toolName Ask] server_rule_found [of toolName c Ask] by (cases b) (simp_all add: or_rule_None)

lemma case_const: "(case x of None \<Rightarrow> a | Some y \<Rightarrow> b) = (if x \<noteq> None then b else a)"
  by (cases x) simp_all

lemma behavior_with [simp]:
  "pd_behavior (d\<lparr>pd_rewrittenInput := w\<rparr>) = pd_behavior d" "pd_behavior (d\<lparr>pd_ruleContents := x\<rparr>) = pd_behavior d"
  "pd_behavior (d\<lparr>pd_bypassImmune := i, pd_skipAutoClassifier := k\<rparr>) = pd_behavior d"
  "pd_behavior (d\<lparr>pd_rewrittenInput := w, pd_skipAutoClassifier := k\<rparr>) = pd_behavior d"
  "pd_behavior (d\<lparr>pd_ruleContents := x, pd_candidateScopes := v\<rparr>) = pd_behavior d"
  by simp_all

lemmas behavior_rewrites = option.case_distrib [of pd_behavior] if_distrib [of pd_behavior] behavior_with
  ask_with_behavior decide_behavior case_const

text \<open>The behaviour of the core reducer in terms of what it looked up.\<close>

lemma if_merge: "(if p then x else if q then x else y) = (if p \<or> q then x else y)"
  by simp

lemma reduce_behavior:
  "pd_behavior (reducePermissionDecision ci) =
     (let toolName = ci_toolName ci; c = ci_context ci; r = ci_checkerResult ci in
      if or_rule (hasWholeToolRule c toolName Deny) (findMcpServerRule toolName c Deny) \<noteq> None \<or> checker_says Deny r then Deny
      else if (if sandboxBypassesAsk toolName c then None else hasWholeToolRule c toolName Ask) \<noteq> None \<or>
              findMcpServerRule toolName c Ask \<noteq> None \<or>
              truthy (ci_checkerError ci) \<noteq> None \<or> isInteractiveTool c toolName \<or>
              (checker_says Ask r \<and> is_true (tc_bypassImmune (the r))) \<or>
              matchesContentAskRule toolName (ci_input ci) c \<noteq> None \<or> checker_says Ask r \<and> \<not> isBypassMode c then Ask
      else if isBypassMode c \<or>
              or_rule (hasWholeToolRule c toolName Allow) (findMcpServerRule toolName c Allow) \<noteq> None \<or>
              checker_says Allow r \<or> \<not> ci_checkerRegistered ci then Allow
      else Ask)"
  unfolding reducePermissionDecision_def Let_def
  by (simp only: behavior_rewrites if_merge disj_assoc)

lemma ask_rule_some:
  "(if b then None else hasWholeToolRule c toolName Ask) \<noteq> None \<or> findMcpServerRule toolName c Ask \<noteq> None \<or> p \<longleftrightarrow>
     (if b then \<exists>r\<in>set (cx_rules c). covers_server Ask toolName r else \<exists>r\<in>set (cx_rules c). covers Ask toolName r) \<or> p"
  using ask_rule_found [of b c toolName] by argo

lemma checker_says_one: "checker_says a r \<Longrightarrow> checker_says b r \<Longrightarrow> a = b"
  by (auto simp: checker_says_def split: option.splits)

lemma reduce_verdict:
  "pd_behavior (reducePermissionDecision ci) = verdict (ci_toolName ci) (ci_input ci) (ci_context ci) (input_rank ci)"
proof -
  have one: "checker_says Deny r \<Longrightarrow> \<not> checker_says Ask r" "checker_says Ask r \<Longrightarrow> \<not> checker_says Allow r" for r
    using checker_says_one by blast+
  show ?thesis
    unfolding reduce_behavior Let_def rule_found content_rule_found ask_rule_some verdict_def input_rank_def checker_rank_def
    using one [of "ci_checkerResult ci"] by (simp del: truthy_eq_Some)
qed

section \<open>The two owners\<close>

text \<open>The same decision, but for the category that only the engine puts on its fallback.\<close>

definition same_decision :: "string \<Rightarrow> permission_decision \<Rightarrow> permission_decision \<Rightarrow> bool" where
  "same_decision toolName d d' \<longleftrightarrow>
     d' = d \<or>
     pd_behavior d = Ask \<and> pd_reason d = SafetyCheck (unmatched_text toolName) None None \<and>
     d' = d\<lparr>pd_reason := SafetyCheck (unmatched_text toolName) None (Some ''noMatchingPermissionRule'')\<rparr>"

named_theorems same_intros

lemma same_refl [same_intros]: "same_decision t d d"
  by (simp add: same_decision_def)

lemma same_if [same_intros]:
  "same_decision t x x' \<Longrightarrow> same_decision t y y' \<Longrightarrow> same_decision t (if p then x else y) (if p then x' else y')"
  by simp

lemma same_case [same_intros]:
  "same_decision t a a' \<Longrightarrow> (\<And>y. same_decision t (f y) (f' y)) \<Longrightarrow>
     same_decision t (case x of None \<Rightarrow> a | Some y \<Rightarrow> f y) (case x of None \<Rightarrow> a' | Some y \<Rightarrow> f' y)"
  by (cases x) simp_all

lemma same_fallback [same_intros]:
  "same_decision t ((ask_with (SafetyCheck (unmatched_text t) None None) t input r)\<lparr>pd_rewrittenInput := w\<rparr>)
     ((ask_with (SafetyCheck (unmatched_text t) None (Some ''noMatchingPermissionRule'')) t input r)\<lparr>pd_rewrittenInput := w\<rparr>)"
  by (simp add: same_decision_def ask_with_def decide_def)

lemma case_or_rule:
  "(case or_rule a b of None \<Rightarrow> u | Some y \<Rightarrow> f y) =
     (case a of None \<Rightarrow> (case b of None \<Rightarrow> u | Some y \<Rightarrow> f y) | Some y \<Rightarrow> f y)"
  by (simp add: or_rule_def split: option.split)

lemma case_unless:
  "(case (if s then None else x) of None \<Rightarrow> u | Some y \<Rightarrow> f y) =
     (case x of None \<Rightarrow> u | Some y \<Rightarrow> if s then u else f y)"
  by (simp split: option.split)

lemma if_twice: "(if p \<and> q \<and> s then x else if p \<and> s then x else y) = (if p \<and> s then x else y)"
  by simp

lemma no_scopes: "(decide b r)\<lparr>pd_ruleContents := x, pd_candidateScopes := resolveCandidateScopes None\<rparr> = (decide b r)\<lparr>pd_ruleContents := x\<rparr>"
  by (simp add: decide_def resolveCandidateScopes_def checker_contents_def)

lemma truthy_twice: "truthy (truthy s) = truthy s"
  by (simp add: truthy_def split: option.split)

lemma core_same_engine:
  assumes "hasWholeToolRule c t Deny = None" and "findMcpServerRule t c Deny = None"
  shows "same_decision t
           (reducePermissionDecision \<lparr>ci_toolName = t, ci_input = input, ci_context = c, ci_checkerRegistered = registered,
              ci_checkerResult = r, ci_checkerError = truthy err\<rparr>)
           (engine_after_checker registered t input c r err)"
  unfolding reducePermissionDecision_def engine_after_checker_def engine_after_ask_def Let_def core_input.select_convs
    assms case_or_rule case_unless if_twice no_scopes sandboxBypassesAsk_def option.case
    truthy_twice
  by (intro same_intros)

end
