(* ===== verification/PermProps.thy ===== *)
theory PermProps
  imports PermVerdict
begin

text \<open>
  Properties of the permission engine under either policy owner.
\<close>

section \<open>Both owners implement the verdict\<close>

definition known_owner :: "policy_owner option \<Rightarrow> bool" where
  "known_owner owner \<longleftrightarrow> owner \<noteq> Some OwnerUnknown"

definition engine_rank :: "permission_engine \<Rightarrow> string \<Rightarrow> tool_check_result option \<Rightarrow> string option \<Rightarrow> nat" where
  "engine_rank e toolName r err = checker_rank (pe_checkers e toolName \<noteq> None) r err"

lemma same_behavior: "same_decision t d d' \<Longrightarrow> pd_behavior d' = pd_behavior d"
  by (auto simp: same_decision_def)

lemma rank_truthy [simp]: "checker_rank registered r (truthy err) = checker_rank registered r err"
  by (simp add: checker_rank_def truthy_twice)

lemma core_decides:
  "run_checker e t input c = Inr (r, err) \<Longrightarrow>
     \<exists>d. checkPermissionWithCore e t input c = Inr d \<and> pd_behavior d = verdict t input c (engine_rank e t r err)"
  by (simp add: checkPermissionWithCore_def reduce_verdict input_rank_def engine_rank_def)

lemma deny_rule_cases:
  "(\<exists>rule. checkPermissionWithEngine e t input c = Inr (decide Deny (ByRule rule))) \<and>
     (\<exists>r\<in>set (cx_rules c). covers Deny t r) \<or>
   hasWholeToolRule c t Deny = None \<and> findMcpServerRule t c Deny = None \<and> \<not> (\<exists>r\<in>set (cx_rules c). covers Deny t r)"
  using rule_found [of c t Deny] by (auto simp: checkPermissionWithEngine_def or_rule_def split: option.splits)

lemma engine_decides:
  assumes "run_checker e t input c = Inr (r, err)"
  shows "\<exists>d. checkPermissionWithEngine e t input c = Inr d \<and> pd_behavior d = verdict t input c (engine_rank e t r err)"
  using deny_rule_cases [of e t input c]
proof (elim disjE conjE exE)
  fix rule
  assume "checkPermissionWithEngine e t input c = Inr (decide Deny (ByRule rule))" "\<exists>r\<in>set (cx_rules c). covers Deny t r"
  then show ?thesis
    by (simp add: verdict_def Let_def)
next
  assume none: "hasWholeToolRule c t Deny = None" "findMcpServerRule t c Deny = None"
  from same_behavior [OF core_same_engine [OF none, of input "pe_checkers e t \<noteq> None" r err]] show ?thesis
    using none assms by (simp add: checkPermissionWithEngine_def reduce_verdict input_rank_def engine_rank_def)
qed

section \<open>Updates of the rules\<close>

definition severity :: "permission_behavior \<Rightarrow> nat" where
  "severity b = (case b of Allow \<Rightarrow> 0 | Ask \<Rightarrow> 1 | Deny \<Rightarrow> 2)"

text \<open>Updates that only add deny or ask rules or take allow rules away, and those that only add allow rules.\<close>

definition tightens :: "permission_update \<Rightarrow> bool" where
  "tightens u \<longleftrightarrow>
     (case u of AddRules _ _ _ b \<Rightarrow> b \<noteq> Allow | RemoveRules _ _ _ b \<Rightarrow> b = Allow | ReplaceRules _ _ _ _ \<Rightarrow> False)"

definition adds_allows :: "permission_update \<Rightarrow> bool" where
  "adds_allows u \<longleftrightarrow> (case u of AddRules _ _ _ b \<Rightarrow> b = Allow | _ \<Rightarrow> False)"

lemma add_values_keeps: "r \<in> set rules \<Longrightarrow> r \<in> set (add_values s b vs rules)"
  by (induction s b vs rules rule: add_values.induct) (simp_all split: if_splits)

lemma add_values_only: "r \<in> set (add_values s b vs rules) \<Longrightarrow> r \<in> set rules \<or> pr_behavior r = b"
proof (induction s b vs rules rule: add_values.induct)
  case (2 s b v vs rules)
  then show ?case
    by (fastforce split: if_splits)
qed simp

lemma update_context [simp]:
  "sandboxBypassesAsk t (applyPermissionUpdate c u) = sandboxBypassesAsk t c"
  "isInteractiveTool (applyPermissionUpdate c u) t = isInteractiveTool c t"
  "isBypassMode (applyPermissionUpdate c u) = isBypassMode c"
  by (cases u; simp add: addRules_def replaceRules_def removeRules_def sandboxBypassesAsk_def isInteractiveTool_def isBypassMode_def)+

lemma covers_behavior: "covers b t r \<Longrightarrow> pr_behavior r = b" "covers_server b t r \<Longrightarrow> pr_behavior r = b" "asks_about t i r \<Longrightarrow> pr_behavior r = Ask"
  by (auto simp: covers_def covers_server_def asks_about_def)

lemma tightens_rules:
  assumes "tightens u"
  shows "r \<in> set (cx_rules c) \<Longrightarrow> pr_behavior r \<noteq> Allow \<Longrightarrow> r \<in> set (cx_rules (applyPermissionUpdate c u))"
    and "r \<in> set (cx_rules (applyPermissionUpdate c u)) \<Longrightarrow> pr_behavior r = Allow \<Longrightarrow> r \<in> set (cx_rules c)"
  using assms add_values_only by (cases u; fastforce simp: tightens_def addRules_def removeRules_def add_values_keeps)+

lemma adds_allows_rules:
  assumes "adds_allows u"
  shows "pr_behavior r \<noteq> Allow \<Longrightarrow> r \<in> set (cx_rules (applyPermissionUpdate c u)) \<longleftrightarrow> r \<in> set (cx_rules c)"
    and "r \<in> set (cx_rules c) \<Longrightarrow> r \<in> set (cx_rules (applyPermissionUpdate c u))"
  using assms add_values_only by (cases u; fastforce simp: adds_allows_def addRules_def add_values_keeps)+

lemma checker_rank_le: "checker_rank registered r err \<le> 4"
  by (simp add: checker_rank_def)

lemma severity_simps [simp]: "severity Allow = 0" "severity Ask = 1" "severity Deny = 2"
  by (simp_all add: severity_def)

definition level :: "bool \<Rightarrow> bool \<Rightarrow> bool \<Rightarrow> bool \<Rightarrow> nat \<Rightarrow> permission_behavior" where
  "level deny ask bypass allow rank =
     (if deny \<or> rank = 4 then Deny else if ask \<or> rank = 3 then Ask else if bypass then Allow
      else if rank = 2 then Ask else if allow \<or> rank = 0 then Allow else Ask)"

lemma level_mono:
  assumes "deny \<longrightarrow> deny'" "ask \<longrightarrow> ask'" "allow' \<longrightarrow> allow" "rank \<le> rank'" "rank' \<le> 4"
  shows "severity (level deny ask bypass allow rank) \<le> severity (level deny' ask' bypass allow' rank')"
  using assms unfolding level_def by auto

lemma level_allow:
  assumes "level deny ask bypass allow' rank \<noteq> level deny ask bypass allow rank" "allow \<longrightarrow> allow'" "rank \<le> 4"
  shows "rank = 1 \<and> \<not> deny \<and> \<not> ask \<and> \<not> bypass \<and> \<not> allow \<and> allow' \<and> level deny ask bypass allow rank = Ask \<and>
    level deny ask bypass allow' rank = Allow"
  using assms unfolding level_def by (auto split: if_splits)

definition has_rule :: "permission_context \<Rightarrow> (permission_rule \<Rightarrow> bool) \<Rightarrow> bool" where
  "has_rule c p \<longleftrightarrow> (\<exists>r\<in>set (cx_rules c). p r)"

definition must_ask :: "string \<Rightarrow> js_object \<Rightarrow> permission_context \<Rightarrow> bool" where
  "must_ask t input c \<longleftrightarrow>
     has_rule c (if sandboxBypassesAsk t c then covers_server Ask t else covers Ask t) \<or> isInteractiveTool c t \<or>
     has_rule c (asks_about t input)"

lemma verdict_level:
  "verdict t input c rank = level (has_rule c (covers Deny t)) (must_ask t input c) (isBypassMode c) (has_rule c (covers Allow t)) rank"
  unfolding verdict_def level_def must_ask_def has_rule_def Let_def by (cases "sandboxBypassesAsk t c") (simp_all add: disj_ac)

lemma has_rule_mono:
  assumes "\<And>r. r \<in> set (cx_rules c) \<Longrightarrow> pr_behavior r \<noteq> Allow \<Longrightarrow> r \<in> set (cx_rules c')"
    and "has_rule c p" and "\<And>r. p r \<Longrightarrow> pr_behavior r \<noteq> Allow"
  shows "has_rule c' p"
  using assms unfolding has_rule_def by blast

lemma strict_rules:
  "covers Deny t r \<Longrightarrow> pr_behavior r \<noteq> Allow"
  "(if p then covers_server Ask t else covers Ask t) r \<Longrightarrow> pr_behavior r \<noteq> Allow"
  "asks_about t i r \<Longrightarrow> pr_behavior r \<noteq> Allow"
  by (auto simp: covers_behavior split: if_splits dest: covers_behavior)

lemma must_ask_update:
  assumes "\<And>r. r \<in> set (cx_rules c) \<Longrightarrow> pr_behavior r \<noteq> Allow \<Longrightarrow> r \<in> set (cx_rules (applyPermissionUpdate c u))"
  shows "must_ask t input c \<longrightarrow> must_ask t input (applyPermissionUpdate c u)"
proof -
  have "has_rule c p \<Longrightarrow> (\<And>r. p r \<Longrightarrow> pr_behavior r \<noteq> Allow) \<Longrightarrow> has_rule (applyPermissionUpdate c u) p" for p
    by (rule has_rule_mono [of c _ p]) (simp_all add: assms)
  then show ?thesis
    unfolding must_ask_def update_context using strict_rules(2,3) by blast
qed

section \<open>The contract of a policy owner\<close>

text \<open>
  An owner decides a call by a checker's answer. All the properties of decisions below are consequences of this
  contract, which both owners fulfil.
\<close>

locale policy_owner =
  fixes answer :: "string \<Rightarrow> js_object \<Rightarrow> permission_context \<Rightarrow> engine_error + tool_check_result option \<times> string option"
    and rank :: "string \<Rightarrow> tool_check_result option \<Rightarrow> string option \<Rightarrow> nat"
    and check :: "string \<Rightarrow> js_object \<Rightarrow> permission_context \<Rightarrow> engine_error + permission_decision"
  assumes decides: "answer t input c = Inr (r, err) \<Longrightarrow> \<exists>d. check t input c = Inr d \<and> pd_behavior d = verdict t input c (rank t r err)"
    and rank_le: "rank t r err \<le> 4"
begin

lemma tightened:
  assumes "tightens u" and "answer t input c = Inr (r, err)" and "answer t input (applyPermissionUpdate c u) = Inr (r', err')"
    and "rank t r err \<le> rank t r' err'"
  shows "\<exists>d d'. check t input c = Inr d \<and> check t input (applyPermissionUpdate c u) = Inr d' \<and>
           severity (pd_behavior d) \<le> severity (pd_behavior d')"
proof -
  let ?c' = "applyPermissionUpdate c u"
  note strict = tightens_rules(1) [OF assms(1), of _ c]
  have "has_rule ?c' (covers Allow t) \<longrightarrow> has_rule c (covers Allow t)"
    using tightens_rules(2) [OF assms(1)] covers_behavior(1) unfolding has_rule_def by blast
  then have "severity (verdict t input c (rank t r err)) \<le> severity (verdict t input ?c' (rank t r' err'))"
    unfolding verdict_level update_context
    using assms(4) has_rule_mono [OF strict _ strict_rules(1)] must_ask_update [OF strict]
    by (intro level_mono) (auto simp: rank_le)
  with decides [OF assms(2)] decides [OF assms(3)] show ?thesis
    by auto
qed

text \<open>Without an assumption on the answers: only a weaker answer relaxes a decision, and not against a deny rule.\<close>

lemma relaxed:
  assumes "tightens u" and "answer t input c = Inr (r, err)" and "answer t input (applyPermissionUpdate c u) = Inr (r', err')"
  shows "\<exists>d d'. check t input c = Inr d \<and> check t input (applyPermissionUpdate c u) = Inr d' \<and>
           (severity (pd_behavior d) \<le> severity (pd_behavior d') \<or>
            rank t r' err' < rank t r err \<and> \<not> has_rule (applyPermissionUpdate c u) (covers Deny t))"
proof (cases "rank t r err \<le> rank t r' err'")
  case True
  from tightened [OF assms True] show ?thesis
    by blast
next
  case False
  have "severity b \<le> severity Deny" for b
    by (cases b) simp_all
  moreover have "verdict t input (applyPermissionUpdate c u) k = Deny" if "has_rule (applyPermissionUpdate c u) (covers Deny t)" for k
    using that unfolding verdict_level by (simp add: level_def)
  ultimately show ?thesis
    using decides [OF assms(2)] decides [OF assms(3)] False by (metis not_le)
qed

lemma allowed:
  assumes "adds_allows u" and "answer t input c = Inr (r, err)" and "answer t input (applyPermissionUpdate c u) = Inr (r', err')"
    and "rank t r' err' = rank t r err"
  shows "\<exists>d d'. check t input c = Inr d \<and> check t input (applyPermissionUpdate c u) = Inr d' \<and>
           (pd_behavior d' = pd_behavior d \<or>
            rank t r err = 1 \<and> \<not> has_rule c (covers Deny t) \<and> \<not> must_ask t input c \<and> pd_behavior d = Ask \<and> pd_behavior d' = Allow \<and>
            (\<exists>rule\<in>set (cx_rules (applyPermissionUpdate c u)). covers Allow t rule \<and> rule \<notin> set (cx_rules c)))"
proof -
  let ?c' = "applyPermissionUpdate c u" and ?rank = "rank t r err"
  note same = adds_allows_rules(1) [OF assms(1), of _ c]
  have deny: "has_rule ?c' (covers Deny t) = has_rule c (covers Deny t)"
    and ask: "must_ask t input ?c' = must_ask t input c"
    using same strict_rules unfolding must_ask_def has_rule_def update_context by metis+
  have kept: "has_rule c (covers Allow t) \<longrightarrow> has_rule ?c' (covers Allow t)"
    using adds_allows_rules(2) [OF assms(1)] unfolding has_rule_def by blast
  have "verdict t input ?c' ?rank = verdict t input c ?rank \<or>
      ?rank = 1 \<and> \<not> has_rule c (covers Deny t) \<and> \<not> must_ask t input c \<and> \<not> has_rule c (covers Allow t) \<and>
      has_rule ?c' (covers Allow t) \<and> verdict t input c ?rank = Ask \<and> verdict t input ?c' ?rank = Allow"
    unfolding verdict_level update_context deny ask using level_allow [OF _ kept] rank_le by blast
  with decides [OF assms(2)] decides [OF assms(3)] assms(4) show ?thesis
    unfolding has_rule_def by (elim exE conjE, auto 0 4)
qed

lemma denied: "answer t input c = Inr (r, err) \<Longrightarrow> has_rule c (covers Deny t) \<Longrightarrow> \<exists>d. check t input c = Inr d \<and> pd_behavior d = Deny"
  using decides by (fastforce simp: verdict_level level_def)

end

interpretation core_owner: policy_owner "run_checker e" "engine_rank e" "checkPermissionWithCore e" for e
  using core_decides by unfold_locales (simp_all add: engine_rank_def checker_rank_le)

interpretation engine_owner: policy_owner "run_checker e" "engine_rank e" "checkPermissionWithEngine e" for e
  using engine_decides by unfold_locales (simp_all add: engine_rank_def checker_rank_le)

lemma known_owner_cases:
  "known_owner owner \<Longrightarrow>
     (\<forall>t input c. checkPermission e t input c owner = checkPermissionWithCore e t input c) \<or>
     (\<forall>t input c. checkPermission e t input c owner = checkPermissionWithEngine e t input c)"
  by (cases owner) (auto simp: checkPermission_def known_owner_def split: policy_owner.splits)

lemma check_decides:
  assumes "run_checker e t input c = Inr (r, err)" and "known_owner owner"
  shows "\<exists>d. checkPermission e t input c owner = Inr d \<and> pd_behavior d = verdict t input c (engine_rank e t r err)"
  using core_decides [OF assms(1)] engine_decides [OF assms(1)] assms(2)
  by (cases owner) (auto simp: checkPermission_def known_owner_def split: policy_owner.splits)

text \<open>C25: Whichever owner decides, the behaviour of the decision is the declarative verdict: a covering deny rule or a
  denying checker denies; otherwise a covering ask rule (a sandboxed bash call heeds only those of a server), a
  failed checker, an interactive tool, an ask the checker marks immune or an ask rule about the content asks;
  otherwise the bypass mode allows; otherwise the checker's ask asks, a covering allow rule, the checker or the
  lack of a checker allows, and the rest asks.\<close>

theorem decision_verdict:
  assumes "run_checker e toolName input c = Inr (r, err)" and "known_owner owner"
  shows "\<exists>d. checkPermission e toolName input c owner = Inr d \<and>
           pd_behavior d = verdict toolName input c (checker_rank (pe_checkers e toolName \<noteq> None) r err)"
  using check_decides [OF assms] by (simp add: engine_rank_def)

definition demo_permissions :: permission_context where
  "demo_permissions = createToolPermissionContext ''linux''
     \<lparr>cc_mode = None,
      cc_rules = Some [\<lparr>pr_source = SrcGlobal, pr_behavior = Allow,
          pr_value = \<lparr>rv_toolName = ''mcp__db'', rv_ruleContent = None, rv_matcher = Some MatchTool\<rparr>\<rparr>],
      cc_sandboxEnabled = None, cc_autoAllowBashIfSandboxed = None, cc_platform = None, cc_shellFamily = None,
      cc_workingDirectory = ''/w'', cc_allowedWorkingPaths = None, cc_sandboxAllowPaths = None,
      cc_trustedExactWritePaths = None, cc_dataDir = ''/d'', cc_homeDir = ''/h'', cc_isFile = None, cc_agentName = None,
      cc_sessionId = None, cc_allowManagedPermissionRulesOnly = None, cc_interactiveTools = None\<rparr>"

definition demo_engine :: permission_engine where
  "demo_engine = registerToolPermissionChecker ''mcp__db__query'' (\<lambda>_ _ _. Inr None)
     \<lparr>pe_checkers = (\<lambda>_. None), pe_fallback = (\<lambda>_ _ _. Inr None)\<rparr>"

lemma demo_checker [simp]: "run_checker demo_engine ''mcp__db__query'' input c = Inr (None, None)"
  by (simp add: run_checker_def demo_engine_def registerToolPermissionChecker_def)

lemma demo_registered [simp]: "pe_checkers demo_engine ''mcp__db__query'' \<noteq> None"
  by (simp add: demo_engine_def registerToolPermissionChecker_def)

lemma decision_verdict_witness:
  "\<exists>d. checkPermission demo_engine ''mcp__db__query'' [] demo_permissions (Some OwnerCore) = Inr d \<and> pd_behavior d = Allow"
proof -
  have "verdict ''mcp__db__query'' [] demo_permissions (checker_rank True None None) = Allow"
    by code_simp
  with decision_verdict [of demo_engine "''mcp__db__query''" "[]" demo_permissions None None "Some OwnerCore"] show ?thesis
    by (simp add: known_owner_def)
qed

text \<open>C26: The two owners decide alike: unless the checker throws \<open>null\<close> or \<open>undefined\<close> both return, and their
  decisions differ at most in the category the engine puts on its fallback. After such a throw the core always
  throws, while the engine still denies when a deny rule covers the tool.\<close>

theorem owners_agree:
  "case run_checker e toolName input c of
     Inr _ \<Rightarrow>
       \<exists>d d'. checkPermission e toolName input c (Some OwnerCore) = Inr d \<and>
         checkPermission e toolName input c (Some OwnerEngine) = Inr d' \<and> same_decision toolName d d'
   | Inl x \<Rightarrow>
       checkPermission e toolName input c (Some OwnerCore) = Inl x \<and>
       (if \<exists>r\<in>set (cx_rules c). covers Deny toolName r
        then \<exists>rule. checkPermission e toolName input c (Some OwnerEngine) = Inr (decide Deny (ByRule rule))
        else checkPermission e toolName input c (Some OwnerEngine) = Inl x)"
proof (cases "run_checker e toolName input c")
  case (Inl x)
  with deny_rule_cases [of e toolName input c] show ?thesis
    by (auto simp: checkPermission_def checkPermissionWithCore_def checkPermissionWithEngine_def)
next
  case (Inr a)
  obtain r err where a: "a = (r, err)"
    by fastforce
  from deny_rule_cases [of e toolName input c] show ?thesis
  proof (elim disjE conjE exE)
    fix rule
    assume deny: "checkPermissionWithEngine e toolName input c = Inr (decide Deny (ByRule rule))"
      "\<exists>r\<in>set (cx_rules c). covers Deny toolName r"
    from deny(1) have "or_rule (hasWholeToolRule c toolName Deny) (findMcpServerRule toolName c Deny) = Some rule"
      using deny(2) rule_found [of c toolName Deny]
      by (auto simp: checkPermissionWithEngine_def or_rule_def decide_def split: option.splits)
    with deny(1) Inr a show ?thesis
      by (simp add: checkPermission_def checkPermissionWithCore_def reducePermissionDecision_def same_refl)
  next
    assume none: "hasWholeToolRule c toolName Deny = None" "findMcpServerRule toolName c Deny = None"
    from core_same_engine [OF none, of input "pe_checkers e toolName \<noteq> None" r err] Inr a none show ?thesis
      by (simp add: checkPermission_def checkPermissionWithCore_def checkPermissionWithEngine_def)
  qed
qed

section \<open>Changed rules\<close>

text \<open>C3: An update that only adds deny or ask rules or only takes allow rules away does not by itself make a decision
  weaker. If the decision is weaker after it, then the checker of the tool, which sees the rules too, has answered
  more weakly under the new ones, and no deny rule covers the tool. The shell checker of the program can do that:
  it looks at ask rules before its own hard denials.\<close>

theorem tightening_never_relaxes:
  assumes "tightens u" and "known_owner owner"
    and "run_checker e toolName input c = Inr (r, err)"
    and "run_checker e toolName input (applyPermissionUpdate c u) = Inr (r', err')"
  shows "\<exists>d d'. checkPermission e toolName input c owner = Inr d \<and>
           checkPermission e toolName input (applyPermissionUpdate c u) owner = Inr d' \<and>
           (severity (pd_behavior d) \<le> severity (pd_behavior d') \<or>
            engine_rank e toolName r' err' < engine_rank e toolName r err \<and>
            \<not> has_rule (applyPermissionUpdate c u) (covers Deny toolName))"
  using known_owner_cases [OF assms(2), of e] core_owner.relaxed [OF assms(1,3,4)] engine_owner.relaxed [OF assms(1,3,4)] by auto

definition ask_update :: permission_update where
  "ask_update = AddRules SrcSession [] [\<lparr>rv_toolName = ''mcp__db__query'', rv_ruleContent = None, rv_matcher = Some MatchTool\<rparr>] Ask"

lemma tightening_never_relaxes_witness:
  "\<exists>d d'. checkPermission demo_engine ''mcp__db__query'' [] demo_permissions None = Inr d \<and>
     checkPermission demo_engine ''mcp__db__query'' [] (applyPermissionUpdate demo_permissions ask_update) None = Inr d' \<and>
     severity (pd_behavior d) \<le> severity (pd_behavior d')"
  using tightening_never_relaxes [where e = demo_engine and toolName = "''mcp__db__query''" and input = "[]" and c = demo_permissions
      and u = ask_update and owner = None and r = None and err = None and r' = None and err' = None]
  by (simp add: tightens_def ask_update_def known_owner_def)

text \<open>Adding allow rules changes a decision only where nothing denied or asked: from the default ask of a checker
  without an opinion to the allow of a new rule that covers the tool. Denials, ask rules, interactive tools,
  failures and asks of the checker stand.\<close>

theorem allow_rules_lift_default_ask:
  assumes "adds_allows u" and "known_owner owner"
    and "run_checker e toolName input c = Inr (r, err)"
    and "run_checker e toolName input (applyPermissionUpdate c u) = Inr (r', err')"
    and "engine_rank e toolName r' err' = engine_rank e toolName r err"
  shows "\<exists>d d'. checkPermission e toolName input c owner = Inr d \<and>
           checkPermission e toolName input (applyPermissionUpdate c u) owner = Inr d' \<and>
           (pd_behavior d' = pd_behavior d \<or>
            engine_rank e toolName r err = 1 \<and> \<not> has_rule c (covers Deny toolName) \<and> \<not> must_ask toolName input c \<and>
            pd_behavior d = Ask \<and> pd_behavior d' = Allow \<and>
            (\<exists>rule\<in>set (cx_rules (applyPermissionUpdate c u)). covers Allow toolName rule \<and> rule \<notin> set (cx_rules c)))"
  using known_owner_cases [OF assms(2), of e]
proof
  assume "\<forall>t input c. checkPermission e t input c owner = checkPermissionWithCore e t input c"
  then show ?thesis
    using core_owner.allowed [OF assms(1,3-5)] by simp
next
  assume "\<forall>t input c. checkPermission e t input c owner = checkPermissionWithEngine e t input c"
  then show ?thesis
    using engine_owner.allowed [OF assms(1,3-5)] by simp
qed

lemma allow_rules_lift_default_ask_witness:
  "\<exists>d d'. checkPermission demo_engine ''mcp__db__query'' [] (applyPermissionUpdate demo_permissions ask_update) None = Inr d \<and>
     checkPermission demo_engine ''mcp__db__query'' []
       (applyPermissionUpdate (applyPermissionUpdate demo_permissions ask_update)
         (AddRules SrcSession [] [\<lparr>rv_toolName = ''mcp__db__query'', rv_ruleContent = None, rv_matcher = None\<rparr>] Allow)) None = Inr d' \<and>
     pd_behavior d' = pd_behavior d"
proof -
  let ?c = "applyPermissionUpdate demo_permissions ask_update"
  have "must_ask ''mcp__db__query'' [] ?c"
    by code_simp
  with allow_rules_lift_default_ask [where c = ?c and owner = None and r = None and err = None and r' = None and err' = None
      and e = demo_engine and toolName = "''mcp__db__query''" and input = "[]" and u =
        "AddRules SrcSession [] [\<lparr>rv_toolName = ''mcp__db__query'', rv_ruleContent = None, rv_matcher = None\<rparr>] Allow"]
  show ?thesis
    by (auto simp: adds_allows_def known_owner_def)
qed

end
