(* ===== verification/PermEvidence.thy ===== *)
theory PermEvidence
  imports PermProps
begin

text \<open>
  A checker that fails, the evaluation of evidence, the evaluation of the engine's decisions as evidence, the modes
  and the names of MCP servers.
\<close>

section \<open>A checker that fails\<close>

definition with_checker :: "string \<Rightarrow> checker_throw + tool_check_result option \<Rightarrow> permission_engine \<Rightarrow> permission_engine" where
  "with_checker toolName answer e = registerToolPermissionChecker toolName (\<lambda>_ _ _. answer) e"

lemma with_checker_run:
  "run_checker (with_checker t answer e) t input c =
     (case answer of
        Inr r \<Rightarrow> Inr (r, None)
      | Inl (CheckerError message) \<Rightarrow> Inr (None, Some message)
      | Inl CheckerValue \<Rightarrow> Inr (None, None)
      | Inl CheckerNullish \<Rightarrow> Inl MessageOfNullish)"
  "pe_checkers (with_checker t answer e) t \<noteq> None"
  by (simp_all add: run_checker_def with_checker_def registerToolPermissionChecker_def)

lemma empty_message:
  "engine_after_checker registered t input c r (Some []) = engine_after_checker registered t input c r None"
proof -
  have "truthy (Some []) = truthy None"
    by simp
  then have ask: "engine_after_ask registered t input c r (Some []) = engine_after_ask registered t input c r None"
    unfolding engine_after_ask_def by (simp only:)
  show ?thesis
    unfolding engine_after_checker_def ask ..
qed

lemma silent_failure:
  assumes "x = CheckerValue \<or> x = CheckerError []"
  shows "checkPermission (with_checker t (Inl x) e) t input c owner = checkPermission (with_checker t (Inr None) e) t input c owner"
  using assms with_checker_run(2) [of t _ e]
  by (auto simp: checkPermission_def checkPermissionWithCore_def checkPermissionWithEngine_def with_checker_run(1) empty_message
      split: option.splits policy_owner.splits)

text \<open>C27: A checker that throws an error with a message never lets a call through. One that throws an error without a
  message or a value that is no error is taken for a checker without an opinion: the call is decided as if it had
  returned nothing, so the bypass mode or a covering allow rule allows it where nothing denies or asks.\<close>

theorem checker_failure_needs_message:
  assumes "known_owner owner"
  shows "(\<forall>m. m \<noteq> [] \<longrightarrow>
            (\<exists>d. checkPermission (with_checker toolName (Inl (CheckerError m)) e) toolName input c owner = Inr d \<and>
               pd_behavior d \<noteq> Allow)) \<and>
         (\<forall>x \<in> {CheckerValue, CheckerError []}.
            checkPermission (with_checker toolName (Inl x) e) toolName input c owner =
              checkPermission (with_checker toolName (Inr None) e) toolName input c owner) \<and>
         ((isBypassMode c \<or> has_rule c (covers Allow toolName)) \<and> \<not> has_rule c (covers Deny toolName) \<and> \<not> must_ask toolName input c \<longrightarrow>
            (\<forall>x \<in> {CheckerValue, CheckerError []}.
               \<exists>d. checkPermission (with_checker toolName (Inl x) e) toolName input c owner = Inr d \<and> pd_behavior d = Allow))"
proof (intro conjI allI impI ballI)
  fix m :: string
  assume "m \<noteq> []"
  let ?e = "with_checker toolName (Inl (CheckerError m)) e"
  have "run_checker ?e toolName input c = Inr (None, Some m)"
    by (simp add: with_checker_run)
  moreover have "engine_rank ?e toolName None (Some m) = 3"
    using \<open>m \<noteq> []\<close> by (simp add: engine_rank_def checker_rank_def checker_says_def)
  ultimately show "\<exists>d. checkPermission ?e toolName input c owner = Inr d \<and> pd_behavior d \<noteq> Allow"
    using check_decides [OF _ assms] by (fastforce simp: verdict_level level_def)
next
  fix x
  assume x: "x \<in> {CheckerValue, CheckerError []}"
  then show same: "checkPermission (with_checker toolName (Inl x) e) toolName input c owner =
      checkPermission (with_checker toolName (Inr None) e) toolName input c owner"
    using silent_failure by auto
  assume open_call: "(isBypassMode c \<or> has_rule c (covers Allow toolName)) \<and> \<not> has_rule c (covers Deny toolName) \<and> \<not> must_ask toolName input c"
  let ?e = "with_checker toolName (Inr None) e"
  have "run_checker ?e toolName input c = Inr (None, None)"
    by (simp add: with_checker_run)
  moreover have "engine_rank ?e toolName None None = 1"
    using with_checker_run(2) [of toolName "Inr None" e] by (simp add: engine_rank_def checker_rank_def checker_says_def)
  ultimately show "\<exists>d. checkPermission (with_checker toolName (Inl x) e) toolName input c owner = Inr d \<and> pd_behavior d = Allow"
    unfolding same using check_decides [OF _ assms, of ?e toolName input c None None] open_call
    by (auto simp: verdict_level level_def)
qed

lemma checker_failure_needs_message_witness:
  "(\<exists>d. checkPermission (with_checker ''mcp__db__query'' (Inl (CheckerError ''timeout'')) demo_engine) ''mcp__db__query'' []
        demo_permissions None = Inr d \<and> pd_behavior d \<noteq> Allow) \<and>
   (\<exists>d. checkPermission (with_checker ''mcp__db__query'' (Inl CheckerValue) demo_engine) ''mcp__db__query'' []
        demo_permissions None = Inr d \<and> pd_behavior d = Allow)"
proof -
  have "has_rule demo_permissions (covers Allow ''mcp__db__query'')" "\<not> has_rule demo_permissions (covers Deny ''mcp__db__query'')"
    "\<not> must_ask ''mcp__db__query'' [] demo_permissions"
    by code_simp+
  moreover have "known_owner None" "''timeout'' \<noteq> []"
    by (simp_all add: known_owner_def)
  ultimately show ?thesis
    using checker_failure_needs_message [of None "''mcp__db__query''" demo_engine "[]" demo_permissions] by blast
qed

section \<open>Evidence\<close>

datatype outcome_kind = OutAllow | OutAsk | OutDeny

definition outcome_kind :: "'plan permission_evaluation \<Rightarrow> outcome_kind" where
  "outcome_kind x = (case x of AllowOutcome _ _ \<Rightarrow> OutAllow | AskOutcome _ _ \<Rightarrow> OutAsk | DenyOutcome _ \<Rightarrow> OutDeny)"

definition denies :: "permission_evidence \<Rightarrow> bool" where
  "denies e \<longleftrightarrow> (case e of HostDeny _ \<Rightarrow> True | LegacyDeny _ \<Rightarrow> True | UserRule b _ \<Rightarrow> b = Deny | ClassifierResult b _ \<Rightarrow> b = Deny | _ \<Rightarrow> False)"

definition asks :: "permission_evidence \<Rightarrow> bool" where
  "asks e \<longleftrightarrow> (case e of ClassifierIneligible _ \<Rightarrow> True | UserRule b _ \<Rightarrow> b = Ask | ClassifierResult b _ \<Rightarrow> b = Ask | _ \<Rightarrow> False)"

definition evidence_verdict :: "permission_evidence set \<Rightarrow> mode_profile \<Rightarrow> outcome_kind" where
  "evidence_verdict E m =
     (let unattended = (if mp_interaction m = HeadlessFailClosed then OutDeny else OutAsk) in
      if \<exists>e\<in>E. denies e then OutDeny
      else if \<exists>e\<in>E. asks e then unattended
      else if \<exists>e\<in>E. is_allow e then OutAllow
      else if mp_interaction m = NeverAsk \<and> mp_enforcement m = Strict then OutDeny
      else unattended)"

lemma find_is_None: "(List.find p xs \<noteq> None) \<longleftrightarrow> (\<exists>x\<in>set xs. p x)" "List.find p xs = None \<longleftrightarrow> \<not> (\<exists>x\<in>set xs. p x)"
  by (auto simp: find_None_bex)

lemma denies_cases:
  "denies e \<longleftrightarrow> (case e of HostDeny _ \<Rightarrow> True | _ \<Rightarrow> False) \<or> is_user_rule Deny e \<or>
     (case e of LegacyDeny _ \<Rightarrow> True | _ \<Rightarrow> False) \<or> is_classifier_result Deny e"
  by (cases e) (simp_all add: denies_def is_user_rule_def is_classifier_result_def)

lemma asks_cases:
  "asks e \<longleftrightarrow> is_user_rule Ask e \<or> is_classifier_result Ask e \<or> (case e of ClassifierIneligible _ \<Rightarrow> True | _ \<Rightarrow> False)"
  by (cases e) (simp_all add: asks_def is_user_rule_def is_classifier_result_def)

lemma classifier_allow_is_allow: "is_classifier_result Allow e \<Longrightarrow> is_allow e"
  by (cases e) (simp_all add: is_classifier_result_def is_allow_def)

lemma outcome_kind_simps [simp]:
  "outcome_kind (AllowOutcome a p) = OutAllow" "outcome_kind (AskOutcome r p) = OutAsk" "outcome_kind (DenyOutcome x) = OutDeny"
  by (simp_all add: outcome_kind_def)

lemma allow_found: "hasAllow E \<longleftrightarrow> (\<exists>e\<in>set E. is_allow e)"
  by (simp add: hasAllow_def list_ex_iff)

lemma classifier_allow_found: "list_ex (is_classifier_result Allow) E \<Longrightarrow> \<exists>e\<in>set E. is_allow e"
  using classifier_allow_is_allow by (auto simp: list_ex_iff)

lemma ineligible_found:
  "list_ex (\<lambda>e. case e of ClassifierIneligible _ \<Rightarrow> True | _ \<Rightarrow> False) E \<longleftrightarrow>
     (\<exists>e\<in>set E. case e of ClassifierIneligible _ \<Rightarrow> True | _ \<Rightarrow> False)"
  by (simp add: list_ex_iff)

lemma evaluation_verdict_core:
  "outcome_kind (reducePermissionEvaluation ei) = evidence_verdict (set (ei_evidence ei)) (ei_mode ei)"
  unfolding reducePermissionEvaluation_def Let_def option.case_distrib [of outcome_kind] if_distrib [of outcome_kind]
    outcome_kind_simps case_const or_rule_None find_is_None ineligible_found allow_found evidence_verdict_def denies_cases
    asks_cases bex_disj_distrib de_Morgan_conj not_not
  using classifier_allow_found [of "ei_evidence ei"]
  by (cases "mp_interaction (ei_mode ei)"; cases "list_ex (is_classifier_result Allow) (ei_evidence ei)"; simp)

text \<open>C28: The outcome of an evaluation depends on which evidence there is and not on its order or number: any denying
  evidence denies; otherwise any asking evidence asks, or denies without an approval channel; otherwise any
  allowing evidence allows; and no evidence at all denies where asking is disabled under strict enforcement.\<close>

theorem evaluation_verdict:
  "outcome_kind (reducePermissionEvaluation ei) = evidence_verdict (set (ei_evidence ei)) (ei_mode ei)"
  by (rule evaluation_verdict_core)

section \<open>Decisions as evidence, and the modes\<close>

definition not_approvable :: "decision_reason \<Rightarrow> bool" where
  "not_approvable reason \<longleftrightarrow> (case reason of SafetyCheck _ approvable _ \<Rightarrow> approvable = Some False | _ \<Rightarrow> False)"

lemma legacy_evidence_facts:
  "(\<exists>e\<in>set (legacy_evidence d). denies e) \<longleftrightarrow> pd_behavior d = Deny"
  "(\<exists>e\<in>set (legacy_evidence d). asks e) \<longleftrightarrow> pd_behavior d = Ask \<or> not_approvable (pd_reason d)"
  "(\<exists>e\<in>set (legacy_evidence d). is_allow e) \<longleftrightarrow> pd_behavior d = Allow"
  by (cases "pd_behavior d"; cases "pd_reason d";
      simp add: legacy_evidence_def decisionEvidence_def denies_def asks_def is_allow_def not_approvable_def)+

text \<open>Evaluated as evidence, a decision of the engine keeps its behaviour, except that where there is no approval
  channel its ask denies, and that an allow whose safety check must not be approved is asked about.\<close>

theorem legacy_evaluation_follows:
  "outcome_kind (evaluateLegacyPermission d ei) =
     (if pd_behavior d = Deny then OutDeny
      else if pd_behavior d = Ask \<or> not_approvable (pd_reason d)
      then (if mp_interaction (ei_mode ei) = HeadlessFailClosed then OutDeny else OutAsk)
      else OutAllow)"
  unfolding evaluateLegacyPermission_def evaluation_verdict_core evidence_verdict_def Let_def
  by (cases "pd_behavior d") (simp_all add: legacy_evidence_facts)

text \<open>The two readings of a mode differ on \<open>off\<close> and \<open>dontAsk\<close>: the facade never interrupts in the one and denies
  what is not allowed in the other, while the profile evaluates a call without evidence to an ask in both. In
  \<open>bypassPermissions\<close> the facade never interrupts and the profile denies; in the remaining modes both ask.\<close>

theorem mode_profiles_disagree:
  assumes "ei_evidence ei = []" and "ei_mode ei = permissionModeToProfile mode"
  shows "outcome_kind (reducePermissionEvaluation ei) = (if mode = BypassPermissions then OutDeny else OutAsk) \<and>
    (modeToAskPolicy mode = NeverInterrupt \<longleftrightarrow> mode = BypassPermissions \<or> mode = ModeOff) \<and>
    (modeToAskPolicy mode = DenyUnlessAllowed \<longleftrightarrow> mode = DontAsk)"
  unfolding evaluation_verdict_core evidence_verdict_def Let_def using assms by (cases mode) simp_all

definition demo_evaluation :: "permission_mode \<Rightarrow> unit evaluation_input" where
  "demo_evaluation mode = \<lparr>ei_toolName = ''bash'', ei_input = [], ei_evidence = [], ei_executionPlan = None,
     ei_mode = permissionModeToProfile mode,
     ei_context = \<lparr>ec_workingDirectory = ''/w'', ec_homeDir = ''/h'', ec_dataDir = ''/d'', ec_sessionId = None, ec_agentName = None\<rparr>\<rparr>"

lemma mode_profiles_disagree_witness:
  "outcome_kind (reducePermissionEvaluation (demo_evaluation ModeOff)) = OutAsk \<and> modeToAskPolicy ModeOff = NeverInterrupt"
  using mode_profiles_disagree [of "demo_evaluation ModeOff" ModeOff] by (simp add: demo_evaluation_def)

section \<open>Names of MCP servers\<close>

fun join_mcp :: "string list \<Rightarrow> string" where
  "join_mcp [] = []"
| "join_mcp [s] = s"
| "join_mcp (s # ss) = s @ ''__'' @ join_mcp ss"

lemma split_mcp_nonempty: "split_mcp s part \<noteq> []"
  by (induction s part rule: split_mcp.induct) simp_all

lemma join_split: "join_mcp (split_mcp s part) = rev part @ s"
proof (induction s part rule: split_mcp.induct)
  case (3 c d s part)
  then show ?case
    using split_mcp_nonempty [of s "[]"] by (cases "split_mcp s []") auto
qed simp_all

lemma split_eq_join: "split_mcp s [] = parts \<Longrightarrow> s = join_mcp parts"
  using join_split [of s "[]"] by simp

text \<open>A rule on an MCP server covers only tools whose name continues its own name, \<open>mcp__\<close> and the server, with
  \<open>__\<close> and the tool; and no two rules for different servers cover the same tool.\<close>

theorem mcp_rule_one_server:
  assumes "matchesMcpServerRuntimeName tool server"
  shows "\<exists>srv t. server = ''mcp__'' @ srv \<and> tool = server @ ''__'' @ t \<and> srv \<noteq> [] \<and> t \<noteq> [] \<and>
           (\<forall>other. matchesMcpServerRuntimeName tool other \<longrightarrow> other = server)"
proof -
  obtain srv t where parts: "split_mcp tool [] = [''mcp'', srv, t]" "split_mcp server [] = [''mcp'', srv]" "srv \<noteq> []" "t \<noteq> []"
    using assms unfolding matchesMcpServerRuntimeName_def by (auto split: list.splits)
  have "other = server" if "matchesMcpServerRuntimeName tool other" for other
  proof -
    have "split_mcp other [] = [''mcp'', srv]"
      using that parts(1) unfolding matchesMcpServerRuntimeName_def by (auto split: list.splits)
    then show ?thesis
      using split_eq_join parts(2) by metis
  qed
  then show ?thesis
    using parts split_eq_join [OF parts(1)] split_eq_join [OF parts(2)] by auto
qed

lemma mcp_rule_one_server_witness:
  "\<exists>srv t. ''mcp__db'' = ''mcp__'' @ srv \<and> ''mcp__db__query'' = ''mcp__db'' @ ''__'' @ t \<and> srv \<noteq> [] \<and> t \<noteq> [] \<and>
     (\<forall>other. matchesMcpServerRuntimeName ''mcp__db__query'' other \<longrightarrow> other = ''mcp__db'')"
  by (rule mcp_rule_one_server) code_simp

end
