(* ===== verification/McpNameProps.thy ===== *)
theory McpNameProps
  imports McpOps PermEvidence
begin

text \<open>
  Properties of the name registry over any calls, and what they mean for the permission rules on MCP servers.
\<close>

section \<open>Any calls\<close>

text \<open>A registry that is opened again has the file and an empty memory; one without a file cannot be.\<close>

datatype name_call = CallServers "name_candidate list" | CallTools string "string list" | Reopen

fun run_name_call :: "(string \<Rightarrow> js option) \<Rightarrow> name_registry \<Rightarrow> name_call \<Rightarrow> name_registry" where
  "run_name_call parse rg (CallServers cs) = snd (assignServers parse cs rg)"
| "run_name_call parse rg (CallTools key raws) = snd (assignTools parse key raws rg)"
| "run_name_call parse rg Reopen = (if nr_onDisk rg then rg\<lparr>nr_state := []\<rparr> else rg)"

definition run_name_calls :: "(string \<Rightarrow> js option) \<Rightarrow> name_registry \<Rightarrow> name_call list \<Rightarrow> name_registry" where
  "run_name_calls parse = foldl (run_name_call parse)"

definition sound :: "name_registry \<Rightarrow> name_state \<Rightarrow> bool" where
  "sound rg st \<longleftrightarrow> load_state rg = Inr st \<and> valid_state st"

lemma grown_update: "grown (pre @ a # post) (pre @ a\<lparr>sa_tools := sa_tools a @ extra\<rparr> # post)"
  unfolding grown_def
  by (intro exI [of _ "pre @ a\<lparr>sa_tools := sa_tools a @ extra\<rparr> # post"] exI [of _ "[]"])
    (auto simp: tools_grown_def intro!: list_all2_appendI list_all2_refl)

lemma call_sound:
  assumes "sound rg st"
  shows "\<exists>st'. sound (run_name_call parse rg c) st' \<and> grown st st'"
proof (cases c)
  case (CallServers cs)
  with assignServers_ok [of rg st parse cs] assms show ?thesis
    by (auto simp: sound_def)
next
  case (CallTools key raws)
  show ?thesis
  proof (cases "List.find (\<lambda>a. sa_key a = key) st")
    case None
    with assignTools_ok [of rg st, where key = key and parse = parse and raws = raws] assms CallTools show ?thesis
      by (auto simp: sound_def intro: grown_refl)
  next
    case (Some server)
    with assignTools_ok [of rg st, where key = key and parse = parse and raws = raws] assms CallTools show ?thesis
      by (auto simp: sound_def intro: grown_update)
  qed
next
  case Reopen
  with assms show ?thesis
    by (auto simp: sound_def load_state_def intro: grown_refl)
qed

lemma calls_sound:
  assumes "sound rg st"
  shows "\<exists>st'. sound (run_name_calls parse rg cs) st' \<and> grown st st'"
  using assms
proof (induction cs arbitrary: rg st)
  case Nil
  then show ?case
    by (auto simp: run_name_calls_def)
next
  case (Cons c cs)
  obtain st1 where one: "sound (run_name_call parse rg c) st1" "grown st st1"
    using call_sound [OF Cons(2)] by blast
  from Cons(1) [OF one(1)] obtain st2 where "sound (run_name_calls parse (run_name_call parse rg c) cs) st2" "grown st1 st2"
    by blast
  with grown_trans [OF one(2)] show ?case
    by (auto simp: run_name_calls_def)
qed

lemma empty_sound: "sound (empty_registry onDisk) []"
  by (simp add: sound_def empty_registry_def load_state_def valid_state_def)

definition name_registry_after :: "(string \<Rightarrow> js option) \<Rightarrow> bool \<Rightarrow> name_call list \<Rightarrow> name_registry" where
  "name_registry_after parse onDisk calls = run_name_calls parse (empty_registry onDisk) calls"

lemma after_sound: "\<exists>st. sound (name_registry_after parse onDisk calls) st"
  using calls_sound [OF empty_sound] unfolding name_registry_after_def by blast

lemma grown_server:
  assumes "grown st st'" and "a \<in> set st"
  shows "\<exists>a'\<in>set st'. tools_grown a a'"
proof -
  obtain kept extra where "st' = kept @ extra" "list_all2 tools_grown st kept"
    using assms(1) unfolding grown_def by blast
  with assms(2) show ?thesis
    by (metis Un_iff in_set_conv_nth list_all2_conv_all_nth set_append)
qed

text \<open>C29: Whatever calls reached a registry, also across restarts, it accepts the file it wrote, what it holds is valid
  (keys and names of servers and of the tools of a server are distinct, every segment is a valid one and short
  enough), the servers of any list of candidates can be assigned, and the tools of a server exactly when the
  server was.\<close>

theorem registry_accepts_itself:
  "\<exists>st. load_state (name_registry_after parse onDisk calls) = Inr st \<and> valid_state st \<and>
     (\<forall>cs. \<exists>r rg'. assignServers parse cs (name_registry_after parse onDisk calls) = (Inr r, rg')) \<and>
     (\<forall>key raws. \<exists>x rg'. assignTools parse key raws (name_registry_after parse onDisk calls) = (x, rg') \<and>
        (if key \<in> set (map sa_key st) then \<exists>r. x = Inr r else x = Inl NotAllocated))"
proof -
  let ?rg = "name_registry_after parse onDisk calls"
  obtain st where st: "load_state ?rg = Inr st" "valid_state st"
    using after_sound unfolding sound_def by blast
  have "\<exists>x rg'. assignTools parse key raws ?rg = (x, rg') \<and>
        (if key \<in> set (map sa_key st) then \<exists>r. x = Inr r else x = Inl NotAllocated)" for key raws
    using assignTools_ok [OF st, where key = key and parse = parse and raws = raws] find_is_None(2) [of "\<lambda>a. sa_key a = key" st]
    by (cases "List.find (\<lambda>a. sa_key a = key) st") auto
  with st assignServers_ok [OF st] show ?thesis
    by blast
qed

text \<open>C30: The public name of a tool never changes: a raw name that was once assigned a name for a server gets the same
  name whenever it is assigned again, after any calls and restarts.\<close>

theorem tool_name_stable:
  assumes "assignTools parse key raws (name_registry_after parse onDisk calls) = (Inr r, rg)" and "(raw, name) \<in> set (na_names r)"
    and "assignTools parse key raws' (run_name_calls parse rg calls') = (Inr r', rg')" and "raw \<in> set raws'"
  shows "(raw, name) \<in> set (na_names r')"
proof -
  obtain st where st: "load_state (name_registry_after parse onDisk calls) = Inr st" "valid_state st"
    using after_sound unfolding sound_def by blast
  obtain server where server: "List.find (\<lambda>a. sa_key a = key) st = Some server"
    using assignTools_ok [OF st, where key = key and parse = parse and raws = raws] assms(1) by (auto split: option.splits)
  obtain q pre post extra where one: "r = public_names (sa_segment server) q" "sa_key server = key"
      "sound rg (pre @ server\<lparr>sa_tools := sa_tools server @ extra\<rparr> # post)"
      "answers raws (tool_names (sa_tools server)) (tool_names (sa_tools server @ extra)) q"
    using assignTools_ok [OF st, where key = key and parse = parse and raws = raws] assms(1) unfolding server by (auto simp: sound_def)
  let ?server = "server\<lparr>sa_tools := sa_tools server @ extra\<rparr>"
  obtain st' where st': "sound (run_name_calls parse rg calls') st'" "grown (pre @ ?server # post) st'"
    using calls_sound [OF one(3)] by blast
  obtain server' where server': "server' \<in> set st'" "tools_grown ?server server'"
    using grown_server [OF st'(2), of ?server] by auto
  have key': "sa_key server' = key" and segment: "sa_segment server' = sa_segment server"
    and tools: "set (tool_names (sa_tools ?server)) \<subseteq> set (tool_names (sa_tools server'))"
    using server'(2) one(2) by (auto simp: tools_grown_def tool_names_def)
  have "load_state (run_name_calls parse rg calls') = Inr st'" "valid_state st'"
    using st'(1) by (simp_all add: sound_def)
  note two = assignTools_ok [OF this, where key = key and parse = parse and raws = raws']
  have found: "List.find (\<lambda>a. sa_key a = key) st' = Some server'"
  proof -
    have "List.find (\<lambda>a. sa_key a = key) st' \<noteq> None"
      using server'(1) key' find_is_None(1) [of "\<lambda>a. sa_key a = key" st'] by blast
    then obtain found where "List.find (\<lambda>a. sa_key a = key) st' = Some found"
      by blast
    moreover from find_SomeD [OF this] have "found = server'"
      using server'(1) key' \<open>valid_state st'\<close> unfolding valid_state_def by (metis distinct_map inj_onD)
    ultimately show ?thesis
      by simp
  qed
  obtain q' extra' where "r' = public_names (sa_segment server') q'"
      "answers raws' (tool_names (sa_tools server')) (tool_names (sa_tools server' @ extra')) q'"
    using two assms(3) unfolding found by auto
  moreover obtain seg where "(raw, seg) \<in> set (na_names q)" "name = tool_runtime_name (sa_segment server) seg"
    using assms(2) unfolding one(1) by (auto simp: public_names_def)
  ultimately show ?thesis
    using one(4) tools assms(4) segment unfolding answers_def by (force simp: public_names_def)
qed

definition demo_calls :: "name_call list" where
  "demo_calls = [CallServers [\<lparr>nc_key = ''k1'', nc_name = ''my db''\<rparr>, \<lparr>nc_key = ''k2'', nc_name = ''my_db''\<rparr>],
     CallTools ''k1'' [''get__row'', ''get row'']]"

lemma tool_name_stable_witness:
  "(''get row'', ''mcp__my_db_2__get_row'') \<in>
     set (na_names (case fst (assignTools (\<lambda>_. None) ''k1'' [''get row''] (run_name_calls (\<lambda>_. None)
       (snd (assignTools (\<lambda>_. None) ''k1'' [''get__row'', ''get row''] (name_registry_after (\<lambda>_. None) True demo_calls)))
       [Reopen])) of Inr r \<Rightarrow> r))"
proof -
  let ?rg = "name_registry_after (\<lambda>_. None) True demo_calls" and ?names = "[''get__row'', ''get row'']"
  obtain r rg where one: "assignTools (\<lambda>_. None) ''k1'' ?names ?rg = (Inr r, rg)" "(''get row'', ''mcp__my_db_2__get_row'') \<in> set (na_names r)"
  proof -
    have "case assignTools (\<lambda>_. None) ''k1'' ?names ?rg of (Inr r, rg) \<Rightarrow>
        (''get row'', ''mcp__my_db_2__get_row'') \<in> set (na_names r) | _ \<Rightarrow> False"
      by code_simp
    then show ?thesis
      using that by (auto split: prod.splits sum.splits)
  qed
  obtain r' rg' where two: "assignTools (\<lambda>_. None) ''k1'' [''get row''] (run_name_calls (\<lambda>_. None) rg [Reopen]) = (Inr r', rg')"
  proof -
    have "case assignTools (\<lambda>_. None) ''k1'' [''get row''] (run_name_calls (\<lambda>_. None) (snd (assignTools (\<lambda>_. None) ''k1'' ?names ?rg)) [Reopen]) of
        (Inr r, rg) \<Rightarrow> True | _ \<Rightarrow> False"
      by code_simp
    then show ?thesis
      using that one(1) by (auto split: prod.splits sum.splits)
  qed
  from tool_name_stable [OF one two] show ?thesis
    using one(1) two by simp
qed

section \<open>Names and permission rules\<close>

lemma split_mcp_plain:
  assumes "successively single s" and "s \<noteq> [] \<Longrightarrow> \<not> underscore (last s)"
  shows "split_mcp (s @ ''__'' @ rest) part = (rev part @ s) # split_mcp rest []" and "split_mcp s part = [rev part @ s]"
  using assms
proof (induction s arbitrary: part)
  case (Cons c s)
  {
    case 1
    show ?case
    proof (cases s)
      case Nil
      with 1 show ?thesis
        by (simp add: underscore_def)
    next
      case (Cons d s')
      with 1 Cons.IH(1) [of "c # part"] show ?thesis
        by (auto simp: single_def underscore_def)
    qed
  next
    case 2
    show ?case
    proof (cases s)
      case Nil
      then show ?thesis
        by simp
    next
      case (Cons d s')
      with 2 Cons.IH(2) [of "c # part"] show ?thesis
        by (auto simp: single_def underscore_def)
    qed
  }
qed simp_all

lemma valid_split:
  assumes "validSegment s"
  shows "split_mcp (s @ ''__'' @ rest) [] = s # split_mcp rest []" and "split_mcp s [] = [s]"
  using assms split_mcp_plain(1) [of s rest "[]"] split_mcp_plain(2) [of s "[]"] by (auto simp: validSegment_iff plain_def)

lemma name_parts:
  assumes "validSegment s"
  shows "split_mcp (''mcp__'' @ s) [] = [''mcp'', s]"
    and "validSegment t \<Longrightarrow> split_mcp (tool_runtime_name s t) [] = [''mcp'', s, t]"
proof -
  have mcp: "split_mcp (''mcp'' @ ''__'' @ rest) [] = ''mcp'' # split_mcp rest []" for rest
    by simp
  show "split_mcp (''mcp__'' @ s) [] = [''mcp'', s]"
    using mcp [of s] valid_split(2) [OF assms] by simp
  show "split_mcp (tool_runtime_name s t) [] = [''mcp'', s, t]" if "validSegment t"
    using mcp [of "s @ ''__'' @ t"] valid_split(1) [OF assms, of t] valid_split(2) [OF that] by (simp add: tool_runtime_name_def)
qed

lemma state_valid_segments:
  assumes "valid_state st" and "a \<in> set st" and "t \<in> set (sa_tools a)"
  shows "validSegment (sa_segment a)" and "validSegment (ta_segment t)"
    and "length (ta_segment t) + length (sa_segment a) + 7 \<le> MCP_RUNTIME_TOOL_NAME_MAX_LENGTH"
  using assms by (auto simp: valid_state_def valid_tools_def)

lemma state_unique:
  assumes "valid_state st" and "a \<in> set st" and "b \<in> set st"
  shows "sa_segment a = sa_segment b \<Longrightarrow> a = b"
    and "t \<in> set (sa_tools a) \<Longrightarrow> u \<in> set (sa_tools a) \<Longrightarrow> ta_segment t = ta_segment u \<Longrightarrow> t = u"
  using assms unfolding valid_state_def valid_tools_def by (metis distinct_map inj_onD)+

text \<open>C8: The public names a registry holds are distinct over all servers and tools and at most 80 characters long.\<close>

theorem public_names_distinct:
  assumes "load_state (name_registry_after parse onDisk calls) = Inr st"
    and "a \<in> set st" and "t \<in> set (sa_tools a)" and "b \<in> set st" and "u \<in> set (sa_tools b)"
  shows "length (tool_runtime_name (sa_segment a) (ta_segment t)) \<le> 80 \<and>
    (tool_runtime_name (sa_segment a) (ta_segment t) = tool_runtime_name (sa_segment b) (ta_segment u) \<longleftrightarrow> a = b \<and> t = u)"
proof -
  have valid: "valid_state st"
    using after_sound [of parse onDisk calls] assms(1) by (auto simp: sound_def)
  note a = state_valid_segments [OF valid assms(2,3)] and b = state_valid_segments [OF valid assms(4,5)]
  have "a = b \<and> t = u" if "tool_runtime_name (sa_segment a) (ta_segment t) = tool_runtime_name (sa_segment b) (ta_segment u)"
  proof -
    from arg_cong [OF that, of "\<lambda>name. split_mcp name []"] have "sa_segment a = sa_segment b" "ta_segment t = ta_segment u"
      unfolding name_parts(2) [OF a(1,2)] name_parts(2) [OF b(1,2)] by simp_all
    then show ?thesis
      using state_unique(1) [OF valid assms(2,4)] state_unique(2) [OF valid assms(2,4) assms(3), of u] assms(5) by simp
  qed
  moreover have "length (tool_runtime_name (sa_segment a) (ta_segment t)) \<le> 80"
    using a(3) by (simp add: tool_runtime_name_def MCP_RUNTIME_TOOL_NAME_MAX_LENGTH_def)
  ultimately show ?thesis
    by blast
qed

definition demo_server :: server_assignment where
  "demo_server = \<lparr>sa_key = ''k1'', sa_raw = ''my db'', sa_segment = ''my_db_2'',
     sa_tools = [\<lparr>ta_raw = ''get__row'', ta_segment = ''get_row_2''\<rparr>, \<lparr>ta_raw = ''get row'', ta_segment = ''get_row''\<rparr>]\<rparr>"

definition demo_other :: server_assignment where
  "demo_other = \<lparr>sa_key = ''k2'', sa_raw = ''my_db'', sa_segment = ''my_db'', sa_tools = []\<rparr>"

lemma demo_state: "load_state (name_registry_after (\<lambda>_. None) True demo_calls) = Inr [demo_server, demo_other]"
  by code_simp

lemma public_names_distinct_witness:
  "tool_runtime_name ''my_db_2'' ''get_row_2'' \<noteq> tool_runtime_name ''my_db_2'' ''get_row'' \<and>
   length (tool_runtime_name ''my_db_2'' ''get_row_2'') \<le> 80"
  using public_names_distinct [OF demo_state, of demo_server "\<lparr>ta_raw = ''get__row'', ta_segment = ''get_row_2''\<rparr>" demo_server
      "\<lparr>ta_raw = ''get row'', ta_segment = ''get_row''\<rparr>"]
  by (simp add: demo_server_def)

text \<open>C31: A permission rule on an MCP server covers exactly the tools the registry named for that server: the name of a
  tool of server \<open>a\<close> is covered by a rule on the name of server \<open>b\<close> if and only if they are the same server. A deny
  rule on the server therefore denies each of its tools under either owner.\<close>

theorem server_rule_covers_own_tools:
  assumes "load_state (name_registry_after parse onDisk calls) = Inr st"
    and "a \<in> set st" and "t \<in> set (sa_tools a)" and "b \<in> set st"
    and "rule \<in> set (cx_rules c)" and "pr_behavior rule = Deny" and "rv_toolName (pr_value rule) = ''mcp__'' @ sa_segment b"
    and "rv_ruleContent (pr_value rule) = None"
  shows "(covers Deny (tool_runtime_name (sa_segment a) (ta_segment t)) rule \<longleftrightarrow> a = b) \<and>
    (a = b \<longrightarrow> known_owner owner \<longrightarrow> run_checker e (tool_runtime_name (sa_segment a) (ta_segment t)) input c = Inr (r, err) \<longrightarrow>
       (\<exists>d. checkPermission e (tool_runtime_name (sa_segment a) (ta_segment t)) input c owner = Inr d \<and> pd_behavior d = Deny))"
proof -
  let ?name = "tool_runtime_name (sa_segment a) (ta_segment t)"
  have valid: "valid_state st"
    using after_sound [of parse onDisk calls] assms(1) by (auto simp: sound_def)
  note parts = state_valid_segments [OF valid assms(2,3)]
  have b: "validSegment (sa_segment b)"
    using valid assms(4) by (simp add: valid_state_def)
  have ne: "sa_segment a \<noteq> []" "ta_segment t \<noteq> []"
    using parts validSegment_ne by blast+
  have "''mcp__'' @ sa_segment b \<noteq> ?name"
  proof
    assume "''mcp__'' @ sa_segment b = ?name"
    then have "split_mcp (''mcp__'' @ sa_segment b) [] = split_mcp ?name []"
      by (rule arg_cong)
    then show False
      unfolding name_parts(2) [OF parts(1,2)] name_parts(1) [OF b] by simp
  qed
  moreover have "matchesMcpServerRuntimeName ?name (''mcp__'' @ sa_segment b) \<longleftrightarrow> sa_segment a = sa_segment b"
    unfolding matchesMcpServerRuntimeName_def name_parts(2) [OF parts(1,2)] name_parts(1) [OF b] using ne by simp
  moreover have "starts_with ?name ''mcp__''"
    by (simp add: starts_with_def tool_runtime_name_def)
  moreover have "sa_segment a = sa_segment b \<longleftrightarrow> a = b"
    using state_unique(1) [OF valid assms(2,4)] by blast
  ultimately have cover: "covers Deny ?name rule \<longleftrightarrow> a = b"
    using assms(6-8) by (simp add: covers_def)
  moreover have "\<exists>d. checkPermission e ?name input c owner = Inr d \<and> pd_behavior d = Deny"
    if "a = b" "known_owner owner" "run_checker e ?name input c = Inr (r, err)"
  proof -
    have "has_rule c (covers Deny ?name)"
      using cover that(1) assms(5) unfolding has_rule_def by blast
    with check_decides [OF that(3,2)] show ?thesis
      by (auto simp: verdict_level level_def)
  qed
  ultimately show ?thesis
    by blast
qed

definition deny_server :: permission_update where
  "deny_server = AddRules SrcGlobal [] [\<lparr>rv_toolName = ''mcp__my_db_2'', rv_ruleContent = None, rv_matcher = Some MatchTool\<rparr>] Deny"

lemma server_rule_covers_own_tools_witness:
  "\<exists>d. checkPermission demo_engine ''mcp__my_db_2__get_row'' [] (applyPermissionUpdate demo_permissions deny_server) None = Inr d \<and>
     pd_behavior d = Deny"
proof -
  let ?rule = "\<lparr>pr_source = SrcGlobal, pr_behavior = Deny, pr_value = \<lparr>rv_toolName = ''mcp__my_db_2'', rv_ruleContent = None, rv_matcher = Some MatchTool\<rparr>\<rparr>"
  have "?rule \<in> set (cx_rules (applyPermissionUpdate demo_permissions deny_server))"
    by (simp add: deny_server_def addRules_def demo_permissions_def createToolPermissionContext_def)
  moreover have "run_checker demo_engine ''mcp__my_db_2__get_row'' [] (applyPermissionUpdate demo_permissions deny_server) = Inr (None, None)"
    by (simp add: run_checker_def demo_engine_def registerToolPermissionChecker_def)
  ultimately show ?thesis
    using server_rule_covers_own_tools [OF demo_state, of demo_server "\<lparr>ta_raw = ''get row'', ta_segment = ''get_row''\<rparr>" demo_server ?rule
        "applyPermissionUpdate demo_permissions deny_server" None demo_engine "[]" None None]
    by (simp add: demo_server_def known_owner_def tool_runtime_name_def)
qed

section \<open>What an assignment answers\<close>

lemma base_error:
  assumes "candidate_base kind (int room) name = Inl message" and "0 < room"
  shows "name = [] \<or> list_ex hidden_char name"
proof (rule ccontr)
  assume "\<not> (name = [] \<or> list_ex hidden_char name)"
  then obtain n where "normalizeMcpNameSegment name kind = Inr n"
    by (simp add: normalizeMcpNameSegment_def Let_def)
  moreover have "\<exists>p. shortenMcpNameSegment n (int room) kind = Inr p"
    using assms(2) by (intro shorten_cases(1)) simp
  ultimately show False
    using assms(1) by (auto simp: candidate_base_def)
qed

text \<open>An assignment of servers answers every candidate key exactly once, with a name or an error. A key that had a
  name keeps it, every name is kept by the registry, and an error means that some candidate of the key has an
  empty name or one with control or format characters, or that no number was left for a collision.\<close>

theorem every_candidate_answered:
  assumes "assignServers parse cs (name_registry_after parse onDisk calls) = (Inr r, rg)"
    and "load_state (name_registry_after parse onDisk calls) = Inr st"
  shows "distinct (map fst (na_names r @ na_errors r)) \<and> set (map fst (na_names r @ na_errors r)) = set (map nc_key cs) \<and>
    (\<exists>st'. load_state rg = Inr st' \<and> (\<forall>(k, v)\<in>set (na_names r). \<exists>a\<in>set st'. sa_key a = k \<and> sa_segment a = v)) \<and>
    (\<forall>a\<in>set st. sa_key a \<in> set (map nc_key cs) \<longrightarrow> (sa_key a, sa_segment a) \<in> set (na_names r)) \<and>
    (\<forall>(k, message)\<in>set (na_errors r). message = no_room ServerName \<or>
       (\<exists>c\<in>set cs. nc_key c = k \<and> (nc_name c = [] \<or> list_ex hidden_char (nc_name c))))"
proof -
  have valid: "valid_state st"
    using after_sound [of parse onDisk calls] assms(2) by (auto simp: sound_def)
  from assignServers_ok [OF assms(2) valid, of parse cs] assms(1) obtain st' where st': "load_state rg = Inr st'"
      "answers (map nc_key cs) (server_names st) (server_names st') r"
    by auto
  note E = valid_existing [OF valid]
  have "allocate parse cs (server_names st) ServerName MCP_RUNTIME_SERVER_SEGMENT_MAX_LENGTH = Inr r"
  proof -
    from assms(1) have "\<exists>x. assign_servers parse cs st = Inr (r, x)"
      by (auto simp: assignServers_def name_transaction_def assms(2) split: sum.splits prod.splits)
    then show ?thesis
      by (auto simp: assign_servers_def E(1) unassignable_def rbind_eq_Inr split: sum.splits)
  qed
  moreover obtain q where q: "allocate parse cs (server_names st) ServerName MCP_RUNTIME_SERVER_SEGMENT_MAX_LENGTH = Inr q"
      "\<And>x. x \<in> set (na_errors q) \<Longrightarrow> snd x = no_room ServerName \<or>
         (\<exists>c\<in>set cs. nc_key c = fst x \<and> candidate_base ServerName (int MCP_RUNTIME_SERVER_SEGMENT_MAX_LENGTH) (nc_name c) = Inl (snd x))"
    using allocation [OF E(2,3), of parse cs ServerName MCP_RUNTIME_SERVER_SEGMENT_MAX_LENGTH] by metis
  ultimately have errors: "snd x = no_room ServerName \<or> (\<exists>c\<in>set cs. nc_key c = fst x \<and> (nc_name c = [] \<or> list_ex hidden_char (nc_name c)))"
    if "x \<in> set (na_errors r)" for x
    using that q(2) [of x] base_error by (fastforce simp: MCP_RUNTIME_SERVER_SEGMENT_MAX_LENGTH_def)
  have "\<forall>(k, v)\<in>set (na_names r). \<exists>a\<in>set st'. sa_key a = k \<and> sa_segment a = v"
    using st'(2) in_server_names unfolding answers_def by fast
  moreover have "\<forall>a\<in>set st. sa_key a \<in> set (map nc_key cs) \<longrightarrow> (sa_key a, sa_segment a) \<in> set (na_names r)"
    using st'(2) in_server_names unfolding answers_def by fast
  moreover have "\<forall>(k, message)\<in>set (na_errors r). message = no_room ServerName \<or>
      (\<exists>c\<in>set cs. nc_key c = k \<and> (nc_name c = [] \<or> list_ex hidden_char (nc_name c)))"
    using errors by fastforce
  ultimately show ?thesis
    using st' unfolding answers_def by blast
qed

lemma every_candidate_answered_witness:
  "\<exists>r rg. assignServers (\<lambda>_. None) [\<lparr>nc_key = ''k3'', nc_name = []\<rparr>] (name_registry_after (\<lambda>_. None) True demo_calls) = (Inr r, rg) \<and>
     distinct (map fst (na_names r @ na_errors r)) \<and> set (map fst (na_names r @ na_errors r)) = {''k3''}"
proof -
  obtain r rg where r: "assignServers (\<lambda>_. None) [\<lparr>nc_key = ''k3'', nc_name = []\<rparr>] (name_registry_after (\<lambda>_. None) True demo_calls) = (Inr r, rg)"
    using assignServers_ok [OF demo_state, of "\<lambda>_. None"] after_sound [of "\<lambda>_. None" True demo_calls]
    unfolding sound_def demo_state by (metis Inr_inject)
  from every_candidate_answered [OF r demo_state] have "distinct (map fst (na_names r @ na_errors r))"
      "set (map fst (na_names r @ na_errors r)) = {''k3''}"
    by simp_all
  with r show ?thesis
    by blast
qed

text \<open>What a registry writes it reads back: a valid state survives the file, and whatever file is accepted holds a
  valid state.\<close>

theorem registry_file_roundtrip:
  "(valid_state st \<longrightarrow> parseState (state_js st) = Inr st) \<and> (parseState v = Inr st \<longrightarrow> valid_state st)"
  using parse_written parse_valid by blast

lemma registry_file_roundtrip_witness: "parseState (state_js [demo_server, demo_other]) = Inr [demo_server, demo_other]"
proof -
  have "valid_state [demo_server, demo_other]"
    by code_simp
  then show ?thesis
    using registry_file_roundtrip by blast
qed

end
