(* ===== verification/PermRules.thy ===== *)
theory PermRules
  imports PermEvidence
begin

text \<open>
  The rules a host persists (\<open>local-runtime/src/permissions\<close>: \<open>rule-model.ts\<close> and \<open>rule-codec.ts\<close>): the reading of
  updates, the two formats of a rule file, and the change an update makes. The value types are those of the
  permission engine. The input of an update and the content of a file are JSON values. An error carries what its
  message shows.
\<close>

section \<open>Rules and errors\<close>

record local_rule =
  lr_source :: rule_source
  lr_behavior :: permission_behavior
  lr_value :: rule_value
  lr_destination :: string

datatype unhealthy_reason = CorruptJson | InvalidStoreShape | UnsupportedVersion | InvalidV2Rule

datatype rule_error =
  InvalidUpdateType
| InvalidRuleSource js
| MissingDestination
| InvalidRuleBehavior js
| NoRules
| InvalidRule
| RequiresToolName
| ContentNotString
| RulesNotArray permission_behavior
| InvalidStoredRule
| StoredRequiresToolName
| RequiresMatcher
| EmptyCommandPattern
| EmptyPathPattern
| RequiresActions
| InvalidMatcherKind js
| InvalidAction js
| StoreUnhealthy unhealthy_reason rule_source
| GlobalDestination
| InvalidAgentName string
| InvalidSessionId string

text \<open>The HTTP status of an error.\<close>

definition rule_error_status :: "rule_error \<Rightarrow> nat" where
  "rule_error_status e = (case e of StoreUnhealthy _ _ \<Rightarrow> 503 | _ \<Rightarrow> 400)"

datatype update_type = UpdateAdd | UpdateRemove | UpdateReplace

record rule_update =
  ru_type :: update_type
  ru_source :: rule_source
  ru_destination :: string
  ru_rules :: "rule_value list"
  ru_behavior :: permission_behavior

section \<open>Reading an update\<close>

definition behavior_of_text :: "js \<Rightarrow> permission_behavior option" where
  "behavior_of_text v =
     (if v = JStr ''allow'' then Some Allow else if v = JStr ''deny'' then Some Deny
      else if v = JStr ''ask'' then Some Ask else None)"

definition readRuleSource :: "js \<Rightarrow> rule_error + rule_source" where
  "readRuleSource v =
     (if v = JStr ''global'' then Inr SrcGlobal else if v = JStr ''agent'' then Inr SrcAgent
      else if v = JStr ''session'' then Inr SrcSession else Inl (InvalidRuleSource v))"

definition readRuleBehavior :: "js \<Rightarrow> rule_error + permission_behavior" where
  "readRuleBehavior v = (case behavior_of_text v of Some b \<Rightarrow> Inr b | None \<Rightarrow> Inl (InvalidRuleBehavior v))"

definition ALL_PERMISSION_ACTIONS :: "rule_action list" where
  "ALL_PERMISSION_ACTIONS = [ActRead, ActWrite, ActDelete, ActExecute, ActNetwork]"

fun action_text :: "rule_action \<Rightarrow> string" where
  "action_text ActRead = ''read''"
| "action_text ActWrite = ''write''"
| "action_text ActDelete = ''delete''"
| "action_text ActExecute = ''execute''"
| "action_text ActNetwork = ''network''"

definition readPermissionAction :: "js \<Rightarrow> rule_error + rule_action" where
  "readPermissionAction v =
     (case List.find (\<lambda>a. v = JStr (action_text a)) ALL_PERMISSION_ACTIONS of
        Some a \<Rightarrow> Inr a | None \<Rightarrow> Inl (InvalidAction v))"

text \<open>\<open>[...new Set(xs)]\<close>: the first of equal elements stays.\<close>

fun uniq_onto :: "'a list \<Rightarrow> 'a list \<Rightarrow> 'a list" where
  "uniq_onto seen [] = []"
| "uniq_onto seen (x # xs) = (if x \<in> set seen then uniq_onto seen xs else x # uniq_onto (x # seen) xs)"

definition new_set :: "'a list \<Rightarrow> 'a list" where
  "new_set xs = uniq_onto [] xs"

text \<open>A string that is not blank.\<close>

definition has_text :: "js \<Rightarrow> bool" where
  "has_text v \<longleftrightarrow> (case v of JStr s \<Rightarrow> js_trim s \<noteq> [] | _ \<Rightarrow> False)"

definition the_text :: "js \<Rightarrow> string" where
  "the_text v = (case v of JStr s \<Rightarrow> s | _ \<Rightarrow> [])"

definition readStoredMatcher :: "js \<Rightarrow> rule_error + rule_matcher" where
  "readStoredMatcher raw =
     (case raw of
        JObj record \<Rightarrow>
          let kind = js_get record ''kind''; pattern = js_get record ''pattern'' in
          if kind = JStr ''tool'' then Inr MatchTool
          else if kind = JStr ''command''
          then (if \<not> has_text pattern then Inl EmptyCommandPattern else Inr (MatchCommand (the_text pattern)))
          else if kind = JStr ''path''
          then (if \<not> has_text pattern then Inl EmptyPathPattern
                else case js_get record ''actions'' of
                  JArr (a # as) \<Rightarrow> rbind (rmap readPermissionAction (a # as)) (\<lambda>actions.
                    Inr (MatchPath (the_text pattern) (Some (new_set actions))))
                | _ \<Rightarrow> Inl RequiresActions)
          else Inl (InvalidMatcherKind kind)
      | _ \<Rightarrow> Inl RequiresMatcher)"

definition ascii_letter :: "char \<Rightarrow> bool" where
  "ascii_letter c \<longleftrightarrow> (let n = of_char c :: nat in 65 \<le> n \<and> n \<le> 90 \<or> 97 \<le> n \<and> n \<le> 122)"

definition looksLikePathPattern :: "string \<Rightarrow> bool" where
  "looksLikePathPattern s \<longleftrightarrow>
     starts_with s ''/'' \<or> starts_with s ''~/'' \<or> starts_with s ''./'' \<or> starts_with s ''../'' \<or>
     (case s of c # d # e # _ \<Rightarrow> ascii_letter c \<and> d = CHR '':'' \<and> (e = CHR 0x5C \<or> e = CHR ''/'') | _ \<Rightarrow> False) \<or>
     starts_with s [CHR 0x5C, CHR 0x5C]"

definition inferLegacyMatcher :: "string option \<Rightarrow> rule_matcher" where
  "inferLegacyMatcher content =
     (case truthy content of
        None \<Rightarrow> MatchTool
      | Some s \<Rightarrow> if looksLikePathPattern s then MatchPath s None else MatchCommand s)"

fun matcher_pattern :: "rule_matcher \<Rightarrow> string option" where
  "matcher_pattern MatchTool = None"
| "matcher_pattern (MatchCommand p) = Some p"
| "matcher_pattern (MatchPath p _) = Some p"

definition matched_value :: "string \<Rightarrow> rule_matcher \<Rightarrow> rule_value" where
  "matched_value toolName matcher =
     \<lparr>rv_toolName = toolName, rv_ruleContent = matcher_pattern matcher, rv_matcher = Some matcher\<rparr>"

text \<open>The operator \<open>??\<close> on values.\<close>

definition nullish_else :: "js \<Rightarrow> js \<Rightarrow> js" where
  "nullish_else a b = (if a = JUndef \<or> a = JNull then b else a)"

definition readRuleValue :: "js \<Rightarrow> rule_error + rule_value" where
  "readRuleValue raw =
     (case raw of
        JObj record \<Rightarrow>
          let toolName = nullish_else (js_get record ''toolName'') (js_get record ''tool_name'');
              content = nullish_else (js_get record ''ruleContent'') (js_get record ''rule_content'')
          in if \<not> is_js_string toolName \<or> toolName = JStr [] then Inl RequiresToolName
             else if content \<noteq> JUndef \<and> \<not> is_js_string content then Inl ContentNotString
             else rbind (if js_get record ''matcher'' = JUndef then Inr (inferLegacyMatcher (js_str content))
                         else readStoredMatcher (js_get record ''matcher'')) (\<lambda>matcher.
               Inr (matched_value (the_text toolName) matcher))
      | _ \<Rightarrow> Inl InvalidRule)"

definition readPermissionUpdate :: "js_object \<Rightarrow> rule_error + rule_update" where
  "readPermissionUpdate raw =
     (case (if js_get raw ''type'' = JStr ''addRules'' then Some UpdateAdd
            else if js_get raw ''type'' = JStr ''removeRules'' then Some UpdateRemove
            else if js_get raw ''type'' = JStr ''replaceRules'' then Some UpdateReplace else None) of
        None \<Rightarrow> Inl InvalidUpdateType
      | Some type \<Rightarrow>
          rbind (readRuleSource (js_get raw ''source'')) (\<lambda>source.
            case truthy (js_str (js_get raw ''destination'')) of
              None \<Rightarrow> Inl MissingDestination
            | Some destination \<Rightarrow>
                rbind (readRuleBehavior (js_get raw ''behavior'')) (\<lambda>behavior.
                  case js_get raw ''rules'' of
                    JArr (r # rs) \<Rightarrow> rbind (rmap readRuleValue (r # rs)) (\<lambda>rules.
                      Inr \<lparr>ru_type = type, ru_source = source, ru_destination = destination, ru_rules = rules,
                           ru_behavior = behavior\<rparr>)
                  | _ \<Rightarrow> Inl NoRules)))"

section \<open>The first format: strings\<close>

text \<open>\<open>indexOf\<close> and \<open>lastIndexOf\<close> of one character.\<close>

fun index_of :: "char \<Rightarrow> string \<Rightarrow> nat option" where
  "index_of x [] = None"
| "index_of x (c # s) = (if c = x then Some 0 else map_option Suc (index_of x s))"

definition last_index_of :: "char \<Rightarrow> string \<Rightarrow> nat option" where
  "last_index_of x s = map_option (\<lambda>i. length s - Suc i) (index_of x (rev s))"

definition parseRuleString :: "string \<Rightarrow> rule_value" where
  "parseRuleString raw =
     (let whole = \<lparr>rv_toolName = raw, rv_ruleContent = None, rv_matcher = Some MatchTool\<rparr> in
      case index_of (CHR ''('') raw of
        None \<Rightarrow> whole
      | Some openParen \<Rightarrow>
          if openParen = 0 \<or> raw ! (openParen - 1) = CHR 0x5C then whole
          else case last_index_of (CHR '')'') raw of
            None \<Rightarrow> whole
          | Some closeParen \<Rightarrow>
              if closeParen \<le> openParen then whole
              else matched_value (take openParen raw)
                     (inferLegacyMatcher (truthy (Some (take (closeParen - openParen - 1) (drop (openParen + 1) raw))))))"

definition rule_matcher_of :: "rule_value \<Rightarrow> rule_matcher" where
  "rule_matcher_of v = or_else (rv_matcher v) (inferLegacyMatcher (rv_ruleContent v))"

definition serializeRuleValue :: "rule_value \<Rightarrow> string" where
  "serializeRuleValue v =
     (case matcher_pattern (rule_matcher_of v) of
        None \<Rightarrow> rv_toolName v
      | Some pattern \<Rightarrow> rv_toolName v @ ''('' @ pattern @ '')'')"

fun behavior_text :: "permission_behavior \<Rightarrow> string" where
  "behavior_text Allow = ''allow''"
| "behavior_text Deny = ''deny''"
| "behavior_text Ask = ''ask''"

text \<open>The rules of one behaviour, in their order.\<close>

definition rules_of :: "permission_behavior \<Rightarrow> local_rule list \<Rightarrow> rule_value list" where
  "rules_of b rules = map lr_value (filter (\<lambda>r. lr_behavior r = b) rules)"

definition rulesToConfigV1 :: "local_rule list \<Rightarrow> js_object" where
  "rulesToConfigV1 rules =
     map (\<lambda>b. (behavior_text b, JArr (map (\<lambda>v. JStr (serializeRuleValue v)) (rules_of b rules)))) [Allow, Deny, Ask]"

definition readRuleStringArray :: "js \<Rightarrow> string list option" where
  "readRuleStringArray v =
     (case v of
        JUndef \<Rightarrow> None
      | JArr xs \<Rightarrow> Some (concat (map (\<lambda>x. case x of JStr s \<Rightarrow> [s] | _ \<Rightarrow> []) xs))
      | _ \<Rightarrow> Some [])"

definition located :: "rule_source \<Rightarrow> string \<Rightarrow> permission_behavior \<Rightarrow> rule_value \<Rightarrow> local_rule" where
  "located source destination b v = \<lparr>lr_source = source, lr_behavior = b, lr_value = v, lr_destination = destination\<rparr>"

definition configV1ToRules :: "js_object \<Rightarrow> rule_source \<Rightarrow> string \<Rightarrow> local_rule list" where
  "configV1ToRules config source destination =
     concat (map (\<lambda>b. map (\<lambda>raw. located source destination b (parseRuleString raw))
       (or_else (readRuleStringArray (js_get config (behavior_text b))) [])) [Allow, Deny, Ask])"

section \<open>The second format: records\<close>

definition stored_actions :: "rule_action list option \<Rightarrow> rule_action list" where
  "stored_actions actions = (case actions of Some (a # as) \<Rightarrow> a # as | _ \<Rightarrow> ALL_PERMISSION_ACTIONS)"

fun matcher_js :: "rule_matcher \<Rightarrow> js" where
  "matcher_js MatchTool = JObj [(''kind'', JStr ''tool'')]"
| "matcher_js (MatchCommand p) = JObj [(''kind'', JStr ''command''), (''pattern'', JStr p)]"
| "matcher_js (MatchPath p actions) =
     JObj [(''kind'', JStr ''path''), (''pattern'', JStr p),
       (''actions'', JArr (map (\<lambda>a. JStr (action_text a)) (stored_actions actions)))]"

definition ruleValueToStoredRule :: "rule_value \<Rightarrow> js" where
  "ruleValueToStoredRule v = JObj [(''tool_name'', JStr (rv_toolName v)), (''matcher'', matcher_js (rule_matcher_of v))]"

definition rulesToConfigV2 :: "local_rule list \<Rightarrow> js_object" where
  "rulesToConfigV2 rules =
     (''version'', JNum (Fin 2)) # map (\<lambda>b. (behavior_text b, JArr (map ruleValueToStoredRule (rules_of b rules)))) [Allow, Deny, Ask]"

definition readStoredRule :: "js \<Rightarrow> rule_error + rule_value" where
  "readStoredRule raw =
     (case raw of
        JObj record \<Rightarrow>
          if \<not> has_text (js_get record ''tool_name'') then Inl StoredRequiresToolName
          else rbind (readStoredMatcher (js_get record ''matcher'')) (\<lambda>matcher.
            Inr (matched_value (the_text (js_get record ''tool_name'')) matcher))
      | _ \<Rightarrow> Inl InvalidStoredRule)"

definition storedRulesToRules :: "js \<Rightarrow> rule_source \<Rightarrow> string \<Rightarrow> permission_behavior \<Rightarrow> rule_error + local_rule list" where
  "storedRulesToRules v source destination b =
     (case v of
        JUndef \<Rightarrow> Inr []
      | JArr xs \<Rightarrow> rmap (\<lambda>raw. rbind (readStoredRule raw) (\<lambda>value. Inr (located source destination b value))) xs
      | _ \<Rightarrow> Inl (RulesNotArray b))"

definition configV2ToRules :: "js_object \<Rightarrow> rule_source \<Rightarrow> string \<Rightarrow> rule_error + local_rule list" where
  "configV2ToRules config source destination =
     rbind (storedRulesToRules (js_get config ''allow'') source destination Allow) (\<lambda>allow.
     rbind (storedRulesToRules (js_get config ''deny'') source destination Deny) (\<lambda>deny.
     rbind (storedRulesToRules (js_get config ''ask'') source destination Ask) (\<lambda>ask.
       Inr (allow @ deny @ ask))))"

section \<open>The change of an update\<close>

definition ruleValuesEqual :: "rule_value \<Rightarrow> rule_value \<Rightarrow> bool" where
  "ruleValuesEqual a b \<longleftrightarrow>
     rv_toolName a = rv_toolName b \<and> matchers_equal (rule_matcher_of a) (rule_matcher_of b)"

definition buildRule :: "rule_update \<Rightarrow> rule_value \<Rightarrow> local_rule" where
  "buildRule u v = located (ru_source u) (ru_destination u) (ru_behavior u) v"

fun add_new :: "rule_update \<Rightarrow> rule_value list \<Rightarrow> local_rule list \<Rightarrow> local_rule list" where
  "add_new u [] acc = acc"
| "add_new u (v # vs) acc =
     add_new u vs
       (if list_ex (\<lambda>r. lr_behavior r = ru_behavior u \<and> ruleValuesEqual (lr_value r) v) acc then acc
        else acc @ [buildRule u v])"

definition mutateRules :: "local_rule list \<Rightarrow> rule_update \<Rightarrow> local_rule list" where
  "mutateRules current u =
     (case ru_type u of
        UpdateReplace \<Rightarrow> filter (\<lambda>r. lr_behavior r \<noteq> ru_behavior u) current @ map (buildRule u) (ru_rules u)
      | UpdateRemove \<Rightarrow>
          filter (\<lambda>r. lr_behavior r \<noteq> ru_behavior u \<or> \<not> list_ex (ruleValuesEqual (lr_value r)) (ru_rules u)) current
      | UpdateAdd \<Rightarrow> add_new u (ru_rules u) current)"

end
