(* ===== verification/PermMatch.thy ===== *)
theory PermMatch
  imports PermRules
begin

text \<open>
  Which persisted rule a tool call matches (\<open>rule-match.ts\<close>), and the rule files (\<open>rules.ts\<close>). The path module, the
  URL parser and \<open>JSON.stringify\<close> of the host are arguments. A rule file is absent, text that is no JSON, or a JSON
  value; its name is given by source and destination, which determine the path (a validated name has no
  separator and no dot, so the check that the path stays in its directory never fails). The locks serialise the whole
  read, change and write of an update; the temporary file and the rename make the write atomic.
\<close>

section \<open>Matching\<close>

text \<open>\<open>None\<close> of the last two is a throw.\<close>

record match_host =
  mh_resolve :: "string \<Rightarrow> string"
  mh_sep :: char
  mh_win32 :: bool
  mh_urlHost :: "string \<Rightarrow> string option"
  mh_stringify :: "js_object \<Rightarrow> string option"

definition ends_with :: "string \<Rightarrow> string \<Rightarrow> bool" where
  "ends_with s suffix \<longleftrightarrow> take (length suffix) (rev s) = rev suffix"

definition cut_end :: "nat \<Rightarrow> string \<Rightarrow> string" where
  "cut_end n s = take (length s - n) s"

definition lower :: "char \<Rightarrow> char" where
  "lower c = (let n = of_char c :: nat in if 65 \<le> n \<and> n \<le> 90 \<or> 192 \<le> n \<and> n \<le> 222 \<and> n \<noteq> 215 then char_of (n + 32) else c)"

definition ascii_lower :: "char \<Rightarrow> char" where
  "ascii_lower c = (let n = of_char c :: nat in if 65 \<le> n \<and> n \<le> 90 then char_of (n + 32) else c)"

definition word_char :: "char \<Rightarrow> bool" where
  "word_char c \<longleftrightarrow> ascii_letter c \<or> 48 \<le> (of_char c :: nat) \<and> (of_char c :: nat) \<le> 57 \<or> c = CHR ''_''"

definition FS_UMBRELLA_TOOL_NAME :: string where "FS_UMBRELLA_TOOL_NAME = ''fs''"

definition FS_PERMISSION_TOOLS :: "string list" where
  "FS_PERMISSION_TOOLS = [''edit'', ''write'', ''read'', ''glob'', ''grep'', ''list'']"

definition permissionInputAction :: "string \<Rightarrow> rule_action option" where
  "permissionInputAction toolName =
     (if toolName \<in> set [''read'', ''glob'', ''grep'', ''list''] then Some ActRead
      else if toolName \<in> set [''write'', ''edit'', ''apply_patch''] then Some ActWrite
      else if toolName \<in> set [''web_fetch'', ''web_search''] then Some ActNetwork
      else None)"

definition permissionToolMatches :: "string \<Rightarrow> string \<Rightarrow> bool" where
  "permissionToolMatches ruleToolName toolName \<longleftrightarrow>
     ruleToolName = toolName \<or> ruleToolName = FS_UMBRELLA_TOOL_NAME \<and> toolName \<in> set FS_PERMISSION_TOOLS"

definition permissionInputTarget :: "match_host \<Rightarrow> string \<Rightarrow> js_object \<Rightarrow> string option" where
  "permissionInputTarget h toolName input =
     (let get = js_get input;
          direct = nullish_else (get ''command'') (nullish_else (get ''path'') (nullish_else (get ''filePath'')
                     (nullish_else (get ''file_path'') (get ''pattern''))))
      in case direct of
        JStr s \<Rightarrow> Some s
      | _ \<Rightarrow>
        (case get ''url'' of
           JStr url \<Rightarrow> Some (or_else (mh_urlHost h url) url)
         | _ \<Rightarrow>
           (case (toolName = ''bash'', get ''cmd'') of
              (True, JStr s) \<Rightarrow> Some s
            | _ \<Rightarrow> mh_stringify h input)))"

definition isPathLikeWildcard :: "string \<Rightarrow> bool" where
  "isPathLikeWildcard pattern \<longleftrightarrow>
     CHR ''*'' \<in> set pattern \<and> (CHR ''/'' \<in> set pattern \<or> CHR 0x5C \<in> set pattern)"

definition forward_slashes :: "string \<Rightarrow> string" where
  "forward_slashes s = map (\<lambda>c. if c = CHR 0x5C then CHR ''/'' else c) s"

definition normalizeGlobPattern :: "string \<Rightarrow> string" where
  "normalizeGlobPattern s =
     (let t = rev (dropWhile (\<lambda>c. c = CHR ''/'') (rev (forward_slashes s))) in if t = [] then ''/'' else t)"

definition resolvePathForCompare :: "match_host \<Rightarrow> string \<Rightarrow> string" where
  "resolvePathForCompare h s =
     (let resolved = mh_resolve h (map (\<lambda>c. if c = CHR 0x5C then mh_sep h else c) s);
          normalized = map (\<lambda>c. if c = mh_sep h then CHR ''/'' else c) resolved
      in if mh_win32 h then map lower normalized else normalized)"

definition isPathAtOrBelow :: "match_host \<Rightarrow> string \<Rightarrow> string \<Rightarrow> bool" where
  "isPathAtOrBelow h target base \<longleftrightarrow>
     resolvePathForCompare h target = resolvePathForCompare h base \<or>
     starts_with (resolvePathForCompare h target) (resolvePathForCompare h base @ ''/'')"

definition matchesPathGlob :: "match_host \<Rightarrow> string \<Rightarrow> string \<Rightarrow> bool" where
  "matchesPathGlob h target pattern =
     (let glob = normalizeGlobPattern pattern in
      if ends_with glob ''/**/*'' then isPathAtOrBelow h target (cut_end 5 glob)
      else if ends_with glob ''/**'' then isPathAtOrBelow h target (cut_end 3 glob)
      else if ends_with glob ''/*'' \<and> \<not> ends_with glob ''/**/*''
      then (let base = resolvePathForCompare h (cut_end 2 glob); t = resolvePathForCompare h target in
            starts_with t (base @ ''/'') \<and> CHR ''/'' \<notin> set (drop (length base + 1) t))
      else False)"

text \<open>
  The regular expression of \<open>hasShellCommandSeparator\<close>: a separator character (this covers \<open>&&\<close> and \<open>||\<close>), \<open>$(\<close>, or
  \<open>$ifs\<close> or \<open>${ifs\<close> in any case up to the end of a word (this covers a following \<open>:\<close> or \<open>}\<close>).
\<close>

definition ifs_here :: "string \<Rightarrow> bool" where
  "ifs_here s \<longleftrightarrow>
     (let t = (case s of c # s' \<Rightarrow> if c = CHR 0x7B then s' else s | [] \<Rightarrow> []) in
      map ascii_lower (take 3 t) = ''ifs'' \<and> (case drop 3 t of [] \<Rightarrow> True | c # _ \<Rightarrow> \<not> word_char c))"

fun hasShellCommandSeparator :: "string \<Rightarrow> bool" where
  "hasShellCommandSeparator [] = False"
| "hasShellCommandSeparator (c # s) =
     (c \<in> set [CHR '';'', CHR ''&'', CHR 0x7C, CHR 0x3C, CHR 0x3E, CHR 0x60, CHR 10, CHR 13] \<or>
      c = CHR ''$'' \<and> (starts_with s ''('' \<or> ifs_here s) \<or> hasShellCommandSeparator s)"

definition matchesCommandPrefix :: "string \<Rightarrow> string \<Rightarrow> bool" where
  "matchesCommandPrefix target prefix \<longleftrightarrow>
     prefix \<noteq> [] \<and>
     (let trimmed = js_trim target in
      \<not> hasShellCommandSeparator trimmed \<and>
      (trimmed = prefix \<or> starts_with trimmed prefix \<and> (case drop (length prefix) trimmed of c # _ \<Rightarrow> js_space c | [] \<Rightarrow> False)))"

definition matchesPlainWildcard :: "string \<Rightarrow> string \<Rightarrow> string \<Rightarrow> bool" where
  "matchesPlainWildcard target prefix toolName \<longleftrightarrow>
     (let trimmed = (if toolName = ''bash'' then js_trim target else target) in
      \<not> (toolName = ''bash'' \<and> hasShellCommandSeparator trimmed) \<and> starts_with trimmed prefix)"

definition pattern_matches :: "string \<Rightarrow> string \<Rightarrow> string \<Rightarrow> bool" where
  "pattern_matches pattern toolName target =
     (if target = pattern then True
      else if ends_with pattern '':*'' then matchesCommandPrefix target (cut_end 2 pattern)
      else if ends_with pattern ''*'' then matchesPlainWildcard target (cut_end 1 pattern) toolName
      else False)"

definition structuredMatcherMatches :: "match_host \<Rightarrow> rule_matcher \<Rightarrow> string \<Rightarrow> js_object \<Rightarrow> bool" where
  "structuredMatcherMatches h matcher toolName input =
     (case matcher of
        MatchTool \<Rightarrow> True
      | MatchPath pattern actions \<Rightarrow>
          (case truthy (permissionInputTarget h toolName input) of
             None \<Rightarrow> False
           | Some target \<Rightarrow>
               (case actions of
                  None \<Rightarrow> True
                | Some as \<Rightarrow> (case permissionInputAction toolName of None \<Rightarrow> False | Some a \<Rightarrow> a \<in> set as)) \<and>
               (target = pattern \<or> matchesPathGlob h target pattern))
      | MatchCommand pattern \<Rightarrow>
          (case truthy (permissionInputTarget h toolName input) of
             None \<Rightarrow> False
           | Some target \<Rightarrow> pattern_matches pattern toolName target))"

definition ruleMatches :: "match_host \<Rightarrow> local_rule \<Rightarrow> string \<Rightarrow> js_object \<Rightarrow> bool" where
  "ruleMatches h r toolName input \<longleftrightarrow>
     permissionToolMatches (rv_toolName (lr_value r)) toolName \<and>
     (case rv_matcher (lr_value r) of
        Some matcher \<Rightarrow> structuredMatcherMatches h matcher toolName input
      | None \<Rightarrow>
          (case truthy (rv_ruleContent (lr_value r)) of
             None \<Rightarrow> True
           | Some content \<Rightarrow>
               (case truthy (permissionInputTarget h toolName input) of
                  None \<Rightarrow> False
                | Some target \<Rightarrow>
                    if target = content then True
                    else if matchesPathGlob h target content then True
                    else if isPathLikeWildcard content then False
                    else pattern_matches content toolName target)))"

definition selectMatchingRule :: "match_host \<Rightarrow> local_rule list \<Rightarrow> string \<Rightarrow> js_object \<Rightarrow> local_rule option" where
  "selectMatchingRule h rules toolName input =
     (let matches = filter (\<lambda>r. ruleMatches h r toolName input) rules in
      first_some (map (\<lambda>b. List.find (\<lambda>r. lr_behavior r = b) matches) [Deny, Ask, Allow]))"

section \<open>The rule files\<close>

datatype rule_file = BrokenText | FileValue js

type_synonym rule_files = "rule_source \<times> string \<Rightarrow> rule_file option"

definition agent_name_char :: "char \<Rightarrow> bool" where
  "agent_name_char c \<longleftrightarrow> (let n = of_char c :: nat in 97 \<le> n \<and> n \<le> 122 \<or> 48 \<le> n \<and> n \<le> 57) \<or> c = CHR ''_'' \<or> c = CHR ''-''"

definition validateAgentName :: "string \<Rightarrow> rule_error + unit" where
  "validateAgentName s =
     (case s of
        c # s' \<Rightarrow> if 97 \<le> (of_char c :: nat) \<and> (of_char c :: nat) \<le> 122 \<and> list_all agent_name_char s' then Inr ()
                  else Inl (InvalidAgentName s)
      | [] \<Rightarrow> Inl (InvalidAgentName s))"

definition validateSessionId :: "string \<Rightarrow> rule_error + unit" where
  "validateSessionId s =
     (if s \<noteq> [] \<and> list_all (\<lambda>c. agent_name_char (ascii_lower c)) s then Inr () else Inl (InvalidSessionId s))"

definition filePath :: "rule_source \<Rightarrow> string \<Rightarrow> rule_error + rule_source \<times> string" where
  "filePath source destination =
     (case source of
        SrcGlobal \<Rightarrow> if destination \<noteq> ''global'' then Inl GlobalDestination else Inr (SrcGlobal, destination)
      | SrcAgent \<Rightarrow> rbind (validateAgentName destination) (\<lambda>_. Inr (SrcAgent, destination))
      | SrcSession \<Rightarrow> rbind (validateSessionId destination) (\<lambda>_. Inr (SrcSession, destination)))"

definition readConfigFile :: "rule_files \<Rightarrow> rule_source \<times> string \<Rightarrow> rule_source \<Rightarrow> string \<Rightarrow> rule_error + local_rule list" where
  "readConfigFile files path source destination =
     (case files path of
        None \<Rightarrow> Inr []
      | Some BrokenText \<Rightarrow> Inl (StoreUnhealthy CorruptJson source)
      | Some (FileValue v) \<Rightarrow>
          (case v of
             JObj record \<Rightarrow>
               if js_get record ''version'' = JNum (Fin 2)
               then (case configV2ToRules record source destination of
                       Inl _ \<Rightarrow> Inl (StoreUnhealthy InvalidV2Rule source)
                     | Inr rules \<Rightarrow> Inr rules)
               else if js_get record ''version'' \<noteq> JUndef then Inl (StoreUnhealthy UnsupportedVersion source)
               else Inr (configV1ToRules record source destination)
           | _ \<Rightarrow> Inl (StoreUnhealthy InvalidStoreShape source)))"

definition readRules :: "rule_files \<Rightarrow> rule_source \<Rightarrow> string \<Rightarrow> rule_error + local_rule list" where
  "readRules files source destination =
     rbind (filePath source destination) (\<lambda>path. readConfigFile files path source destination)"

definition writeRules :: "bool \<Rightarrow> rule_source \<times> string \<Rightarrow> local_rule list \<Rightarrow> rule_files \<Rightarrow> rule_files" where
  "writeRules v2 path rules files =
     files(path \<mapsto> FileValue (JObj (if v2 then rulesToConfigV2 rules else rulesToConfigV1 rules)))"

record rule_filter =
  rf_source :: "string option"
  rf_agentName :: "string option"
  rf_agentNames :: "string list option"
  rf_sessionId :: "string option"

fun validate_all :: "string list \<Rightarrow> rule_error + unit" where
  "validate_all [] = Inr ()"
| "validate_all (s # ss) = rbind (validateAgentName s) (\<lambda>_. validate_all ss)"

definition listRules :: "rule_files \<Rightarrow> rule_filter \<Rightarrow> rule_error + local_rule list" where
  "listRules files f =
     rbind (case truthy (rf_source f) of None \<Rightarrow> Inr None | Some s \<Rightarrow> rbind (readRuleSource (JStr s)) (\<lambda>x. Inr (Some x))) (\<lambda>source.
       let agentNames = (case rf_agentNames f of
              Some names \<Rightarrow> new_set names
            | None \<Rightarrow> (case truthy (rf_agentName f) of None \<Rightarrow> [] | Some name \<Rightarrow> [name]))
       in
       rbind (validate_all agentNames) (\<lambda>_.
       rbind (case truthy (rf_sessionId f) of None \<Rightarrow> Inr () | Some s \<Rightarrow> validateSessionId s) (\<lambda>_.
       rbind (readRules files SrcGlobal ''global'') (\<lambda>global.
       rbind (rmap (readRules files SrcAgent) agentNames) (\<lambda>agents.
       rbind (case truthy (rf_sessionId f) of None \<Rightarrow> Inr [] | Some s \<Rightarrow> readRules files SrcSession s) (\<lambda>session.
         let rules = global @ concat agents @ session in
         Inr (case source of None \<Rightarrow> rules | Some s \<Rightarrow> filter (\<lambda>r. lr_source r = s) rules)))))))"

definition applyUpdate :: "bool \<Rightarrow> js_object \<Rightarrow> rule_files \<Rightarrow> rule_error + rule_files" where
  "applyUpdate v2 raw files =
     rbind (readPermissionUpdate raw) (\<lambda>u.
     rbind (filePath (ru_source u) (ru_destination u)) (\<lambda>path.
     rbind (readConfigFile files path (ru_source u) (ru_destination u)) (\<lambda>current.
       Inr (writeRules v2 path (mutateRules current u) files))))"

definition deleteSession_rules :: "string \<Rightarrow> rule_files \<Rightarrow> rule_error + rule_files" where
  "deleteSession_rules s files = rbind (filePath SrcSession s) (\<lambda>path. Inr (files(path := None)))"

definition copySession :: "bool \<Rightarrow> string \<Rightarrow> string \<Rightarrow> rule_files \<Rightarrow> rule_error + rule_files" where
  "copySession v2 source target files =
     rbind (validateSessionId source) (\<lambda>_.
     rbind (validateSessionId target) (\<lambda>_.
     rbind (readRules files SrcSession source) (\<lambda>rules.
     rbind (filePath SrcSession target) (\<lambda>path.
       Inr (if rules = [] then files(path := None)
            else writeRules v2 path (map (\<lambda>r. r\<lparr>lr_destination := target\<rparr>) rules) files)))))"

datatype check_reason = ModeAllows permission_mode | MatchedRule rule_source string | NoRuleMatched string

record local_decision =
  ld_behavior :: permission_behavior
  ld_reason :: check_reason
  ld_rule :: "local_rule option"

definition check_rules ::
  "match_host \<Rightarrow> rule_files \<Rightarrow> string \<Rightarrow> js_object \<Rightarrow> permission_mode \<Rightarrow> string option \<Rightarrow> string option \<Rightarrow> rule_error + local_decision" where
  "check_rules h files toolName input mode agentName sessionId =
     (if mode = ModeOff then Inr \<lparr>ld_behavior = Allow, ld_reason = ModeAllows mode, ld_rule = None\<rparr>
      else rbind (listRules files \<lparr>rf_source = None, rf_agentName = agentName, rf_agentNames = None, rf_sessionId = sessionId\<rparr>) (\<lambda>rules.
        let found = selectMatchingRule h rules toolName input;
            matched = (\<lambda>r. \<lparr>ld_behavior = lr_behavior r, ld_reason = MatchedRule (lr_source r) toolName, ld_rule = Some r\<rparr>)
        in
        if mode = BypassPermissions
        then Inr (case found of
               Some r \<Rightarrow> if lr_behavior r \<noteq> Allow then matched r
                          else \<lparr>ld_behavior = Allow, ld_reason = ModeAllows mode, ld_rule = None\<rparr>
             | None \<Rightarrow> \<lparr>ld_behavior = Allow, ld_reason = ModeAllows mode, ld_rule = None\<rparr>)
        else Inr (case found of
               Some r \<Rightarrow> matched r
             | None \<Rightarrow> \<lparr>ld_behavior = Ask, ld_reason = NoRuleMatched toolName, ld_rule = None\<rparr>)))"

end
