(* ===== verification/PermRuleProps.thy ===== *)
theory PermRuleProps
  imports PermMatch
begin

text \<open>
  Properties of the persisted rules: what a rule file gives back, which updates make it unreadable, what an update
  changes, and which rule a call matches.
\<close>

section \<open>Writing and reading the second format\<close>

definition matcher_storable :: "rule_matcher \<Rightarrow> bool" where
  "matcher_storable m \<longleftrightarrow> (case matcher_pattern m of None \<Rightarrow> True | Some p \<Rightarrow> js_trim p \<noteq> [])"

text \<open>A value the second format can hold: neither its tool name nor its pattern is blank.\<close>

definition storable :: "rule_value \<Rightarrow> bool" where
  "storable v \<longleftrightarrow> js_trim (rv_toolName v) \<noteq> [] \<and> matcher_storable (rule_matcher_of v)"

fun stored_matcher :: "rule_matcher \<Rightarrow> rule_matcher" where
  "stored_matcher (MatchPath p actions) = MatchPath p (Some (new_set (stored_actions actions)))"
| "stored_matcher m = m"

text \<open>What comes back: the matcher made explicit, a path with its actions, all of them when none were given.\<close>

definition stored_value :: "rule_value \<Rightarrow> rule_value" where
  "stored_value v = matched_value (rv_toolName v) (stored_matcher (rule_matcher_of v))"

definition stored_rules :: "rule_source \<Rightarrow> string \<Rightarrow> local_rule list \<Rightarrow> local_rule list" where
  "stored_rules s d rules = concat (map (\<lambda>b. map (\<lambda>v. located s d b (stored_value v)) (rules_of b rules)) [Allow, Deny, Ask])"

lemma read_action: "readPermissionAction (JStr (action_text a)) = Inr a"
  by (cases a) (simp_all add: readPermissionAction_def ALL_PERMISSION_ACTIONS_def)

lemma read_actions: "rmap (\<lambda>x. readPermissionAction (JStr (action_text x))) as = Inr as"
  by (induction as) (simp_all add: read_action)

lemma rmap_map: "rmap f (map g xs) = rmap (\<lambda>x. f (g x)) xs"
  by (induction xs) simp_all

lemma stored_actions_ne: "stored_actions actions \<noteq> []"
  by (auto simp: stored_actions_def ALL_PERMISSION_ACTIONS_def split: option.splits list.splits)

lemma has_text_str [simp]: "has_text (JStr s) \<longleftrightarrow> js_trim s \<noteq> []"
  by (simp add: has_text_def)

lemma the_text_str [simp]: "the_text (JStr s) = s"
  by (simp add: the_text_def)

lemma read_matcher:
  "readStoredMatcher (matcher_js m) =
     (if matcher_storable m then Inr (stored_matcher m)
      else Inl (case m of MatchCommand _ \<Rightarrow> EmptyCommandPattern | _ \<Rightarrow> EmptyPathPattern))"
proof (cases m)
  case (MatchPath p actions)
  obtain a as where as: "stored_actions actions = a # as"
    using stored_actions_ne by (meson neq_Nil_conv)
  have "rmap readPermissionAction (map (\<lambda>a. JStr (action_text a)) (a # as)) = Inr (a # as)"
    unfolding rmap_map by (rule read_actions)
  then show ?thesis
    using as by (simp add: MatchPath readStoredMatcher_def js_get_def Let_def matcher_storable_def)
qed (simp_all add: readStoredMatcher_def js_get_def Let_def matcher_storable_def)

lemma read_stored:
  "readStoredRule (ruleValueToStoredRule v) = Inr (stored_value v) \<longleftrightarrow> storable v"
  "\<not> storable v \<Longrightarrow> \<exists>e. readStoredRule (ruleValueToStoredRule v) = Inl e"
  by (auto simp: readStoredRule_def ruleValueToStoredRule_def js_get_def read_matcher storable_def stored_value_def)

lemma rmap_Inl: "x \<in> set xs \<Longrightarrow> \<exists>e. f x = Inl e \<Longrightarrow> \<exists>e. rmap f xs = Inl e"
proof (induction xs)
  case (Cons y ys)
  then show ?case
    by (cases "f y"; cases "rmap f ys") auto
qed simp

lemma read_stored_rules:
  "if list_all storable vs
   then storedRulesToRules (JArr (map ruleValueToStoredRule vs)) s d b = Inr (map (\<lambda>v. located s d b (stored_value v)) vs)
   else \<exists>e. storedRulesToRules (JArr (map ruleValueToStoredRule vs)) s d b = Inl e"
proof (cases "list_all storable vs")
  case True
  then have "rmap (\<lambda>v. rbind (readStoredRule (ruleValueToStoredRule v)) (\<lambda>value. Inr (located s d b value))) vs =
      Inr (map (\<lambda>v. located s d b (stored_value v)) vs)"
    by (intro rmap_Inr) (simp add: list_all_iff read_stored(1) [THEN iffD2])
  with True show ?thesis
    by (simp add: storedRulesToRules_def rmap_map)
next
  case False
  then obtain v where v: "v \<in> set vs" "\<not> storable v"
    by (auto simp: list_all_iff)
  with read_stored(2) [OF v(2)] have "\<exists>e. rmap (\<lambda>v. rbind (readStoredRule (ruleValueToStoredRule v)) (\<lambda>value. Inr (located s d b value))) vs = Inl e"
    by (intro rmap_Inl) auto
  with False show ?thesis
    by (simp add: storedRulesToRules_def rmap_map)
qed

lemma config_fields:
  "js_get (rulesToConfigV2 rules) (behavior_text b) = JArr (map ruleValueToStoredRule (rules_of b rules))"
  "js_get (rulesToConfigV2 rules) ''version'' = JNum (Fin 2)"
  by (cases b; simp add: rulesToConfigV2_def js_get_def)+

lemma all_rules_of: "(\<forall>b. list_all storable (rules_of b rules)) \<longleftrightarrow> list_all (\<lambda>r. storable (lr_value r)) rules"
  by (auto simp: list_all_iff rules_of_def)

lemma read_back:
  "if list_all (\<lambda>r. storable (lr_value r)) rules then configV2ToRules (rulesToConfigV2 rules) s d = Inr (stored_rules s d rules)
   else \<exists>e. configV2ToRules (rulesToConfigV2 rules) s d = Inl e"
proof -
  note one = read_stored_rules [of "rules_of _ rules" s d]
  have config: "configV2ToRules (rulesToConfigV2 rules) s d =
      rbind (storedRulesToRules (JArr (map ruleValueToStoredRule (rules_of Allow rules))) s d Allow) (\<lambda>allow.
      rbind (storedRulesToRules (JArr (map ruleValueToStoredRule (rules_of Deny rules))) s d Deny) (\<lambda>deny.
      rbind (storedRulesToRules (JArr (map ruleValueToStoredRule (rules_of Ask rules))) s d Ask) (\<lambda>ask.
        Inr (allow @ deny @ ask))))"
    using config_fields(1) [of rules Allow] config_fields(1) [of rules Deny] config_fields(1) [of rules Ask]
    by (simp add: configV2ToRules_def)
  have all: "list_all (\<lambda>r. storable (lr_value r)) rules \<longleftrightarrow>
      list_all storable (rules_of Allow rules) \<and> list_all storable (rules_of Deny rules) \<and> list_all storable (rules_of Ask rules)"
    unfolding all_rules_of [symmetric] by (metis permission_behavior.exhaust)
  show ?thesis
    unfolding config all using one [of Allow Allow] one [of Deny Deny] one [of Ask Ask]
    by (cases "list_all storable (rules_of Allow rules)"; cases "list_all storable (rules_of Deny rules)";
        cases "list_all storable (rules_of Ask rules)") (auto simp: stored_rules_def)
qed

section \<open>Writing and reading the first format\<close>

text \<open>A name the first format gives back: not empty, without an opening parenthesis or a backslash at its end.\<close>

definition plain_name :: "string \<Rightarrow> bool" where
  "plain_name s \<longleftrightarrow> s \<noteq> [] \<and> CHR ''('' \<notin> set s \<and> last s \<noteq> CHR 0x5C"

definition reparsed_rules :: "rule_source \<Rightarrow> string \<Rightarrow> local_rule list \<Rightarrow> local_rule list" where
  "reparsed_rules s d rules =
     concat (map (\<lambda>b. map (\<lambda>v. located s d b (parseRuleString (serializeRuleValue v))) (rules_of b rules)) [Allow, Deny, Ask])"

lemma index_of_None: "x \<notin> set s \<Longrightarrow> index_of x s = None"
  by (induction s) auto

lemma index_of_append: "x \<notin> set s \<Longrightarrow> index_of x (s @ x # s') = Some (length s)"
  by (induction s) auto

lemma reparse_plain:
  assumes "plain_name (rv_toolName v)"
  shows "parseRuleString (serializeRuleValue v) =
    matched_value (rv_toolName v) (inferLegacyMatcher (matcher_pattern (rule_matcher_of v)))"
proof (cases "matcher_pattern (rule_matcher_of v)")
  case None
  then show ?thesis
    using assms by (simp add: serializeRuleValue_def parseRuleString_def plain_name_def index_of_None
        inferLegacyMatcher_def matched_value_def)
next
  case (Some p)
  let ?t = "rv_toolName v"
  let ?raw = "?t @ CHR ''('' # p @ [CHR '')'']"
  have raw: "serializeRuleValue v = ?raw"
    using Some by (simp add: serializeRuleValue_def)
  have "index_of (CHR ''('') ?raw = Some (length ?t)"
    using assms index_of_append [of "CHR ''(''" ?t] by (simp add: plain_name_def)
  moreover have "last_index_of (CHR '')'') ?raw = Some (length ?t + length p + 1)"
    by (simp add: last_index_of_def)
  moreover have "0 < length ?t" "?raw ! (length ?t - 1) \<noteq> CHR 0x5C"
    using assms by (auto simp: plain_name_def last_conv_nth nth_append)
  ultimately show ?thesis
    using Some unfolding raw
    by (cases "p = []") (simp_all add: parseRuleString_def inferLegacyMatcher_def)
qed

lemma config_fields_v1:
  "js_get (rulesToConfigV1 rules) (behavior_text b) = JArr (map (\<lambda>v. JStr (serializeRuleValue v)) (rules_of b rules))"
  "js_get (rulesToConfigV1 rules) ''version'' = JUndef"
  by (cases b; simp add: rulesToConfigV1_def js_get_def)+

lemma string_items: "concat (map ((\<lambda>x. case x of JStr s \<Rightarrow> [s] | _ \<Rightarrow> []) \<circ> (\<lambda>v. JStr (f v))) vs) = map f vs"
  by (induction vs) simp_all

lemma read_back_v1: "configV1ToRules (rulesToConfigV1 rules) s d = reparsed_rules s d rules"
  using config_fields_v1(1) [of rules Allow] config_fields_v1(1) [of rules Deny] config_fields_v1(1) [of rules Ask]
  by (simp add: configV1ToRules_def reparsed_rules_def readRuleStringArray_def string_items comp_def)

section \<open>What an update leaves\<close>

text \<open>The rules a file and an update hold have a matcher, and no list of actions is empty.\<close>

definition explicit :: "rule_value \<Rightarrow> bool" where
  "explicit v \<longleftrightarrow> (case rv_matcher v of None \<Rightarrow> False | Some (MatchPath p actions) \<Rightarrow> actions \<noteq> Some [] | Some _ \<Rightarrow> True)"

lemma set_new_set: "set (new_set xs) = set xs"
proof -
  have "set (uniq_onto seen xs) = set xs - set seen" for seen
    by (induction xs arbitrary: seen) auto
  then show ?thesis
    by (simp add: new_set_def)
qed

lemma explicit_matched: "explicit (matched_value t m) \<longleftrightarrow> (\<forall>p. m \<noteq> MatchPath p (Some []))"
  by (cases m) (auto simp: explicit_def matched_value_def)

lemma rmap_ne: "rmap f (a # as) = Inr ys \<Longrightarrow> ys \<noteq> []"
  by (auto simp: rbind_eq_Inr)

lemma explicit_stored: "readStoredMatcher raw \<noteq> Inr (MatchPath p (Some []))"
  using set_new_set [of "_ :: rule_action list"] rmap_ne [of readPermissionAction]
  by (auto simp: readStoredMatcher_def Let_def rbind_eq_Inr split: js.splits list.splits if_splits) (metis set_empty)+

lemma explicit_inferred: "inferLegacyMatcher c \<noteq> MatchPath p (Some [])"
  by (auto simp: inferLegacyMatcher_def split: option.split)

lemma explicit_parsed: "explicit (parseRuleString raw)"
  by (auto simp: parseRuleString_def Let_def explicit_matched explicit_inferred split: option.split)
    (simp_all add: explicit_def)

lemma rmap_all: "rmap f xs = Inr ys \<Longrightarrow> (\<And>x y. f x = Inr y \<Longrightarrow> P y) \<Longrightarrow> list_all P ys"
  by (induction xs arbitrary: ys) (auto simp: rbind_eq_Inr)

lemma explicit_update: "readPermissionUpdate raw = Inr u \<Longrightarrow> list_all explicit (ru_rules u)"
proof -
  assume "readPermissionUpdate raw = Inr u"
  then obtain xs where "rmap readRuleValue xs = Inr (ru_rules u)"
    by (cases "js_get raw ''rules''" rule: js.exhaust)
      (auto simp del: rmap.simps simp: readPermissionUpdate_def rbind_eq_Inr neq_Nil_conv split: option.splits list.splits)
  then show ?thesis
    by (rule rmap_all) (auto simp: readRuleValue_def Let_def rbind_eq_Inr explicit_matched explicit_inferred
        explicit_stored split: js.splits if_splits)
qed

abbreviation all_explicit :: "local_rule list \<Rightarrow> bool" where
  "all_explicit rules \<equiv> list_all (\<lambda>r. explicit (lr_value r)) rules"

lemma explicit_v2: "storedRulesToRules v s d b = Inr rules \<Longrightarrow> all_explicit rules"
  by (auto simp: storedRulesToRules_def readStoredRule_def rbind_eq_Inr located_def explicit_matched
      explicit_stored split: js.splits if_splits elim!: rmap_all)

lemma explicit_file: "readConfigFile files path s d = Inr rules \<Longrightarrow> all_explicit rules"
  by (auto simp: readConfigFile_def configV2ToRules_def configV1ToRules_def rbind_eq_Inr explicit_parsed located_def list_all_iff
      dest!: explicit_v2 split: option.splits rule_file.splits js.splits if_splits sum.splits)

lemma explicit_add: "list_all explicit vs \<Longrightarrow> all_explicit acc \<Longrightarrow> all_explicit (add_new u vs acc)"
  by (induction u vs acc rule: add_new.induct) (auto simp: buildRule_def located_def)

lemma explicit_mutate: "all_explicit current \<Longrightarrow> list_all explicit (ru_rules u) \<Longrightarrow> all_explicit (mutateRules current u)"
  using explicit_add [of "ru_rules u" current u]
  by (auto simp: mutateRules_def list_all_iff buildRule_def located_def split: update_type.split)

lemma config_read:
  "readConfigFile (writeRules True path rules files) path s d =
     (if list_all (\<lambda>r. storable (lr_value r)) rules then Inr (stored_rules s d rules) else Inl (StoreUnhealthy InvalidV2Rule s))"
  using read_back [of rules s d] config_fields(2) [of rules]
  by (auto simp: readConfigFile_def writeRules_def split: if_splits)

lemma update_parts:
  assumes "applyUpdate v2 raw files = Inr files'"
  obtains u path current where "readPermissionUpdate raw = Inr u" "filePath (ru_source u) (ru_destination u) = Inr path"
    "readConfigFile files path (ru_source u) (ru_destination u) = Inr current"
    "files' = writeRules v2 path (mutateRules current u) files"
  using assms by (auto simp: applyUpdate_def rbind_eq_Inr)

lemma config_read_v1: "readConfigFile (writeRules False path rules files) path s d = Inr (reparsed_rules s d rules)"
  using read_back_v1 [of rules s d] config_fields_v1(2) [of rules]
  by (simp add: readConfigFile_def writeRules_def)

text \<open>A path given without actions.\<close>

definition path_only :: "rule_value \<Rightarrow> bool" where
  "path_only v \<longleftrightarrow> (case rv_matcher v of Some (MatchPath p None) \<Rightarrow> True | _ \<Rightarrow> False)"

definition some_rule :: "match_host \<Rightarrow> local_rule list \<Rightarrow> string \<Rightarrow> js_object \<Rightarrow> permission_behavior \<Rightarrow> bool" where
  "some_rule h rules toolName input b \<longleftrightarrow> list_ex (\<lambda>r. ruleMatches h r toolName input \<and> lr_behavior r = b) rules"

lemma permissionInputAction_known: "permissionInputAction t = Some a \<Longrightarrow> a \<in> set ALL_PERMISSION_ACTIONS"
  by (cases a) (simp_all add: ALL_PERMISSION_ACTIONS_def)

lemma stored_matches:
  assumes "explicit v"
  shows "ruleMatches h (located s d b (stored_value v)) t i \<longleftrightarrow>
    ruleMatches h (located s d b v) t i \<and> (permissionInputAction t = None \<longrightarrow> \<not> path_only v)"
proof -
  from assms obtain m where m: "rv_matcher v = Some m" "\<And>p. m \<noteq> MatchPath p (Some [])"
    by (auto simp: explicit_def split: option.splits rule_matcher.splits)
  show ?thesis
  proof (cases m)
    case (MatchPath p actions)
    show ?thesis
    proof (cases actions)
      case None
      then show ?thesis
        using m MatchPath
        by (auto simp: ruleMatches_def located_def stored_value_def rule_matcher_of_def matched_value_def path_only_def
            structuredMatcherMatches_def stored_actions_def set_new_set permissionInputAction_known split: option.splits)
    next
      case (Some as)
      with m(2) MatchPath obtain a as' where "as = a # as'"
        by (cases as) auto
      then show ?thesis
        using m MatchPath Some
        by (auto simp: ruleMatches_def located_def stored_value_def rule_matcher_of_def matched_value_def path_only_def
            structuredMatcherMatches_def stored_actions_def set_new_set split: option.splits)
    qed
  qed (use m in \<open>auto simp: ruleMatches_def located_def stored_value_def rule_matcher_of_def matched_value_def path_only_def\<close>)
qed

lemma ruleMatches_located: "ruleMatches h (located s d b (lr_value r)) t i = ruleMatches h r t i"
proof -
  have "lr_value (located s d b (lr_value r)) = lr_value r"
    by (simp add: located_def)
  then show ?thesis
    unfolding ruleMatches_def by (simp only:)
qed

lemma some_rule_located:
  "some_rule h (concat (map (\<lambda>b. map (\<lambda>v. located s d b (f v)) (rules_of b rules)) [Allow, Deny, Ask])) t i b \<longleftrightarrow>
   (\<exists>r\<in>set rules. lr_behavior r = b \<and> ruleMatches h (located s d b (f (lr_value r))) t i)"
  by (cases b) (auto simp: some_rule_def rules_of_def list_ex_iff located_def)

lemma some_rule_stored:
  assumes "all_explicit rules"
  shows "some_rule h (stored_rules s d rules) t i b \<longleftrightarrow>
    (\<exists>r\<in>set rules. lr_behavior r = b \<and> ruleMatches h r t i \<and> (permissionInputAction t = None \<longrightarrow> \<not> path_only (lr_value r)))"
  using assms unfolding stored_rules_def some_rule_located
  by (auto simp: list_all_iff stored_matches ruleMatches_located)

lemma some_rule_reparsed:
  "some_rule h (reparsed_rules s d rules) t i b \<longleftrightarrow>
   (\<exists>r\<in>set rules. lr_behavior r = b \<and> ruleMatches h (located s d b (parseRuleString (serializeRuleValue (lr_value r)))) t i)"
  unfolding reparsed_rules_def by (rule some_rule_located)

text \<open>C34: What an accepted update leaves. Written in the first format, the file gives back, grouped by behaviour,
  each rule of the updated list parsed again from its string: for a plain tool name the same name with the
  matcher inferred from the bare pattern, so that actions and the kind of the matcher are lost. Written in
  the second format, with no blank tool name and no blank pattern, the file gives back rules that a call
  matches exactly as it matches the updated ones, except that a path given without actions no longer
  matches a tool without an action. With a blank one, which the reading of an update accepts, the file is
  unhealthy from there on: every read of it and every further update of it fails.\<close>

theorem update_read_back:
  assumes "applyUpdate v2 raw files = Inr files'" and "readPermissionUpdate raw = Inr u"
    and "readRules files (ru_source u) (ru_destination u) = Inr current"
  shows "if \<not> v2 then
      readRules files' (ru_source u) (ru_destination u) =
        Inr (reparsed_rules (ru_source u) (ru_destination u) (mutateRules current u)) \<and>
      (\<forall>r\<in>set (mutateRules current u). plain_name (rv_toolName (lr_value r)) \<longrightarrow>
         parseRuleString (serializeRuleValue (lr_value r)) =
           matched_value (rv_toolName (lr_value r)) (inferLegacyMatcher (matcher_pattern (rule_matcher_of (lr_value r)))))
    else if list_all (\<lambda>r. storable (lr_value r)) (mutateRules current u) then
      \<exists>rules. readRules files' (ru_source u) (ru_destination u) = Inr rules \<and>
        rules = stored_rules (ru_source u) (ru_destination u) (mutateRules current u) \<and>
        (\<forall>h t i b. some_rule h rules t i b \<longleftrightarrow>
           (\<exists>r\<in>set (mutateRules current u). lr_behavior r = b \<and> ruleMatches h r t i \<and>
              (permissionInputAction t = None \<longrightarrow> \<not> path_only (lr_value r))))
    else readRules files' (ru_source u) (ru_destination u) = Inl (StoreUnhealthy InvalidV2Rule (ru_source u)) \<and>
      (\<forall>w2 raw' u'. readPermissionUpdate raw' = Inr u' \<and> ru_source u' = ru_source u \<and> ru_destination u' = ru_destination u \<longrightarrow>
         applyUpdate w2 raw' files' = Inl (StoreUnhealthy InvalidV2Rule (ru_source u)))"
proof -
  obtain path where path: "filePath (ru_source u) (ru_destination u) = Inr path"
      "files' = writeRules v2 path (mutateRules current u) files"
      "readConfigFile files path (ru_source u) (ru_destination u) = Inr current"
    using update_parts [OF assms(1)] assms(2,3) by (metis Inr_inject rbind_Inr readRules_def)
  have "all_explicit (mutateRules current u)"
    using explicit_mutate [OF explicit_file [OF path(3)] explicit_update [OF assms(2)]] .
  note stored = some_rule_stored [OF this]
  show ?thesis
    using config_read [of path "mutateRules current u" files "ru_source u" "ru_destination u"] path(1)
      config_read_v1 [of path "mutateRules current u" files "ru_source u" "ru_destination u"]
    by (auto simp: readRules_def path(2) applyUpdate_def stored reparse_plain)
qed

definition blank_update :: js_object where
  "blank_update = [(''type'', JStr ''addRules''), (''source'', JStr ''global''), (''destination'', JStr ''global''),
     (''behavior'', JStr ''deny''), (''rules'', JArr [JObj [(''toolName'', JStr ''bash''), (''ruleContent'', JStr '' '')]])]"

lemma blank_read:
  "readPermissionUpdate blank_update = Inr \<lparr>ru_type = UpdateAdd, ru_source = SrcGlobal, ru_destination = ''global'',
     ru_rules = [matched_value ''bash'' (MatchCommand '' '')], ru_behavior = Deny\<rparr>"
  by code_simp

lemma update_read_back_witness:
  "\<exists>files'. applyUpdate True blank_update (\<lambda>_. None) = Inr files' \<and>
     readRules files' SrcGlobal ''global'' = Inl (StoreUnhealthy InvalidV2Rule SrcGlobal) \<and>
     applyUpdate True blank_update files' = Inl (StoreUnhealthy InvalidV2Rule SrcGlobal)"
proof -
  let ?u = "\<lparr>ru_type = UpdateAdd, ru_source = SrcGlobal, ru_destination = ''global'',
     ru_rules = [matched_value ''bash'' (MatchCommand '' '')], ru_behavior = Deny\<rparr>"
  have none: "readRules (\<lambda>_. None) SrcGlobal ''global'' = Inr []"
    by (simp add: readRules_def filePath_def readConfigFile_def)
  obtain files' where w: "applyUpdate True blank_update (\<lambda>_. None) = Inr files'"
    by (simp add: applyUpdate_def blank_read filePath_def readConfigFile_def)
  have "\<not> list_all (\<lambda>r. storable (lr_value r)) (mutateRules [] ?u)"
    by code_simp
  with update_read_back [OF w blank_read, of "[]"] none blank_read w show ?thesis
    by auto
qed

section \<open>Rules on paths\<close>

text \<open>C35: A rule whose content looks like a path matches a call with that very target while its file has the first
  format, but once any update has written the file in the second format it never matches again, whatever the
  input, when the tool is none of those that read, write or use the network (such as \<open>bash\<close>): the writer fills in
  all actions and the matcher asks for the action of the tool, which it does not have.\<close>

theorem stored_path_rule_never_matches:
  assumes "permissionInputAction toolName = None" and "looksLikePathPattern p" and "js_trim p \<noteq> []" and "js_trim toolName \<noteq> []"
    and "permissionInputTarget h toolName input = Some p"
    and "r = located s d b (matched_value toolName (inferLegacyMatcher (Some p)))"
  shows "ruleMatches h r toolName input \<and>
    (\<exists>r'. configV2ToRules (rulesToConfigV2 [r]) s d = Inr [r'] \<and> lr_behavior r' = b \<and> rv_toolName (lr_value r') = toolName \<and>
       rv_ruleContent (lr_value r') = Some p \<and> (\<forall>any_input. \<not> ruleMatches h r' toolName any_input))"
proof -
  have "p \<noteq> []"
    using assms(3) by (auto simp: js_trim_def)
  then have m: "inferLegacyMatcher (Some p) = MatchPath p None"
    using assms(2) by (simp add: inferLegacyMatcher_def)
  let ?r = "located s d b (stored_value (lr_value r))"
  have val: "lr_value r = matched_value toolName (MatchPath p None)" and beh: "lr_behavior r = b"
    by (simp_all add: assms(6) m located_def)
  have stored: "stored_value (lr_value r) = matched_value toolName (MatchPath p (Some (new_set ALL_PERMISSION_ACTIONS)))"
    by (simp add: val stored_value_def rule_matcher_of_def matched_value_def stored_actions_def)
  have "list_all (\<lambda>r. storable (lr_value r)) [r]"
    using assms(3,4) by (simp add: val storable_def rule_matcher_of_def matched_value_def matcher_storable_def)
  then have "configV2ToRules (rulesToConfigV2 [r]) s d = Inr (stored_rules s d [r])"
    using read_back [of "[r]" s d] by simp
  moreover have "stored_rules s d [r] = [?r]"
    using beh by (cases b) (simp_all add: stored_rules_def rules_of_def)
  moreover have "\<not> ruleMatches h ?r toolName any_input" for any_input
    using assms(1) by (simp add: ruleMatches_def stored located_def matched_value_def structuredMatcherMatches_def split: option.split)
  moreover have "ruleMatches h r toolName input"
    using assms(5) \<open>p \<noteq> []\<close> by (simp add: ruleMatches_def val matched_value_def permissionToolMatches_def structuredMatcherMatches_def)
  ultimately show ?thesis
    using beh by (simp add: stored matched_value_def located_def)
qed

definition posix_host :: match_host where
  "posix_host = \<lparr>mh_resolve = (\<lambda>s. s), mh_sep = CHR ''/'', mh_win32 = False, mh_urlHost = (\<lambda>_. None), mh_stringify = (\<lambda>_. None)\<rparr>"

lemma stored_path_rule_never_matches_witness:
  "ruleMatches posix_host (located SrcGlobal ''global'' Deny (parseRuleString ''bash(/usr/bin/dd)'')) ''bash'' [(''command'', JStr ''/usr/bin/dd'')] \<and>
   (\<exists>r'. configV2ToRules (rulesToConfigV2 [located SrcGlobal ''global'' Deny (parseRuleString ''bash(/usr/bin/dd)'')]) SrcGlobal ''global'' = Inr [r'] \<and>
      \<not> ruleMatches posix_host r' ''bash'' [(''command'', JStr ''/usr/bin/dd'')])"
proof -
  have "parseRuleString ''bash(/usr/bin/dd)'' = matched_value ''bash'' (inferLegacyMatcher (Some ''/usr/bin/dd''))"
    by code_simp
  moreover have "permissionInputAction ''bash'' = None" "looksLikePathPattern ''/usr/bin/dd''" "js_trim ''/usr/bin/dd'' \<noteq> []" "js_trim ''bash'' \<noteq> []"
    by code_simp+
  moreover have "permissionInputTarget posix_host ''bash'' [(''command'', JStr ''/usr/bin/dd'')] = Some ''/usr/bin/dd''"
    by (simp add: permissionInputTarget_def js_get_def nullish_else_def)
  ultimately show ?thesis
    using stored_path_rule_never_matches [of "''bash''" "''/usr/bin/dd''" posix_host "[(''command'', JStr ''/usr/bin/dd'')]"
        "located SrcGlobal ''global'' Deny (parseRuleString ''bash(/usr/bin/dd)'')" SrcGlobal "''global''" Deny] by auto
qed

lemma add_new_keeps: "r \<in> set acc \<Longrightarrow> r \<in> set (add_new u vs acc)"
  by (induction u vs acc rule: add_new.induct) simp_all

lemma new_set_id: "distinct xs \<Longrightarrow> new_set xs = xs"
proof -
  have "distinct xs \<Longrightarrow> set xs \<inter> set seen = {} \<Longrightarrow> uniq_onto seen xs = xs" for seen
    by (induction xs arbitrary: seen) auto
  then show "distinct xs \<Longrightarrow> new_set xs = xs"
    by (simp add: new_set_def)
qed

lemma all_actions: "new_set ALL_PERMISSION_ACTIONS = ALL_PERMISSION_ACTIONS"
  by (rule new_set_id) (simp add: ALL_PERMISSION_ACTIONS_def)

lemma in_stored_rules: "r \<in> set rules \<Longrightarrow> located s d (lr_behavior r) (stored_value (lr_value r)) \<in> set (stored_rules s d rules)"
  by (cases "lr_behavior r") (auto simp: stored_rules_def rules_of_def)

text \<open>A rule on a path that was given by its content cannot be taken back by its content: after an accepted update
  adds it and an accepted update with the same rule removes it, the file still holds the rule, because the
  stored rule has all actions and the update none.\<close>

theorem path_rule_not_removed:
  assumes "readPermissionUpdate raw = Inr u" and "ru_type u = UpdateAdd" and "ru_rules u = [matched_value toolName (MatchPath p None)]"
    and "readPermissionUpdate raw' = Inr (u\<lparr>ru_type := UpdateRemove\<rparr>)"
    and "applyUpdate True raw files = Inr files1" and "applyUpdate True raw' files1 = Inr files2"
    and "readRules files2 (ru_source u) (ru_destination u) = Inr rules"
  shows "located (ru_source u) (ru_destination u) (ru_behavior u) (matched_value toolName (MatchPath p (Some ALL_PERMISSION_ACTIONS))) \<in> set rules"
proof -
  let ?s = "ru_source u" and ?d = "ru_destination u" and ?v = "matched_value toolName (MatchPath p None)"
  let ?stored = "matched_value toolName (MatchPath p (Some ALL_PERMISSION_ACTIONS))"
  let ?r = "located ?s ?d (ru_behavior u) ?stored"
  obtain u0 path current where "readPermissionUpdate raw = Inr u0" "filePath (ru_source u0) (ru_destination u0) = Inr path"
      "readConfigFile files path (ru_source u0) (ru_destination u0) = Inr current" "files1 = writeRules True path (mutateRules current u0) files"
    by (rule update_parts [OF assms(5)])
  then have one: "filePath ?s ?d = Inr path" "files1 = writeRules True path (mutateRules current u) files"
    using assms(1) by simp_all
  obtain u1 path' current' where "readPermissionUpdate raw' = Inr u1" "filePath (ru_source u1) (ru_destination u1) = Inr path'"
      "readConfigFile files1 path' (ru_source u1) (ru_destination u1) = Inr current'" "files2 = writeRules True path' (mutateRules current' u1) files1"
    by (rule update_parts [OF assms(6)])
  moreover from this(1) have "u1 = u\<lparr>ru_type := UpdateRemove\<rparr>"
    using assms(4) by simp
  ultimately have two: "readConfigFile files1 path ?s ?d = Inr current'"
      "files2 = writeRules True path (mutateRules current' (u\<lparr>ru_type := UpdateRemove\<rparr>)) files1"
    using one(1) by simp_all
  have current': "current' = stored_rules ?s ?d (mutateRules current u)"
    using two(1) config_read [of path "mutateRules current u" files ?s ?d] unfolding one(2) by (auto split: if_splits)
  have rules: "rules = stored_rules ?s ?d (mutateRules current' (u\<lparr>ru_type := UpdateRemove\<rparr>))"
    using assms(7) config_read [of path "mutateRules current' (u\<lparr>ru_type := UpdateRemove\<rparr>)" files1 ?s ?d] one(1)
    unfolding two(2) readRules_def by (auto split: if_splits)
  have stored: "stored_value ?v = ?stored" "stored_value ?stored = ?stored"
    by (simp_all add: stored_value_def rule_matcher_of_def matched_value_def stored_actions_def all_actions)
      (simp_all add: ALL_PERMISSION_ACTIONS_def new_set_def)
  have "\<exists>r\<in>set (mutateRules current u). lr_behavior r = ru_behavior u \<and> stored_value (lr_value r) = ?stored"
  proof (cases "list_ex (\<lambda>r. lr_behavior r = ru_behavior u \<and> ruleValuesEqual (lr_value r) ?v) current")
    case True
    then obtain r where r: "r \<in> set current" "lr_behavior r = ru_behavior u" "ruleValuesEqual (lr_value r) ?v"
      by (auto simp: list_ex_iff)
    then have "rv_toolName (lr_value r) = toolName" "rule_matcher_of (lr_value r) = MatchPath p None"
      by (auto simp: ruleValuesEqual_def matched_value_def rule_matcher_of_def [of "\<lparr>rv_toolName = _, rv_ruleContent = _, rv_matcher = _\<rparr>"]
          matchers_equal_def actions_equal_def split: rule_matcher.splits option.splits)
    then have "stored_value (lr_value r) = ?stored"
      by (simp add: stored_value_def stored_actions_def all_actions)
    with r(1,2) True show ?thesis
      using assms(2,3) by (auto simp: mutateRules_def)
  next
    case False
    then have "buildRule u ?v \<in> set (mutateRules current u)"
      using assms(2,3) by (simp add: mutateRules_def)
    with stored(1) show ?thesis
      by (intro bexI [of _ "buildRule u ?v"]) (simp_all add: buildRule_def located_def)
  qed
  then have "?r \<in> set current'"
    unfolding current' using in_stored_rules [of _ "mutateRules current u" ?s ?d] by metis
  moreover have "\<not> ruleValuesEqual ?stored ?v"
    by (simp add: ruleValuesEqual_def matched_value_def rule_matcher_of_def matchers_equal_def actions_equal_def)
  ultimately have "?r \<in> set (mutateRules current' (u\<lparr>ru_type := UpdateRemove\<rparr>))"
    by (simp add: mutateRules_def assms(3) located_def)
  from in_stored_rules [OF this, of ?s ?d] show ?thesis
    unfolding rules by (simp add: located_def stored(2))
qed

lemma path_rule_not_removed_witness:
  "let change = \<lambda>t. [(''type'', JStr t), (''source'', JStr ''global''), (''destination'', JStr ''global''), (''behavior'', JStr ''deny''),
       (''rules'', JArr [JObj [(''toolName'', JStr ''read''), (''ruleContent'', JStr ''/etc/**'')]])] in
   \<exists>files1 files2. applyUpdate True (change ''addRules'') (\<lambda>_. None) = Inr files1 \<and> applyUpdate True (change ''removeRules'') files1 = Inr files2 \<and>
     (\<forall>rules. readRules files2 SrcGlobal ''global'' = Inr rules \<longrightarrow>
        located SrcGlobal ''global'' Deny (matched_value ''read'' (MatchPath ''/etc/**'' (Some ALL_PERMISSION_ACTIONS))) \<in> set rules)"
proof -
  let ?change = "\<lambda>t. [(''type'', JStr t), (''source'', JStr ''global''), (''destination'', JStr ''global''), (''behavior'', JStr ''deny''),
       (''rules'', JArr [JObj [(''toolName'', JStr ''read''), (''ruleContent'', JStr ''/etc/**'')]])]"
  let ?u = "\<lparr>ru_type = UpdateAdd, ru_source = SrcGlobal, ru_destination = ''global'',
       ru_rules = [matched_value ''read'' (MatchPath ''/etc/**'' None)], ru_behavior = Deny\<rparr>"
  have read: "readPermissionUpdate (?change ''addRules'') = Inr ?u"
      "readPermissionUpdate (?change ''removeRules'') = Inr (?u\<lparr>ru_type := UpdateRemove\<rparr>)"
    by code_simp+
  let ?files1 = "writeRules True (SrcGlobal, ''global'') (mutateRules [] ?u) (\<lambda>_. None)"
  have one: "applyUpdate True (?change ''addRules'') (\<lambda>_. None) = Inr ?files1"
    unfolding applyUpdate_def read by (simp add: filePath_def readConfigFile_def)
  have "list_all (\<lambda>r. storable (lr_value r)) (mutateRules [] ?u)"
    by code_simp
  then obtain files2 where two: "applyUpdate True (?change ''removeRules'') ?files1 = Inr files2"
    unfolding applyUpdate_def read by (simp add: filePath_def config_read)
  show ?thesis
    unfolding Let_def
    using one two path_rule_not_removed [OF read(1) _ _ read(2) one two] by fastforce
qed

section \<open>The decision\<close>

lemma find_rule:
  "find (\<lambda>r. lr_behavior r = b) (filter (\<lambda>r. ruleMatches h r t i) rules) = Some r \<Longrightarrow>
   r \<in> set rules \<and> ruleMatches h r t i \<and> lr_behavior r = b"
  "find (\<lambda>r. lr_behavior r = b) (filter (\<lambda>r. ruleMatches h r t i) rules) = None \<longleftrightarrow> \<not> some_rule h rules t i b"
  by (auto simp: find_Some_iff find_None_iff some_rule_def list_ex_iff dest: nth_mem)

lemma selected:
  "case selectMatchingRule h rules t i of
     None \<Rightarrow> \<forall>b. \<not> some_rule h rules t i b
   | Some r \<Rightarrow> r \<in> set rules \<and> ruleMatches h r t i \<and> some_rule h rules t i (lr_behavior r) \<and>
       lr_behavior r = (if some_rule h rules t i Deny then Deny else if some_rule h rules t i Ask then Ask else Allow)"
proof -
  let ?find = "\<lambda>b. find (\<lambda>r. lr_behavior r = b) (filter (\<lambda>r. ruleMatches h r t i) rules)"
  have hit: "r \<in> set rules \<and> ruleMatches h r t i \<and> lr_behavior r = b \<and> some_rule h rules t i b" if "?find b = Some r" for b r
    using find_rule(1) [OF that] find_rule(2) [of b h t i rules] that by simp
  have miss: "\<not> some_rule h rules t i b" if "?find b = None" for b
    using find_rule(2) [of b h t i rules] that by simp
  have sel: "selectMatchingRule h rules t i = (case ?find Deny of Some r \<Rightarrow> Some r | None \<Rightarrow>
      (case ?find Ask of Some r \<Rightarrow> Some r | None \<Rightarrow> ?find Allow))"
    by (simp add: selectMatchingRule_def Let_def split: option.split)
  consider (deny) r where "?find Deny = Some r" | (ask) r where "?find Deny = None" "?find Ask = Some r"
    | (allow) r where "?find Deny = None" "?find Ask = None" "?find Allow = Some r"
    | (none) "?find Deny = None" "?find Ask = None" "?find Allow = None"
    by (cases "?find Deny"; cases "?find Ask"; cases "?find Allow") simp_all
  then show ?thesis
  proof cases
    case deny
    then show ?thesis using hit [OF deny] unfolding sel by simp
  next
    case ask
    then show ?thesis using hit [OF ask(2)] miss [OF ask(1)] unfolding sel by simp
  next
    case allow
    then show ?thesis using hit [OF allow(3)] miss [OF allow(1)] miss [OF allow(2)] unfolding sel by simp
  next
    case none
    then have "selectMatchingRule h rules t i = None"
      unfolding sel by simp
    moreover have "\<not> some_rule h rules t i b" for b
      using miss [OF none(1)] miss [OF none(2)] miss [OF none(3)] by (cases b) simp_all
    ultimately show ?thesis
      by simp
  qed
qed

text \<open>C32: Outside the mode \<open>off\<close> the persisted rules decide by strictness and not by order or source: a matching rule
  that denies wins, then one that asks, then one that allows; without one the answer is to ask, or to allow in the mode
  \<open>bypassPermissions\<close>, which overrides no matching deny or ask. The rule reported is one that matches and has the
  behaviour. When a rule file that has to be read is unhealthy there is no decision but its error.\<close>

theorem strictest_rule_decides:
  assumes "mode \<noteq> ModeOff"
  shows "case listRules files \<lparr>rf_source = None, rf_agentName = agent, rf_agentNames = None, rf_sessionId = session\<rparr> of
      Inl e \<Rightarrow> check_rules h files t i mode agent session = Inl e
    | Inr rules \<Rightarrow> (\<exists>d. check_rules h files t i mode agent session = Inr d \<and>
        ld_behavior d = (if some_rule h rules t i Deny then Deny else if some_rule h rules t i Ask then Ask
          else if some_rule h rules t i Allow \<or> mode = BypassPermissions then Allow else Ask) \<and>
        pred_option (\<lambda>r. r \<in> set rules \<and> ruleMatches h r t i \<and> lr_behavior r = ld_behavior d) (ld_rule d))"
proof (cases "listRules files \<lparr>rf_source = None, rf_agentName = agent, rf_agentNames = None, rf_sessionId = session\<rparr>")
  case (Inl e)
  then show ?thesis
    using assms by (simp add: check_rules_def)
next
  case (Inr rules)
  then show ?thesis
    using assms selected [of h rules t i]
    by (cases "selectMatchingRule h rules t i") (auto simp: check_rules_def Let_def)
qed

lemma strictest_rule_decides_witness:
  "\<exists>d. check_rules posix_host (\<lambda>_. None) ''bash'' [(''command'', JStr ''ls'')] BypassPermissions None None = Inr d \<and> ld_behavior d = Allow"
proof -
  have "listRules (\<lambda>_. None) \<lparr>rf_source = None, rf_agentName = None, rf_agentNames = None, rf_sessionId = None\<rparr> = Inr []"
    by (simp add: listRules_def readRules_def filePath_def readConfigFile_def)
  then show ?thesis
    using strictest_rule_decides [of BypassPermissions posix_host "\<lambda>_. None" "''bash''" "[(''command'', JStr ''ls'')]" None None]
    by (auto simp: some_rule_def)
qed

text \<open>C33: A shell command that contains a separator, a redirection, a substitution or \<open>$IFS\<close> is not covered by a prefix
  or a wildcard: a rule that matches it is one for the whole tool, one whose command is literally this text, or -
  only while the rule has no actions, that is from a file of the first format - one on a path. That last case
  is a hole: the pattern then takes the whole command line as a path.\<close>

theorem compound_command_guard:
  assumes "permissionInputTarget h ''bash'' input = Some command" and "hasShellCommandSeparator (js_trim command)"
    and "ruleMatches h r ''bash'' input" and "rv_matcher (lr_value r) = Some m"
  shows "m = MatchTool \<or> m = MatchCommand command \<or>
    (\<exists>p. m = MatchPath p None \<and> (command = p \<or> matchesPathGlob h command p))"
proof -
  have "command \<noteq> []"
    using assms(2) by (auto simp: js_trim_def trim_with_def)
  then have target: "truthy (permissionInputTarget h ''bash'' input) = Some command"
    by (simp add: assms(1))
  have "structuredMatcherMatches h m ''bash'' input"
    using assms(3,4) by (simp add: ruleMatches_def)
  then show ?thesis
    using assms(2)
    by (cases m) (auto simp: structuredMatcherMatches_def target permissionInputAction_def pattern_matches_def
        matchesCommandPrefix_def matchesPlainWildcard_def Let_def split: option.splits if_splits)
qed

lemma compound_command_guard_witness:
  "let r = located SrcSession ''s'' Allow (parseRuleString ''bash(/tmp/**)''); input = [(''command'', JStr ''/tmp/a; rm -rf b'')] in
   ruleMatches posix_host r ''bash'' input \<and> matchesPathGlob posix_host ''/tmp/a; rm -rf b'' ''/tmp/**''"
proof -
  let ?r = "located SrcSession ''s'' Allow (parseRuleString ''bash(/tmp/**)'')" and ?input = "[(''command'', JStr ''/tmp/a; rm -rf b'')]"
  have target: "permissionInputTarget posix_host ''bash'' ?input = Some ''/tmp/a; rm -rf b''"
    by (simp add: permissionInputTarget_def js_get_def nullish_else_def)
  have "hasShellCommandSeparator (js_trim ''/tmp/a; rm -rf b'')" "ruleMatches posix_host ?r ''bash'' ?input"
      "rv_matcher (lr_value ?r) = Some (MatchPath ''/tmp/**'' None)"
    by code_simp+
  with compound_command_guard [OF target this] show ?thesis
    by simp
qed

end
