(* ===== verification/Spec2Isabelle.thy ===== *)
theory Spec2Isabelle
  imports QueueRouting QueueEdits FenceProps TurnProps TurnLife TurnDeletion TurnQueue HookProps GuardRepeat TaskOutputProps TaskRecovery McpNameProps PermRuleProps
begin

text \<open>
  A model of the parts of the program that keep durable state or decide what an agent may do: the queue of a Session,
  the admission of Turns, the Plugin Hook protocol, the runaway guard, background tasks, the permission engine,
  the rules a host persists and the public names of MCP tools. Paths below are under \<open>src/packages\<close>.

  \<^bold>\<open>How the parts interact.\<close> A message for a busy Session waits in the queue; when the Session is idle the host claims
  the next item and starts a Turn with it. Turn admission holds one lock per Session. It asks the queue's fence
  whether an item waits before this one, and the queue asks admission whether a Turn took over the item of a claim
  before it acknowledges the claim. A Turn runs under a lease and is settled by it; a Turn may own the Plugin Hook
  Session. While it runs, the guard looks at each step and may inject one reminder, the permission engine decides
  each tool call, and tools may start background tasks, whose end wakes the Session. The tools of MCP servers carry
  names that the registry assigned, and permission rules on a server are matched against those names.

  \<^bold>\<open>Theories and code.\<close>

    \<^item> \<open>Prelude\<close>, \<open>JsonText\<close>: results that carry an exception (\<open>rbind\<close>), JavaScript values and truthiness, JSON text.

    \<^item> Session queue, \<open>local-runtime-v2/src/service/session-system/queue\<close>. \<open>QueueTypes\<close>: items, codec, admission checks,
      routing (\<open>policy.ts\<close>, \<open>codec.ts\<close>, \<open>routing.ts\<close>). \<open>QueueStore\<close>: the tables and the private row operations.
      \<open>QueueRepo\<close>: the operations of \<open>DrizzleQueueRepository\<close> (\<open>repo/drizzle.ts\<close>). \<open>QueueAbs\<close>, \<open>QueueContract\<close>,
      \<open>QueueOps\<close>: the abstract list of items and the contract every operation meets. \<open>QueueSystem\<close>: calls as a
      state machine. \<open>QueueProps\<close>, \<open>QueueEdits\<close>, \<open>QueueRouting\<close>: its properties.

    \<^item> Turn admission, \<open>local-runtime-v2/src/service/turn-system/persistence\<close>. \<open>TurnStore\<close>: the tables and contracts.
      \<open>TurnRepo\<close>: the operations of \<open>turn.repository.ts\<close>, with the recovery of expired locks, of pending settlements
      and after a restart. \<open>QueueFence\<close>, \<open>FenceProps\<close>: the priority fence (\<open>queue/turn-priority-fence.ts\<close>).
      \<open>TurnInv\<close>, \<open>TurnOps\<close>, \<open>TurnAdmit\<close>, \<open>TurnDelete\<close>: the invariant and the contract of each operation.
      \<open>TurnSystem\<close>, \<open>TurnFacts\<close>: calls as a state machine. \<open>TurnProps\<close>, \<open>TurnLife\<close>, \<open>TurnDeletion\<close>, \<open>TurnQueue\<close>: the
      properties, the last of queue and admission together.

    \<^item> Plugin Hook Session, \<open>plugin-hook-session.repository.ts\<close> there: \<open>PluginHook\<close>, \<open>HookProps\<close>.

    \<^item> Runaway guard, \<open>agent-modules/runaway-guard/src\<close>. \<open>GuardFingerprint\<close> (\<open>fingerprint.ts\<close>), \<open>GuardView\<close>
      (\<open>contracts.ts\<close>, \<open>state.ts\<close>, \<open>step-view.ts\<close>), \<open>GuardProject\<close> (\<open>projectStep\<close>), \<open>GuardSignals\<close> (\<open>signals.ts\<close>, the
      reminder), \<open>RunawayGuard\<close> (\<open>guard.ts\<close>, \<open>replay.ts\<close>), \<open>GuardProps\<close>, \<open>GuardRepeat\<close>.

    \<^item> Background tasks, \<open>agent-modules/background-task/src\<close> and \<open>local-runtime/src/background-task\<close>. \<open>TaskStore\<close>: types,
      status machine, in-memory store. \<open>TaskLocal\<close>: the store with rows. \<open>TaskText\<close>, \<open>TaskOutput\<close>: UTF-8 and the two
      output stores. \<open>TaskService\<close>, \<open>TaskLifecycle\<close>: the service, the terminal writer and the startup recovery.
      \<open>TaskContract\<close>: the store interface. \<open>TaskAdvance\<close>, \<open>TaskSystem\<close>: what every operation keeps, and any calls.
      \<open>TaskListing\<close>, \<open>TaskOutputProps\<close>, \<open>TaskProps\<close>, \<open>TaskResults\<close>, \<open>TaskRecovery\<close>: the properties.

    \<^item> Permissions, \<open>agent-modules/permission/src\<close>. \<open>PermTypes\<close> (\<open>types.ts\<close>, \<open>context.ts\<close>), \<open>PermCore\<close>
      (\<open>permission-core.ts\<close>, \<open>mcp-runtime-name.ts\<close>, \<open>ask-policy.ts\<close>), \<open>PermEngine\<close> (\<open>engine.ts\<close>,
      \<open>legacy-permission-adapter.ts\<close>), \<open>PermVerdict\<close>, \<open>PermProps\<close>, \<open>PermEvidence\<close>.

    \<^item> Persisted rules, \<open>local-runtime/src/permissions\<close>. \<open>PermRules\<close> (\<open>rule-model.ts\<close>, \<open>rule-codec.ts\<close>), \<open>PermMatch\<close>
      (\<open>rule-match.ts\<close>, \<open>rules.ts\<close>), \<open>PermRuleProps\<close>.

    \<^item> Names of MCP tools, \<open>agent-modules/mcp/src/runtime\<close>. \<open>McpNames\<close> (\<open>tool-name.ts\<close>, \<open>name-registry.ts\<close>),
      \<open>McpSegments\<close>, \<open>McpAllocate\<close>, \<open>McpRegistry\<close>, \<open>McpOps\<close>, \<open>McpNameProps\<close>.

  \<^bold>\<open>State and operations.\<close> A table is the list of its rows in the order of their ids; a transaction is a function of the
  database that returns \<open>Inl\<close> for a thrown error, after which the caller keeps the old database, or \<open>Inr\<close> of the result
  and the new one. A fresh identity, a reading of the clock, and the order of rows a query without \<open>ORDER BY\<close> returns
  are arguments. Interfaces of other parts (the acceptance lookup, the fence, the store of tasks, the runtimes of
  tasks, a tool checker, \<open>JSON.parse\<close> of a name key, the path module of the host) are functions the operations take. A JSON column or file is the
  value it holds. Records without their optional fields are the records with \<open>None\<close>.

  \<^bold>\<open>What the lemmas show.\<close>

    \<^item> Queue: under conditions on their arguments that the code leaves to its callers (\<open>call_ok\<close>), every sequence of calls
      keeps the tables well formed and never fails on its own rows, and every call but the replacement of a session,
      which publishes nothing, accounts for every item; a claim takes the first item that may go, an acknowledgement
      removes only accepted items, a release restores them. Three behaviours the code does not foresee are stated
      as they are (\<open>QueueEdits\<close>).

    \<^item> Turns: every sequence of calls keeps the invariant; at most one live owner holds a Session; the lease alone
      decides how a Turn ends; a settlement that failed to commit is repaired by a later admission, unless that is
      turned away before; a Session under deletion is closed until the time of its lock runs out; locks of dead
      processes are freed; the end of the Plugin Hook Session is granted once per owning Turn.

    \<^item> Queue and Turns: what the queue hands out passes the fence of admission; recovery acknowledges exactly the
      claims that a Turn took over.

    \<^item> Guard: a replay finds what the live guard found, but for the mark of an injected reminder; a Turn is reminded at most once; a repetition is signalled
      exactly when its unbroken run reaches the bound; a fingerprint within its budget identifies its value.

    \<^item> Tasks: the store with rows refines the one in memory, with two differences that are stated; statuses only advance and each end is announced; a stop
      settles the task; the recovery settles exactly the lost tasks; pages of a log are its text again.

    \<^item> Permissions: both owners implement one declarative verdict; tightening the rules relaxes a decision
      only where the checker of the tool itself relents;
      evidence is evaluated by what it contains and not by its order; a checker failure counts only with a message.

    \<^item> Persisted rules: the strictest matching rule decides; a compound command escapes prefixes and wildcards; what
      a file reads back after an update is stated for both formats: the first infers the matchers again, the second
      becomes unhealthy with blank patterns, and paths without actions lose some of their matches.

    \<^item> Names: over any calls and restarts the names are distinct, short and stable, and a rule on a server covers
      exactly its own tools.

  \<^bold>\<open>Interfaces.\<close> \<open>pause_fence\<close> (\<open>FenceProps\<close>), \<open>acceptance_store\<close> and \<open>claim_acceptance\<close> (\<open>TurnQueue\<close>), \<open>task_store\<close>
  (\<open>TaskContract\<close>, interpreted for both stores) and \<open>policy_owner\<close> (\<open>PermProps\<close>, interpreted for both owners) are
  locales with the model's own definitions as interpretations; properties rest on the facts of these.

  \<^bold>\<open>Bounds and fuel.\<close> Recursion is structural or has a measure, with two exceptions that take fuel: a reader that follows
  the cursors of a listing (\<open>all_pages\<close>, fuel one more than the rows; shown to be enough) and one that reads a log page
  by page (fuel one more than the characters; shown to be enough). The search for a free numbered name has a measure from
  the length of its suffix. Numbers of the program that stand for counts, ids and milliseconds are unbounded \<open>int\<close> or
  \<open>nat\<close>: the program neither wraps nor rounds them below \<open>2 ^ 53\<close>; the limit of a listing, which may be a fraction,
  is its floor with a flag. A patch of a task tells fields that are absent from fields set to \<open>undefined\<close>, except for
  the status, which is absent or a status. A \<open>char\<close> is a UTF-16 code unit below 256, so
  statements on text of other code units are not covered, except for task output, whose text is a list of code
  points. Opaque JavaScript values (functions, dates) are \<open>JOpaque\<close>.

  \<^bold>\<open>Not modelled.\<close> Failures of the database or the file system, logging and metrics have no part in the model. Calls do not
  interleave inside a transaction; they do where \<open>stop\<close> of a task waits for the runtime, which may make any calls
  meanwhile; a \<open>stop\<close> made then for the same task shares the one under way, and its result says so. Of the tasks, the runners, the scheduling of deliveries and the waiting readers are missing; of the
  permissions, the tool checkers (shell parsing, paths), the classifier and the facade around the engine; of MCP, the connections. The terminal interface, browser control, configuration, the agent loop, tools,
  channels, OAuth and the HTTP layers are input and output around these parts and are left out; \<open>PROJECT.json\<close> lists them.
\<close>

end
